(* ===== verification/Prelude.thy ===== *)
theory Prelude
  imports Main "HOL-Library.Word" "HOL-Library.AList" "HOL-Library.Multiset"
    "HOL-Library.List_Lexorder" "HOL-Library.Char_ord" "HOL-Library.Product_Lexorder"
begin

text \<open>
  Shared material of the development: Python exceptions as values of a sum type, dictionaries as
  insertion-ordered association lists, the few string operations the sources use, identifiers,
  timestamps and JSON values, and the generic lemmas on loops, dictionaries and stable sorting
  that the component theories rest on.
\<close>

section \<open>Exceptions as values\<close>

datatype py_error =
    ValueError string
  | RuntimeError string
  | KeyError
  | ResourceObservationError string
  | WorkerProtocolError string
  | PermissionError string
  | TypeError
  | IntegrityError string

text \<open>\<open>IntegrityError\<close> is the exception of a database constraint, with the constraint's name.\<close>

type_synonym 'a res = "py_error + 'a"

text \<open>\<open>rbind\<close> sequences two computations that may raise; \<open>raise_if\<close> is an
  \<^verbatim>\<open>if c: raise e\<close> statement in front of the rest of a body; \<open>rfold\<close> is a
  \<^verbatim>\<open>for\<close> loop whose body may raise.\<close>

definition rbind :: "'a res \<Rightarrow> ('a \<Rightarrow> 'b res) \<Rightarrow> 'b res" where
  "rbind m f = (case m of Inl e \<Rightarrow> Inl e | Inr x \<Rightarrow> f x)"

definition raise_if :: "bool \<Rightarrow> py_error \<Rightarrow> 'a res \<Rightarrow> 'a res" where
  "raise_if c e k = (if c then Inl e else k)"

text \<open>For evaluation the three are cases: the simplifier evaluates what is scrutinised before it enters a
  branch, so that a continuation is evaluated only once its argument is known.\<close>

lemma rbind_eval [code_unfold]: "rbind m f = (case m of Inl e \<Rightarrow> Inl e | Inr x \<Rightarrow> f x)"
  by (simp add: rbind_def)

lemma raise_if_eval [code_unfold]: "raise_if c e k = (if c then Inl e else k)"
  by (simp add: raise_if_def)

lemma Let_eval [code_unfold]: "Let v f = (case (v, ()) of (x, _) \<Rightarrow> f x)"
  by simp

fun rfold :: "('a \<Rightarrow> 's \<Rightarrow> 's res) \<Rightarrow> 'a list \<Rightarrow> 's \<Rightarrow> 's res" where
  "rfold f [] s = Inr s"
| "rfold f (x # xs) s = rbind (f x s) (rfold f xs)"

fun rmap :: "('a \<Rightarrow> 'b res) \<Rightarrow> 'a list \<Rightarrow> 'b list res" where
  "rmap f [] = Inr []"
| "rmap f (x # xs) = rbind (f x) (\<lambda>y. rbind (rmap f xs) (\<lambda>ys. Inr (y # ys)))"

definition succeeds :: "'a res \<Rightarrow> bool" where
  "succeeds m = (case m of Inl _ \<Rightarrow> False | Inr _ \<Rightarrow> True)"

text \<open>A method that may raise returns its result and the object it leaves behind, also when it
  raises: \<open>sbind\<close> sequences two calls, \<open>slift\<close> runs a computation that only reads the object.\<close>

type_synonym ('s, 'a) op = "'s \<Rightarrow> 'a res \<times> 's"

definition sbind :: "('s, 'a) op \<Rightarrow> ('a \<Rightarrow> ('s, 'b) op) \<Rightarrow> ('s, 'b) op" where
  "sbind m f s = (case m s of (Inl e, s') \<Rightarrow> (Inl e, s') | (Inr x, s') \<Rightarrow> f x s')"

definition slift :: "'a res \<Rightarrow> ('s, 'a) op" where
  "slift r s = (r, s)"

section \<open>Dictionaries\<close>

text \<open>A Python dictionary keeps the insertion order of its keys; assigning to a present key keeps
  its position. An association list with \<open>AList.update\<close> behaves the same way.\<close>

type_synonym ('k, 'v) dict = "('k \<times> 'v) list"

abbreviation dget :: "('k, 'v) dict \<Rightarrow> 'k \<Rightarrow> 'v option" where
  "dget \<equiv> map_of"

abbreviation dset :: "'k \<Rightarrow> 'v \<Rightarrow> ('k, 'v) dict \<Rightarrow> ('k, 'v) dict" where
  "dset \<equiv> AList.update"

abbreviation dvalues :: "('k, 'v) dict \<Rightarrow> 'v list" where
  "dvalues d \<equiv> map snd d"

abbreviation dkeys :: "('k, 'v) dict \<Rightarrow> 'k list" where
  "dkeys d \<equiv> map fst d"

definition dlookup :: "('k, 'v) dict \<Rightarrow> 'k \<Rightarrow> 'v res" where
  "dlookup d k = (case dget d k of None \<Rightarrow> Inl KeyError | Some v \<Rightarrow> Inr v)"

definition dval :: "('k, int) dict \<Rightarrow> 'k \<Rightarrow> int" where
  "dval d k = (case dget d k of None \<Rightarrow> 0 | Some v \<Rightarrow> v)"

definition dict_of :: "('v \<Rightarrow> 'k) \<Rightarrow> 'v list \<Rightarrow> ('k, 'v) dict" where
  "dict_of key xs = fold (\<lambda>x. dset (key x) x) xs []"

section \<open>Strings\<close>

definition is_py_space :: "char \<Rightarrow> bool" where
  "is_py_space c = (let n = of_char c :: nat in
     9 \<le> n \<and> n \<le> 13 \<or> 28 \<le> n \<and> n \<le> 32 \<or> n = 133 \<or> n = 160)"

definition py_strip :: "string \<Rightarrow> string" where
  "py_strip s = rev (dropWhile is_py_space (rev (dropWhile is_py_space s)))"

fun py_join :: "string \<Rightarrow> string list \<Rightarrow> string" where
  "py_join sep [] = []"
| "py_join sep [x] = x"
| "py_join sep (x # y # xs) = x @ sep @ py_join sep (y # xs)"

definition digit_char :: "nat \<Rightarrow> char" where
  "digit_char n = ''0123456789abcdef'' ! n"

fun nat_str :: "nat \<Rightarrow> string" where
  "nat_str n = (if n < 10 then [digit_char n] else nat_str (n div 10) @ [digit_char (n mod 10)])"

declare nat_str.simps [simp del]

definition int_str :: "int \<Rightarrow> string" where
  "int_str i = (if i < 0 then ''-'' @ nat_str (nat (- i)) else nat_str (nat i))"

text \<open>An equation for evaluation that stays with binary integers.\<close>

function dec_str :: "int \<Rightarrow> string" where
  "dec_str i = (if i < 10 then [digit_char (nat i)] else dec_str (i div 10) @ [digit_char (nat (i mod 10))])"
  by auto
termination by (relation "measure nat") auto

declare dec_str.simps [simp del]

lemma dec_str_nat: "0 \<le> i \<Longrightarrow> dec_str i = nat_str (nat i)"
proof (induction i rule: dec_str.induct)
  case (1 i)
  then show ?case
    by (subst dec_str.simps, subst nat_str.simps) (auto simp: nat_div_distrib nat_mod_distrib)
qed

lemma int_str_code [code]: "int_str i = (if i < 0 then ''-'' @ dec_str (- i) else dec_str i)"
  by (simp add: int_str_def dec_str_nat)

section \<open>Identifiers, timestamps, JSON values\<close>

text \<open>A \<^verbatim>\<open>UUID\<close> is a 128-bit number. The sources sort by \<^verbatim>\<open>uuid.hex\<close>, 32 lower-case
  hexadecimal digits; \<open>uuid_hex_less_iff\<close> below shows that this is the numeric order, which is what
  the sort keys of the model use.\<close>

type_synonym uuid = "128 word"

fun hex_digits :: "nat \<Rightarrow> int \<Rightarrow> string" where
  "hex_digits 0 n = []"
| "hex_digits (Suc k) n = hex_digits k (n div 16) @ [digit_char (nat (n mod 16))]"

definition uuid_hex :: "uuid \<Rightarrow> string" where
  "uuid_hex u = hex_digits 32 (uint u)"

definition uuid_str :: "uuid \<Rightarrow> string" where
  "uuid_str u = (let h = uuid_hex u in
     take 8 h @ ''-'' @ take 4 (drop 8 h) @ ''-'' @ take 4 (drop 12 h) @ ''-'' @
     take 4 (drop 16 h) @ ''-'' @ drop 20 h)"

text \<open>A \<^verbatim>\<open>datetime\<close> is a wall-clock reading in microseconds since 0001-01-01 and, when it is
  timezone-aware, the offset of its timezone from UTC.\<close>

datatype datetime = Naive int | Aware int int

fun dt_instant :: "datetime \<Rightarrow> int" where
  "dt_instant (Naive w) = w"
| "dt_instant (Aware w off) = w - off"

definition datetime_max :: int where
  "datetime_max = 315537897599999999"

datatype json = JNull | JBool bool | JInt int | JStr string | JList "json list"
  | JObj "(string \<times> json) list"

type_synonym json_object = "(string \<times> json) list"

section \<open>Lemmas on results and loops\<close>

lemma rbind_Inl [simp]: "rbind (Inl e) f = Inl e"
  and rbind_Inr [simp]: "rbind (Inr x) f = f x"
  by (simp_all add: rbind_def)

lemma rbind_eq_Inr [simp]: "rbind m f = Inr y \<longleftrightarrow> (\<exists>x. m = Inr x \<and> f x = Inr y)"
  by (cases m) auto

lemma rbind_eq_Inl: "rbind m f = Inl e \<longleftrightarrow> m = Inl e \<or> (\<exists>x. m = Inr x \<and> f x = Inl e)"
  by (cases m) auto

lemma rbind_cong [fundef_cong]:
  "m = m' \<Longrightarrow> (\<And>x. m' = Inr x \<Longrightarrow> f x = g x) \<Longrightarrow> rbind m f = rbind m' g"
  by (cases m') auto

lemma raise_if_eq_Inr [simp]: "raise_if c e k = Inr y \<longleftrightarrow> \<not> c \<and> k = Inr y"
  by (simp add: raise_if_def)

lemma raise_if_eq_Inl: "raise_if c e k = Inl e' \<longleftrightarrow> c \<and> e = e' \<or> \<not> c \<and> k = Inl e'"
  by (auto simp: raise_if_def)

lemma raise_if_False [simp]: "raise_if False e k = k"
  and raise_if_True [simp]: "raise_if True e k = Inl e"
  by (simp_all add: raise_if_def)

lemma raise_if_cong [cong]: "c = c' \<Longrightarrow> (\<not> c' \<Longrightarrow> k = k') \<Longrightarrow> raise_if c e k = raise_if c' e k'"
  by (simp add: raise_if_def)

lemma succeeds_simps [simp]: "succeeds (Inl e) = False" "succeeds (Inr x) = True"
  by (simp_all add: succeeds_def)

lemma succeeds_iff: "succeeds m \<longleftrightarrow> (\<exists>x. m = Inr x)"
  by (cases m) auto

text \<open>An object invariant that two calls keep is kept by their sequence. The lemmas that an operation
  keeps the invariant of its object are collected in \<open>invariant_keeps\<close>.\<close>

named_theorems invariant_keeps \<open>operations keep the invariant of their object\<close>

definition keeps :: "('s \<Rightarrow> bool) \<Rightarrow> ('s, 'a) op \<Rightarrow> bool" where
  "keeps P m \<longleftrightarrow> (\<forall>s. P s \<longrightarrow> P (snd (m s)))"

lemma keepsI: "(\<And>s. P s \<Longrightarrow> P (snd (m s))) \<Longrightarrow> keeps P m"
  by (simp add: keeps_def)

lemma keepsD: "keeps P m \<Longrightarrow> P s \<Longrightarrow> P (snd (m s))"
  by (simp add: keeps_def)

lemma keeps_slift [intro]: "keeps P (slift r)"
  by (simp add: keeps_def slift_def)

lemma keeps_sbind [intro]:
  "keeps P m \<Longrightarrow> (\<And>x. keeps P (f x)) \<Longrightarrow> keeps P (sbind m f)"
  by (auto simp: keeps_def sbind_def split: prod.split sum.split)

lemma sbind_Inr [simp]: "m s = (Inr x, s') \<Longrightarrow> sbind m f s = f x s'"
  and sbind_Inl [simp]: "m s = (Inl e, s') \<Longrightarrow> sbind m f s = (Inl e, s')"
  by (simp_all add: sbind_def)

lemma sbind_eq_Inr: "sbind m f s = (Inr y, s') \<longleftrightarrow> (\<exists>x t. m s = (Inr x, t) \<and> f x t = (Inr y, s'))"
  by (auto simp: sbind_def split: prod.splits sum.splits)

lemma slift_eq [simp]: "slift r s = (r, s)"
  by (simp add: slift_def)

text \<open>The loop rule: what every successful body run keeps, the whole loop keeps.\<close>

locale result_loop =
  fixes step :: "'a \<Rightarrow> 's \<Rightarrow> 's res"
    and inv :: "'s \<Rightarrow> bool"
    and dom :: "'a \<Rightarrow> bool"
  assumes step_inv: "dom x \<Longrightarrow> inv s \<Longrightarrow> step x s = Inr s' \<Longrightarrow> inv s'"
begin

lemma loop_inv: "inv s \<Longrightarrow> rfold step xs s = Inr s' \<Longrightarrow> \<forall>x\<in>set xs. dom x \<Longrightarrow> inv s'"
  by (induction xs arbitrary: s) (auto intro: step_inv)

end

lemma rfold_append: "rfold f (xs @ ys) s = rbind (rfold f xs s) (rfold f ys)"
proof (induction xs arbitrary: s)
  case (Cons x xs)
  then show ?case by (cases "f x s") auto
qed simp

lemma rfold_total:
  assumes "\<And>x s. x \<in> set xs \<Longrightarrow> P s \<Longrightarrow> \<exists>s'. f x s = Inr s' \<and> P s'" and "P s"
  shows "\<exists>s'. rfold f xs s = Inr s' \<and> P s'"
  using assms
proof (induction xs arbitrary: s)
  case (Cons x xs)
  from Cons.prems(1) [of x s] Cons.prems(2) obtain s1 where "f x s = Inr s1" "P s1" by auto
  moreover have "\<exists>s'. rfold f xs s1 = Inr s' \<and> P s'"
    by (rule Cons.IH) (use Cons.prems(1) \<open>P s1\<close> in auto)
  ultimately show ?case by auto
qed simp

lemma rmap_eq_Inr: "rmap f xs = Inr ys \<longleftrightarrow> list_all2 (\<lambda>x y. f x = Inr y) xs ys"
  by (induction xs arbitrary: ys) (auto simp: list_all2_Cons1)

section \<open>Lemmas on dictionaries\<close>

text \<open>The interface of a dictionary: what a lookup returns after an assignment, and that
  assignment keeps the keys distinct and in place.\<close>

locale dictionary =
  fixes lookup :: "'m \<Rightarrow> 'k \<Rightarrow> 'v option"
    and assign :: "'k \<Rightarrow> 'v \<Rightarrow> 'm \<Rightarrow> 'm"
    and keys :: "'m \<Rightarrow> 'k list"
    and nil :: 'm
  assumes lookup_nil: "lookup nil k = None"
    and lookup_assign: "lookup (assign k v d) k' = (if k' = k then Some v else lookup d k')"
    and keys_nil: "keys nil = []"
    and keys_assign: "keys (assign k v d) = (if k \<in> set (keys d) then keys d else keys d @ [k])"
    and lookup_keys: "lookup d k = None \<longleftrightarrow> k \<notin> set (keys d)"
begin

lemma distinct_keys_assign: "distinct (keys d) \<Longrightarrow> distinct (keys (assign k v d))"
  by (simp add: keys_assign)

lemma lookup_fold_assign:
  "lookup (fold (\<lambda>x. assign (f x) x) xs d) k =
     (case find (\<lambda>x. f x = k) (rev xs) of Some x \<Rightarrow> Some x | None \<Rightarrow> lookup d k)"
proof (induction xs arbitrary: d)
  case (Cons x xs)
  have "find (\<lambda>x. f x = k) (ys @ [x]) =
      (case find (\<lambda>x. f x = k) ys of Some y \<Rightarrow> Some y | None \<Rightarrow> if f x = k then Some x else None)"
    for ys by (induction ys) auto
  with Cons show ?case by (auto simp: lookup_assign split: option.split)
qed simp

lemma keys_fold_assign:
  "distinct (map f xs) \<Longrightarrow> set (map f xs) \<inter> set (keys d) = {} \<Longrightarrow>
     keys (fold (\<lambda>x. assign (f x) x) xs d) = keys d @ map f xs"
  by (induction xs arbitrary: d) (auto simp: keys_assign)

end

lemma alist_keys_update: "dkeys (dset k v d) = (if k \<in> set (dkeys d) then dkeys d else dkeys d @ [k])"
  by (induction d) auto

interpretation pydict: dictionary dget dset dkeys "[]"
  by unfold_locales (auto simp: update_conv' alist_keys_update map_of_eq_None_iff)

lemma dget_dset [simp]: "dget (dset k v d) k' = (if k' = k then Some v else dget d k')"
  by (rule pydict.lookup_assign)

lemma distinct_dset [simp]: "distinct (dkeys d) \<Longrightarrow> distinct (dkeys (dset k v d))"
  by (rule pydict.distinct_keys_assign)

lemma dlookup_eq_Inr [simp]: "dlookup d k = Inr v \<longleftrightarrow> dget d k = Some v"
  by (simp add: dlookup_def split: option.split)

lemma dlookup_Some: "dget d k = Some v \<Longrightarrow> dlookup d k = Inr v"
  by simp

lemma dval_dset [simp]: "dval (dset k v d) k' = (if k' = k then v else dval d k')"
  by (simp add: dval_def)

lemma dget_Some_in: "dget d k = Some v \<Longrightarrow> v \<in> set (dvalues d)"
  by (force dest: map_of_SomeD)

lemma set_dset_subset: "set (dset k v d) \<subseteq> insert (k, v) (set d)"
  by (induction d) auto

lemma dset_fresh: "k \<notin> set (dkeys d) \<Longrightarrow> dset k v d = d @ [(k, v)]"
  by (induction d) auto

lemma dict_of_distinct: "distinct (map key xs) \<Longrightarrow> dict_of key xs = map (\<lambda>x. (key x, x)) xs"
proof -
  have "distinct (map key xs) \<Longrightarrow> set (map key xs) \<inter> set (dkeys d) = {} \<Longrightarrow>
      fold (\<lambda>x. dset (key x) x) xs d = d @ map (\<lambda>x. (key x, x)) xs" for d
    by (induction xs arbitrary: d) (auto simp: dset_fresh)
  from this [of "[]"] show "distinct (map key xs) \<Longrightarrow> ?thesis" by (simp add: dict_of_def)
qed

lemma dvalues_dict_of [simp]: "distinct (map key xs) \<Longrightarrow> dvalues (dict_of key xs) = xs"
  by (simp add: dict_of_distinct o_def)

lemma dget_dict_of: "dget (dict_of key xs) k = find (\<lambda>x. key x = k) (rev xs)"
  unfolding dict_of_def by (subst pydict.lookup_fold_assign) (simp split: option.split)

section \<open>Hexadecimal order\<close>

text \<open>Fixed-width hexadecimal texts compare like the numbers they denote, so sorting by
  \<^verbatim>\<open>uuid.hex\<close> is sorting by the identifier.\<close>

lemma digit_char_less: "a < 16 \<Longrightarrow> b < 16 \<Longrightarrow> digit_char a < digit_char b \<longleftrightarrow> a < b"
proof -
  have "\<forall>a\<in>set [0..<16]. \<forall>b\<in>set [0..<16]. digit_char a < digit_char b \<longleftrightarrow> a < b" by code_simp
  then show "a < 16 \<Longrightarrow> b < 16 \<Longrightarrow> digit_char a < digit_char b \<longleftrightarrow> a < b" by simp
qed

lemma length_hex_digits [simp]: "length (hex_digits k n) = k"
  by (induction k arbitrary: n) auto

lemma snoc_less:
  fixes xs ys :: "'a::linorder list"
  shows "length xs = length ys \<Longrightarrow> xs @ [a] < ys @ [b] \<longleftrightarrow> xs < ys \<or> xs = ys \<and> a < b"
  by (induction xs ys rule: list_induct2) auto

lemma hex_digits_less:
  assumes "0 \<le> m" and "m < 16 ^ k" and "0 \<le> n" and "n < 16 ^ k"
  shows "(hex_digits k m < hex_digits k n \<longleftrightarrow> m < n) \<and> (hex_digits k m = hex_digits k n \<longleftrightarrow> m = n)"
  using assms
proof (induction k arbitrary: m n)
  case (Suc k)
  have IH: "(hex_digits k (m div 16) < hex_digits k (n div 16) \<longleftrightarrow> m div 16 < n div 16) \<and>
      (hex_digits k (m div 16) = hex_digits k (n div 16) \<longleftrightarrow> m div 16 = n div 16)"
    by (rule Suc.IH) (use Suc.prems in \<open>auto simp: div_less_iff_less_mult\<close>)
  have d: "digit_char (nat (m mod 16)) < digit_char (nat (n mod 16)) \<longleftrightarrow> m mod 16 < n mod 16"
    "digit_char (nat (n mod 16)) < digit_char (nat (m mod 16)) \<longleftrightarrow> n mod 16 < m mod 16"
    using pos_mod_sign [of 16 m] pos_mod_sign [of 16 n] by (auto simp: digit_char_less)
  then have e: "digit_char (nat (m mod 16)) = digit_char (nat (n mod 16)) \<longleftrightarrow> m mod 16 = n mod 16"
    by (metis less_irrefl neqE)
  have split: "m = 16 * (m div 16) + m mod 16" "n = 16 * (n div 16) + n mod 16" by simp_all
  have "m < n \<longleftrightarrow> m div 16 < n div 16 \<or> m div 16 = n div 16 \<and> m mod 16 < n mod 16"
    using split pos_mod_bound [of 16 m] pos_mod_bound [of 16 n] pos_mod_sign [of 16 m] pos_mod_sign [of 16 n]
    by (smt (verit))
  moreover have "m = n \<longleftrightarrow> m div 16 = n div 16 \<and> m mod 16 = n mod 16" using split by metis
  ultimately show ?case using IH d e by (simp add: snoc_less)
qed simp

lemma uuid_hex_less_iff: "uuid_hex u < uuid_hex v \<longleftrightarrow> u < v"
  using hex_digits_less [of "uint u" 32 "uint v"] uint_lt2p [of u] uint_lt2p [of v]
  by (simp add: uuid_hex_def word_less_def)

section \<open>Canonical orders\<close>

text \<open>A sort key that identifies the elements it is used on gives an order that does not depend
  on the order the elements were inserted in.\<close>

locale canonical_order =
  fixes key :: "'a \<Rightarrow> 'k::linorder"
    and ident :: "'a \<Rightarrow> 'i"
  assumes key_ident: "key x = key y \<Longrightarrow> ident x = ident y"
begin

lemma inj_on_key: "distinct (map ident xs) \<Longrightarrow> inj_on key (set xs)"
  by (auto simp: distinct_map inj_on_def dest: key_ident)

lemma sort_canonical:
  assumes "distinct (map ident xs)" and "mset xs = mset ys"
  shows "sort_key key xs = sort_key key ys"
proof (rule sort_key_inj_key_eq)
  show "mset xs = mset (sort_key key ys)" using assms(2) by simp
  show "inj_on key (set xs)" by (rule inj_on_key [OF assms(1)])
qed simp

lemma sort_strict:
  assumes "distinct (map ident xs)"
  shows "sorted_wrt (\<lambda>x y. key x < key y) (sort_key key xs)"
proof -
  have d: "distinct (map key xs)"
    using assms inj_on_key [OF assms] by (auto simp: distinct_map)
  have "distinct (map key (sort_key key xs))"
    using d by (simp add: distinct_map)
  moreover have "sorted (map key (sort_key key xs))" by (rule sorted_sort_key)
  ultimately have "sorted_wrt (<) (map key (sort_key key xs))"
    by (simp add: strict_sorted_iff)
  then show ?thesis by (simp add: sorted_wrt_map)
qed

end

end
