(* ===== verification/Resources.thy ===== *)
theory Resources
  imports Prelude
begin

text \<open>
  Execution-resource primitives (\<^verbatim>\<open>attention_resources.py\<close>): resource classes and their
  declaration order, resource pools with system headroom, requirements, process estimates,
  reservations, admission plans, and the sort keys that make every listing canonical.
  The constructors \<open>mk_\<dots>\<close> are the validated pydantic constructors: a field constraint or a
  validator that fails is a \<open>ValueError\<close> (pydantic's \<^verbatim>\<open>ValidationError\<close> is one).
  \<^verbatim>\<open>uuid5\<close> is an argument of every definition that derives an identifier: nothing below
  depends on which function it is.
\<close>

section \<open>Data\<close>

datatype execution_resource_class =
    CPU_GENERAL | MEMORY_RAM | LLM_INFERENCE | DATABASE | FILESYSTEM_IO | NETWORK_IO

definition all_resource_classes :: "execution_resource_class list" where
  "all_resource_classes =
     [CPU_GENERAL, MEMORY_RAM, LLM_INFERENCE, DATABASE, FILESYSTEM_IO, NETWORK_IO]"

fun execution_resource_class_sort_key :: "execution_resource_class \<Rightarrow> nat" where
  "execution_resource_class_sort_key CPU_GENERAL = 0"
| "execution_resource_class_sort_key MEMORY_RAM = 1"
| "execution_resource_class_sort_key LLM_INFERENCE = 2"
| "execution_resource_class_sort_key DATABASE = 3"
| "execution_resource_class_sort_key FILESYSTEM_IO = 4"
| "execution_resource_class_sort_key NETWORK_IO = 5"

definition RESOURCE_ADMISSION_POLICY_VERSION :: string where
  "RESOURCE_ADMISSION_POLICY_VERSION = ''v0.7-c-greedy-v1''"

record execution_resource =
  er_resource_id :: string
  er_resource_class :: execution_resource_class
  er_capacity :: int
  er_system_headroom :: int
  er_enabled :: bool
  er_metadata :: json_object

record resource_requirement =
  rq_resource_class :: execution_resource_class
  rq_units :: int

datatype resource_estimate_source = DECLARED | PROFILED | HISTORICAL_PEAK | CONSERVATIVE_DEFAULT

record process_resource_estimate =
  pe_cpu_units :: int
  pe_memory_mib :: int
  pe_llm_slots :: int
  pe_source :: resource_estimate_source
  pe_basis :: string

record resource_reservation =
  rr_reservation_id :: uuid
  rr_task_id :: uuid
  rr_resource_id :: string
  rr_resource_class :: execution_resource_class
  rr_units :: int

record resource_admission_plan =
  rap_policy_version :: string
  rap_admitted_task_ids :: "uuid list"
  rap_unadmitted_task_ids :: "uuid list"
  rap_reservations :: "resource_reservation list"

section \<open>Operations\<close>

definition normalize_resource_id :: "string \<Rightarrow> string res" where
  "normalize_resource_id value =
     raise_if (py_strip value = []) (ValueError ''resource_id must not be empty'')
       (Inr (py_strip value))"

definition mk_ExecutionResource ::
  "string \<Rightarrow> execution_resource_class \<Rightarrow> int \<Rightarrow> int \<Rightarrow> bool \<Rightarrow> json_object \<Rightarrow> execution_resource res"
where
  "mk_ExecutionResource resource_id cls capacity system_headroom enabled metadata =
     raise_if (resource_id = []) (ValueError ''resource_id: min_length'')
    (rbind (normalize_resource_id resource_id) (\<lambda>rid.
     raise_if (capacity < 1) (ValueError ''capacity: ge 1'')
    (raise_if (system_headroom < 0) (ValueError ''system_headroom: ge 0'')
    (raise_if (system_headroom > capacity)
       (ValueError ''system_headroom must not exceed capacity'')
    (Inr \<lparr>er_resource_id = rid, er_resource_class = cls, er_capacity = capacity,
          er_system_headroom = system_headroom, er_enabled = enabled,
          er_metadata = metadata\<rparr>)))))"

definition admissible_capacity :: "execution_resource \<Rightarrow> int" where
  "admissible_capacity r =
     (if \<not> er_enabled r then 0 else er_capacity r - er_system_headroom r)"

definition mk_ResourceRequirement :: "execution_resource_class \<Rightarrow> int \<Rightarrow> resource_requirement res"
where
  "mk_ResourceRequirement cls units =
     raise_if (units < 1) (ValueError ''units: ge 1'')
       (Inr \<lparr>rq_resource_class = cls, rq_units = units\<rparr>)"

definition resource_requirement_sort_key :: "resource_requirement \<Rightarrow> nat" where
  "resource_requirement_sort_key q = execution_resource_class_sort_key (rq_resource_class q)"

definition mk_ProcessResourceEstimate ::
  "int \<Rightarrow> int \<Rightarrow> int \<Rightarrow> resource_estimate_source \<Rightarrow> string \<Rightarrow> process_resource_estimate res"
where
  "mk_ProcessResourceEstimate cpu_units memory_mib llm_slots source basis =
     raise_if (cpu_units < 1) (ValueError ''cpu_units: ge 1'')
    (raise_if (memory_mib < 1) (ValueError ''memory_mib: ge 1'')
    (raise_if (llm_slots < 0 \<or> llm_slots > 1) (ValueError ''llm_slots: ge 0, le 1'')
    (raise_if (py_strip basis = []) (ValueError ''basis must not be empty'')
    (Inr \<lparr>pe_cpu_units = cpu_units, pe_memory_mib = memory_mib, pe_llm_slots = llm_slots,
          pe_source = source, pe_basis = py_strip basis\<rparr>))))"

definition estimate_resource_requirements ::
  "process_resource_estimate \<Rightarrow> resource_requirement list res" where
  "estimate_resource_requirements e =
     rbind (mk_ResourceRequirement CPU_GENERAL (pe_cpu_units e)) (\<lambda>cpu.
     rbind (mk_ResourceRequirement MEMORY_RAM (pe_memory_mib e)) (\<lambda>mem.
     rbind (if pe_llm_slots e \<noteq> 0
            then rbind (mk_ResourceRequirement LLM_INFERENCE (pe_llm_slots e)) (\<lambda>q. Inr [q])
            else Inr []) (\<lambda>llm.
     Inr (sort_key resource_requirement_sort_key ([cpu, mem] @ llm)))))"

definition mk_ResourceReservation ::
  "uuid \<Rightarrow> uuid \<Rightarrow> string \<Rightarrow> execution_resource_class \<Rightarrow> int \<Rightarrow> resource_reservation res" where
  "mk_ResourceReservation reservation_id task_id resource_id cls units =
     raise_if (resource_id = []) (ValueError ''resource_id: min_length'')
    (rbind (normalize_resource_id resource_id) (\<lambda>rid.
     raise_if (units < 1) (ValueError ''units: ge 1'')
    (Inr \<lparr>rr_reservation_id = reservation_id, rr_task_id = task_id, rr_resource_id = rid,
          rr_resource_class = cls, rr_units = units\<rparr>)))"

definition mk_ResourceAdmissionPlan ::
  "string \<Rightarrow> uuid list \<Rightarrow> uuid list \<Rightarrow> resource_reservation list \<Rightarrow> resource_admission_plan res"
where
  "mk_ResourceAdmissionPlan version admitted unadmitted reservations =
     raise_if (version = []) (ValueError ''policy_version: min_length'')
    (raise_if (\<not> distinct admitted)
       (ValueError ''admitted_task_ids must not contain duplicates'')
    (raise_if (\<not> distinct unadmitted)
       (ValueError ''unadmitted_task_ids must not contain duplicates'')
    (raise_if (set admitted \<inter> set unadmitted \<noteq> {})
       (ValueError ''admitted and unadmitted task ids must be disjoint'')
    (raise_if (\<not> distinct (map rr_reservation_id reservations))
       (ValueError ''reservations must not contain duplicate ids'')
    (raise_if (\<not> distinct (map (\<lambda>r. (rr_task_id r, rr_resource_id r)) reservations))
       (ValueError ''a task may reserve a resource pool only once'')
    (raise_if (\<not> (\<forall>r\<in>set reservations. rr_task_id r \<in> set admitted))
       (ValueError ''every reservation must belong to an admitted task'')
    (Inr \<lparr>rap_policy_version = version, rap_admitted_task_ids = admitted,
          rap_unadmitted_task_ids = unadmitted, rap_reservations = reservations\<rparr>)))))))"

definition execution_resource_sort_key :: "execution_resource \<Rightarrow> nat \<times> string" where
  "execution_resource_sort_key r =
     (execution_resource_class_sort_key (er_resource_class r), er_resource_id r)"

definition deterministic_reservation_id ::
  "(uuid \<Rightarrow> string \<Rightarrow> uuid) \<Rightarrow> uuid \<Rightarrow> string \<Rightarrow> uuid res" where
  "deterministic_reservation_id uuid5 task_id resource_id =
     raise_if (py_strip resource_id = []) (ValueError ''resource_id must not be empty'')
       (Inr (uuid5 task_id (''prometheist-resource-reservation:'' @ py_strip resource_id)))"

definition resource_reservation_sort_key ::
  "resource_reservation \<Rightarrow> nat \<times> string \<times> uuid \<times> uuid" where
  "resource_reservation_sort_key r =
     (execution_resource_class_sort_key (rr_resource_class r), rr_resource_id r, rr_task_id r,
      rr_reservation_id r)"

section \<open>The order of resource classes\<close>

lemma class_sort_key_inject [simp]:
  "execution_resource_class_sort_key c = execution_resource_class_sort_key d \<longleftrightarrow> c = d"
  by (cases c; cases d) simp_all

instantiation execution_resource_class :: linorder
begin

definition less_eq_execution_resource_class ::
  "execution_resource_class \<Rightarrow> execution_resource_class \<Rightarrow> bool" where
  "c \<le> d \<longleftrightarrow> execution_resource_class_sort_key c \<le> execution_resource_class_sort_key d"

definition less_execution_resource_class ::
  "execution_resource_class \<Rightarrow> execution_resource_class \<Rightarrow> bool" where
  "c < d \<longleftrightarrow> execution_resource_class_sort_key c < execution_resource_class_sort_key d"

instance
  by standard
    (auto simp: less_eq_execution_resource_class_def less_execution_resource_class_def)

end

lemma set_all_resource_classes: "set all_resource_classes = UNIV"
proof -
  have "c \<in> set all_resource_classes" for c
    by (cases c) (simp_all add: all_resource_classes_def)
  then show ?thesis by blast
qed

interpretation resource_order: canonical_order execution_resource_sort_key er_resource_id
  by unfold_locales (simp add: execution_resource_sort_key_def)

interpretation reservation_order: canonical_order resource_reservation_sort_key rr_reservation_id
  by unfold_locales (simp add: resource_reservation_sort_key_def)

section \<open>Well-formed resources and stripped names\<close>

definition wf_resource :: "execution_resource \<Rightarrow> bool" where
  "wf_resource r \<longleftrightarrow> py_strip (er_resource_id r) = er_resource_id r \<and> er_resource_id r \<noteq> [] \<and>
     1 \<le> er_capacity r \<and> 0 \<le> er_system_headroom r \<and> er_system_headroom r \<le> er_capacity r"

lemma dropWhile_rev_dropWhile:
  "dropWhile P (rev (dropWhile P (rev (dropWhile P xs)))) = rev (dropWhile P (rev (dropWhile P xs)))"
proof -
  let ?ys = "rev (dropWhile P (rev (dropWhile P xs)))"
  have "\<exists>zs. dropWhile P xs = ?ys @ zs"
    by (metis append_eq_conv_conj rev_append rev_rev_ident takeWhile_dropWhile_id)
  then obtain zs where zs: "dropWhile P xs = ?ys @ zs" ..
  show ?thesis
  proof (cases ?ys)
    case (Cons y ys)
    with zs have "\<not> P y" by (metis append_Cons dropWhile_eq_Cons_conv)
    with Cons show ?thesis by simp
  next
    case Nil
    then show ?thesis by (simp only: dropWhile.simps)
  qed
qed

lemma py_strip_idem [simp]: "py_strip (py_strip s) = py_strip s"
  by (simp add: py_strip_def dropWhile_rev_dropWhile dropWhile_idem)

lemma mk_ExecutionResource_wf:
  "mk_ExecutionResource rid cls cap head en md = Inr r \<Longrightarrow> wf_resource r"
  by (auto simp: mk_ExecutionResource_def normalize_resource_id_def wf_resource_def)

lemma admissible_capacity_nonneg: "wf_resource r \<Longrightarrow> 0 \<le> admissible_capacity r"
  by (simp add: wf_resource_def admissible_capacity_def)

lemma admissible_capacity_le: "wf_resource r \<Longrightarrow> admissible_capacity r \<le> er_capacity r"
  by (simp add: wf_resource_def admissible_capacity_def)

lemma mk_ResourceReservation_ok:
  "py_strip rid = rid \<Longrightarrow> rid \<noteq> [] \<Longrightarrow> 1 \<le> n \<Longrightarrow>
     mk_ResourceReservation i t rid c n =
       Inr \<lparr>rr_reservation_id = i, rr_task_id = t, rr_resource_id = rid, rr_resource_class = c,
            rr_units = n\<rparr>"
  by (simp add: mk_ResourceReservation_def normalize_resource_id_def)

lemma estimate_resource_requirements_ok:
  assumes "1 \<le> pe_cpu_units e" "1 \<le> pe_memory_mib e" "0 \<le> pe_llm_slots e"
  shows "estimate_resource_requirements e = Inr
     ([\<lparr>rq_resource_class = CPU_GENERAL, rq_units = pe_cpu_units e\<rparr>,
       \<lparr>rq_resource_class = MEMORY_RAM, rq_units = pe_memory_mib e\<rparr>] @
      (if pe_llm_slots e = 0 then []
       else [\<lparr>rq_resource_class = LLM_INFERENCE, rq_units = pe_llm_slots e\<rparr>]))"
  using assms
  by (simp add: estimate_resource_requirements_def mk_ResourceRequirement_def
      resource_requirement_sort_key_def)

end
