(* ===== verification/Preemption.thy ===== *)
theory Preemption
  imports Resources
begin

text \<open>
  Contention-preemption primitives (\<^verbatim>\<open>attention_preemption.py\<close>): checkpoint-gated replacement
  intents, append-only preemption events, deterministic identifiers, and the dynamic program that
  selects a victim set. The theorems show that the program returns the smallest set of candidates
  that covers every deficit, the first one in candidate order among sets of that size, and that it
  gives up only when all the candidates together do not suffice.
\<close>

section \<open>Data\<close>

definition PREEMPTION_POLICY_VERSION :: string where
  "PREEMPTION_POLICY_VERSION = ''v0.7-e-contention-v1''"

definition PREEMPTION_NAMESPACE :: uuid where
  "PREEMPTION_NAMESPACE = 0xc3c215e5d96042c78b07e6b8607575bc"

datatype preemption_event_type = REQUESTED | CHECKPOINT_ACKNOWLEDGED | EXECUTED | CANCELLED

fun preemption_event_type_value :: "preemption_event_type \<Rightarrow> string" where
  "preemption_event_type_value REQUESTED = ''REQUESTED''"
| "preemption_event_type_value CHECKPOINT_ACKNOWLEDGED = ''CHECKPOINT_ACKNOWLEDGED''"
| "preemption_event_type_value EXECUTED = ''EXECUTED''"
| "preemption_event_type_value CANCELLED = ''CANCELLED''"

record pending_preemption =
  pp_preemption_id :: uuid
  pp_target_task_id :: uuid
  pp_target_task_revision :: int
  pp_victim_task_ids :: "uuid list"
  pp_victim_assignment_ids :: "uuid list"
  pp_checkpoint_victim_task_ids :: "uuid list"
  pp_checkpointed_victim_task_ids :: "uuid list"
  pp_requested_epoch_sequence :: int

record preemption_event =
  pv_event_id :: uuid
  pv_preemption_id :: uuid
  pv_event_type :: preemption_event_type
  pv_scheduler_cycle :: int
  pv_epoch_sequence :: int
  pv_target_task_id :: uuid
  pv_victim_task_ids :: "uuid list"
  pv_victim_assignment_ids :: "uuid list"
  pv_checkpoint_task_id :: "uuid option"
  pv_reason :: string

record preemption_candidate =
  pc_task_id :: uuid
  pc_assignment_id :: uuid
  pc_base_priority :: int
  pc_checkpoint_required :: bool
  pc_current_order :: int
  pc_released_units :: "(execution_resource_class, int) dict"

section \<open>Intents and events\<close>

definition validate_intent :: "pending_preemption \<Rightarrow> pending_preemption res" where
  "validate_intent p =
     raise_if (pp_target_task_revision p < 0) (ValueError ''target_task_revision: ge 0'')
    (raise_if (pp_requested_epoch_sequence p < 1) (ValueError ''requested_epoch_sequence: ge 1'')
    (raise_if (pp_victim_task_ids p = [])
       (ValueError ''A pending preemption must identify at least one victim'')
    (raise_if (\<not> distinct (pp_victim_task_ids p))
       (ValueError ''victim_task_ids must not contain duplicates'')
    (raise_if (\<not> distinct (pp_victim_assignment_ids p))
       (ValueError ''victim_assignment_ids must not contain duplicates'')
    (raise_if (length (pp_victim_assignment_ids p) \<noteq> length (pp_victim_task_ids p))
       (ValueError ''Every victim task must have one victim assignment id'')
    (raise_if (pp_target_task_id p \<in> set (pp_victim_task_ids p))
       (ValueError ''A preemption target cannot also be its victim'')
    (raise_if (pp_checkpoint_victim_task_ids p = [])
       (ValueError ''Pending preemption requires a checkpoint-only victim'')
    (raise_if (\<not> distinct (pp_checkpoint_victim_task_ids p))
       (ValueError ''checkpoint_victim_task_ids must not contain duplicates'')
    (raise_if (\<not> set (pp_checkpoint_victim_task_ids p) \<subseteq> set (pp_victim_task_ids p))
       (ValueError ''Checkpoint victims must be selected victims'')
    (raise_if (\<not> distinct (pp_checkpointed_victim_task_ids p))
       (ValueError ''checkpointed_victim_task_ids must not contain duplicates'')
    (raise_if (\<not> set (pp_checkpointed_victim_task_ids p) \<subseteq> set (pp_checkpoint_victim_task_ids p))
       (ValueError ''Only checkpoint victims may acknowledge a checkpoint'')
    (Inr p))))))))))))"

definition ready_to_execute :: "pending_preemption \<Rightarrow> bool" where
  "ready_to_execute p \<longleftrightarrow>
     set (pp_checkpointed_victim_task_ids p) = set (pp_checkpoint_victim_task_ids p)"

definition validate_event :: "preemption_event \<Rightarrow> preemption_event res" where
  "validate_event v =
     raise_if (pv_scheduler_cycle v < 0) (ValueError ''scheduler_cycle: ge 0'')
    (raise_if (pv_epoch_sequence v < 0) (ValueError ''epoch_sequence: ge 0'')
    (raise_if (pv_reason v = []) (ValueError ''reason: min_length'')
    (raise_if (pv_victim_task_ids v = [])
       (ValueError ''A preemption event must identify at least one victim'')
    (raise_if (\<not> distinct (pv_victim_task_ids v))
       (ValueError ''victim_task_ids must not contain duplicates'')
    (raise_if (\<not> distinct (pv_victim_assignment_ids v))
       (ValueError ''victim_assignment_ids must not contain duplicates'')
    (raise_if (length (pv_victim_task_ids v) \<noteq> length (pv_victim_assignment_ids v))
       (ValueError ''Every victim task must have one victim assignment id'')
    (raise_if (pv_target_task_id v \<in> set (pv_victim_task_ids v))
       (ValueError ''A preemption target cannot also be its victim'')
    (if pv_event_type v = CHECKPOINT_ACKNOWLEDGED
     then raise_if (case pv_checkpoint_task_id v of None \<Rightarrow> True
                    | Some t \<Rightarrow> t \<notin> set (pv_victim_task_ids v))
            (ValueError ''Checkpoint event must identify a selected victim'') (Inr v)
     else raise_if (pv_checkpoint_task_id v \<noteq> None)
            (ValueError ''Only checkpoint events identify a checkpoint task'') (Inr v)))))))))"

definition deterministic_preemption_id ::
  "(uuid \<Rightarrow> string \<Rightarrow> uuid) \<Rightarrow> uuid \<Rightarrow> int \<Rightarrow> uuid list \<Rightarrow> int \<Rightarrow> uuid res" where
  "deterministic_preemption_id uuid5 target_task_id target_task_revision victim_assignment_ids
       requested_epoch_sequence =
     raise_if (target_task_revision < 0) (ValueError ''target_task_revision must be >= 0'')
    (raise_if (requested_epoch_sequence < 1) (ValueError ''requested_epoch_sequence must be >= 1'')
    (raise_if (victim_assignment_ids = [])
       (ValueError ''At least one victim assignment id is required'')
    (raise_if (\<not> distinct victim_assignment_ids)
       (ValueError ''victim_assignment_ids must not contain duplicates'')
    (Inr (uuid5 PREEMPTION_NAMESPACE
       (py_join ''|'' [uuid_str target_task_id, int_str target_task_revision,
          py_join '','' (map uuid_str victim_assignment_ids), int_str requested_epoch_sequence]))))))"

definition make_selection_preemption_event ::
  "(uuid \<Rightarrow> string \<Rightarrow> uuid) \<Rightarrow> uuid \<Rightarrow> uuid \<Rightarrow> uuid list \<Rightarrow> uuid list \<Rightarrow> preemption_event_type \<Rightarrow>
     int \<Rightarrow> int \<Rightarrow> string \<Rightarrow> uuid option \<Rightarrow> preemption_event res" where
  "make_selection_preemption_event uuid5 preemption_id target_task_id victim_task_ids
       victim_assignment_ids event_type scheduler_cycle epoch_sequence reason checkpoint_task_id =
     (let checkpoint = (case checkpoint_task_id of None \<Rightarrow> ''none'' | Some t \<Rightarrow> uuid_str t);
          event_id = uuid5 preemption_id
            (''preemption-event:'' @ preemption_event_type_value event_type @ '':'' @ checkpoint)
      in validate_event
          \<lparr>pv_event_id = event_id, pv_preemption_id = preemption_id, pv_event_type = event_type,
           pv_scheduler_cycle = scheduler_cycle, pv_epoch_sequence = epoch_sequence,
           pv_target_task_id = target_task_id, pv_victim_task_ids = victim_task_ids,
           pv_victim_assignment_ids = victim_assignment_ids,
           pv_checkpoint_task_id = checkpoint_task_id, pv_reason = reason\<rparr>)"

definition make_preemption_event ::
  "(uuid \<Rightarrow> string \<Rightarrow> uuid) \<Rightarrow> pending_preemption \<Rightarrow> preemption_event_type \<Rightarrow> int \<Rightarrow> int \<Rightarrow> string \<Rightarrow>
     uuid option \<Rightarrow> preemption_event res" where
  "make_preemption_event uuid5 intent event_type scheduler_cycle epoch_sequence reason
       checkpoint_task_id =
     make_selection_preemption_event uuid5 (pp_preemption_id intent) (pp_target_task_id intent)
       (pp_victim_task_ids intent) (pp_victim_assignment_ids intent) event_type scheduler_cycle
       epoch_sequence reason checkpoint_task_id"

definition pending_preemption_sort_key :: "pending_preemption \<Rightarrow> int \<times> uuid" where
  "pending_preemption_sort_key p = (pp_requested_epoch_sequence p, pp_preemption_id p)"

section \<open>Victim selection\<close>

definition candidate_sort_key :: "preemption_candidate \<Rightarrow> int \<times> int \<times> int \<times> uuid" where
  "candidate_sort_key c =
     (- pc_base_priority c, if pc_checkpoint_required c then 1 else 0, - pc_current_order c,
      pc_task_id c)"

definition selection_key :: "nat list \<Rightarrow> nat \<times> nat list" where
  "selection_key selected = (length selected, selected)"

definition next_coverage :: "int list \<Rightarrow> int list \<Rightarrow> int list \<Rightarrow> int list" where
  "next_coverage target contribution coverage =
     map (\<lambda>p. min (target ! p) (coverage ! p + contribution ! p)) [0..<length target]"

text \<open>The body of the inner loop of \<^verbatim>\<open>select_minimum_victims\<close>, and the inner loop itself: it
  reads the states of the previous round and writes a copy of them.\<close>

fun select_extend ::
  "int list \<Rightarrow> int list \<Rightarrow> nat \<Rightarrow> int list \<times> nat list \<Rightarrow> (int list, nat list) dict \<Rightarrow>
     (int list, nat list) dict" where
  "select_extend target contribution index (coverage, selected) updated =
     (let nc = next_coverage target contribution coverage; ns = selected @ [index]
      in case dget updated nc of
           None \<Rightarrow> dset nc ns updated
         | Some existing \<Rightarrow>
             if selection_key ns < selection_key existing then dset nc ns updated else updated)"

fun select_round ::
  "int list \<Rightarrow> nat \<times> int list \<Rightarrow> (int list, nat list) dict \<Rightarrow> (int list, nat list) dict" where
  "select_round target (index, contribution) states =
     (if \<not> list_ex (\<lambda>x. x \<noteq> 0) contribution then states
      else fold (select_extend target contribution index) states states)"

definition required_classes ::
  "(execution_resource_class, int) dict \<Rightarrow> execution_resource_class list" where
  "required_classes deficits =
     sort_key execution_resource_class_sort_key (map fst (filter (\<lambda>(c, u). u > 0) deficits))"

definition select_minimum_victims ::
  "(execution_resource_class, int) dict \<Rightarrow> preemption_candidate list \<Rightarrow>
     preemption_candidate list option res" where
  "select_minimum_victims deficits candidates =
     raise_if (list_ex (\<lambda>u. u < 0) (dvalues deficits))
       (ValueError ''Resource deficits must not be negative'')
    (raise_if (\<not> distinct (map pc_task_id candidates))
       (ValueError ''Preemption candidates must have unique task ids'')
    (raise_if (\<not> distinct (map pc_assignment_id candidates))
       (ValueError ''Preemption candidates must have unique assignment ids'')
    (raise_if (list_ex (\<lambda>c. list_ex (\<lambda>u. u < 0) (dvalues (pc_released_units c))) candidates)
       (ValueError ''Candidate released units must not be negative'')
    (let required = required_classes deficits
     in if required = [] then Inr (Some [])
        else
          let ordered = sort_key candidate_sort_key candidates;
              target = map (dval deficits) required;
              states = fold (select_round target)
                (enumerate 0 (map (\<lambda>c. map (dval (pc_released_units c)) required) ordered))
                [(map (\<lambda>_. 0) required, [])]
          in Inr (map_option (map ((!) ordered)) (dget states target))))))"

section \<open>Correctness of the selection\<close>

text \<open>\<open>cov t C S\<close> is the coverage of the index list \<open>S\<close>, capped at the target \<open>t\<close>, where
  \<open>C i\<close> is the contribution of candidate \<open>i\<close>; \<open>increasing_below n\<close> are the index lists the
  program can build from the first \<open>n\<close> candidates.\<close>

definition cov :: "int list \<Rightarrow> (nat \<Rightarrow> int list) \<Rightarrow> nat list \<Rightarrow> int list" where
  "cov t C S = map (\<lambda>p. min (t ! p) (\<Sum>i\<leftarrow>S. C i ! p)) [0..<length t]"

definition increasing_below :: "nat \<Rightarrow> nat list \<Rightarrow> bool" where
  "increasing_below n S \<longleftrightarrow> sorted_wrt (<) S \<and> (\<forall>i\<in>set S. i < n)"

definition useful :: "(nat \<Rightarrow> int list) \<Rightarrow> nat \<Rightarrow> bool" where
  "useful C i \<longleftrightarrow> (\<exists>x\<in>set (C i). x \<noteq> 0)"

definition best_states ::
  "int list \<Rightarrow> (nat \<Rightarrow> int list) \<Rightarrow> nat \<Rightarrow> (int list, nat list) dict \<Rightarrow> bool" where
  "best_states t C n states \<longleftrightarrow>
     distinct (dkeys states) \<and>
     (\<forall>v S. dget states v = Some S \<longrightarrow>
        increasing_below n S \<and> (\<forall>i\<in>set S. useful C i) \<and> cov t C S = v) \<and>
     (\<forall>S. increasing_below n S \<longrightarrow> (\<forall>i\<in>set S. useful C i) \<longrightarrow>
        (\<exists>S'. dget states (cov t C S) = Some S' \<and> selection_key S' \<le> selection_key S))"

lemma next_coverage_cov:
  assumes "\<forall>x\<in>set (C i). 0 \<le> x" and "length (C i) = length t"
  shows "next_coverage t (C i) (cov t C S) = cov t C (S @ [i])"
proof -
  have "0 \<le> C i ! p" if "p < length t" for p using that assms by simp
  then show ?thesis by (fastforce simp: next_coverage_def cov_def)
qed

lemma append_last_le:
  fixes xs ys :: "nat list"
  assumes "length xs = length ys" and "xs \<le> ys"
  shows "xs @ [n] \<le> ys @ [n]"
  using assms by (induction xs ys rule: list_induct2) auto

lemma selection_key_append:
  assumes "selection_key S \<le> selection_key T"
  shows "selection_key (S @ [n]) \<le> selection_key (T @ [n])"
  using assms append_last_le [of S T n]
  by (auto simp: selection_key_def less_eq_prod_def less_prod_def)

lemma select_extend_cases:
  "dget (select_extend t c i (cv, sel) u) v =
     (if v = next_coverage t c cv
      then Some (case dget u v of None \<Rightarrow> sel @ [i]
                 | Some s \<Rightarrow> if selection_key (sel @ [i]) < selection_key s then sel @ [i] else s)
      else dget u v)"
  by (simp add: Let_def split: option.split)

declare select_extend.simps [simp del]

lemma distinct_select_extend:
  "distinct (dkeys u) \<Longrightarrow> distinct (dkeys (select_extend t c i x u))"
  by (cases x) (simp add: select_extend.simps Let_def split: option.split)

lemma distinct_select_fold:
  "distinct (dkeys u) \<Longrightarrow> distinct (dkeys (fold (select_extend t c i) xs u))"
  by (induction xs arbitrary: u) (auto simp: distinct_select_extend)

lemma select_fold_origin:
  "dget (fold (select_extend t c i) xs u) v = Some S \<Longrightarrow>
     dget u v = Some S \<or>
     (\<exists>cv sel. (cv, sel) \<in> set xs \<and> next_coverage t c cv = v \<and> S = sel @ [i])"
proof (induction xs arbitrary: u)
  case (Cons x xs)
  obtain cv sel where x: "x = (cv, sel)" by (cases x)
  from Cons.prems have "dget (fold (select_extend t c i) xs (select_extend t c i x u)) v = Some S"
    by simp
  from Cons.IH [OF this] show ?case
    by (auto simp: x select_extend_cases split: if_splits option.splits)
qed simp

lemma select_fold_keeps:
  "dget u v = Some S \<Longrightarrow>
     \<exists>S'. dget (fold (select_extend t c i) xs u) v = Some S' \<and> selection_key S' \<le> selection_key S"
proof (induction xs arbitrary: u S)
  case (Cons x xs)
  obtain cv sel where x: "x = (cv, sel)" by (cases x)
  have "\<exists>S1. dget (select_extend t c i x u) v = Some S1 \<and> selection_key S1 \<le> selection_key S"
    using Cons.prems by (auto simp: x select_extend_cases)
  then obtain S1 where S1: "dget (select_extend t c i x u) v = Some S1"
    and le: "selection_key S1 \<le> selection_key S" by blast
  from Cons.IH [OF S1] le show ?case by (auto intro: order_trans)
qed simp

lemma select_fold_improves:
  "(cv, sel) \<in> set xs \<Longrightarrow>
     \<exists>S'. dget (fold (select_extend t c i) xs u) (next_coverage t c cv) = Some S' \<and>
          selection_key S' \<le> selection_key (sel @ [i])"
proof (induction xs arbitrary: u)
  case (Cons x xs)
  show ?case
  proof (cases "x = (cv, sel)")
    case True
    then have "\<exists>S1. dget (select_extend t c i x u) (next_coverage t c cv) = Some S1 \<and>
        selection_key S1 \<le> selection_key (sel @ [i])"
      by (auto simp: select_extend_cases not_less split: option.split)
    then obtain S1 where S1: "dget (select_extend t c i x u) (next_coverage t c cv) = Some S1"
      and le: "selection_key S1 \<le> selection_key (sel @ [i])" by blast
    from select_fold_keeps [OF S1, of t c i xs] le show ?thesis by (auto intro: order_trans)
  next
    case False
    with Cons show ?thesis by simp
  qed
qed simp

lemma increasing_below_Suc:
  "increasing_below (Suc n) S \<longleftrightarrow>
     increasing_below n S \<or> (\<exists>T. S = T @ [n] \<and> increasing_below n T)"
proof
  assume S: "increasing_below (Suc n) S"
  show "increasing_below n S \<or> (\<exists>T. S = T @ [n] \<and> increasing_below n T)"
  proof (cases S rule: rev_cases)
    case (snoc T i)
    from S have "sorted_wrt (<) T" "\<forall>j\<in>set T. j < i" "i < Suc n"
      by (auto simp: increasing_below_def snoc sorted_wrt_append)
    then show ?thesis
      by (cases "i = n") (auto simp: increasing_below_def snoc sorted_wrt_append)
  qed (simp add: increasing_below_def)
qed (auto simp: increasing_below_def sorted_wrt_append intro: less_SucI)

lemma best_states_round:
  assumes best: "best_states t C n states"
    and nonneg: "\<forall>x\<in>set (C n). 0 \<le> x" and len: "length (C n) = length t"
  shows "best_states t C (Suc n) (select_round t (n, C n) states)"
proof (cases "useful C n")
  case False
  then have "select_round t (n, C n) states = states"
    by (simp add: useful_def list_ex_iff)
  with best False show ?thesis
    by (auto simp: best_states_def increasing_below_Suc)
next
  case True
  let ?new = "fold (select_extend t (C n) n) states states"
  have new: "select_round t (n, C n) states = ?new"
    using True by (simp add: useful_def list_ex_iff)
  from best have dist: "distinct (dkeys states)"
    and sound: "\<And>v S. dget states v = Some S \<Longrightarrow>
        increasing_below n S \<and> (\<forall>i\<in>set S. useful C i) \<and> cov t C S = v"
    and complete: "\<And>S. increasing_below n S \<Longrightarrow> \<forall>i\<in>set S. useful C i \<Longrightarrow>
        \<exists>S'. dget states (cov t C S) = Some S' \<and> selection_key S' \<le> selection_key S"
    by (auto simp: best_states_def)
  have step: "next_coverage t (C n) (cov t C S) = cov t C (S @ [n])" for S
    by (rule next_coverage_cov) (use nonneg len in auto)
  have sound': "increasing_below (Suc n) S \<and> (\<forall>i\<in>set S. useful C i) \<and> cov t C S = v"
    if "dget ?new v = Some S" for v S
    using select_fold_origin [OF that]
  proof (elim disjE exE conjE)
    fix cv sel assume "(cv, sel) \<in> set states" "next_coverage t (C n) cv = v" "S = sel @ [n]"
    with sound [of cv sel] dist step [of sel] True show ?thesis
      by (auto simp: increasing_below_Suc)
  qed (use sound in \<open>auto simp: increasing_below_Suc\<close>)
  have complete': "\<exists>S'. dget ?new (cov t C S) = Some S' \<and> selection_key S' \<le> selection_key S"
    if inc: "increasing_below (Suc n) S" and use: "\<forall>i\<in>set S. useful C i" for S
    using inc [unfolded increasing_below_Suc]
  proof (elim disjE exE conjE)
    assume "increasing_below n S"
    from complete [OF this use] obtain S1 where S1: "dget states (cov t C S) = Some S1"
      and le: "selection_key S1 \<le> selection_key S" by blast
    from select_fold_keeps [OF S1, of t "C n" n states] le show ?thesis by (auto intro: order_trans)
  next
    fix T assume T: "S = T @ [n]" "increasing_below n T"
    with use complete [of T] obtain T1 where T1: "dget states (cov t C T) = Some T1"
      and le: "selection_key T1 \<le> selection_key T" by auto
    from select_fold_improves [OF map_of_SomeD [OF T1], of t "C n" n states]
      selection_key_append [OF le, of n] step [of T] T(1)
    show ?thesis by (auto intro: order_trans)
  qed
  show ?thesis
    unfolding new best_states_def using distinct_select_fold [OF dist] sound' complete' by blast
qed

lemma best_states_all:
  assumes "\<And>i. i < n \<Longrightarrow> (\<forall>x\<in>set (C i). 0 \<le> x) \<and> length (C i) = length t"
    and "\<forall>x\<in>set t. 0 < x"
  shows "best_states t C n
     (fold (select_round t) (map (\<lambda>i. (i, C i)) [0..<n]) [(map (\<lambda>_. 0) t, [])])"
  using assms
proof (induction n)
  case 0
  have "0 < t ! p" if "p < length t" for p using 0 that by simp
  then have "cov t C [] = map (\<lambda>_. 0) t"
    by (intro nth_equalityI) (fastforce simp: cov_def min_def)+
  then show ?case by (simp add: best_states_def increasing_below_def)
next
  case (Suc n)
  let ?states = "fold (select_round t) (map (\<lambda>i. (i, C i)) [0..<n]) [(map (\<lambda>_. 0) t, [])]"
  have "best_states t C n ?states" by (rule Suc.IH) (use Suc.prems less_SucI in \<open>blast+\<close>)
  then have "best_states t C (Suc n) (select_round t (n, C n) ?states)"
    by (rule best_states_round) (use Suc.prems(1) [of n] in auto)
  then show ?case by (simp del: select_round.simps)
qed

lemma cov_useful: "cov t C (filter (useful C) S) = cov t C S"
  if "\<forall>i\<in>set S. length (C i) = length t"
proof -
  have "(\<Sum>i\<leftarrow>filter (useful C) S. C i ! p) = (\<Sum>i\<leftarrow>S. C i ! p)" if "p < length t" for p
    using \<open>\<forall>i\<in>set S. length (C i) = length t\<close> that
    by (induction S) (auto simp: useful_def)
  then show ?thesis by (simp add: cov_def)
qed

lemma selection_key_filter: "selection_key (filter P S) \<le> selection_key S"
proof (cases "filter P S = S")
  case False
  then have "length (filter P S) < length S"
    by (metis filter_True length_filter_less)
  then show ?thesis by (simp add: selection_key_def less_eq_prod_def)
qed simp

lemma increasing_below_filter: "increasing_below n S \<Longrightarrow> increasing_below n (filter P S)"
  by (auto simp: increasing_below_def sorted_wrt_filter)

text \<open>The table after the last round holds the best selection of every coverage.\<close>

lemma best_states_optimal:
  assumes "best_states t C n states" and len: "\<And>i. i < n \<Longrightarrow> length (C i) = length t"
    and S: "increasing_below n S"
  shows "\<exists>S'. dget states (cov t C S) = Some S' \<and> selection_key S' \<le> selection_key S"
proof -
  let ?T = "filter (useful C) S"
  have "cov t C ?T = cov t C S"
    by (rule cov_useful) (use S len in \<open>auto simp: increasing_below_def\<close>)
  moreover have "\<exists>S'. dget states (cov t C ?T) = Some S' \<and> selection_key S' \<le> selection_key ?T"
    using assms(1) increasing_below_filter [OF S] by (auto simp: best_states_def)
  ultimately show ?thesis using selection_key_filter [of "useful C" S] by (auto intro: order_trans)
qed

text \<open>Back to the program: a set of candidates covers the deficits when it releases at least the
  missing units of every class.\<close>

definition released :: "preemption_candidate list \<Rightarrow> execution_resource_class \<Rightarrow> int" where
  "released cs c = (\<Sum>x\<leftarrow>cs. dval (pc_released_units x) c)"

definition covers ::
  "(execution_resource_class, int) dict \<Rightarrow> preemption_candidate list \<Rightarrow> bool" where
  "covers deficits cs \<longleftrightarrow> (\<forall>(c, u)\<in>set deficits. u > 0 \<longrightarrow> u \<le> released cs c)"

lemma set_required_classes:
  "set (required_classes deficits) = {c. \<exists>u. (c, u) \<in> set deficits \<and> u > 0}"
  by (force simp: required_classes_def)

lemma enumerate_upt: "enumerate 0 xs = map (\<lambda>i. (i, xs ! i)) [0..<length xs]"
  by (rule nth_equalityI) (simp_all add: nth_enumerate_eq)

lemma dval_nonneg: "(\<And>u. u \<in> set (dvalues d) \<Longrightarrow> 0 \<le> u) \<Longrightarrow> 0 \<le> dval d c"
  by (cases "dget d c") (auto simp: dval_def dest: dget_Some_in)

lemma cov_eq_target: "cov t C S = t \<longleftrightarrow> (\<forall>p<length t. t ! p \<le> (\<Sum>i\<leftarrow>S. C i ! p))"
proof -
  have "cov t C S = t \<longleftrightarrow> (\<forall>p<length t. min (t ! p) (\<Sum>i\<leftarrow>S. C i ! p) = t ! p)"
    by (subst list_eq_iff_nth_eq) (simp add: cov_def)
  then show ?thesis by (auto simp: min_def)
qed

lemma cov_covers:
  assumes "distinct (dkeys deficits)"
  shows "cov (map (dval deficits) (required_classes deficits))
           (\<lambda>i. map (dval (pc_released_units (xs ! i))) (required_classes deficits)) S
         = map (dval deficits) (required_classes deficits)
     \<longleftrightarrow> covers deficits (map ((!) xs) S)" (is "?L \<longleftrightarrow> ?R")
proof -
  let ?q = "required_classes deficits"
  have "(\<Sum>i\<leftarrow>S. map (dval (pc_released_units (xs ! i))) ?q ! p) = released (map ((!) xs) S) (?q ! p)"
    if "p < length ?q" for p using that by (simp add: released_def o_def)
  then have "?L \<longleftrightarrow> (\<forall>p<length ?q. dval deficits (?q ! p) \<le> released (map ((!) xs) S) (?q ! p))"
    by (simp add: cov_eq_target)
  also have "\<dots> \<longleftrightarrow> (\<forall>c\<in>set ?q. dval deficits c \<le> released (map ((!) xs) S) c)"
    by (auto simp: all_set_conv_all_nth)
  also have "\<dots> \<longleftrightarrow> ?R"
    using assms by (auto simp: set_required_classes covers_def dval_def)
  finally show ?thesis .
qed

lemma select_minimum_victims_states:
  assumes "select_minimum_victims deficits candidates = Inr r"
    and ne: "required_classes deficits \<noteq> []"
  defines "ordered \<equiv> sort_key candidate_sort_key candidates"
    and "t \<equiv> map (dval deficits) (required_classes deficits)"
  defines "C \<equiv> (\<lambda>i. map (dval (pc_released_units (ordered ! i))) (required_classes deficits))"
  assumes dist: "distinct (dkeys deficits)"
  obtains states where "best_states t C (length candidates) states"
    and "r = map_option (map ((!) ordered)) (dget states t)"
proof -
  let ?states = "fold (select_round t) (map (\<lambda>i. (i, C i)) [0..<length candidates])
    [(map (\<lambda>_. 0) t, [])]"
  have nonneg: "0 \<le> dval (pc_released_units x) c" if "x \<in> set candidates" for x c
    by (rule dval_nonneg)
      (use that assms(1) in \<open>force simp: select_minimum_victims_def list_ex_iff Let_def not_less\<close>)
  have "\<forall>x\<in>set t. 0 < x"
    using dist by (auto simp: t_def set_required_classes dval_def)
  moreover have "(\<forall>x\<in>set (C i). 0 \<le> x) \<and> length (C i) = length t" if "i < length candidates" for i
  proof -
    have "ordered ! i \<in> set candidates"
      using that nth_mem [of i ordered] by (simp add: ordered_def)
    then show ?thesis by (auto simp: C_def t_def nonneg)
  qed
  ultimately have "best_states t C (length candidates) ?states"
    by (intro best_states_all) auto
  moreover have "r = map_option (map ((!) ordered)) (dget ?states t)"
  proof -
    have "enumerate 0 (map (\<lambda>c. map (dval (pc_released_units c)) (required_classes deficits)) ordered)
        = map (\<lambda>i. (i, C i)) [0..<length candidates]"
      by (simp add: enumerate_upt C_def ordered_def)
    moreover have "map (\<lambda>_. 0) (required_classes deficits) = map (\<lambda>_. (0::int)) t"
      by (simp add: t_def o_def)
    ultimately show ?thesis
      using assms(1) ne by (simp add: select_minimum_victims_def Let_def ordered_def t_def o_def)
  qed
  ultimately show ?thesis by (rule that)
qed

text \<open>What a caller may rely on: the selected candidates are pairwise different candidates and cover the
  deficits.\<close>

lemma select_minimum_victims_sound:
  assumes sel: "select_minimum_victims deficits candidates = Inr (Some vs)"
    and dist: "distinct (dkeys deficits)"
  shows "covers deficits vs" and "set vs \<subseteq> set candidates"
    and "distinct (map pc_task_id vs)" and "distinct (map pc_assignment_id vs)"
proof -
  let ?xs = "sort_key candidate_sort_key candidates" and ?q = "required_classes deficits"
  have ids: "distinct (map pc_task_id candidates)" "distinct (map pc_assignment_id candidates)"
    using sel by (auto simp: select_minimum_victims_def Let_def)
  have "\<exists>idx. increasing_below (length candidates) idx \<and> vs = map ((!) ?xs) idx \<and> covers deficits vs"
  proof (cases "?q = []")
    case True
    then show ?thesis using sel set_required_classes [of deficits]
      by (auto simp: select_minimum_victims_def Let_def increasing_below_def covers_def)
  next
    case False
    obtain states where best: "best_states (map (dval deficits) ?q)
        (\<lambda>i. map (dval (pc_released_units (?xs ! i))) ?q) (length candidates) states"
      and r: "Some vs = map_option (map ((!) ?xs)) (dget states (map (dval deficits) ?q))"
      using select_minimum_victims_states [OF sel False dist] by blast
    from r obtain S where S: "dget states (map (dval deficits) ?q) = Some S" "vs = map ((!) ?xs) S"
      by (cases "dget states (map (dval deficits) ?q)") simp_all
    with best have "increasing_below (length candidates) S"
      "cov (map (dval deficits) ?q) (\<lambda>i. map (dval (pc_released_units (?xs ! i))) ?q) S = map (dval deficits) ?q"
      unfolding best_states_def by blast+
    with S(2) cov_covers [OF dist, of ?xs S] show ?thesis by blast
  qed
  then obtain idx where idx: "increasing_below (length candidates) idx" "vs = map ((!) ?xs) idx"
    "covers deficits vs" by blast
  then show "covers deficits vs" by simp
  have lt: "i < length ?xs" if "i \<in> set idx" for i using idx(1) that by (simp add: increasing_below_def)
  then show "set vs \<subseteq> set candidates" using nth_mem [of _ ?xs] by (auto simp: idx(2))
  have "distinct idx" using idx(1) by (simp add: increasing_below_def strict_sorted_iff)
  then show "distinct (map pc_task_id vs)" "distinct (map pc_assignment_id vs)"
    using ids lt by (auto simp: idx(2) distinct_map inj_on_def nth_eq_iff_index_eq)
      (metis (no_types, lifting) distinct_map distinct_sort inj_on_def length_sort nth_eq_iff_index_eq nth_mem set_sort)+
qed

text \<open>C20. Victim selection is optimal. Whenever \<^verbatim>\<open>select_minimum_victims\<close> returns, a returned list
  covers every deficit and its positions in candidate order are, by size and then
  lexicographically, the least among all the covering sets; and it returns \<^verbatim>\<open>None\<close> only when
  no set of candidates covers the deficits.\<close>

theorem select_minimum_victims_optimal:
  assumes sel: "select_minimum_victims deficits candidates = Inr r"
    and dist: "distinct (dkeys deficits)"
  shows "case r of
      None \<Rightarrow> \<forall>idx. increasing_below (length candidates) idx \<longrightarrow>
        \<not> covers deficits (map ((!) (sort_key candidate_sort_key candidates)) idx)
    | Some vs \<Rightarrow> \<exists>idx. increasing_below (length candidates) idx \<and>
        vs = map ((!) (sort_key candidate_sort_key candidates)) idx \<and> covers deficits vs \<and>
        (\<forall>idx'. increasing_below (length candidates) idx' \<longrightarrow>
           covers deficits (map ((!) (sort_key candidate_sort_key candidates)) idx') \<longrightarrow>
           selection_key idx \<le> selection_key idx')"
proof (cases "required_classes deficits = []")
  case True
  then have "r = Some []"
    using sel by (simp add: select_minimum_victims_def Let_def)
  moreover have "covers deficits []"
    using True set_required_classes [of deficits] by (auto simp: covers_def)
  ultimately show ?thesis
    by (auto simp: increasing_below_def selection_key_def less_eq_prod_def intro!: exI [of _ "[]"])
next
  case False
  let ?xs = "sort_key candidate_sort_key candidates" and ?q = "required_classes deficits"
  let ?t = "map (dval deficits) ?q" and ?C = "\<lambda>i. map (dval (pc_released_units (?xs ! i))) ?q"
  obtain states where best: "best_states ?t ?C (length candidates) states"
    and r: "r = map_option (map ((!) ?xs)) (dget states ?t)"
    using select_minimum_victims_states [OF sel False dist] by blast
  have opt: "\<exists>S'. dget states ?t = Some S' \<and> selection_key S' \<le> selection_key idx"
    if "increasing_below (length candidates) idx" "covers deficits (map ((!) ?xs) idx)" for idx
    using best_states_optimal [OF best _ that(1)] that(2) cov_covers [OF dist, of ?xs idx] by simp
  show ?thesis
  proof (cases "dget states ?t")
    case None
    with r opt show ?thesis by auto
  next
    case (Some S)
    with best have S: "increasing_below (length candidates) S" and "cov ?t ?C S = ?t"
      by (auto simp: best_states_def)
    then have "covers deficits (map ((!) ?xs) S)"
      using cov_covers [OF dist, of ?xs S] by simp
    with r Some S opt show ?thesis by (auto intro!: exI [of _ S])
  qed
qed

definition sample_candidate ::
  "uuid \<Rightarrow> int \<Rightarrow> bool \<Rightarrow> int \<Rightarrow> (execution_resource_class, int) dict \<Rightarrow> preemption_candidate" where
  "sample_candidate t prio chk ord units =
     \<lparr>pc_task_id = t, pc_assignment_id = t + 100, pc_base_priority = prio,
      pc_checkpoint_required = chk, pc_current_order = ord, pc_released_units = units\<rparr>"

definition sample_candidates :: "preemption_candidate list" where
  "sample_candidates =
     [sample_candidate 1 3 False 1 [(CPU_GENERAL, 1)],
      sample_candidate 2 4 True 2 [(CPU_GENERAL, 2), (MEMORY_RAM, 8)],
      sample_candidate 3 5 False 3 [(MEMORY_RAM, 4)]]"

definition sample_deficits :: "(execution_resource_class, int) dict" where
  "sample_deficits = [(MEMORY_RAM, 10), (CPU_GENERAL, 2)]"

lemma select_sample:
  "select_minimum_victims sample_deficits sample_candidates =
     Inr (Some [sample_candidate 3 5 False 3 [(MEMORY_RAM, 4)],
                sample_candidate 2 4 True 2 [(CPU_GENERAL, 2), (MEMORY_RAM, 8)]])"
  by code_simp

theorem select_minimum_victims_optimal_witness:
  "distinct (dkeys sample_deficits) \<and>
   (\<exists>vs. select_minimum_victims sample_deficits sample_candidates = Inr (Some vs) \<and>
      length vs = 2 \<and> covers sample_deficits vs)"
proof -
  have d: "distinct (dkeys sample_deficits)" by (simp add: sample_deficits_def)
  show ?thesis
    using select_minimum_victims_optimal [OF select_sample d] d select_sample by auto
qed

end
