(* ===== verification/Observation.thy ===== *)
theory Observation
  imports Resources Complex_Main
begin

text \<open>
  Host-resource observations (\<^verbatim>\<open>attention_observation.py\<close>): the safety policy, one host sample,
  the per-pool capacity envelope, the snapshot that one scheduling epoch consumes, the function
  that turns a sample and the committed reservations into that envelope, and the discovery of the
  local pools. Percentages are computed by the source as integer divisions through binary64
  floats; the model computes them exactly. The canonical JSON text of a snapshot, from which its
  identifier is derived, is produced by pydantic: it is the argument \<open>dump\<close>, applied to the
  snapshot with its identifier cleared, as the source excludes that field.
  The theorems show that the envelope is always well-formed, never above the configured safe
  capacity and never below what is committed, and that a failed probe grants no new CPU or memory.
\<close>

section \<open>Data\<close>

definition RESOURCE_SAFETY_POLICY_VERSION :: string where
  "RESOURCE_SAFETY_POLICY_VERSION = ''v0.7-resource-observation-v1''"

definition HOST_CPU_RESOURCE_ID :: string where
  "HOST_CPU_RESOURCE_ID = ''host-cpu''"

definition HOST_MEMORY_RESOURCE_ID :: string where
  "HOST_MEMORY_RESOURCE_ID = ''host-ram-mib''"

definition LOCAL_LLM_RESOURCE_ID :: string where
  "LOCAL_LLM_RESOURCE_ID = ''local-llm''"

definition OBSERVATION_NAMESPACE :: uuid where
  "OBSERVATION_NAMESPACE = 0x64b7f260e79d4f81b73245ee4e4ae4a8"

datatype capacity_measurement = HOST | CONFIGURED | FAIL_CLOSED

record resource_safety_policy =
  sp_policy_version :: string
  sp_observation_max_age_seconds :: int
  sp_cpu_system_headroom_percent :: int
  sp_max_cpu_pressure_percent :: int
  sp_memory_system_headroom_percent :: int
  sp_memory_system_headroom_min_mib :: int
  sp_uncertainty_headroom_percent :: int
  sp_llm_concurrency_limit :: int
  sp_default_process_cpu_units :: int
  sp_default_process_memory_mib :: int
  sp_default_llm_process_memory_mib :: int

record host_resource_metrics =
  hm_platform :: string
  hm_logical_cpu_count :: int
  hm_cpu_utilization_percent :: int
  hm_load_1m :: "rat option"
  hm_memory_total_mib :: int
  hm_memory_available_mib :: int

record observed_resource_capacity =
  oc_resource_id :: string
  oc_resource_class :: execution_resource_class
  oc_measurement :: capacity_measurement
  oc_configured_capacity :: int
  oc_configured_headroom_units :: int
  oc_committed_units :: int
  oc_observed_available_units :: int
  oc_uncertainty_headroom_units :: int
  oc_admission_capacity :: int

record resource_observation =
  ob_observation_id :: uuid
  ob_scheduler_cycle :: int
  ob_captured_at :: datetime
  ob_valid_until :: datetime
  ob_safety_policy_version :: string
  ob_policy :: resource_safety_policy
  ob_host_id :: string
  ob_healthy :: bool
  ob_probe_errors :: "string list"
  ob_metrics :: "host_resource_metrics option"
  ob_capacities :: "observed_resource_capacity list"

section \<open>Rounding and time\<close>

definition ceil_percent :: "int \<Rightarrow> int \<Rightarrow> int" where
  "ceil_percent n pct = - ((- (n * pct)) div 100)"

definition py_round :: "rat \<Rightarrow> int" where
  "py_round x =
     (let f = \<lfloor>x\<rfloor>; d = x - of_int f
      in if d < 1 / 2 then f else if d > 1 / 2 then f + 1 else if even f then f else f + 1)"

definition obs_as_utc :: "datetime \<Rightarrow> datetime res" where
  "obs_as_utc value =
     (case value of
        Naive _ \<Rightarrow> Inl (ValueError ''resource observation timestamps must be timezone-aware'')
      | Aware _ _ \<Rightarrow> Inr (Aware (dt_instant value) 0))"

definition cpu_percent_from_counters :: "int \<times> int \<Rightarrow> int \<times> int \<Rightarrow> int res" where
  "cpu_percent_from_counters first second =
     (let total_delta = fst second - fst first; idle_delta = snd second - snd first
      in raise_if (total_delta \<le> 0 \<or> idle_delta < 0)
           (ResourceObservationError ''CPU counters did not advance monotonically'')
         (let busy_delta = max 0 (total_delta - idle_delta)
          in Inr (min 100 (max 0 (py_round (Fract (busy_delta * 100) total_delta))))))"

section \<open>Policy, metrics, envelopes\<close>

definition default_resource_safety_policy :: resource_safety_policy where
  "default_resource_safety_policy =
     \<lparr>sp_policy_version = RESOURCE_SAFETY_POLICY_VERSION, sp_observation_max_age_seconds = 5,
      sp_cpu_system_headroom_percent = 10, sp_max_cpu_pressure_percent = 85,
      sp_memory_system_headroom_percent = 10, sp_memory_system_headroom_min_mib = 1024,
      sp_uncertainty_headroom_percent = 20, sp_llm_concurrency_limit = 1,
      sp_default_process_cpu_units = 1, sp_default_process_memory_mib = 512,
      sp_default_llm_process_memory_mib = 4096\<rparr>"

definition wf_policy :: "resource_safety_policy \<Rightarrow> bool" where
  "wf_policy p \<longleftrightarrow> sp_policy_version p \<noteq> [] \<and> 1 \<le> sp_observation_max_age_seconds p \<and>
     0 \<le> sp_cpu_system_headroom_percent p \<and> sp_cpu_system_headroom_percent p < 100 \<and>
     1 \<le> sp_max_cpu_pressure_percent p \<and> sp_max_cpu_pressure_percent p \<le> 100 \<and>
     0 \<le> sp_memory_system_headroom_percent p \<and> sp_memory_system_headroom_percent p < 100 \<and>
     0 \<le> sp_memory_system_headroom_min_mib p \<and>
     0 \<le> sp_uncertainty_headroom_percent p \<and> sp_uncertainty_headroom_percent p < 100 \<and>
     1 \<le> sp_llm_concurrency_limit p \<and> 1 \<le> sp_default_process_cpu_units p \<and>
     1 \<le> sp_default_process_memory_mib p \<and> 1 \<le> sp_default_llm_process_memory_mib p"

definition cpu_system_headroom_units :: "resource_safety_policy \<Rightarrow> int \<Rightarrow> int" where
  "cpu_system_headroom_units p logical_cpu_count =
     (if logical_cpu_count \<le> 1 \<or> sp_cpu_system_headroom_percent p = 0 then 0
      else max 1 (ceil_percent logical_cpu_count (sp_cpu_system_headroom_percent p)))"

definition memory_system_headroom_mib :: "resource_safety_policy \<Rightarrow> int \<Rightarrow> int" where
  "memory_system_headroom_mib p total_mib =
     min total_mib
       (max (sp_memory_system_headroom_min_mib p)
          (ceil_percent total_mib (sp_memory_system_headroom_percent p)))"

definition wf_metrics :: "host_resource_metrics \<Rightarrow> bool" where
  "wf_metrics m \<longleftrightarrow> hm_platform m \<noteq> [] \<and> 1 \<le> hm_logical_cpu_count m \<and>
     0 \<le> hm_cpu_utilization_percent m \<and> hm_cpu_utilization_percent m \<le> 100 \<and>
     (case hm_load_1m m of None \<Rightarrow> True | Some l \<Rightarrow> 0 \<le> l) \<and>
     1 \<le> hm_memory_total_mib m \<and> 0 \<le> hm_memory_available_mib m \<and>
     hm_memory_available_mib m \<le> hm_memory_total_mib m"

definition validate_capacity_envelope ::
  "observed_resource_capacity \<Rightarrow> observed_resource_capacity res" where
  "validate_capacity_envelope c =
     raise_if (oc_resource_id c = []) (ValueError ''resource_id: min_length'')
    (rbind (normalize_resource_id (oc_resource_id c)) (\<lambda>rid.
     raise_if (oc_configured_capacity c < 1) (ValueError ''configured_capacity: ge 1'')
    (raise_if (oc_configured_headroom_units c < 0)
       (ValueError ''configured_headroom_units: ge 0'')
    (raise_if (oc_committed_units c < 0) (ValueError ''committed_units: ge 0'')
    (raise_if (oc_observed_available_units c < 0) (ValueError ''observed_available_units: ge 0'')
    (raise_if (oc_uncertainty_headroom_units c < 0)
       (ValueError ''uncertainty_headroom_units: ge 0'')
    (raise_if (oc_admission_capacity c < 0) (ValueError ''admission_capacity: ge 0'')
    (raise_if (oc_configured_headroom_units c > oc_configured_capacity c)
       (ValueError ''configured headroom cannot exceed capacity'')
    (raise_if (oc_committed_units c > oc_admission_capacity c)
       (ValueError ''observation cannot invalidate committed reservations'')
    (raise_if (oc_admission_capacity c > oc_configured_capacity c - oc_configured_headroom_units c)
       (ValueError ''observation cannot exceed configured safe capacity'')
    (Inr (c\<lparr>oc_resource_id := rid\<rparr>))))))))))))"

definition available_for_new_work :: "observed_resource_capacity \<Rightarrow> int" where
  "available_for_new_work c = oc_admission_capacity c - oc_committed_units c"

section \<open>Snapshots\<close>

definition deterministic_resource_observation_id ::
  "(uuid \<Rightarrow> string \<Rightarrow> uuid) \<Rightarrow> (resource_observation \<Rightarrow> string) \<Rightarrow> resource_observation \<Rightarrow> uuid" where
  "deterministic_resource_observation_id uuid5 dump o1 =
     uuid5 OBSERVATION_NAMESPACE (dump (o1\<lparr>ob_observation_id := 0\<rparr>))"

definition observed_capacity_sort_key :: "observed_resource_capacity \<Rightarrow> nat \<times> string" where
  "observed_capacity_sort_key c =
     (execution_resource_class_sort_key (oc_resource_class c), oc_resource_id c)"

definition validate_observation ::
  "(uuid \<Rightarrow> string \<Rightarrow> uuid) \<Rightarrow> (resource_observation \<Rightarrow> string) \<Rightarrow> resource_observation \<Rightarrow>
     resource_observation res" where
  "validate_observation uuid5 dump o1 =
     raise_if (ob_scheduler_cycle o1 < 1) (ValueError ''scheduler_cycle: ge 1'')
    (raise_if (ob_safety_policy_version o1 = []) (ValueError ''safety_policy_version: min_length'')
    (raise_if (ob_host_id o1 = []) (ValueError ''host_id: min_length'')
    (rbind (obs_as_utc (ob_captured_at o1)) (\<lambda>captured.
     rbind (obs_as_utc (ob_valid_until o1)) (\<lambda>valid_until.
     raise_if (dt_instant valid_until \<le> dt_instant captured)
       (ValueError ''resource observation must have a positive lifetime'')
    (raise_if (ob_healthy o1 \<noteq> (ob_metrics o1 \<noteq> None \<and> ob_probe_errors o1 = []))
       (ValueError ''observation health must match metrics and probe errors'')
    (raise_if (ob_safety_policy_version o1 \<noteq> sp_policy_version (ob_policy o1))
       (ValueError ''observation safety policy version does not match policy'')
    (raise_if (\<not> distinct (map oc_resource_id (ob_capacities o1)))
       (ValueError ''resource observation contains duplicate resource ids'')
    (let o2 = o1\<lparr>ob_captured_at := captured, ob_valid_until := valid_until,
                 ob_capacities := sort_key observed_capacity_sort_key (ob_capacities o1)\<rparr>
     in raise_if (ob_observation_id o2 \<noteq> deterministic_resource_observation_id uuid5 dump o2)
          (ValueError ''resource observation id is not deterministic'')
          (Inr o2))))))))))"

definition assert_fresh :: "resource_observation \<Rightarrow> datetime \<Rightarrow> unit res" where
  "assert_fresh o1 evaluated =
     rbind (obs_as_utc evaluated) (\<lambda>evaluated_at.
     raise_if (dt_instant evaluated_at < dt_instant (ob_captured_at o1) \<or>
               dt_instant evaluated_at > dt_instant (ob_valid_until o1))
       (ResourceObservationError ''resource observation is stale'') (Inr ()))"

definition capacity_by_resource_id ::
  "resource_observation \<Rightarrow> (string, observed_resource_capacity) dict" where
  "capacity_by_resource_id o1 = dict_of oc_resource_id (ob_capacities o1)"

section \<open>Probes\<close>

text \<open>\<^verbatim>\<open>ReservationCreditHostResourceProbe\<close>: the constructor's checks return the credit, and
  \<^verbatim>\<open>capture\<close> adds it to the base probe's sample (the argument \<open>physical\<close>).\<close>

definition reservation_credit_probe_init :: "int \<Rightarrow> int \<Rightarrow> int res" where
  "reservation_credit_probe_init scheduled_memory_mib required_memory_mib =
     raise_if (scheduled_memory_mib < 1) (ValueError ''scheduled_memory_mib must be positive'')
    (raise_if (required_memory_mib < 1) (ValueError ''required_memory_mib must be positive'')
    (raise_if (required_memory_mib > scheduled_memory_mib)
       (ValueError ''required_memory_mib cannot exceed scheduled_memory_mib'')
    (Inr (scheduled_memory_mib - required_memory_mib))))"

definition reservation_credit_probe_capture ::
  "int \<Rightarrow> host_resource_metrics \<Rightarrow> host_resource_metrics" where
  "reservation_credit_probe_capture last_memory_credit_mib physical =
     physical\<lparr>hm_memory_available_mib :=
       min (hm_memory_total_mib physical)
           (hm_memory_available_mib physical + last_memory_credit_mib)\<rparr>"

definition discover_local_execution_resources ::
  "host_resource_metrics option \<Rightarrow> resource_safety_policy \<Rightarrow> execution_resource list res" where
  "discover_local_execution_resources metrics policy =
     (let (cpu_capacity, cpu_headroom, memory_capacity, memory_headroom, platform_name) =
        (case metrics of
           None \<Rightarrow> (1, 1, 1, 1, ''unknown'')
         | Some m \<Rightarrow>
             (hm_logical_cpu_count m, cpu_system_headroom_units policy (hm_logical_cpu_count m),
              hm_memory_total_mib m, memory_system_headroom_mib policy (hm_memory_total_mib m),
              hm_platform m))
      in rbind (mk_ExecutionResource HOST_CPU_RESOURCE_ID CPU_GENERAL cpu_capacity cpu_headroom True
             [(''discovered'', JBool True), (''host'', JStr platform_name),
              (''unit'', JStr ''slot'')]) (\<lambda>cpu.
         rbind (mk_ExecutionResource HOST_MEMORY_RESOURCE_ID MEMORY_RAM memory_capacity
             memory_headroom True
             [(''discovered'', JBool True), (''host'', JStr platform_name),
              (''unit'', JStr ''MiB'')]) (\<lambda>mem.
         rbind (mk_ExecutionResource LOCAL_LLM_RESOURCE_ID LLM_INFERENCE
             (sp_llm_concurrency_limit policy) 0 True
             [(''backend'', JStr ''local''),
              (''default_concurrency'', JInt (sp_llm_concurrency_limit policy)),
              (''unit'', JStr ''inference'')]) (\<lambda>llm.
         Inr (sort_key execution_resource_sort_key [cpu, mem, llm])))))"

section \<open>Building an observation\<close>

definition committed_by_resource :: "resource_reservation list \<Rightarrow> (string, int) dict" where
  "committed_by_resource reservations =
     fold (\<lambda>r d. dset (rr_resource_id r) (dval d (rr_resource_id r) + rr_units r) d) reservations []"

definition cpu_pressure :: "host_resource_metrics \<Rightarrow> int" where
  "cpu_pressure m =
     (case hm_load_1m m of
        None \<Rightarrow> hm_cpu_utilization_percent m
      | Some load \<Rightarrow>
          max (hm_cpu_utilization_percent m)
            (min 100 (py_round (load * 100 / of_int (hm_logical_cpu_count m)))))"

definition cpu_idle_units :: "resource_safety_policy \<Rightarrow> host_resource_metrics \<Rightarrow> int" where
  "cpu_idle_units policy m =
     (if cpu_pressure m \<ge> sp_max_cpu_pressure_percent policy then 0
      else hm_logical_cpu_count m * (100 - cpu_pressure m) div 100)"

text \<open>One iteration of the loop over the configured pools: the measurement, the observed units, the
  uncertainty margin, the admission capacity, and the local-LLM budget that is left.\<close>

definition observe_pool ::
  "resource_safety_policy \<Rightarrow> host_resource_metrics option \<Rightarrow> bool \<Rightarrow> int \<Rightarrow> execution_resource \<Rightarrow> int \<Rightarrow>
     capacity_measurement \<times> int \<times> int \<times> int \<times> int" where
  "observe_pool policy metrics healthy committed r llm_new_budget =
     (if \<not> er_enabled r then (CONFIGURED, 0, 0, committed, llm_new_budget)
      else if er_resource_id r = HOST_CPU_RESOURCE_ID then
        (case (healthy, metrics) of
           (True, Some m) \<Rightarrow>
             (let idle_units = cpu_idle_units policy m;
                  raw_new = max 0 (idle_units - er_system_headroom r);
                  uncertainty = ceil_percent raw_new (sp_uncertainty_headroom_percent policy);
                  additional = max 0 (raw_new - uncertainty)
              in (HOST, idle_units, uncertainty, min (admissible_capacity r) (committed + additional),
                  llm_new_budget))
         | _ \<Rightarrow> (FAIL_CLOSED, 0, 0, committed, llm_new_budget))
      else if er_resource_id r = HOST_MEMORY_RESOURCE_ID then
        (case (healthy, metrics) of
           (True, Some m) \<Rightarrow>
             (let observed_available = hm_memory_available_mib m;
                  raw_new = max 0 (observed_available - er_system_headroom r);
                  uncertainty = ceil_percent raw_new (sp_uncertainty_headroom_percent policy);
                  additional = max 0 (raw_new - uncertainty)
              in (HOST, observed_available, uncertainty,
                  min (admissible_capacity r) (committed + additional), llm_new_budget))
         | _ \<Rightarrow> (FAIL_CLOSED, 0, 0, committed, llm_new_budget))
      else if er_resource_class r \<in> {CPU_GENERAL, MEMORY_RAM} then
        (FAIL_CLOSED, 0, 0, committed, llm_new_budget)
      else if er_resource_class r = LLM_INFERENCE then
        (let observed_available = max 0 (admissible_capacity r - committed);
             additional = (if er_resource_id r = LOCAL_LLM_RESOURCE_ID
                           then min observed_available llm_new_budget else 0)
         in (CONFIGURED, observed_available, 0, committed + additional,
             if er_resource_id r = LOCAL_LLM_RESOURCE_ID then llm_new_budget - additional
             else llm_new_budget))
      else (CONFIGURED, max 0 (admissible_capacity r - committed), 0, admissible_capacity r,
            llm_new_budget))"

fun observe_pools ::
  "resource_safety_policy \<Rightarrow> host_resource_metrics option \<Rightarrow> bool \<Rightarrow> (string, int) dict \<Rightarrow>
     execution_resource list \<Rightarrow> int \<Rightarrow> observed_resource_capacity list res" where
  "observe_pools policy metrics healthy committed_by [] budget = Inr []"
| "observe_pools policy metrics healthy committed_by (r # rs) budget =
     (let committed = dval committed_by (er_resource_id r);
          (measurement, observed_available, uncertainty, admission_capacity, budget') =
            observe_pool policy metrics healthy committed r budget
      in rbind (validate_capacity_envelope
             \<lparr>oc_resource_id = er_resource_id r, oc_resource_class = er_resource_class r,
              oc_measurement = measurement, oc_configured_capacity = er_capacity r,
              oc_configured_headroom_units = er_system_headroom r, oc_committed_units = committed,
              oc_observed_available_units = observed_available,
              oc_uncertainty_headroom_units = uncertainty,
              oc_admission_capacity = admission_capacity\<rparr>) (\<lambda>c.
         rbind (observe_pools policy metrics healthy committed_by rs budget') (\<lambda>cs.
         Inr (c # cs))))"

definition total_llm_committed :: "resource_reservation list \<Rightarrow> int" where
  "total_llm_committed reservations =
     (\<Sum>r\<leftarrow>filter (\<lambda>r. rr_resource_class r = LLM_INFERENCE) reservations. rr_units r)"

definition build_resource_observation ::
  "(uuid \<Rightarrow> string \<Rightarrow> uuid) \<Rightarrow> (resource_observation \<Rightarrow> string) \<Rightarrow> int \<Rightarrow> datetime \<Rightarrow>
     execution_resource list \<Rightarrow> resource_reservation list \<Rightarrow> resource_safety_policy \<Rightarrow>
     host_resource_metrics option \<Rightarrow> string list \<Rightarrow> string \<Rightarrow> resource_observation res" where
  "build_resource_observation uuid5 dump scheduler_cycle captured_at resources reservations policy
       metrics probe_errors host_id =
     rbind (obs_as_utc captured_at) (\<lambda>captured.
     (let errors = filter (\<lambda>e. e \<noteq> []) (map py_strip probe_errors);
          healthy = (metrics \<noteq> None \<and> errors = [])
      in raise_if (total_llm_committed reservations > sp_llm_concurrency_limit policy)
           (ResourceObservationError ''committed LLM reservations exceed the configured safety limit'')
         (rbind (observe_pools policy metrics healthy (committed_by_resource reservations)
              (sort_key execution_resource_sort_key resources)
              (sp_llm_concurrency_limit policy - total_llm_committed reservations)) (\<lambda>capacities.
          let provisional =
              \<lparr>ob_observation_id = 0, ob_scheduler_cycle = scheduler_cycle,
               ob_captured_at = captured,
               ob_valid_until =
                 Aware (dt_instant captured + sp_observation_max_age_seconds policy * 1000000) 0,
               ob_safety_policy_version = sp_policy_version policy, ob_policy = policy,
               ob_host_id = host_id, ob_healthy = healthy, ob_probe_errors = errors,
               ob_metrics = metrics, ob_capacities = capacities\<rparr>
          in validate_observation uuid5 dump
               (provisional\<lparr>ob_observation_id :=
                  deterministic_resource_observation_id uuid5 dump provisional\<rparr>)))))"

section \<open>The envelope is well-formed\<close>

lemma ceil_percent_bounds:
  assumes "0 \<le> n" and "0 \<le> pct" and "pct \<le> 100"
  shows "0 \<le> ceil_percent n pct" and "ceil_percent n pct \<le> n"
proof -
  have "0 \<le> n * pct" using assms by simp
  moreover have "n * pct \<le> n * 100" using assms by (intro mult_left_mono) auto
  ultimately show "0 \<le> ceil_percent n pct" and "ceil_percent n pct \<le> n"
    by (simp_all add: ceil_percent_def)
qed

lemma dval_committed_aux:
  "dval (fold (\<lambda>r d. dset (rr_resource_id r) (dval d (rr_resource_id r) + rr_units r) d) rs d) k =
     dval d k + (\<Sum>r\<leftarrow>filter (\<lambda>r. rr_resource_id r = k) rs. rr_units r)"
  by (induction rs arbitrary: d) auto

lemma dval_committed:
  "dval (committed_by_resource rs) k = (\<Sum>r\<leftarrow>filter (\<lambda>r. rr_resource_id r = k) rs. rr_units r)"
  unfolding committed_by_resource_def by (subst dval_committed_aux) (simp add: dval_def)

lemma cpu_headroom_bounds:
  assumes "wf_policy p" and "1 \<le> n"
  shows "0 \<le> cpu_system_headroom_units p n" and "cpu_system_headroom_units p n \<le> n"
  using assms ceil_percent_bounds [of n "sp_cpu_system_headroom_percent p"]
  by (auto simp: cpu_system_headroom_units_def wf_policy_def)

lemma memory_headroom_bounds:
  assumes "wf_policy p" and "1 \<le> n"
  shows "0 \<le> memory_system_headroom_mib p n" and "memory_system_headroom_mib p n \<le> n"
  using assms by (auto simp: memory_system_headroom_mib_def wf_policy_def)

lemma resource_ids_stripped [simp]:
  "py_strip HOST_CPU_RESOURCE_ID = HOST_CPU_RESOURCE_ID"
  "py_strip HOST_MEMORY_RESOURCE_ID = HOST_MEMORY_RESOURCE_ID"
  "py_strip LOCAL_LLM_RESOURCE_ID = LOCAL_LLM_RESOURCE_ID"
  "HOST_CPU_RESOURCE_ID \<noteq> []" "HOST_MEMORY_RESOURCE_ID \<noteq> []" "LOCAL_LLM_RESOURCE_ID \<noteq> []"
  by code_simp+

lemma resource_ids_distinct [simp]:
  "HOST_CPU_RESOURCE_ID \<noteq> HOST_MEMORY_RESOURCE_ID" "HOST_MEMORY_RESOURCE_ID \<noteq> HOST_CPU_RESOURCE_ID"
  "HOST_CPU_RESOURCE_ID \<noteq> LOCAL_LLM_RESOURCE_ID" "LOCAL_LLM_RESOURCE_ID \<noteq> HOST_CPU_RESOURCE_ID"
  "HOST_MEMORY_RESOURCE_ID \<noteq> LOCAL_LLM_RESOURCE_ID"
  "LOCAL_LLM_RESOURCE_ID \<noteq> HOST_MEMORY_RESOURCE_ID"
  by (simp_all add: HOST_CPU_RESOURCE_ID_def HOST_MEMORY_RESOURCE_ID_def LOCAL_LLM_RESOURCE_ID_def)

text \<open>What one iteration grants: at least what is committed, at most the safe capacity.\<close>

lemma observe_pool_bounds:
  assumes "observe_pool policy metrics healthy committed r budget = (ms, ob, un, adm, budget')"
    and "wf_policy policy" "\<And>m. metrics = Some m \<Longrightarrow> wf_metrics m" "wf_resource r"
    and "0 \<le> committed" "committed \<le> admissible_capacity r" "0 \<le> budget"
  shows "0 \<le> ob \<and> 0 \<le> un \<and> committed \<le> adm \<and> adm \<le> admissible_capacity r \<and>
    0 \<le> budget' \<and> budget' \<le> budget"
proof -
  let ?pct = "sp_uncertainty_headroom_percent policy"
  have pct: "0 \<le> ?pct" "?pct \<le> 100" using assms(2) by (auto simp: wf_policy_def)
  have un: "0 \<le> ceil_percent (max 0 x) ?pct" for x :: int
    by (rule ceil_percent_bounds) (use pct in auto)
  have idle: "0 \<le> cpu_idle_units policy m" if "metrics = Some m" for m
  proof -
    have "cpu_pressure m \<le> 100"
      using assms(3) [OF that] by (auto simp: cpu_pressure_def wf_metrics_def split: option.split)
    then have "0 \<le> hm_logical_cpu_count m * (100 - cpu_pressure m)"
      using assms(3) [OF that] by (simp add: wf_metrics_def)
    then show ?thesis by (simp add: cpu_idle_units_def pos_imp_zdiv_nonneg_iff)
  qed
  have mem: "0 \<le> hm_memory_available_mib m" if "metrics = Some m" for m
    using assms(3) [OF that] by (simp add: wf_metrics_def)
  show ?thesis
    using assms(1,5-) un idle mem
    by (auto simp: observe_pool_def Let_def split: if_splits option.splits bool.splits)
qed

text \<open>The whole loop succeeds and its result lists the pools in order, each within its bounds.\<close>

definition envelope_of ::
  "(string, int) dict \<Rightarrow> execution_resource \<Rightarrow> observed_resource_capacity \<Rightarrow> bool" where
  "envelope_of committed_by r c \<longleftrightarrow>
     oc_resource_id c = er_resource_id r \<and> oc_resource_class c = er_resource_class r \<and>
     oc_configured_capacity c = er_capacity r \<and>
     oc_configured_headroom_units c = er_system_headroom r \<and>
     oc_committed_units c = dval committed_by (er_resource_id r) \<and>
     oc_committed_units c \<le> oc_admission_capacity c \<and>
     oc_admission_capacity c \<le> admissible_capacity r"

lemma observe_pools_ok:
  assumes "wf_policy policy" "\<And>m. metrics = Some m \<Longrightarrow> wf_metrics m" "0 \<le> budget"
    and "\<And>r. r \<in> set rs \<Longrightarrow> wf_resource r \<and> 0 \<le> dval committed_by (er_resource_id r) \<and>
       dval committed_by (er_resource_id r) \<le> admissible_capacity r"
  shows "\<exists>cs. observe_pools policy metrics healthy committed_by rs budget = Inr cs \<and>
    list_all2 (envelope_of committed_by) rs cs"
  using assms(3,4)
proof (induction rs arbitrary: budget)
  case (Cons r rs)
  let ?committed = "dval committed_by (er_resource_id r)"
  obtain ms ob un adm budget' where
    step: "observe_pool policy metrics healthy ?committed r budget = (ms, ob, un, adm, budget')"
    by (metis prod_cases5)
  have wf: "wf_resource r" "0 \<le> ?committed" "?committed \<le> admissible_capacity r"
    using Cons.prems(2) [of r] by auto
  note b = observe_pool_bounds [OF step assms(1,2) wf(1,2,3) Cons.prems(1)]
  obtain cs where cs: "observe_pools policy metrics healthy committed_by rs budget' = Inr cs"
    "list_all2 (envelope_of committed_by) rs cs"
    using Cons.IH [of budget'] Cons.prems(2) b by auto
  have "admissible_capacity r \<le> er_capacity r - er_system_headroom r"
    using wf(1) by (auto simp: admissible_capacity_def wf_resource_def)
  with b wf step have "\<exists>c. envelope_of committed_by r c \<and>
      observe_pools policy metrics healthy committed_by (r # rs) budget = Inr (c # cs)"
    by (simp add: cs Let_def envelope_of_def validate_capacity_envelope_def
        normalize_resource_id_def wf_resource_def)
  with cs(2) show ?case by auto
qed simp

lemma sort_key_sorted_id: "sorted (map f xs) \<Longrightarrow> sort_key f xs = xs"
proof (induction xs)
  case (Cons x xs)
  then show ?case by (cases xs) auto
qed simp

lemma envelope_keys:
  "list_all2 (envelope_of committed_by) rs cs \<Longrightarrow>
     map observed_capacity_sort_key cs = map execution_resource_sort_key rs \<and>
     map oc_resource_id cs = map er_resource_id rs"
  by (induction rule: list_all2_induct)
    (auto simp: envelope_of_def observed_capacity_sort_key_def execution_resource_sort_key_def)

text \<open>C36. Building an observation from well-formed pools whose reservations fit never fails, and the
  snapshot it returns lists every configured pool once, with an admission capacity between the
  committed units and the configured safe capacity of that pool.\<close>

theorem build_resource_observation_envelope:
  assumes "wf_policy policy" and "\<And>m. metrics = Some m \<Longrightarrow> wf_metrics m"
    and "distinct (map er_resource_id resources)" and "\<And>r. r \<in> set resources \<Longrightarrow> wf_resource r"
    and "\<And>r. r \<in> set resources \<Longrightarrow> 0 \<le> dval (committed_by_resource reservations) (er_resource_id r)
       \<and> dval (committed_by_resource reservations) (er_resource_id r) \<le> admissible_capacity r"
    and "total_llm_committed reservations \<le> sp_llm_concurrency_limit policy"
    and "1 \<le> scheduler_cycle" and "host_id \<noteq> []"
  shows "\<exists>o1. build_resource_observation uuid5 dump scheduler_cycle (Aware w off) resources
       reservations policy metrics probe_errors host_id = Inr o1 \<and>
     list_all2 (envelope_of (committed_by_resource reservations))
       (sort_key execution_resource_sort_key resources) (ob_capacities o1)"
proof -
  let ?rs = "sort_key execution_resource_sort_key resources"
  let ?healthy = "metrics \<noteq> None \<and> filter (\<lambda>e. e \<noteq> []) (map py_strip probe_errors) = []"
  let ?budget = "sp_llm_concurrency_limit policy - total_llm_committed reservations"
  have "\<exists>cs. observe_pools policy metrics ?healthy (committed_by_resource reservations)
      ?rs ?budget = Inr cs \<and> list_all2 (envelope_of (committed_by_resource reservations)) ?rs cs"
    by (rule observe_pools_ok) (use assms in auto)
  then obtain cs where cs: "observe_pools policy metrics ?healthy
      (committed_by_resource reservations) ?rs ?budget = Inr cs"
    and env: "list_all2 (envelope_of (committed_by_resource reservations)) ?rs cs" by blast
  have "sorted (map observed_capacity_sort_key cs)"
    using envelope_keys [OF env] by simp
  then have sorted: "sort_key observed_capacity_sort_key cs = cs" by (rule sort_key_sorted_id)
  have "distinct (map oc_resource_id cs)"
    using envelope_keys [OF env] assms(3) by (simp add: distinct_map)
  with cs env sorted assms(1,6-8) show ?thesis
    by (simp add: build_resource_observation_def obs_as_utc_def Let_def validate_observation_def
        deterministic_resource_observation_id_def wf_policy_def)
qed

definition sample_pool :: "string \<Rightarrow> execution_resource_class \<Rightarrow> int \<Rightarrow> int \<Rightarrow> execution_resource" where
  "sample_pool rid cls cap head =
     \<lparr>er_resource_id = rid, er_resource_class = cls, er_capacity = cap, er_system_headroom = head,
      er_enabled = True, er_metadata = []\<rparr>"

definition sample_metrics :: host_resource_metrics where
  "sample_metrics =
     \<lparr>hm_platform = ''Linux'', hm_logical_cpu_count = 8, hm_cpu_utilization_percent = 25,
      hm_load_1m = Some 2, hm_memory_total_mib = 16000, hm_memory_available_mib = 9000\<rparr>"

definition sample_reservation ::
  "uuid \<Rightarrow> string \<Rightarrow> execution_resource_class \<Rightarrow> int \<Rightarrow> resource_reservation" where
  "sample_reservation t rid cls n =
     \<lparr>rr_reservation_id = t, rr_task_id = t, rr_resource_id = rid, rr_resource_class = cls,
      rr_units = n\<rparr>"

theorem build_resource_observation_envelope_witness:
  "\<exists>o1. build_resource_observation (\<lambda>ns name. ns) (\<lambda>o1. []) 1 (Aware 7 0)
       [sample_pool ''host-cpu'' CPU_GENERAL 8 1, sample_pool ''host-ram-mib'' MEMORY_RAM 16000 1600]
       [sample_reservation 1 ''host-cpu'' CPU_GENERAL 2] default_resource_safety_policy
       (Some sample_metrics) [] ''local'' = Inr o1 \<and>
     list_all2 (envelope_of (committed_by_resource [sample_reservation 1 ''host-cpu'' CPU_GENERAL 2]))
       (sort_key execution_resource_sort_key
          [sample_pool ''host-cpu'' CPU_GENERAL 8 1, sample_pool ''host-ram-mib'' MEMORY_RAM 16000 1600])
       (ob_capacities o1)"
proof (rule build_resource_observation_envelope)
  show "wf_policy default_resource_safety_policy" by code_simp
  show "wf_metrics m" if "Some sample_metrics = Some m" for m
    using that by (auto simp: wf_metrics_def sample_metrics_def)
  have [simp]: "py_strip ''host-cpu'' = ''host-cpu''" "py_strip ''host-ram-mib'' = ''host-ram-mib''"
    by code_simp+
  show "wf_resource r" if "r \<in> set [sample_pool ''host-cpu'' CPU_GENERAL 8 1,
      sample_pool ''host-ram-mib'' MEMORY_RAM 16000 1600]" for r
    using that by (auto simp: wf_resource_def sample_pool_def)
qed (auto simp: sample_pool_def sample_reservation_def committed_by_resource_def dval_def
    admissible_capacity_def total_llm_committed_def default_resource_safety_policy_def)

section \<open>Failing closed and the local-model budget\<close>

lemma observe_pool_unhealthy:
  "observe_pool policy metrics False committed r budget = (ms, ob, un, adm, budget') \<Longrightarrow>
     er_resource_class r \<in> {CPU_GENERAL, MEMORY_RAM} \<Longrightarrow> adm = committed"
  by (auto simp: observe_pool_def Let_def split: if_splits option.splits)

lemma observe_pools_unhealthy:
  "observe_pools policy metrics False committed_by rs budget = Inr cs \<Longrightarrow> c \<in> set cs \<Longrightarrow>
     oc_resource_class c \<in> {CPU_GENERAL, MEMORY_RAM} \<Longrightarrow> available_for_new_work c = 0"
proof (induction rs arbitrary: budget cs)
  case (Cons r rs)
  obtain ms ob un adm budget' where
    step: "observe_pool policy metrics False (dval committed_by (er_resource_id r)) r budget =
      (ms, ob, un, adm, budget')"
    by (metis prod_cases5)
  with Cons.prems(1) obtain c' cs' where cs: "cs = c' # cs'"
    and rest: "observe_pools policy metrics False committed_by rs budget' = Inr cs'"
    and c': "oc_committed_units c' = dval committed_by (er_resource_id r)"
      "oc_admission_capacity c' = adm" "oc_resource_class c' = er_resource_class r"
    by (auto simp: Let_def validate_capacity_envelope_def)
  show ?case
  proof (cases "c = c'")
    case True
    with observe_pool_unhealthy [OF step] c' Cons.prems(3) show ?thesis
      by (auto simp: available_for_new_work_def)
  next
    case False
    with Cons.IH [OF rest] Cons.prems(2,3) cs show ?thesis by simp
  qed
qed simp

text \<open>C37. A failed or partial probe fails closed: when the returned snapshot is not healthy (no
  metrics, or any probe error), no CPU or memory pool offers capacity beyond its committed
  reservations, whatever the configuration says.\<close>

theorem unhealthy_observation_fails_closed:
  assumes "build_resource_observation uuid5 dump scheduler_cycle captured_at resources reservations
       policy metrics probe_errors host_id = Inr o1"
    and "metrics = None \<or> (\<exists>e\<in>set probe_errors. py_strip e \<noteq> [])"
    and "c \<in> set (ob_capacities o1)" and "oc_resource_class c \<in> {CPU_GENERAL, MEMORY_RAM}"
  shows "\<not> ob_healthy o1 \<and> available_for_new_work c = 0"
proof -
  have unhealthy: "\<not> (metrics \<noteq> None \<and> filter (\<lambda>e. e \<noteq> []) (map py_strip probe_errors) = [])"
    using assms(2) by (auto simp: filter_empty_conv)
  with assms(1) obtain cs where
    "observe_pools policy metrics False (committed_by_resource reservations)
       (sort_key execution_resource_sort_key resources)
       (sp_llm_concurrency_limit policy - total_llm_committed reservations) = Inr cs"
    and "set (ob_capacities o1) = set cs" and "\<not> ob_healthy o1"
    by (auto simp: build_resource_observation_def Let_def validate_observation_def)
  then show ?thesis using observe_pools_unhealthy assms(3,4) by blast
qed

theorem unhealthy_observation_fails_closed_witness:
  "\<exists>o1 c. build_resource_observation (\<lambda>ns name. ns) (\<lambda>o1. []) 1 (Aware 7 0)
       [sample_pool ''host-cpu'' CPU_GENERAL 8 1] [] default_resource_safety_policy None
       [''probe failed''] ''local'' = Inr o1 \<and> c \<in> set (ob_capacities o1) \<and>
     oc_configured_capacity c = 8 \<and> \<not> ob_healthy o1 \<and> available_for_new_work c = 0"
proof -
  let ?b = "build_resource_observation (\<lambda>ns name. ns) (\<lambda>o1. []) 1 (Aware 7 0)
       [sample_pool ''host-cpu'' CPU_GENERAL 8 1] [] default_resource_safety_policy None
       [''probe failed''] ''local''"
  have "\<exists>o1 c. ?b = Inr o1 \<and> ob_capacities o1 = [c] \<and> oc_configured_capacity c = 8 \<and>
      oc_resource_class c = CPU_GENERAL"
    by (rule exI [of _ "projr ?b"], rule exI [of _ "hd (ob_capacities (projr ?b))"]) code_simp
  then obtain o1 c where o1: "?b = Inr o1" and c: "ob_capacities o1 = [c]"
    "oc_configured_capacity c = 8" "oc_resource_class c = CPU_GENERAL" by blast
  have "\<not> ob_healthy o1 \<and> available_for_new_work c = 0"
    by (rule unhealthy_observation_fails_closed [OF o1]) (use c in auto)
  with o1 c show ?thesis by auto
qed

lemma sum_list_filter_mset:
  "mset xs = mset ys \<Longrightarrow> (\<Sum>x\<leftarrow>filter P xs. f x) = (\<Sum>x\<leftarrow>filter P ys. f x :: int)"
  by (simp flip: sum_mset_sum_list add: mset_filter)

lemma observe_pools_llm_budget:
  assumes "\<And>r. r \<in> set rs \<Longrightarrow> er_resource_id r \<in> {HOST_CPU_RESOURCE_ID, HOST_MEMORY_RESOURCE_ID} \<Longrightarrow>
      er_resource_class r \<noteq> LLM_INFERENCE"
    and "observe_pools policy metrics healthy committed_by rs budget = Inr cs" and "0 \<le> budget"
  shows "(\<Sum>c\<leftarrow>filter (\<lambda>c. oc_resource_class c = LLM_INFERENCE) cs. available_for_new_work c) \<le> budget"
  using assms
proof (induction rs arbitrary: budget cs)
  case (Cons r rs)
  obtain ms ob un adm budget' where
    step: "observe_pool policy metrics healthy (dval committed_by (er_resource_id r)) r budget =
      (ms, ob, un, adm, budget')"
    by (metis prod_cases5)
  with Cons.prems(2) obtain c' cs' where cs: "cs = c' # cs'"
    and rest: "observe_pools policy metrics healthy committed_by rs budget' = Inr cs'"
    and c': "available_for_new_work c' = adm - dval committed_by (er_resource_id r)"
      "oc_resource_class c' = er_resource_class r"
    by (auto simp: Let_def validate_capacity_envelope_def available_for_new_work_def)
  have b: "0 \<le> budget' \<and>
      (er_resource_class r = LLM_INFERENCE \<longrightarrow>
         adm - dval committed_by (er_resource_id r) + budget' \<le> budget) \<and> budget' \<le> budget"
    using step Cons.prems(1) [of r] Cons.prems(3)
    by (auto simp: observe_pool_def Let_def split: if_splits option.splits bool.splits)
  have "(\<Sum>c\<leftarrow>filter (\<lambda>c. oc_resource_class c = LLM_INFERENCE) cs'. available_for_new_work c) \<le> budget'"
    by (rule Cons.IH) (use Cons.prems rest b in auto)
  with b c' cs show ?case by auto
qed simp

text \<open>The machine-wide model budget: whatever model pools are configured, the capacity a
  snapshot offers to new local-model work, together with the committed model slots, stays within the
  policy's concurrency limit. (The two host pools are CPU and memory pools, as discovery makes
  them.)\<close>

theorem observation_llm_budget:
  assumes "build_resource_observation uuid5 dump scheduler_cycle captured_at resources reservations
       policy metrics probe_errors host_id = Inr o1"
    and "\<And>r. r \<in> set resources \<Longrightarrow>
       er_resource_id r \<in> {HOST_CPU_RESOURCE_ID, HOST_MEMORY_RESOURCE_ID} \<Longrightarrow>
       er_resource_class r \<noteq> LLM_INFERENCE"
  shows "total_llm_committed reservations +
     (\<Sum>c\<leftarrow>filter (\<lambda>c. oc_resource_class c = LLM_INFERENCE) (ob_capacities o1).
        available_for_new_work c) \<le> sp_llm_concurrency_limit policy"
proof -
  let ?llm = "\<lambda>c. oc_resource_class c = LLM_INFERENCE"
  from assms(1) obtain healthy cs where
    cs: "observe_pools policy metrics healthy (committed_by_resource reservations)
       (sort_key execution_resource_sort_key resources)
       (sp_llm_concurrency_limit policy - total_llm_committed reservations) = Inr cs"
    and caps: "mset (ob_capacities o1) = mset cs"
    and le: "total_llm_committed reservations \<le> sp_llm_concurrency_limit policy"
    by (auto simp: build_resource_observation_def Let_def validate_observation_def)
  have "(\<Sum>c\<leftarrow>filter ?llm cs. available_for_new_work c)
      \<le> sp_llm_concurrency_limit policy - total_llm_committed reservations"
    by (rule observe_pools_llm_budget [OF _ cs]) (use assms(2) le in auto)
  moreover have "(\<Sum>c\<leftarrow>filter ?llm (ob_capacities o1). available_for_new_work c) =
      (\<Sum>c\<leftarrow>filter ?llm cs. available_for_new_work c)"
    by (rule sum_list_filter_mset) (rule caps)
  ultimately show ?thesis by simp
qed

theorem observation_llm_budget_witness:
  "\<exists>o1. build_resource_observation (\<lambda>ns name. ns) (\<lambda>o1. []) 1 (Aware 7 0)
       [sample_pool ''local-llm'' LLM_INFERENCE 4 0, sample_pool ''other-llm'' LLM_INFERENCE 4 0] []
       default_resource_safety_policy (Some sample_metrics) [] ''local'' = Inr o1 \<and>
     total_llm_committed [] +
     (\<Sum>c\<leftarrow>filter (\<lambda>c. oc_resource_class c = LLM_INFERENCE) (ob_capacities o1).
        available_for_new_work c) \<le> 1"
proof -
  let ?b = "build_resource_observation (\<lambda>ns name. ns) (\<lambda>o1. []) 1 (Aware 7 0)
       [sample_pool ''local-llm'' LLM_INFERENCE 4 0, sample_pool ''other-llm'' LLM_INFERENCE 4 0] []
       default_resource_safety_policy (Some sample_metrics) [] ''local''"
  have "succeeds ?b" by code_simp
  then obtain o1 where o1: "?b = Inr o1" by (auto simp: succeeds_iff)
  have "sp_llm_concurrency_limit default_resource_safety_policy = 1"
    by (simp add: default_resource_safety_policy_def)
  moreover have "total_llm_committed [] +
     (\<Sum>c\<leftarrow>filter (\<lambda>c. oc_resource_class c = LLM_INFERENCE) (ob_capacities o1).
        available_for_new_work c) \<le> sp_llm_concurrency_limit default_resource_safety_policy"
    by (rule observation_llm_budget [OF o1])
      (auto simp: sample_pool_def HOST_CPU_RESOURCE_ID_def HOST_MEMORY_RESOURCE_ID_def)
  ultimately show ?thesis using o1 by auto
qed

end
