(* ===== verification/Assignments.thy ===== *)
theory Assignments
  imports Preemption Observation
begin

text \<open>
  Scheduling epochs and durable assignments (\<^verbatim>\<open>attention_assignments.py\<close>): the entitlement to
  advance one task, the complete immutable decision of one epoch, the provisional plan that carries
  it, their validators, and the deterministic identifiers.
  \<^verbatim>\<open>pending_preemption_snapshot_key\<close> is pydantic's JSON text of an intent: it is the argument
  \<open>intent_json\<close>.
\<close>

section \<open>Data\<close>

definition ASSIGNMENT_POLICY_VERSION :: string where
  "ASSIGNMENT_POLICY_VERSION = ''v0.7-d-epoch-v1''"

definition EPOCH_NAMESPACE :: uuid where
  "EPOCH_NAMESPACE = 0xd82c9bb51c094cc6a28dff46aa1ca7cd"

datatype assignment_status = READY

datatype scheduling_epoch_status = PLANNED | COMMITTED

record durable_assignment =
  da_assignment_id :: uuid
  da_task_id :: uuid
  da_task_revision :: int
  da_created_epoch_sequence :: int
  da_reservation_ids :: "uuid list"
  da_status :: assignment_status

record scheduling_epoch =
  ep_epoch_id :: uuid
  ep_sequence :: int
  ep_previous_epoch_id :: "uuid option"
  ep_scheduler_cycle :: int
  ep_admission_policy_version :: string
  ep_assignment_policy_version :: string
  ep_status :: scheduling_epoch_status
  ep_assignment_ids :: "uuid list"
  ep_reservations :: "resource_reservation list"
  ep_preemption_policy_version :: "string option"
  ep_pending_preemptions :: "pending_preemption list"
  ep_preemption_event_ids :: "uuid list"
  ep_executed_preemption_ids :: "uuid list"
  ep_cancelled_preemption_ids :: "uuid list"
  ep_resource_observation_id :: "uuid option"
  ep_resource_safety_policy_version :: "string option"

record scheduling_epoch_plan =
  pl_epoch :: scheduling_epoch
  pl_admitted_task_ids :: "uuid list"
  pl_unadmitted_task_ids :: "uuid list"
  pl_assignments :: "durable_assignment list"
  pl_pending_preemptions :: "pending_preemption list"
  pl_preemption_events :: "preemption_event list"
  pl_resource_observation :: "resource_observation option"

section \<open>Validators\<close>

definition validate_assignment :: "durable_assignment \<Rightarrow> durable_assignment res" where
  "validate_assignment a =
     raise_if (da_task_revision a < 0) (ValueError ''task_revision: ge 0'')
    (raise_if (da_created_epoch_sequence a < 1) (ValueError ''created_epoch_sequence: ge 1'')
    (raise_if (\<not> distinct (da_reservation_ids a))
       (ValueError ''reservation_ids must not contain duplicates'')
    (Inr a)))"

text \<open>\<^verbatim>\<open>SchedulingEpoch\<close>'s constructor: it checks the complete set and returns the epoch with
  reservations and intents in canonical order.\<close>

definition normalize_complete_set :: "scheduling_epoch \<Rightarrow> scheduling_epoch res" where
  "normalize_complete_set e =
     raise_if (ep_sequence e < 1) (ValueError ''sequence: ge 1'')
    (raise_if (ep_scheduler_cycle e < 0) (ValueError ''scheduler_cycle: ge 0'')
    (raise_if (ep_admission_policy_version e = [])
       (ValueError ''admission_policy_version: min_length'')
    (raise_if (ep_assignment_policy_version e = [])
       (ValueError ''assignment_policy_version: min_length'')
    (raise_if (\<not> distinct (ep_assignment_ids e))
       (ValueError ''assignment_ids must not contain duplicates'')
    (raise_if (\<not> distinct (map rr_reservation_id (ep_reservations e)))
       (ValueError ''epoch reservations must not contain duplicate ids'')
    (raise_if (case ep_preemption_policy_version e of None \<Rightarrow> False | Some v \<Rightarrow> py_strip v = [])
       (ValueError ''preemption_policy_version must not be empty'')
    (raise_if (ep_preemption_policy_version e = None \<and>
        (ep_pending_preemptions e \<noteq> [] \<or> ep_preemption_event_ids e \<noteq> [] \<or>
         ep_executed_preemption_ids e \<noteq> [] \<or> ep_cancelled_preemption_ids e \<noteq> []))
       (ValueError ''Preemption epoch data requires a policy version'')
    (raise_if (\<not> distinct (ep_preemption_event_ids e))
       (ValueError ''preemption_event_ids must not contain duplicates'')
    (raise_if (\<not> distinct (ep_executed_preemption_ids e))
       (ValueError ''executed_preemption_ids must not contain duplicates'')
    (raise_if (\<not> distinct (ep_cancelled_preemption_ids e))
       (ValueError ''cancelled_preemption_ids must not contain duplicates'')
    (raise_if (set (ep_executed_preemption_ids e) \<inter> set (ep_cancelled_preemption_ids e) \<noteq> {})
       (ValueError ''An epoch cannot execute and cancel one preemption'')
    (raise_if ((ep_resource_observation_id e = None) \<noteq> (ep_resource_safety_policy_version e = None))
       (ValueError ''Resource observation id and safety policy version must appear together'')
    (raise_if (case ep_resource_safety_policy_version e of None \<Rightarrow> False | Some v \<Rightarrow> py_strip v = [])
       (ValueError ''resource_safety_policy_version must not be empty'')
    (Inr (e\<lparr>ep_reservations := sort_key resource_reservation_sort_key (ep_reservations e),
            ep_pending_preemptions :=
              sort_key pending_preemption_sort_key (ep_pending_preemptions e)\<rparr>)))))))))))))))"

text \<open>The loop over the intents of a plan: one intent per target, one intent per victim.\<close>

definition collect_intent ::
  "pending_preemption \<Rightarrow> uuid set \<times> uuid set \<Rightarrow> (uuid set \<times> uuid set) res" where
  "collect_intent p acc =
     raise_if (pp_target_task_id p \<in> fst acc)
       (ValueError ''A task may be the target of only one pending preemption'')
    (raise_if (snd acc \<inter> set (pp_victim_task_ids p) \<noteq> {})
       (ValueError ''A victim may belong to only one pending preemption'')
    (Inr (insert (pp_target_task_id p) (fst acc), snd acc \<union> set (pp_victim_task_ids p))))"

definition event_preemption_ids ::
  "preemption_event_type \<Rightarrow> preemption_event list \<Rightarrow> uuid list" where
  "event_preemption_ids k events =
     map pv_preemption_id (filter (\<lambda>v. pv_event_type v = k) events)"

definition validate_complete_plan ::
  "(pending_preemption \<Rightarrow> string) \<Rightarrow> scheduling_epoch_plan \<Rightarrow> scheduling_epoch_plan res" where
  "validate_complete_plan intent_json p =
    (let e = pl_epoch p; admitted = pl_admitted_task_ids p; unadmitted = pl_unadmitted_task_ids p;
         normalized_pending = sort_key pending_preemption_sort_key (pl_pending_preemptions p)
     in
     raise_if (ep_status e \<noteq> PLANNED) (ValueError ''A scheduling epoch plan must be PLANNED'')
    (raise_if (\<not> distinct admitted)
       (ValueError ''admitted_task_ids must not contain duplicates'')
    (raise_if (\<not> distinct unadmitted)
       (ValueError ''unadmitted_task_ids must not contain duplicates'')
    (raise_if (set admitted \<inter> set unadmitted \<noteq> {})
       (ValueError ''admitted and unadmitted task ids must be disjoint'')
    (raise_if (\<not> (\<forall>r\<in>set (ep_reservations e). rr_task_id r \<in> set admitted))
       (ValueError ''every epoch reservation must belong to an admitted task'')
    (raise_if (map da_assignment_id (pl_assignments p) \<noteq> ep_assignment_ids e)
       (ValueError ''epoch assignment_ids must match assignments in order'')
    (raise_if (map da_task_id (pl_assignments p) \<noteq> admitted)
       (ValueError ''one assignment must exist for every admitted task in order'')
    (raise_if (\<not> (\<forall>a\<in>set (pl_assignments p). set (da_reservation_ids a) =
         rr_reservation_id ` set (filter (\<lambda>r. rr_task_id r = da_task_id a) (ep_reservations e))))
       (ValueError ''assignment reservation_ids must match its complete reservation set'')
    (raise_if (map intent_json normalized_pending \<noteq> map intent_json (ep_pending_preemptions e))
       (ValueError ''epoch pending preemptions must match the plan snapshot'')
    (raise_if (\<not> distinct (map pv_event_id (pl_preemption_events p)))
       (ValueError ''preemption_events must not contain duplicate ids'')
    (raise_if (map pv_event_id (pl_preemption_events p) \<noteq> ep_preemption_event_ids e)
       (ValueError ''epoch preemption event ids must match events in order'')
    (raise_if (event_preemption_ids EXECUTED (pl_preemption_events p) \<noteq> ep_executed_preemption_ids e)
       (ValueError ''epoch executed preemption ids must match its events'')
    (raise_if (event_preemption_ids CANCELLED (pl_preemption_events p) \<noteq> ep_cancelled_preemption_ids e)
       (ValueError ''epoch cancelled preemption ids must match its events'')
    (rbind (rfold collect_intent normalized_pending ({}, {})) (\<lambda>(pending_targets, pending_victims).
     raise_if (pending_targets \<inter> pending_victims \<noteq> {})
       (ValueError ''Pending targets and victims must be disjoint'')
    (raise_if (\<not> pending_targets \<subseteq> set unadmitted)
       (ValueError ''Pending preemption targets must remain unadmitted'')
    (raise_if (\<not> pending_victims \<subseteq> set admitted)
       (ValueError ''Pending preemption victims must remain admitted'')
    (raise_if (case ep_resource_observation_id e of
         None \<Rightarrow> pl_resource_observation p \<noteq> None
       | Some oid \<Rightarrow>
           (case pl_resource_observation p of
              None \<Rightarrow> True
            | Some ob \<Rightarrow> ob_observation_id ob \<noteq> oid \<or>
                Some (ob_safety_policy_version ob) \<noteq> ep_resource_safety_policy_version e \<or>
                ob_scheduler_cycle ob \<noteq> ep_scheduler_cycle e))
       (ValueError ''Epoch must reference its exact resource observation'')
    (Inr (p\<lparr>pl_pending_preemptions := normalized_pending\<rparr>))))))))))))))))))))"

section \<open>Deterministic identifiers\<close>

definition reservation_key_text :: "resource_reservation list \<Rightarrow> string" where
  "reservation_key_text reservations =
     py_join '','' (map (\<lambda>r. uuid_str (rr_reservation_id r) @ '':'' @ int_str (rr_units r))
       (sort_key resource_reservation_sort_key reservations))"

definition deterministic_assignment_id ::
  "(uuid \<Rightarrow> string \<Rightarrow> uuid) \<Rightarrow> uuid \<Rightarrow> int \<Rightarrow> int \<Rightarrow> resource_reservation list \<Rightarrow> uuid res" where
  "deterministic_assignment_id uuid5 task_id task_revision created_epoch_sequence reservations =
     raise_if (task_revision < 0) (ValueError ''task_revision must be >= 0'')
    (raise_if (created_epoch_sequence < 1) (ValueError ''created_epoch_sequence must be >= 1'')
    (Inr (uuid5 task_id (''prometheist-assignment:'' @ int_str task_revision @ '':'' @
       int_str created_epoch_sequence @ '':'' @ reservation_key_text reservations))))"

text \<open>The arguments of \<^verbatim>\<open>deterministic_epoch_id\<close> are the fields of the epoch it names, so the model
  takes the epoch; its identifier and status are not read.\<close>

definition deterministic_epoch_id ::
  "(uuid \<Rightarrow> string \<Rightarrow> uuid) \<Rightarrow> (pending_preemption \<Rightarrow> string) \<Rightarrow> scheduling_epoch \<Rightarrow> uuid res" where
  "deterministic_epoch_id uuid5 intent_json e =
     raise_if (ep_sequence e < 1) (ValueError ''sequence must be >= 1'')
    (raise_if (ep_scheduler_cycle e < 0) (ValueError ''scheduler_cycle must be >= 0'')
    (let previous = (case ep_previous_epoch_id e of None \<Rightarrow> ''root'' | Some i \<Rightarrow> uuid_str i);
         base = [int_str (ep_sequence e), previous, int_str (ep_scheduler_cycle e),
           ep_admission_policy_version e, ep_assignment_policy_version e,
           py_join '','' (map uuid_str (ep_assignment_ids e)),
           reservation_key_text (ep_reservations e)];
         pending = sort_key pending_preemption_sort_key (ep_pending_preemptions e)
     in
     rbind (case ep_preemption_policy_version e of
         None \<Rightarrow>
           raise_if (pending \<noteq> [] \<or> ep_preemption_event_ids e \<noteq> [] \<or>
               ep_executed_preemption_ids e \<noteq> [] \<or> ep_cancelled_preemption_ids e \<noteq> [])
             (ValueError ''Preemption epoch data requires a policy version'') (Inr [])
       | Some v \<Rightarrow>
           raise_if (py_strip v = []) (ValueError ''preemption_policy_version must not be empty'')
             (Inr [v, py_join '','' (map intent_json pending),
                py_join '','' (map uuid_str (ep_preemption_event_ids e)),
                py_join '','' (map uuid_str (ep_executed_preemption_ids e)),
                py_join '','' (map uuid_str (ep_cancelled_preemption_ids e))])) (\<lambda>preemption.
     rbind (raise_if ((ep_resource_observation_id e = None) \<noteq>
            (ep_resource_safety_policy_version e = None))
          (ValueError ''Resource observation id and safety policy version must appear together'')
       (case (ep_resource_observation_id e, ep_resource_safety_policy_version e) of
          (Some oid, Some v) \<Rightarrow>
            raise_if (py_strip v = [])
              (ValueError ''resource_safety_policy_version must not be empty'')
              (Inr [uuid_str oid, v])
        | _ \<Rightarrow> Inr [])) (\<lambda>observation.
     Inr (uuid5 EPOCH_NAMESPACE (py_join ''|'' (base @ preemption @ observation)))))))"

section \<open>Shapes of validated values\<close>

interpretation intent_order: canonical_order pending_preemption_sort_key pp_preemption_id
  by unfold_locales (simp add: pending_preemption_sort_key_def)

lemma collect_intent_eq_Inr: "collect_intent p (T, V) = Inr x \<longleftrightarrow>
    pp_target_task_id p \<notin> T \<and> V \<inter> set (pp_victim_task_ids p) = {} \<and>
    x = (insert (pp_target_task_id p) T, V \<union> set (pp_victim_task_ids p))"
  by (auto simp: collect_intent_def)

lemma collect_intent_result:
  "rfold collect_intent ps (T, V) = Inr (T', V') \<Longrightarrow>
     T' = T \<union> pp_target_task_id ` set ps \<and> V' = V \<union> (\<Union>p\<in>set ps. set (pp_victim_task_ids p))"
proof (induction ps arbitrary: T V)
  case (Cons p ps)
  from Cons.prems have "rfold collect_intent ps
      (insert (pp_target_task_id p) T, V \<union> set (pp_victim_task_ids p)) = Inr (T', V')"
    by (auto simp: collect_intent_eq_Inr)
  from Cons.IH [OF this] show ?case by auto
qed simp

lemma collect_intent_ok:
  "distinct (map pp_target_task_id ps) \<Longrightarrow> pp_target_task_id ` set ps \<inter> T = {} \<Longrightarrow>
   distinct (concat (map pp_victim_task_ids ps)) \<Longrightarrow>
   (\<Union>p\<in>set ps. set (pp_victim_task_ids p)) \<inter> V = {} \<Longrightarrow>
     rfold collect_intent ps (T, V) =
       Inr (T \<union> pp_target_task_id ` set ps, V \<union> (\<Union>p\<in>set ps. set (pp_victim_task_ids p)))"
proof (induction ps arbitrary: T V)
  case (Cons p ps)
  have "collect_intent p (T, V) =
      Inr (insert (pp_target_task_id p) T, V \<union> set (pp_victim_task_ids p))"
    using Cons.prems by (auto simp: collect_intent_eq_Inr)
  moreover have "rfold collect_intent ps (insert (pp_target_task_id p) T, V \<union> set (pp_victim_task_ids p)) =
      Inr (insert (pp_target_task_id p) T \<union> pp_target_task_id ` set ps,
           V \<union> set (pp_victim_task_ids p) \<union> (\<Union>q\<in>set ps. set (pp_victim_task_ids q)))"
    by (rule Cons.IH) (use Cons.prems in auto)
  ultimately show ?case by (simp add: Un_assoc)
qed simp

lemma normalize_complete_set_result:
  "normalize_complete_set e = Inr e' \<Longrightarrow>
     e' = e\<lparr>ep_reservations := sort_key resource_reservation_sort_key (ep_reservations e),
            ep_pending_preemptions := sort_key pending_preemption_sort_key (ep_pending_preemptions e)\<rparr> \<and>
     distinct (ep_assignment_ids e) \<and> distinct (map rr_reservation_id (ep_reservations e))"
  by (auto simp: normalize_complete_set_def)

lemma validate_complete_plan_result:
  assumes "validate_complete_plan intent_json p = Inr p'"
  shows "p' = p\<lparr>pl_pending_preemptions := sort_key pending_preemption_sort_key (pl_pending_preemptions p)\<rparr>"
    and "distinct (pl_admitted_task_ids p)"
    and "set (pl_admitted_task_ids p) \<inter> set (pl_unadmitted_task_ids p) = {}"
    and "map da_task_id (pl_assignments p) = pl_admitted_task_ids p"
    and "map da_assignment_id (pl_assignments p) = ep_assignment_ids (pl_epoch p)"
    and "\<forall>r\<in>set (ep_reservations (pl_epoch p)). rr_task_id r \<in> set (pl_admitted_task_ids p)"
    and "\<forall>q\<in>set (pl_pending_preemptions p). pp_target_task_id q \<in> set (pl_unadmitted_task_ids p) \<and>
          set (pp_victim_task_ids q) \<subseteq> set (pl_admitted_task_ids p)"
  using assms by (auto simp: validate_complete_plan_def Let_def dest!: collect_intent_result)

end
