(* ===== verification/Tasks.thy ===== *)
theory Tasks
  imports Assignments
begin

text \<open>
  Task data of the attention scheduler (first part of \<^verbatim>\<open>attention.py\<close>): priorities, service
  classes and their guarantees, scheduling metadata with its resource contract, tasks and their
  transitions. Deadlines are compared as UTC instants; the overflow of a conversion at the ends of
  the calendar is not modelled.
\<close>

section \<open>Data\<close>

datatype priority_class = P0 | P1 | P2 | P3 | P4 | P5

fun priority_int :: "priority_class \<Rightarrow> int" where
  "priority_int P0 = 0"
| "priority_int P1 = 1"
| "priority_int P2 = 2"
| "priority_int P3 = 3"
| "priority_int P4 = 4"
| "priority_int P5 = 5"

datatype task_criticality =
    EMERGENCY | USER_BLOCKING | USER_REQUESTED | SUPPORTING | MAINTENANCE_WORK | OPPORTUNISTIC

fun CRITICALITY_PRIORITY :: "task_criticality \<Rightarrow> priority_class" where
  "CRITICALITY_PRIORITY EMERGENCY = P0"
| "CRITICALITY_PRIORITY USER_BLOCKING = P1"
| "CRITICALITY_PRIORITY USER_REQUESTED = P2"
| "CRITICALITY_PRIORITY SUPPORTING = P3"
| "CRITICALITY_PRIORITY MAINTENANCE_WORK = P4"
| "CRITICALITY_PRIORITY OPPORTUNISTIC = P5"

datatype service_class = INTERACTIVE | USER_WORK | SUPPORT | MAINTENANCE | BACKGROUND

definition all_service_classes :: "service_class list" where
  "all_service_classes = [INTERACTIVE, USER_WORK, SUPPORT, MAINTENANCE, BACKGROUND]"

datatype interruption_policy = PREEMPTIBLE | CHECKPOINT_ONLY | ATOMIC

datatype task_status = NEW | QUEUED | RUNNING | SUSPENDED | BLOCKED | COMPLETED | FAILED

fun task_status_value :: "task_status \<Rightarrow> string" where
  "task_status_value NEW = ''NEW''"
| "task_status_value QUEUED = ''QUEUED''"
| "task_status_value RUNNING = ''RUNNING''"
| "task_status_value SUSPENDED = ''SUSPENDED''"
| "task_status_value BLOCKED = ''BLOCKED''"
| "task_status_value COMPLETED = ''COMPLETED''"
| "task_status_value FAILED = ''FAILED''"

datatype focus_action = IDLE | START | CONTINUE | PREEMPT | WAIT_FOR_CHECKPOINT

record service_guarantee =
  sg_max_wait_cycles :: "int option"
  sg_guaranteed_priority :: priority_class

fun DEFAULT_SERVICE_GUARANTEES :: "service_class \<Rightarrow> service_guarantee" where
  "DEFAULT_SERVICE_GUARANTEES INTERACTIVE =
     \<lparr>sg_max_wait_cycles = Some 1, sg_guaranteed_priority = P1\<rparr>"
| "DEFAULT_SERVICE_GUARANTEES USER_WORK =
     \<lparr>sg_max_wait_cycles = Some 4, sg_guaranteed_priority = P2\<rparr>"
| "DEFAULT_SERVICE_GUARANTEES SUPPORT =
     \<lparr>sg_max_wait_cycles = Some 8, sg_guaranteed_priority = P2\<rparr>"
| "DEFAULT_SERVICE_GUARANTEES MAINTENANCE =
     \<lparr>sg_max_wait_cycles = Some 32, sg_guaranteed_priority = P2\<rparr>"
| "DEFAULT_SERVICE_GUARANTEES BACKGROUND =
     \<lparr>sg_max_wait_cycles = Some 128, sg_guaranteed_priority = P3\<rparr>"

record scheduling_metadata =
  sm_criticality :: task_criticality
  sm_service_class :: service_class
  sm_interruption_policy :: interruption_policy
  sm_deadline :: "datetime option"
  sm_required_capabilities :: "string list"
  sm_required_resource_classes :: "execution_resource_class list"
  sm_resource_requirements :: "resource_requirement list"
  sm_process_resource_estimate :: "process_resource_estimate option"
  sm_dependency_ids :: "uuid list"

record attention_task =
  at_task_id :: uuid
  at_task_key :: string
  at_created_seq :: int
  at_metadata :: scheduling_metadata
  at_parent_task_id :: "uuid option"
  at_status :: task_status
  at_enqueued_cycle :: int
  at_revision :: int
  at_resumable_state :: json_object

record task_transition =
  tt_transition_id :: uuid
  tt_task_id :: uuid
  tt_revision :: int
  tt_scheduler_cycle :: int
  tt_from_status :: task_status
  tt_to_status :: task_status
  tt_reason :: string

record focus_decision =
  fd_action :: focus_action
  fd_active_task_id :: "uuid option"
  fd_candidate_task_id :: "uuid option"
  fd_reason :: string

section \<open>Metadata\<close>

definition add_explicit_requirement ::
  "resource_requirement \<Rightarrow> (execution_resource_class, resource_requirement) dict \<Rightarrow>
     (execution_resource_class, resource_requirement) dict res" where
  "add_explicit_requirement q d =
     raise_if (rq_resource_class q \<in> set (dkeys d))
       (ValueError ''resource_requirements must contain each class at most once'')
       (Inr (dset (rq_resource_class q) q d))"

definition add_estimated_requirement ::
  "resource_requirement \<Rightarrow> (execution_resource_class, resource_requirement) dict \<Rightarrow>
     (execution_resource_class, resource_requirement) dict res" where
  "add_estimated_requirement q d =
     raise_if (case dget d (rq_resource_class q) of None \<Rightarrow> False
               | Some existing \<Rightarrow> rq_units existing \<noteq> rq_units q)
       (ValueError ''process_resource_estimate conflicts with an explicit requirement'')
       (Inr (dset (rq_resource_class q) q d))"

definition normalize_resource_contract :: "scheduling_metadata \<Rightarrow> scheduling_metadata res" where
  "normalize_resource_contract md =
     rbind (rfold add_explicit_requirement (sm_resource_requirements md) []) (\<lambda>explicit.
     rbind (case sm_process_resource_estimate md of
         None \<Rightarrow> Inr explicit
       | Some e \<Rightarrow>
           rbind (estimate_resource_requirements e) (\<lambda>qs.
             rfold add_estimated_requirement qs explicit)) (\<lambda>by_class.
     (let required = remdups (sm_required_resource_classes md @ dkeys by_class)
      in raise_if (case sm_process_resource_estimate md of None \<Rightarrow> False
                   | Some e \<Rightarrow> LLM_INFERENCE \<in> set required \<and> pe_llm_slots e \<noteq> 1)
           (ValueError ''an LLM-backed process estimate must reserve exactly one LLM slot'')
         (Inr (md\<lparr>sm_required_resource_classes :=
                    sort_key execution_resource_class_sort_key required,
                  sm_resource_requirements :=
                    sort_key resource_requirement_sort_key (dvalues by_class)\<rparr>)))))"

definition quantitative_resource_requirements ::
  "scheduling_metadata \<Rightarrow> resource_requirement list" where
  "quantitative_resource_requirements md =
     (let explicit = dict_of rq_resource_class (sm_resource_requirements md)
      in map (\<lambda>c. case dget explicit c of
                Some q \<Rightarrow> q
              | None \<Rightarrow> \<lparr>rq_resource_class = c, rq_units = 1\<rparr>)
           (sm_required_resource_classes md))"

definition conservative_process_estimate ::
  "scheduling_metadata \<Rightarrow> resource_safety_policy \<Rightarrow> process_resource_estimate res" where
  "conservative_process_estimate md policy =
     (let explicit = fold (\<lambda>q. dset (rq_resource_class q) (rq_units q))
            (quantitative_resource_requirements md) [];
          llm_slots = dval explicit LLM_INFERENCE
      in raise_if (llm_slots > 1)
           (ValueError ''one bounded process estimate cannot request multiple LLM slots'')
         (let memory_default = (if llm_slots \<noteq> 0 then sp_default_llm_process_memory_mib policy
                                else sp_default_process_memory_mib policy)
          in mk_ProcessResourceEstimate
               (case dget explicit CPU_GENERAL of Some u \<Rightarrow> u
                | None \<Rightarrow> sp_default_process_cpu_units policy)
               (case dget explicit MEMORY_RAM of Some u \<Rightarrow> u | None \<Rightarrow> memory_default)
               llm_slots CONSERVATIVE_DEFAULT
               (sp_policy_version policy @
                '': conservative fallback pending profiled or historical peak data'')))"

section \<open>Identity, priority, deadlines\<close>

definition deterministic_task_id :: "(uuid \<Rightarrow> string \<Rightarrow> uuid) \<Rightarrow> uuid \<Rightarrow> string \<Rightarrow> uuid res" where
  "deterministic_task_id uuid5 namespace task_key =
     raise_if (py_strip task_key = []) (ValueError ''task_key must not be empty'')
       (Inr (uuid5 namespace (''prometheist-task:'' @ py_strip task_key)))"

definition derive_priority :: "scheduling_metadata \<Rightarrow> priority_class" where
  "derive_priority md = CRITICALITY_PRIORITY (sm_criticality md)"

definition normalize_deadline :: "datetime option \<Rightarrow> int" where
  "normalize_deadline deadline =
     (case deadline of None \<Rightarrow> datetime_max | Some d \<Rightarrow> dt_instant d)"

section \<open>Order of priorities, well-formed contracts\<close>

lemma priority_int_inject [simp]: "priority_int p = priority_int q \<longleftrightarrow> p = q"
  by (cases p; cases q) simp_all

instantiation priority_class :: linorder
begin

definition less_eq_priority_class :: "priority_class \<Rightarrow> priority_class \<Rightarrow> bool" where
  "p \<le> q \<longleftrightarrow> priority_int p \<le> priority_int q"

definition less_priority_class :: "priority_class \<Rightarrow> priority_class \<Rightarrow> bool" where
  "p < q \<longleftrightarrow> priority_int p < priority_int q"

instance
  by standard (auto simp: less_eq_priority_class_def less_priority_class_def)

end

lemma priority_int_min: "priority_int (min p q) = min (priority_int p) (priority_int q)"
  by (simp add: min_def less_eq_priority_class_def)

text \<open>A metadata value is well-formed when its class list is strictly in declaration order and every
  explicit requirement asks for at least one unit of a listed class, once.\<close>

definition wf_metadata :: "scheduling_metadata \<Rightarrow> bool" where
  "wf_metadata md \<longleftrightarrow> distinct (sm_required_resource_classes md) \<and>
     sorted_wrt (<) (map execution_resource_class_sort_key (sm_required_resource_classes md)) \<and>
     distinct (map rq_resource_class (sm_resource_requirements md)) \<and>
     (\<forall>q\<in>set (sm_resource_requirements md).
        1 \<le> rq_units q \<and> rq_resource_class q \<in> set (sm_required_resource_classes md))"

text \<open>Every requirement that is added is keyed by its own class and asks for at least one unit.\<close>

definition class_keyed :: "(execution_resource_class, resource_requirement) dict \<Rightarrow> bool" where
  "class_keyed d \<longleftrightarrow> distinct (dkeys d) \<and>
     (\<forall>(c, q)\<in>set d. rq_resource_class q = c \<and> 1 \<le> rq_units q)"

lemma class_keyed_dset: "class_keyed d \<Longrightarrow> 1 \<le> rq_units q \<Longrightarrow> class_keyed (dset (rq_resource_class q) q d)"
  using set_dset_subset [of "rq_resource_class q" q d]
  by (fastforce simp: class_keyed_def)

interpretation explicit_loop:
  result_loop add_explicit_requirement class_keyed "\<lambda>q. 1 \<le> rq_units q"
  by unfold_locales (auto simp: add_explicit_requirement_def class_keyed_dset)

interpretation estimated_loop:
  result_loop add_estimated_requirement class_keyed "\<lambda>q. 1 \<le> rq_units q"
  by unfold_locales (auto simp: add_estimated_requirement_def class_keyed_dset)

lemma estimate_requirements_pos:
  "estimate_resource_requirements e = Inr qs \<Longrightarrow> \<forall>q\<in>set qs. 1 \<le> rq_units q"
  by (auto simp: estimate_resource_requirements_def mk_ResourceRequirement_def split: if_splits)

lemma sorted_class_keys:
  "distinct cs \<Longrightarrow> sorted_wrt (<) (map execution_resource_class_sort_key
     (sort_key execution_resource_class_sort_key cs))"
  by (simp add: strict_sorted_iff distinct_map inj_on_def)

lemma class_keyed_values:
  "class_keyed d \<Longrightarrow> map rq_resource_class (dvalues d) = dkeys d"
  by (auto simp: class_keyed_def)

lemma normalized_metadata_wf:
  assumes "normalize_resource_contract md = Inr md'"
    and "\<forall>q\<in>set (sm_resource_requirements md). 1 \<le> rq_units q"
  shows "wf_metadata md'"
proof -
  from assms(1) obtain explicit by_class where
    explicit: "rfold add_explicit_requirement (sm_resource_requirements md) [] = Inr explicit"
    and by_class: "(case sm_process_resource_estimate md of
         None \<Rightarrow> Inr explicit
       | Some e \<Rightarrow> rbind (estimate_resource_requirements e) (\<lambda>qs.
             rfold add_estimated_requirement qs explicit)) = Inr by_class"
    and md': "md' = md\<lparr>sm_required_resource_classes := sort_key execution_resource_class_sort_key
           (remdups (sm_required_resource_classes md @ dkeys by_class)),
         sm_resource_requirements := sort_key resource_requirement_sort_key (dvalues by_class)\<rparr>"
    by (auto simp: normalize_resource_contract_def Let_def)
  have "class_keyed explicit"
    by (rule explicit_loop.loop_inv [OF _ explicit]) (use assms(2) in \<open>auto simp: class_keyed_def\<close>)
  then have keyed: "class_keyed by_class"
    using by_class estimated_loop.loop_inv estimate_requirements_pos
    by (auto split: option.splits)
  have "distinct (map rq_resource_class (sort_key resource_requirement_sort_key (dvalues by_class)))"
    using class_keyed_values [OF keyed] keyed
    by (metis (no_types, lifting) class_keyed_def mset_eq_imp_distinct_iff mset_map mset_sort)
  moreover have "1 \<le> rq_units q \<and> rq_resource_class q \<in> set (dkeys by_class)"
    if "q \<in> set (dvalues by_class)" for q
    using keyed that by (force simp: class_keyed_def)
  ultimately show ?thesis
    by (auto simp: md' wf_metadata_def sorted_class_keys)
qed

text \<open>The two loops on the requirements, in closed form: the explicit ones must name their classes once,
  the estimated ones may only repeat what is there.\<close>

lemma add_explicit_all:
  "rfold add_explicit_requirement qs d =
     (if distinct (map rq_resource_class qs) \<and> rq_resource_class ` set qs \<inter> set (dkeys d) = {}
      then Inr (d @ map (\<lambda>q. (rq_resource_class q, q)) qs)
      else Inl (ValueError ''resource_requirements must contain each class at most once''))"
proof (induction qs arbitrary: d)
  case (Cons q qs)
  show ?case
  proof (cases "rq_resource_class q \<in> set (dkeys d)")
    case False
    then have "add_explicit_requirement q d = Inr (d @ [(rq_resource_class q, q)])"
      by (simp add: add_explicit_requirement_def dset_fresh)
    then have "rfold add_explicit_requirement (q # qs) d = rfold add_explicit_requirement qs (d @ [(rq_resource_class q, q)])"
      by simp
    then show ?thesis using False unfolding Cons.IH by auto
  qed (auto simp: add_explicit_requirement_def)
qed simp

definition contradicts :: "resource_requirement \<Rightarrow> resource_requirement \<Rightarrow> bool" where
  "contradicts q e \<longleftrightarrow> rq_resource_class q = rq_resource_class e \<and> rq_units q \<noteq> rq_units e"

definition self_keyed :: "(execution_resource_class, resource_requirement) dict \<Rightarrow> bool" where
  "self_keyed d \<longleftrightarrow> distinct (dkeys d) \<and> (\<forall>(c, q)\<in>set d. rq_resource_class q = c)"

lemma self_keyed_dget: "self_keyed d \<Longrightarrow> dget d c = Some q \<longleftrightarrow> (c, q) \<in> set d"
  by (simp add: self_keyed_def map_of_eq_Some_iff)

lemma set_dset: "distinct (dkeys d) \<Longrightarrow> set (dset k v d) = insert (k, v) {x \<in> set d. fst x \<noteq> k}"
  by (induction d) (auto simp: image_iff)

lemma add_estimated_one:
  assumes d: "self_keyed d" and q: "\<not> (\<exists>x\<in>set (dvalues d). contradicts x q)"
  obtains d' where "add_estimated_requirement q d = Inr d'" and "self_keyed d'"
    and "set (dvalues d') = insert q (set (dvalues d))"
proof -
  let ?c = "rq_resource_class q"
  have same: "x = q" if "(?c, x) \<in> set d" for x
  proof -
    have "rq_resource_class x = ?c" using d that by (auto simp: self_keyed_def)
    moreover have "rq_units x = rq_units q" using q that calculation by (force simp: contradicts_def)
    ultimately show ?thesis by (cases x; cases q) simp
  qed
  have "(case dget d ?c of None \<Rightarrow> False | Some x \<Rightarrow> rq_units x \<noteq> rq_units q) = False"
    using same self_keyed_dget [OF d] by (auto split: option.split)
  then have 1: "add_estimated_requirement q d = Inr (dset ?c q d)" by (simp add: add_estimated_requirement_def)
  have dist: "distinct (dkeys d)" using d by (simp add: self_keyed_def)
  have new: "set (dset ?c q d) = insert (?c, q) (set d)" using same unfolding set_dset [OF dist] by auto
  have 2: "self_keyed (dset ?c q d)" using d new dist by (auto simp: self_keyed_def simp del: set_map)
  show thesis by (rule that [OF 1 2]) (simp add: new)
qed

lemma add_estimated_conflict:
  assumes "self_keyed d" and "x \<in> set (dvalues d)" and "contradicts x q"
  shows "add_estimated_requirement q d =
    Inl (ValueError ''process_resource_estimate conflicts with an explicit requirement'')"
proof -
  have "(rq_resource_class q, x) \<in> set d" using assms by (fastforce simp: self_keyed_def contradicts_def)
  then have "dget d (rq_resource_class q) = Some x" using self_keyed_dget [OF assms(1)] by simp
  then show ?thesis using assms(3) by (simp add: add_estimated_requirement_def contradicts_def)
qed

lemma add_estimated_all:
  assumes "self_keyed d" and "distinct (map rq_resource_class es)"
  shows "if \<exists>x\<in>set (dvalues d). \<exists>e\<in>set es. contradicts x e
    then rfold add_estimated_requirement es d =
      Inl (ValueError ''process_resource_estimate conflicts with an explicit requirement'')
    else \<exists>d'. rfold add_estimated_requirement es d = Inr d' \<and> self_keyed d' \<and>
      set (dvalues d') = set (dvalues d) \<union> set es"
  using assms
proof (induction es arbitrary: d)
  case (Cons q es)
  show ?case
  proof (cases "\<exists>x\<in>set (dvalues d). contradicts x q")
    case True
    then obtain x where "x \<in> set (dvalues d)" "contradicts x q" by blast
    from add_estimated_conflict [OF Cons.prems(1) this]
    have "rfold add_estimated_requirement (q # es) d =
        Inl (ValueError ''process_resource_estimate conflicts with an explicit requirement'')" by simp
    then show ?thesis using True by auto
  next
    case False
    obtain d1 where d1: "add_estimated_requirement q d = Inr d1" "self_keyed d1"
      "set (dvalues d1) = insert q (set (dvalues d))" by (rule add_estimated_one [OF Cons.prems(1) False])
    have "\<not> contradicts q e" if "e \<in> set es" for e using Cons.prems(2) that by (auto simp: contradicts_def)
    then have same: "(\<exists>x\<in>set (dvalues d1). \<exists>e\<in>set es. contradicts x e) \<longleftrightarrow>
        (\<exists>x\<in>set (dvalues d). \<exists>e\<in>set (q # es). contradicts x e)"
      unfolding d1(3) using False by auto
    have run: "rfold add_estimated_requirement (q # es) d = rfold add_estimated_requirement es d1" by (simp add: d1(1))
    have vals: "set (dvalues d1) \<union> set es = set (dvalues d) \<union> set (q # es)" by (simp only: d1(3)) auto
    have "distinct (map rq_resource_class es)" using Cons.prems(2) by simp
    from Cons.IH [OF d1(2) this] show ?thesis unfolding same vals run .
  qed
qed auto

text \<open>What an estimate asks for.\<close>

definition estimated_requirements :: "scheduling_metadata \<Rightarrow> resource_requirement list" where
  "estimated_requirements md =
     (case sm_process_resource_estimate md of
        None \<Rightarrow> []
      | Some e \<Rightarrow> [\<lparr>rq_resource_class = CPU_GENERAL, rq_units = pe_cpu_units e\<rparr>,
                   \<lparr>rq_resource_class = MEMORY_RAM, rq_units = pe_memory_mib e\<rparr>] @
          (if pe_llm_slots e \<noteq> 0 then [\<lparr>rq_resource_class = LLM_INFERENCE, rq_units = pe_llm_slots e\<rparr>] else []))"

definition estimate_in_range :: "scheduling_metadata \<Rightarrow> bool" where
  "estimate_in_range md \<longleftrightarrow> (case sm_process_resource_estimate md of
       None \<Rightarrow> True | Some e \<Rightarrow> 1 \<le> pe_cpu_units e \<and> 1 \<le> pe_memory_mib e \<and> 0 \<le> pe_llm_slots e)"

lemma estimate_loop:
  assumes "estimate_in_range md"
  shows "(case sm_process_resource_estimate md of
         None \<Rightarrow> Inr d
       | Some e \<Rightarrow> rbind (estimate_resource_requirements e) (\<lambda>qs. rfold add_estimated_requirement qs d)) =
     rfold add_estimated_requirement (estimated_requirements md) d"
  using assms
  by (auto simp: estimate_in_range_def estimated_requirements_def estimate_resource_requirements_def
      mk_ResourceRequirement_def resource_requirement_sort_key_def split: option.split)

lemma estimated_distinct: "distinct (map rq_resource_class (estimated_requirements md))"
  by (simp add: estimated_requirements_def split: option.split)

text \<open>The canonical contract: the declared classes together with the classes of all requirements, and the
  explicit together with the estimated requirements, both without repetition in declaration order. A list
  in strictly increasing order is determined by its elements.\<close>

definition canonical_contract :: "scheduling_metadata \<Rightarrow> scheduling_metadata \<Rightarrow> bool" where
  "canonical_contract md md' \<longleftrightarrow>
     md' = md\<lparr>sm_required_resource_classes := sm_required_resource_classes md',
              sm_resource_requirements := sm_resource_requirements md'\<rparr> \<and>
     set (sm_resource_requirements md') = set (sm_resource_requirements md) \<union> set (estimated_requirements md) \<and>
     set (sm_required_resource_classes md') = set (sm_required_resource_classes md) \<union>
       rq_resource_class ` (set (sm_resource_requirements md) \<union> set (estimated_requirements md)) \<and>
     sorted_wrt (<) (map execution_resource_class_sort_key (sm_required_resource_classes md')) \<and>
     sorted_wrt (<) (map resource_requirement_sort_key (sm_resource_requirements md'))"

lemma strict_sorted_determined:
  fixes f :: "'x \<Rightarrow> nat"
  assumes "sorted_wrt (<) (map f xs)" and "sorted_wrt (<) (map f ys)" and "set xs = set ys"
  shows "xs = ys"
proof -
  have "inj_on f (set xs \<union> set ys)" using assms unfolding strict_sorted_iff distinct_map by simp
  moreover have "map f xs = map f ys"
    by (rule sorted_distinct_set_unique) (use assms in \<open>simp_all add: strict_sorted_iff\<close>)
  ultimately show ?thesis by (rule map_inj_on [rotated])
qed

lemma canonical_unique:
  assumes "canonical_contract md a" and "canonical_contract md b"
  shows "a = b"
proof -
  have "sm_required_resource_classes a = sm_required_resource_classes b"
    by (rule strict_sorted_determined [where f = execution_resource_class_sort_key]) (use assms in \<open>simp_all add: canonical_contract_def\<close>)
  moreover have "sm_resource_requirements a = sm_resource_requirements b"
    by (rule strict_sorted_determined [where f = resource_requirement_sort_key]) (use assms in \<open>simp_all add: canonical_contract_def\<close>)
  ultimately show ?thesis using assms unfolding canonical_contract_def by metis
qed


definition sample_metadata ::
  "task_criticality \<Rightarrow> service_class \<Rightarrow> interruption_policy \<Rightarrow> resource_requirement list \<Rightarrow>
     scheduling_metadata" where
  "sample_metadata crit svc pol reqs =
     \<lparr>sm_criticality = crit, sm_service_class = svc, sm_interruption_policy = pol,
      sm_deadline = None, sm_required_capabilities = [],
      sm_required_resource_classes = map rq_resource_class reqs, sm_resource_requirements = reqs,
      sm_process_resource_estimate = None, sm_dependency_ids = []\<rparr>"

definition cpu_units :: "int \<Rightarrow> resource_requirement" where
  "cpu_units n = \<lparr>rq_resource_class = CPU_GENERAL, rq_units = n\<rparr>"

definition sample_contract :: scheduling_metadata where
  "sample_contract = (sample_metadata SUPPORTING SUPPORT PREEMPTIBLE [cpu_units 2])
     \<lparr>sm_required_resource_classes := [DATABASE, CPU_GENERAL, DATABASE],
      sm_process_resource_estimate := Some \<lparr>pe_cpu_units = 2, pe_memory_mib = 64, pe_llm_slots = 0,
        pe_source = DECLARED, pe_basis = ''measured''\<rparr>\<rparr>"

lemma sample_contract_parts:
  "sm_resource_requirements sample_contract = [cpu_units 2]"
  "sm_required_resource_classes sample_contract = [DATABASE, CPU_GENERAL, DATABASE]"
  "estimated_requirements sample_contract = [cpu_units 2, \<lparr>rq_resource_class = MEMORY_RAM, rq_units = 64\<rparr>]"
  "estimate_in_range sample_contract" "rq_resource_class (cpu_units n) = CPU_GENERAL" "rq_units (cpu_units n) = n"
  by (simp_all add: sample_contract_def sample_metadata_def cpu_units_def estimated_requirements_def
      estimate_in_range_def)


text \<open>The quantitative contract of well-formed metadata.\<close>

lemma quantitative_classes:
  assumes "wf_metadata md"
  shows "map rq_resource_class (quantitative_resource_requirements md) = sm_required_resource_classes md"
proof -
  have "rq_resource_class q = c"
    if "dget (dict_of rq_resource_class (sm_resource_requirements md)) c = Some q" for c q
    using that by (auto simp: dget_dict_of find_Some_iff)
  then show ?thesis
    by (auto simp: quantitative_resource_requirements_def Let_def o_def map_idI split: option.split)
qed

lemma quantitative_pos:
  assumes "wf_metadata md" and "q \<in> set (quantitative_resource_requirements md)"
  shows "1 \<le> rq_units q"
proof -
  have "q' \<in> set (sm_resource_requirements md)"
    if "dget (dict_of rq_resource_class (sm_resource_requirements md)) c = Some q'" for c q'
    using that by (auto simp: dget_dict_of find_Some_iff) (metis nth_mem set_rev length_rev)
  with assms show ?thesis
    by (auto simp: quantitative_resource_requirements_def Let_def wf_metadata_def split: option.splits)
qed

end
