(* ===== verification/Scheduler.thy ===== *)
theory Scheduler
  imports Tasks
begin

text \<open>
  The state of \<^verbatim>\<open>JITAttentionScheduler\<close> (\<^verbatim>\<open>attention.py\<close>) and its operations on tasks and
  resources: construction, resource configuration, submission, cycles, queue ranking, service
  guarantees, task transitions, and the allocation of a task's resource contract. Every method is
  a function from the scheduler to its result or exception and the scheduler it leaves behind.
\<close>

section \<open>State\<close>

record scheduler =
  s_service_guarantees :: "service_class \<Rightarrow> service_guarantee"
  s_tasks :: "(uuid, attention_task) dict"
  s_resources :: "(string, execution_resource) dict"
  s_admission_policy_version :: string
  s_assignment_policy_version :: string
  s_preemption_policy_version :: string
  s_preemption_state_revision :: int
  s_persisted_preemption_state_revision :: int
  s_admitted_task_ids :: "uuid list"
  s_resource_reservations :: "(uuid, resource_reservation) dict"
  s_epoch_sequence :: int
  s_current_epoch :: "scheduling_epoch option"
  s_assignments :: "(uuid, durable_assignment) dict"
  s_pending_preemptions :: "(uuid, pending_preemption) dict"
  s_preemption_events :: "preemption_event list"
  s_pending_epoch_plan :: "scheduling_epoch_plan option"
  s_resource_safety_required :: bool
  s_resource_safety_policy_version :: string
  s_current_resource_observation :: "resource_observation option"
  s_pending_resource_observation :: "resource_observation option"
  s_active_task_id :: "uuid option"
  s_pending_preemption_task_id :: "uuid option"
  s_cycle :: int
  s_transitions :: "task_transition list"
  s_persisted_transition_count :: nat

type_synonym 'a sched_op = "(scheduler, 'a) op"

text \<open>The constructor. The configured guarantees are a dictionary (\<^verbatim>\<open>None\<close> for the defaults) that
  must have an entry for every service class, so the stored value is a total function.\<close>

definition init_scheduler ::
  "(service_class, service_guarantee) dict option \<Rightarrow> bool \<Rightarrow> string \<Rightarrow> scheduler res" where
  "init_scheduler service_guarantees safety_required safety_version =
     rbind (case service_guarantees of
         None \<Rightarrow> Inr DEFAULT_SERVICE_GUARANTEES
       | Some d \<Rightarrow>
           raise_if (\<not> (\<forall>c\<in>set all_service_classes. c \<in> set (dkeys d)))
             (ValueError ''Missing service guarantees'')
             (Inr (\<lambda>c. case dget d c of Some g \<Rightarrow> g | None \<Rightarrow> DEFAULT_SERVICE_GUARANTEES c)))
     (\<lambda>guarantees.
     raise_if (py_strip safety_version = [])
       (ValueError ''resource_safety_policy_version must not be empty'')
     (Inr \<lparr>s_service_guarantees = guarantees, s_tasks = [], s_resources = [],
           s_admission_policy_version = RESOURCE_ADMISSION_POLICY_VERSION,
           s_assignment_policy_version = ASSIGNMENT_POLICY_VERSION,
           s_preemption_policy_version = PREEMPTION_POLICY_VERSION,
           s_preemption_state_revision = 0, s_persisted_preemption_state_revision = 0,
           s_admitted_task_ids = [], s_resource_reservations = [], s_epoch_sequence = 0,
           s_current_epoch = None, s_assignments = [], s_pending_preemptions = [],
           s_preemption_events = [], s_pending_epoch_plan = None,
           s_resource_safety_required = safety_required,
           s_resource_safety_policy_version = py_strip safety_version,
           s_current_resource_observation = None, s_pending_resource_observation = None,
           s_active_task_id = None, s_pending_preemption_task_id = None, s_cycle = 0,
           s_transitions = [], s_persisted_transition_count = 0\<rparr>))"

definition for_local_host ::
  "(service_class, service_guarantee) dict option \<Rightarrow> string \<Rightarrow> scheduler res" where
  "for_local_host service_guarantees safety_version =
     init_scheduler service_guarantees True safety_version"

section \<open>Plans, listings and the preemption log\<close>

definition invalidate_scheduling_plan :: "scheduler \<Rightarrow> scheduler" where
  "invalidate_scheduling_plan s =
     (let s1 = s\<lparr>s_pending_epoch_plan := None, s_pending_resource_observation := None\<rparr>
      in if s_current_epoch s1 = None
         then s1\<lparr>s_admitted_task_ids := [], s_resource_reservations := []\<rparr> else s1)"

definition execution_resources :: "bool \<Rightarrow> scheduler \<Rightarrow> execution_resource list" where
  "execution_resources enabled_only s =
     sort_key execution_resource_sort_key
       (filter (\<lambda>r. \<not> enabled_only \<or> er_enabled r) (dvalues (s_resources s)))"

definition resource_reservations :: "scheduler \<Rightarrow> resource_reservation list" where
  "resource_reservations s =
     sort_key resource_reservation_sort_key (dvalues (s_resource_reservations s))"

definition reservations_for_task :: "uuid \<Rightarrow> scheduler \<Rightarrow> resource_reservation list" where
  "reservations_for_task task_id s =
     sort_key resource_reservation_sort_key
       (filter (\<lambda>r. rr_task_id r = task_id) (dvalues (s_resource_reservations s)))"

definition worker_visible_assignments :: "scheduler \<Rightarrow> durable_assignment list res" where
  "worker_visible_assignments s =
     (case s_current_epoch s of
        None \<Rightarrow> Inr []
      | Some e \<Rightarrow>
          if ep_status e \<noteq> COMMITTED then Inr []
          else rmap (dlookup (s_assignments s)) (ep_assignment_ids e))"

definition pending_preemptions :: "scheduler \<Rightarrow> pending_preemption list" where
  "pending_preemptions s = sort_key pending_preemption_sort_key (dvalues (s_pending_preemptions s))"

definition append_preemption_event :: "preemption_event \<Rightarrow> unit sched_op" where
  "append_preemption_event event s =
     (case find (\<lambda>x. pv_event_id x = pv_event_id event) (s_preemption_events s) of
        Some existing \<Rightarrow>
          if existing \<noteq> event
          then (Inl (RuntimeError ''Conflicting deterministic preemption event''), s)
          else (Inr (), s)
      | None \<Rightarrow> (Inr (), s\<lparr>s_preemption_events := s_preemption_events s @ [event]\<rparr>))"

definition mark_preemption_state_persisted :: "int \<Rightarrow> unit sched_op" where
  "mark_preemption_state_persisted revision s =
     (if revision \<noteq> s_preemption_state_revision s
      then (Inl (RuntimeError ''Persisted preemption revision does not match scheduler''), s)
      else (Inr (), s\<lparr>s_persisted_preemption_state_revision := revision\<rparr>))"

definition pending_transitions_for_persistence :: "scheduler \<Rightarrow> task_transition list res" where
  "pending_transitions_for_persistence s =
     raise_if (s_persisted_transition_count s > length (s_transitions s))
       (RuntimeError ''Persisted transition cursor exceeds transition history'')
       (Inr (drop (s_persisted_transition_count s) (s_transitions s)))"

definition mark_transitions_persisted :: "nat \<Rightarrow> unit sched_op" where
  "mark_transitions_persisted n s =
     (if n < s_persisted_transition_count s \<or> n > length (s_transitions s)
      then (Inl (RuntimeError ''Invalid persisted transition cursor''), s)
      else (Inr (), s\<lparr>s_persisted_transition_count := n\<rparr>))"

section \<open>Resources\<close>

definition committed_units :: "string \<Rightarrow> scheduler \<Rightarrow> int" where
  "committed_units resource_id s =
     (\<Sum>r\<leftarrow>filter (\<lambda>r. rr_resource_id r = resource_id) (dvalues (s_resource_reservations s)).
        rr_units r)"

definition configure_execution_resource :: "execution_resource \<Rightarrow> execution_resource sched_op" where
  "configure_execution_resource resource s =
     (if (case dget (s_resources s) (er_resource_id resource) of None \<Rightarrow> False
          | Some existing \<Rightarrow> er_resource_class existing \<noteq> er_resource_class resource)
      then (Inl (ValueError ''Execution resource cannot change class''), s)
      else if s_current_epoch s \<noteq> None \<and>
          committed_units (er_resource_id resource) s > admissible_capacity resource
      then (Inl (ValueError ''Execution resource cannot reduce safe capacity below committed reservations''), s)
      else
        let s1 = invalidate_scheduling_plan s
        in (Inr resource,
            s1\<lparr>s_resources := dset (er_resource_id resource) resource (s_resources s1)\<rparr>))"

definition enable_resource_safety :: "string \<Rightarrow> unit sched_op" where
  "enable_resource_safety policy_version s =
     (if py_strip policy_version = [] then (Inl (ValueError ''policy_version must not be empty''), s)
      else if (case s_current_epoch s of None \<Rightarrow> False
               | Some e \<Rightarrow> ep_resource_observation_id e = None)
      then (Inl (ResourceObservationError
             ''configured-only assignments must drain before host safety is enabled''), s)
      else (Inr (), (invalidate_scheduling_plan s)
              \<lparr>s_resource_safety_required := True,
               s_resource_safety_policy_version := py_strip policy_version\<rparr>))"

section \<open>Tasks and transitions\<close>

definition replace_task :: "uuid \<Rightarrow> (attention_task \<Rightarrow> attention_task) \<Rightarrow> unit sched_op" where
  "replace_task task_id updates s =
     (let s1 = invalidate_scheduling_plan s
      in case dget (s_tasks s1) task_id of
           None \<Rightarrow> (Inl KeyError, s1)
         | Some task \<Rightarrow> (Inr (), s1\<lparr>s_tasks := dset task_id (updates task) (s_tasks s1)\<rparr>))"

definition transition ::
  "(uuid \<Rightarrow> string \<Rightarrow> uuid) \<Rightarrow> uuid \<Rightarrow> task_status \<Rightarrow> string \<Rightarrow> unit sched_op" where
  "transition uuid5 task_id to_status reason s =
     (let s1 = invalidate_scheduling_plan s
      in case dget (s_tasks s1) task_id of
           None \<Rightarrow> (Inl KeyError, s1)
         | Some task \<Rightarrow>
             let revision = at_revision task + 1;
                 t = \<lparr>tt_transition_id = uuid5 (at_task_id task)
                        (''transition:'' @ int_str revision @ '':'' @
                         task_status_value (at_status task) @ '':'' @ task_status_value to_status),
                      tt_task_id = at_task_id task, tt_revision = revision,
                      tt_scheduler_cycle = s_cycle s1, tt_from_status = at_status task,
                      tt_to_status = to_status, tt_reason = reason\<rparr>
             in if revision < 1 \<or> s_cycle s1 < 0
                then (Inl (ValueError ''transition: revision ge 1, scheduler_cycle ge 0''), s1)
                else (Inr (), s1\<lparr>s_transitions := s_transitions s1 @ [t],
                        s_tasks := dset task_id
                          (task\<lparr>at_status := to_status, at_revision := revision\<rparr>) (s_tasks s1)\<rparr>))"

definition get_task :: "uuid \<Rightarrow> attention_task sched_op" where
  "get_task task_id s = (dlookup (s_tasks s) task_id, s)"

definition submit :: "(uuid \<Rightarrow> string \<Rightarrow> uuid) \<Rightarrow> attention_task \<Rightarrow> attention_task sched_op" where
  "submit uuid5 task s =
     (if at_task_id task \<in> set (dkeys (s_tasks s))
      then (Inl (ValueError ''Duplicate task_id''), s)
      else if list_ex (\<lambda>x. at_created_seq x = at_created_seq task) (dvalues (s_tasks s))
      then (Inl (ValueError ''Duplicate created_seq''), s)
      else if at_status task \<noteq> NEW
      then (Inl (ValueError ''Newly submitted tasks must be NEW''), s)
      else
        sbind (transition uuid5 (at_task_id task) QUEUED ''task submitted'') (\<lambda>_.
        sbind (\<lambda>s1. replace_task (at_task_id task) (\<lambda>t. t\<lparr>at_enqueued_cycle := s_cycle s1\<rparr>) s1) (\<lambda>_.
        get_task (at_task_id task)))
        (s\<lparr>s_tasks := dset (at_task_id task) task (s_tasks s)\<rparr>))"

definition advance_cycle :: "int \<Rightarrow> int sched_op" where
  "advance_cycle n s =
     (if n < 0 then (Inl (ValueError ''count must be >= 0''), s)
      else
        let s1 = (if n \<noteq> 0 then invalidate_scheduling_plan s else s);
            s2 = s1\<lparr>s_cycle := s_cycle s1 + n\<rparr>
        in (Inr (s_cycle s2), s2))"

definition set_resumable_state :: "uuid \<Rightarrow> json_object \<Rightarrow> attention_task sched_op" where
  "set_resumable_state task_id state s =
     (if task_id \<notin> set (dkeys (s_tasks s)) then (Inl KeyError, s)
      else sbind (replace_task task_id (\<lambda>t. t\<lparr>at_resumable_state := state\<rparr>)) (\<lambda>_.
           get_task task_id) s)"

definition store_resumable_state :: "uuid \<Rightarrow> json_object option \<Rightarrow> unit sched_op" where
  "store_resumable_state task_id state s =
     (case state of None \<Rightarrow> (Inr (), s)
      | Some st \<Rightarrow> replace_task task_id (\<lambda>t. t\<lparr>at_resumable_state := st\<rparr>) s)"

definition complete_task ::
  "(uuid \<Rightarrow> string \<Rightarrow> uuid) \<Rightarrow> uuid \<Rightarrow> json_object option \<Rightarrow> attention_task sched_op" where
  "complete_task uuid5 task_id resumable_state s =
     (case dget (s_tasks s) task_id of
        None \<Rightarrow> (Inl KeyError, s)
      | Some task \<Rightarrow>
          if at_status task = COMPLETED then (Inr task, s)
          else if at_status task \<in> {FAILED, NEW}
          then (Inl (RuntimeError ''Task cannot complete from its status''), s)
          else
            sbind (store_resumable_state task_id resumable_state) (\<lambda>_.
            sbind (transition uuid5 task_id COMPLETED ''all durable worker steps completed'') (\<lambda>_.
            get_task task_id)) s)"

section \<open>Ranking\<close>

definition dependencies_satisfied :: "scheduler \<Rightarrow> attention_task \<Rightarrow> bool" where
  "dependencies_satisfied s task \<longleftrightarrow>
     (\<forall>d\<in>set (sm_dependency_ids (at_metadata task)).
        case dget (s_tasks s) d of None \<Rightarrow> False | Some t \<Rightarrow> at_status t = COMPLETED)"

definition available_by_class :: "scheduler \<Rightarrow> execution_resource_class \<Rightarrow> int" where
  "available_by_class s c =
     (\<Sum>r\<leftarrow>filter (\<lambda>r. er_resource_class r = c) (dvalues (s_resources s)). admissible_capacity r)"

definition resources_satisfied :: "scheduler \<Rightarrow> attention_task \<Rightarrow> bool" where
  "resources_satisfied s task \<longleftrightarrow>
     (\<forall>q\<in>set (quantitative_resource_requirements (at_metadata task)).
        available_by_class s (rq_resource_class q) \<ge> rq_units q)"

definition service_due :: "scheduler \<Rightarrow> int option \<Rightarrow> attention_task \<Rightarrow> bool" where
  "service_due s cycle task =
     (case sg_max_wait_cycles (s_service_guarantees s (sm_service_class (at_metadata task))) of
        None \<Rightarrow> False
      | Some max_wait \<Rightarrow>
          let current_cycle = (case cycle of None \<Rightarrow> s_cycle s | Some c \<Rightarrow> c);
              waited = max 0 (current_cycle - at_enqueued_cycle task)
          in waited \<ge> max_wait)"

definition effective_priority :: "scheduler \<Rightarrow> int option \<Rightarrow> attention_task \<Rightarrow> priority_class" where
  "effective_priority s cycle task =
     (let base = derive_priority (at_metadata task)
      in if at_status task \<noteq> QUEUED then base
         else if \<not> service_due s cycle task then base
         else min base
           (sg_guaranteed_priority (s_service_guarantees s (sm_service_class (at_metadata task)))))"

definition queue_key ::
  "scheduler \<Rightarrow> int option \<Rightarrow> attention_task \<Rightarrow> int \<times> int \<times> int \<times> int \<times> uuid" where
  "queue_key s cycle task =
     (priority_int (effective_priority s cycle task), if service_due s cycle task then 0 else 1,
      normalize_deadline (sm_deadline (at_metadata task)), at_created_seq task, at_task_id task)"

definition ranked_dependency_satisfied ::
  "scheduler \<Rightarrow> int option \<Rightarrow> attention_task list" where
  "ranked_dependency_satisfied s cycle =
     sort_key (queue_key s cycle)
       (filter (\<lambda>t. at_status t = QUEUED \<and> dependencies_satisfied s t) (dvalues (s_tasks s)))"

definition ranked_dependency_satisfied_queued_task_ids ::
  "scheduler \<Rightarrow> int option \<Rightarrow> uuid list" where
  "ranked_dependency_satisfied_queued_task_ids s cycle =
     map at_task_id (ranked_dependency_satisfied s cycle)"

definition ranked_queued_task_ids :: "scheduler \<Rightarrow> int option \<Rightarrow> uuid list" where
  "ranked_queued_task_ids s cycle =
     map at_task_id (filter (resources_satisfied s) (ranked_dependency_satisfied s cycle))"

definition queued_tasks :: "scheduler \<Rightarrow> attention_task list res" where
  "queued_tasks s = rmap (dlookup (s_tasks s)) (ranked_queued_task_ids s None)"

definition best_queued_task_id :: "scheduler \<Rightarrow> uuid option" where
  "best_queued_task_id s =
     (case ranked_queued_task_ids s None of [] \<Rightarrow> None | t # _ \<Rightarrow> Some t)"

definition strictly_outprioritizes ::
  "scheduler \<Rightarrow> int option \<Rightarrow> attention_task \<Rightarrow> attention_task \<Rightarrow> bool" where
  "strictly_outprioritizes s cycle candidate active \<longleftrightarrow>
     priority_int (effective_priority s cycle candidate)
       < priority_int (derive_priority (at_metadata active))"

section \<open>Allocation\<close>

text \<open>\<open>resources_by_class\<close> is the table the callers build from the enabled pools in canonical
  order. \<open>allocate_requirement\<close> is the inner loop of \<^verbatim>\<open>_allocate_task_resources\<close>: it returns the
  units still needed, the reservations so far and the remaining units.\<close>

definition resources_by_class ::
  "execution_resource list \<Rightarrow> execution_resource_class \<Rightarrow> execution_resource list" where
  "resources_by_class enabled c = filter (\<lambda>r. er_resource_class r = c) enabled"

fun allocate_requirement ::
  "(uuid \<Rightarrow> string \<Rightarrow> uuid) \<Rightarrow> uuid \<Rightarrow> execution_resource list \<Rightarrow> int \<Rightarrow> resource_reservation list \<Rightarrow>
     (string, int) dict \<Rightarrow> (int \<times> resource_reservation list \<times> (string, int) dict) res" where
  "allocate_requirement uuid5 task_id [] needed reservations remaining =
     Inr (needed, reservations, remaining)"
| "allocate_requirement uuid5 task_id (r # rs) needed reservations remaining =
     rbind (dlookup remaining (er_resource_id r)) (\<lambda>available.
     let reserved = min needed available
     in if reserved \<le> 0 then allocate_requirement uuid5 task_id rs needed reservations remaining
        else
          rbind (deterministic_reservation_id uuid5 task_id (er_resource_id r)) (\<lambda>rid.
          rbind (mk_ResourceReservation rid task_id (er_resource_id r) (er_resource_class r) reserved)
            (\<lambda>reservation.
          let reservations' = reservations @ [reservation];
              remaining' = dset (er_resource_id r) (available - reserved) remaining;
              needed' = needed - reserved
          in if needed' = 0 then Inr (needed', reservations', remaining')
             else allocate_requirement uuid5 task_id rs needed' reservations' remaining')))"

fun allocate_requirements ::
  "(uuid \<Rightarrow> string \<Rightarrow> uuid) \<Rightarrow> uuid \<Rightarrow> (execution_resource_class \<Rightarrow> execution_resource list) \<Rightarrow>
     resource_requirement list \<Rightarrow> resource_reservation list \<Rightarrow> (string, int) dict \<Rightarrow>
     (resource_reservation list \<times> (string, int) dict) option res" where
  "allocate_requirements uuid5 task_id by_class [] reservations remaining =
     Inr (Some (reservations, remaining))"
| "allocate_requirements uuid5 task_id by_class (q # qs) reservations remaining =
     rbind (allocate_requirement uuid5 task_id (by_class (rq_resource_class q)) (rq_units q)
        reservations remaining) (\<lambda>(needed, reservations', remaining').
     if needed \<noteq> 0 then Inr None
     else allocate_requirements uuid5 task_id by_class qs reservations' remaining')"

definition allocate_task_resources ::
  "(uuid \<Rightarrow> string \<Rightarrow> uuid) \<Rightarrow> attention_task \<Rightarrow> (string, int) dict \<Rightarrow>
     (execution_resource_class \<Rightarrow> execution_resource list) \<Rightarrow>
     (resource_reservation list \<times> (string, int) dict) option res" where
  "allocate_task_resources uuid5 task remaining by_class =
     allocate_requirements uuid5 (at_task_id task) by_class
       (quantitative_resource_requirements (at_metadata task)) [] remaining"

definition class_deficit ::
  "(string, int) dict \<Rightarrow> (execution_resource_class \<Rightarrow> execution_resource list) \<Rightarrow>
     resource_requirement \<Rightarrow> (execution_resource_class, int) dict \<Rightarrow>
     (execution_resource_class, int) dict res" where
  "class_deficit remaining by_class q deficits =
     rbind (rmap (\<lambda>r. dlookup remaining (er_resource_id r)) (by_class (rq_resource_class q)))
       (\<lambda>units.
     let missing = max 0 (rq_units q - sum_list units)
     in Inr (if missing \<noteq> 0 then dset (rq_resource_class q) missing deficits else deficits))"

definition resource_class_deficits ::
  "attention_task \<Rightarrow> (string, int) dict \<Rightarrow> (execution_resource_class \<Rightarrow> execution_resource list) \<Rightarrow>
     (execution_resource_class, int) dict res" where
  "resource_class_deficits task remaining by_class =
     rfold (class_deficit remaining by_class)
       (quantitative_resource_requirements (at_metadata task)) []"

fun hold_requirement ::
  "execution_resource list \<Rightarrow> int \<Rightarrow> int \<Rightarrow> (string, int) dict \<Rightarrow> (string, int) dict res" where
  "hold_requirement [] wanted held remaining = Inr remaining"
| "hold_requirement (r # rs) wanted held remaining =
     rbind (dlookup remaining (er_resource_id r)) (\<lambda>available.
     let units = min (wanted - held) available
     in if units \<le> 0 then hold_requirement rs wanted held remaining
        else
          let remaining' = dset (er_resource_id r) (available - units) remaining; held' = held + units
          in if held' = wanted then Inr remaining' else hold_requirement rs wanted held' remaining')"

definition hold_available_task_capacity ::
  "attention_task \<Rightarrow> (execution_resource_class \<Rightarrow> execution_resource list) \<Rightarrow> (string, int) dict \<Rightarrow>
     (string, int) dict res" where
  "hold_available_task_capacity task by_class remaining =
     rfold (\<lambda>q rem. hold_requirement (by_class (rq_resource_class q)) (rq_units q) 0 rem)
       (quantitative_resource_requirements (at_metadata task)) remaining"

definition consume_reservation ::
  "resource_reservation \<Rightarrow> (string, int) dict \<Rightarrow> (string, int) dict res" where
  "consume_reservation reservation remaining =
     (case dget remaining (rr_resource_id reservation) of
        None \<Rightarrow> Inl (RuntimeError ''Committed reservation resource is unavailable'')
      | Some available \<Rightarrow>
          raise_if (available - rr_units reservation < 0)
            (RuntimeError ''Committed reservations exceed safe resource capacity'')
            (Inr (dset (rr_resource_id reservation) (available - rr_units reservation) remaining)))"

definition consume_preserved_reservations ::
  "resource_reservation list \<Rightarrow> (string, int) dict \<Rightarrow> (string, int) dict res" where
  "consume_preserved_reservations = rfold consume_reservation"

definition new_assignment ::
  "(uuid \<Rightarrow> string \<Rightarrow> uuid) \<Rightarrow> uuid \<Rightarrow> resource_reservation list \<Rightarrow> int \<Rightarrow> scheduler \<Rightarrow>
     durable_assignment res" where
  "new_assignment uuid5 task_id reservations created_epoch_sequence s =
     rbind (dlookup (s_tasks s) task_id) (\<lambda>task.
     rbind (deterministic_assignment_id uuid5 task_id (at_revision task) created_epoch_sequence
        reservations) (\<lambda>aid.
     validate_assignment
       \<lparr>da_assignment_id = aid, da_task_id = task_id, da_task_revision = at_revision task,
        da_created_epoch_sequence = created_epoch_sequence,
        da_reservation_ids = map rr_reservation_id reservations, da_status = READY\<rparr>))"

end
