(* ===== verification/Focus.thy ===== *)
theory Focus
  imports Scheduler
begin

text \<open>
  The single-focus lifecycle of \<^verbatim>\<open>JITAttentionScheduler\<close> (\<^verbatim>\<open>attention.py\<close>): choosing the task
  that owns focus, starting, preempting, yielding at a checkpoint, completing and failing it. The
  focus invariant shows that focus is exclusive and that every recorded transition is an edge of the task
  life cycle; theory \<^verbatim>\<open>Lifecycle\<close> composes the operations into a step relation. The
  ranking theorems state what the queue order guarantees.
\<close>

section \<open>Operations\<close>

definition require_legacy_focus_mode :: "unit sched_op" where
  "require_legacy_focus_mode s =
     (if s_resource_safety_required s
      then (Inl (RuntimeError ''Host-safe execution requires observed scheduling epochs''), s)
      else if s_current_epoch s \<noteq> None \<or> s_pending_epoch_plan s \<noteq> None
      then (Inl (RuntimeError ''Single-focus lifecycle operations are unavailable in epoch mode''), s)
      else (Inr (), s))"

definition start :: "(uuid \<Rightarrow> string \<Rightarrow> uuid) \<Rightarrow> uuid \<Rightarrow> string \<Rightarrow> unit sched_op" where
  "start uuid5 task_id reason s =
     (if s_active_task_id s \<noteq> None
      then (Inl (RuntimeError ''Cannot start a second active task''), s)
      else sbind (get_task task_id) (\<lambda>task s.
        if at_status task \<noteq> QUEUED then (Inl (RuntimeError ''Task is not queued''), s)
        else sbind (transition uuid5 task_id RUNNING reason) (\<lambda>_ s.
          (Inr (), s\<lparr>s_active_task_id := Some task_id, s_pending_preemption_task_id := None\<rparr>)) s) s)"

definition requeue_active :: "(uuid \<Rightarrow> string \<Rightarrow> uuid) \<Rightarrow> string \<Rightarrow> unit sched_op" where
  "requeue_active uuid5 reason s =
     (case s_active_task_id s of
        None \<Rightarrow> (Inl (RuntimeError ''No active task''), s)
      | Some task_id \<Rightarrow>
          sbind (transition uuid5 task_id SUSPENDED reason) (\<lambda>_.
          sbind (transition uuid5 task_id QUEUED ''suspended task returned to queue'') (\<lambda>_.
          sbind (\<lambda>s. replace_task task_id (\<lambda>t. t\<lparr>at_enqueued_cycle := s_cycle s\<rparr>) s) (\<lambda>_ s.
            (Inr (), s\<lparr>s_active_task_id := None, s_pending_preemption_task_id := None\<rparr>)))) s)"

definition decision ::
  "focus_action \<Rightarrow> uuid option \<Rightarrow> uuid option \<Rightarrow> string \<Rightarrow> focus_decision sched_op" where
  "decision action active candidate reason s =
     (Inr \<lparr>fd_action = action, fd_active_task_id = active, fd_candidate_task_id = candidate,
           fd_reason = reason\<rparr>, s)"

text \<open>The replacement of the active task by a candidate, shared by the two callers.\<close>

definition switch_focus ::
  "(uuid \<Rightarrow> string \<Rightarrow> uuid) \<Rightarrow> uuid \<Rightarrow> string \<Rightarrow> string \<Rightarrow> focus_decision sched_op" where
  "switch_focus uuid5 candidate_id requeue_reason start_reason =
     sbind (requeue_active uuid5 requeue_reason) (\<lambda>_.
     sbind (start uuid5 candidate_id start_reason) (\<lambda>_.
     decision PREEMPT (Some candidate_id) (Some candidate_id) start_reason))"

definition reconcile_active ::
  "(uuid \<Rightarrow> string \<Rightarrow> uuid) \<Rightarrow> uuid option \<Rightarrow> attention_task \<Rightarrow> focus_decision sched_op" where
  "reconcile_active uuid5 candidate_id active s =
     (let active_id = at_task_id active
      in case candidate_id of
        None \<Rightarrow> decision CONTINUE (Some active_id) None ''no higher-priority runnable task'' s
      | Some c \<Rightarrow> sbind (get_task c) (\<lambda>candidate s.
          let c_id = at_task_id candidate
          in if \<not> strictly_outprioritizes s None candidate active
          then decision CONTINUE (Some active_id) (Some c_id)
            ''queued task does not strictly outrank active task'' s
          else case sm_interruption_policy (at_metadata active) of
            ATOMIC \<Rightarrow> decision CONTINUE (Some active_id) (Some c_id) ''active task is atomic'' s
          | CHECKPOINT_ONLY \<Rightarrow>
              decision WAIT_FOR_CHECKPOINT (Some active_id) (Some c_id)
                ''higher-priority task waiting for safe checkpoint''
                (s\<lparr>s_pending_preemption_task_id := Some c_id\<rparr>)
          | PREEMPTIBLE \<Rightarrow>
              switch_focus uuid5 c_id ''preempted by higher-priority task''
                (''preempted '' @ uuid_str active_id) s) s)"

definition reconcile_focus :: "(uuid \<Rightarrow> string \<Rightarrow> uuid) \<Rightarrow> focus_decision sched_op" where
  "reconcile_focus uuid5 =
     sbind require_legacy_focus_mode (\<lambda>_.
     sbind (advance_cycle 1) (\<lambda>_ s.
     let candidate_id = best_queued_task_id s
     in case s_active_task_id s of
          None \<Rightarrow>
            (case candidate_id of
               None \<Rightarrow> decision IDLE None None ''no runnable queued tasks'' s
             | Some c \<Rightarrow>
                 sbind (start uuid5 c ''highest-ranked runnable task'') (\<lambda>_.
                 decision START (Some c) (Some c) ''started highest-ranked runnable task'') s)
        | Some a \<Rightarrow> sbind (get_task a) (reconcile_active uuid5 candidate_id) s))"

definition checkpoint_yield ::
  "(uuid \<Rightarrow> string \<Rightarrow> uuid) \<Rightarrow> attention_task \<Rightarrow> focus_decision sched_op" where
  "checkpoint_yield uuid5 active s =
     (let active_id = at_task_id active
      in if sm_interruption_policy (at_metadata active) = ATOMIC
      then decision CONTINUE (Some active_id) None
        ''atomic task ignores checkpoints for preemption'' s
      else case best_queued_task_id s of
        None \<Rightarrow>
          decision CONTINUE (Some active_id) None ''checkpoint reached with no runnable queued task''
            (s\<lparr>s_pending_preemption_task_id := None\<rparr>)
      | Some c \<Rightarrow> sbind (get_task c) (\<lambda>candidate s.
          let c_id = at_task_id candidate
          in if \<not> strictly_outprioritizes s None candidate active
          then decision CONTINUE (Some active_id) (Some c_id)
            ''checkpoint reached but queued task no longer outranks active task''
            (s\<lparr>s_pending_preemption_task_id := None\<rparr>)
          else switch_focus uuid5 c_id ''yielded at checkpoint to higher-priority task''
            (''checkpoint preemption of '' @ uuid_str active_id) s) s)"

definition checkpoint_active :: "(uuid \<Rightarrow> string \<Rightarrow> uuid) \<Rightarrow> focus_decision sched_op" where
  "checkpoint_active uuid5 =
     sbind require_legacy_focus_mode (\<lambda>_ s.
     case s_active_task_id s of
       None \<Rightarrow> reconcile_focus uuid5 s
     | Some a \<Rightarrow>
         sbind (advance_cycle 1) (\<lambda>_. sbind (get_task a) (checkpoint_yield uuid5)) s)"

definition finish_active ::
  "(uuid \<Rightarrow> string \<Rightarrow> uuid) \<Rightarrow> task_status \<Rightarrow> string \<Rightarrow> json_object option \<Rightarrow> attention_task sched_op" where
  "finish_active uuid5 to_status reason resumable_state =
     sbind require_legacy_focus_mode (\<lambda>_ s.
     case s_active_task_id s of
       None \<Rightarrow> (Inl (RuntimeError ''No active task''), s)
     | Some task_id \<Rightarrow>
         sbind (store_resumable_state task_id resumable_state) (\<lambda>_.
         sbind (transition uuid5 task_id to_status reason) (\<lambda>_ s.
         get_task task_id
           (s\<lparr>s_active_task_id := None, s_pending_preemption_task_id := None\<rparr>))) s)"

definition complete_active ::
  "(uuid \<Rightarrow> string \<Rightarrow> uuid) \<Rightarrow> json_object option \<Rightarrow> attention_task sched_op" where
  "complete_active uuid5 = finish_active uuid5 COMPLETED ''task completed''"

definition fail_active ::
  "(uuid \<Rightarrow> string \<Rightarrow> uuid) \<Rightarrow> json_object option \<Rightarrow> attention_task sched_op" where
  "fail_active uuid5 = finish_active uuid5 FAILED ''task failed''"

section \<open>The task table\<close>

text \<open>\<open>wf_task\<close> is what the constructor of a task checks; \<open>wf_tasks\<close> is the invariant of the table:
  every task is stored under its own id and creation numbers are unique.\<close>

definition wf_task :: "attention_task \<Rightarrow> bool" where
  "wf_task t \<longleftrightarrow> at_task_key t \<noteq> [] \<and> 1 \<le> at_created_seq t \<and> 0 \<le> at_enqueued_cycle t \<and>
     0 \<le> at_revision t \<and> wf_metadata (at_metadata t)"

definition wf_tasks :: "scheduler \<Rightarrow> bool" where
  "wf_tasks s \<longleftrightarrow> distinct (dkeys (s_tasks s)) \<and> 0 \<le> s_cycle s \<and>
     (\<forall>k t. dget (s_tasks s) k = Some t \<longrightarrow> at_task_id t = k \<and> wf_task t) \<and>
     (\<forall>k k' t t'. dget (s_tasks s) k = Some t \<longrightarrow> dget (s_tasks s) k' = Some t' \<longrightarrow>
        at_created_seq t = at_created_seq t' \<longrightarrow> k = k')"

declare map_of_eq_Some_iff [simp del]

lemma in_dvalues: "distinct (dkeys d) \<Longrightarrow> v \<in> set (dvalues d) \<longleftrightarrow> (\<exists>k. dget d k = Some v)"
  by (force simp: map_of_eq_Some_iff)

lemma wf_tasksD:
  "wf_tasks s \<Longrightarrow> dget (s_tasks s) k = Some t \<Longrightarrow> at_task_id t = k"
  "wf_tasks s \<Longrightarrow> dget (s_tasks s) k = Some t \<Longrightarrow> wf_task t"
  "wf_tasks s \<Longrightarrow> t \<in> set (dvalues (s_tasks s)) \<Longrightarrow> dget (s_tasks s) (at_task_id t) = Some t"
  using in_dvalues [of "s_tasks s" t] by (auto simp: wf_tasks_def simp del: set_map)

lemma invalidate_simps [simp]:
  "s_tasks (invalidate_scheduling_plan s) = s_tasks s"
  "s_resources (invalidate_scheduling_plan s) = s_resources s"
  "s_active_task_id (invalidate_scheduling_plan s) = s_active_task_id s"
  "s_pending_preemption_task_id (invalidate_scheduling_plan s) = s_pending_preemption_task_id s"
  "s_cycle (invalidate_scheduling_plan s) = s_cycle s"
  "s_transitions (invalidate_scheduling_plan s) = s_transitions s"
  "s_current_epoch (invalidate_scheduling_plan s) = s_current_epoch s"
  "s_service_guarantees (invalidate_scheduling_plan s) = s_service_guarantees s"
  "s_resource_safety_required (invalidate_scheduling_plan s) = s_resource_safety_required s"
  "s_pending_epoch_plan (invalidate_scheduling_plan s) = None"
  by (simp_all add: invalidate_scheduling_plan_def Let_def)

lemma wf_tasks_update:
  assumes "wf_tasks s" and "dget (s_tasks s) k = Some t" and "at_task_id t' = k" and "wf_task t'"
    and "at_created_seq t' = at_created_seq t"
    and "s_tasks s' = dset k t' (s_tasks s)" and "s_cycle s' = s_cycle s"
  shows "wf_tasks s'"
  using assms unfolding wf_tasks_def by (fastforce split: if_splits)

lemma replace_task_eq:
  "dget (s_tasks s) k = Some t \<Longrightarrow> replace_task k f s =
     (Inr (), (invalidate_scheduling_plan s)\<lparr>s_tasks := dset k (f t) (s_tasks s)\<rparr>)"
  by (simp add: replace_task_def Let_def)

definition transition_record ::
  "(uuid \<Rightarrow> string \<Rightarrow> uuid) \<Rightarrow> attention_task \<Rightarrow> task_status \<Rightarrow> string \<Rightarrow> int \<Rightarrow> task_transition" where
  "transition_record uuid5 t to reason cycle =
     \<lparr>tt_transition_id = uuid5 (at_task_id t) (''transition:'' @ int_str (at_revision t + 1) @ '':'' @
        task_status_value (at_status t) @ '':'' @ task_status_value to),
      tt_task_id = at_task_id t, tt_revision = at_revision t + 1, tt_scheduler_cycle = cycle,
      tt_from_status = at_status t, tt_to_status = to, tt_reason = reason\<rparr>"

lemma transition_eq:
  "wf_tasks s \<Longrightarrow> dget (s_tasks s) k = Some t \<Longrightarrow> transition uuid5 k to reason s =
     (Inr (), (invalidate_scheduling_plan s)
        \<lparr>s_transitions := s_transitions s @ [transition_record uuid5 t to reason (s_cycle s)],
         s_tasks := dset k (t\<lparr>at_status := to, at_revision := at_revision t + 1\<rparr>) (s_tasks s)\<rparr>)"
proof -
  assume wf: "wf_tasks s" and k: "dget (s_tasks s) k = Some t"
  have "\<not> (at_revision t + 1 < 1 \<or> s_cycle s < 0)"
    using wf_tasksD(2) [OF wf k] wf by (simp add: wf_task_def wf_tasks_def)
  with k show ?thesis by (simp add: transition_def transition_record_def Let_def)
qed

section \<open>Exclusive focus\<close>

text \<open>The edges of the task life cycle, and the invariant of the scheduler's focus: the running tasks
  are exactly the active task, a pending preemption names a queued task, and the transition log
  contains only edges of the life cycle.\<close>

fun life_cycle_edge :: "task_status \<Rightarrow> task_status \<Rightarrow> bool" where
  "life_cycle_edge NEW to \<longleftrightarrow> to = QUEUED"
| "life_cycle_edge QUEUED to \<longleftrightarrow> to \<in> {RUNNING, COMPLETED}"
| "life_cycle_edge RUNNING to \<longleftrightarrow> to \<in> {SUSPENDED, COMPLETED, FAILED}"
| "life_cycle_edge SUSPENDED to \<longleftrightarrow> to \<in> {QUEUED, COMPLETED}"
| "life_cycle_edge BLOCKED to \<longleftrightarrow> to = COMPLETED"
| "life_cycle_edge COMPLETED to \<longleftrightarrow> False"
| "life_cycle_edge FAILED to \<longleftrightarrow> False"

definition exclusive_focus :: "scheduler \<Rightarrow> bool" where
  "exclusive_focus s \<longleftrightarrow>
     (\<forall>k. s_active_task_id s = Some k \<longleftrightarrow>
        (\<exists>t. dget (s_tasks s) k = Some t \<and> at_status t = RUNNING)) \<and>
     (\<forall>k. s_pending_preemption_task_id s = Some k \<longrightarrow>
        (\<exists>t. dget (s_tasks s) k = Some t \<and> at_status t = QUEUED))"

definition legal_log :: "scheduler \<Rightarrow> bool" where
  "legal_log s \<longleftrightarrow>
     (\<forall>x\<in>set (s_transitions s). life_cycle_edge (tt_from_status x) (tt_to_status x))"

definition focus_inv :: "scheduler \<Rightarrow> bool" where
  "focus_inv s \<longleftrightarrow> wf_tasks s \<and> exclusive_focus s \<and> legal_log s"

lemma focus_inv_cong:
  assumes "s_tasks s' = s_tasks s" and "s_active_task_id s' = s_active_task_id s"
    and "s_pending_preemption_task_id s' = s_pending_preemption_task_id s"
    and "s_transitions s' = s_transitions s" and "s_cycle s \<le> s_cycle s'" and "focus_inv s"
  shows "focus_inv s'"
  using assms by (simp add: focus_inv_def wf_tasks_def exclusive_focus_def legal_log_def)

lemma focus_invalidate [simp]: "focus_inv (invalidate_scheduling_plan s) = focus_inv s"
  by (simp add: focus_inv_def wf_tasks_def exclusive_focus_def legal_log_def)

text \<open>The only way a status changes while the focus stays valid: one task moves along an edge, and
  the focus fields are updated to match.\<close>

lemma focus_inv_move:
  assumes "focus_inv s" and "dget (s_tasks s) k = Some t" and "life_cycle_edge (at_status t) to"
    and "s_tasks s' = dset k t' (s_tasks s)"
    and "t' = t\<lparr>at_status := to, at_revision := at_revision t + 1\<rparr>"
    and "s_transitions s' = s_transitions s @ [transition_record uuid5 t to reason c]"
    and "s_cycle s' = s_cycle s"
    and "\<And>j. s_active_task_id s' = Some j \<longleftrightarrow>
       (if j = k then to = RUNNING else s_active_task_id s = Some j)"
    and "\<And>j. s_pending_preemption_task_id s' = Some j \<Longrightarrow>
       j \<noteq> k \<and> s_pending_preemption_task_id s = Some j"
  shows "focus_inv s'"
proof -
  have wf: "wf_tasks s" using assms(1) by (simp add: focus_inv_def)
  have "wf_tasks s'"
    by (rule wf_tasks_update [OF wf assms(2)])
      (use wf_tasksD(1,2) [OF wf assms(2)] assms(4,5,7) in \<open>auto simp: wf_task_def\<close>)
  moreover have "exclusive_focus s'"
    using assms by (auto simp: focus_inv_def exclusive_focus_def)
  moreover have "legal_log s'"
    using assms(1,3,6) by (auto simp: focus_inv_def legal_log_def transition_record_def)
  ultimately show ?thesis by (simp add: focus_inv_def)
qed

lemma focus_inv_replace:
  assumes "focus_inv s" and "dget (s_tasks s) k = Some t"
    and "at_task_id t' = k" and "wf_task t'" and "at_created_seq t' = at_created_seq t"
    and "at_status t' = at_status t"
  shows "focus_inv (s\<lparr>s_tasks := dset k t' (s_tasks s)\<rparr>)"
proof -
  have "wf_tasks (s\<lparr>s_tasks := dset k t' (s_tasks s)\<rparr>)"
    by (rule wf_tasks_update [OF _ assms(2-5)]) (use assms(1) in \<open>auto simp: focus_inv_def\<close>)
  then show ?thesis using assms by (auto simp: focus_inv_def exclusive_focus_def legal_log_def)
qed

text \<open>Each operation keeps the invariant, also when it raises.\<close>

lemma focus_wf: "focus_inv s \<Longrightarrow> wf_tasks s"
  by (simp add: focus_inv_def)

lemma get_task_snd [simp]: "snd (get_task k s) = s"
  by (simp add: get_task_def)

lemma get_task_eq [simp]: "get_task k s = (dlookup (s_tasks s) k, s)"
  by (simp add: get_task_def)

lemma store_resumable_focus:
  assumes "focus_inv s"
  shows "focus_inv (snd (store_resumable_state k st s))"
proof (cases st)
  case (Some j)
  show ?thesis
  proof (cases "dget (s_tasks s) k")
    case None
    then show ?thesis using assms Some by (simp add: store_resumable_state_def replace_task_def)
  next
    case t: (Some t)
    have "focus_inv ((invalidate_scheduling_plan s)\<lparr>s_tasks :=
        dset k (t\<lparr>at_resumable_state := j\<rparr>) (s_tasks (invalidate_scheduling_plan s))\<rparr>)"
      by (rule focus_inv_replace [where t = t])
        (use assms t wf_tasksD(1,2) [OF focus_wf [OF assms] t] in \<open>auto simp: wf_task_def\<close>)
    then show ?thesis using Some t by (simp add: store_resumable_state_def replace_task_eq)
  qed
qed (use assms in \<open>simp add: store_resumable_state_def\<close>)

lemma start_focus:
  assumes "focus_inv s"
  shows "focus_inv (snd (start uuid5 k reason s))"
proof (cases "s_active_task_id s = None \<and> (\<exists>t. dget (s_tasks s) k = Some t \<and> at_status t = QUEUED)")
  case True
  then obtain t where t: "dget (s_tasks s) k = Some t" "at_status t = QUEUED"
    and idle: "s_active_task_id s = None" by blast
  show ?thesis
    by (rule focus_inv_move [OF assms t(1), where to = RUNNING])
      (use t idle in \<open>auto simp: start_def sbind_def dlookup_Some transition_eq [OF focus_wf [OF assms]]\<close>)
next
  case False
  then show ?thesis using assms
    by (cases "dget (s_tasks s) k") (auto simp: start_def sbind_def dlookup_def)
qed

lemma finish_focus:
  assumes "focus_inv s" and "s_active_task_id s = Some k" and "life_cycle_edge RUNNING to"
    and "to \<noteq> RUNNING"
  shows "focus_inv (snd (sbind (transition uuid5 k to reason) (\<lambda>_ s. get_task k
     (s\<lparr>s_active_task_id := None, s_pending_preemption_task_id := None\<rparr>)) s))"
proof -
  from assms(1,2) obtain t where t: "dget (s_tasks s) k = Some t" "at_status t = RUNNING"
    by (auto simp: focus_inv_def exclusive_focus_def)
  show ?thesis
    by (rule focus_inv_move [OF assms(1) t(1), where to = to])
      (use t assms in \<open>auto simp: sbind_def transition_eq [OF focus_wf [OF assms(1)]]\<close>)
qed

text \<open>Requeueing suspends the active task, returns it to the queue and stamps the waiting time.\<close>

lemma requeue_active_eq:
  assumes "focus_inv s" and Some: "s_active_task_id s = Some k"
    and t: "dget (s_tasks s) k = Some t" "at_status t = RUNNING"
  obtains s' t' where "requeue_active uuid5 reason s = (Inr (), s')" and "focus_inv s'"
    and "s_active_task_id s' = None" and "s_pending_preemption_task_id s' = None"
    and "s_cycle s' = s_cycle s" and "at_status t' = QUEUED" and "at_enqueued_cycle t' = s_cycle s"
    and "at_metadata t' = at_metadata t"
    and "\<And>j. dget (s_tasks s') j = (if j = k then Some t' else dget (s_tasks s) j)"
proof -
  note assms = assms(1)
  note wf = focus_wf [OF assms]
  have w: "wf_task t" "at_task_id t = k" "0 \<le> s_cycle s"
    using wf_tasksD(1,2) [OF wf t(1)] wf by (auto simp: wf_tasks_def)
  define t1 where "t1 = t\<lparr>at_status := SUSPENDED, at_revision := at_revision t + 1\<rparr>"
  define t2 where "t2 = t1\<lparr>at_status := QUEUED, at_revision := at_revision t1 + 1\<rparr>"
  define t3 where "t3 = t2\<lparr>at_enqueued_cycle := s_cycle s\<rparr>"
  define r1 where "r1 = (invalidate_scheduling_plan s)
    \<lparr>s_transitions := s_transitions s @ [transition_record uuid5 t SUSPENDED reason (s_cycle s)],
     s_tasks := dset k t1 (s_tasks s)\<rparr>"
  define r2 where "r2 = (invalidate_scheduling_plan r1)
    \<lparr>s_transitions := s_transitions r1 @ [transition_record uuid5 t1 QUEUED
       ''suspended task returned to queue'' (s_cycle r1)], s_tasks := dset k t2 (s_tasks r1)\<rparr>"
  define r3 where "r3 = (invalidate_scheduling_plan r2)\<lparr>s_tasks := dset k t3 (s_tasks r2)\<rparr>"
  define clear where "clear = (\<lambda>s :: scheduler.
    s\<lparr>s_active_task_id := None, s_pending_preemption_task_id := None\<rparr>)"
  have 1: "focus_inv (clear r1)"
    by (rule focus_inv_move [OF assms t(1), where to = SUSPENDED])
      (use t Some in \<open>auto simp: r1_def t1_def clear_def\<close>)
  have 2: "focus_inv (clear r2)"
    by (rule focus_inv_move [OF 1, where k = k and t = t1 and to = QUEUED])
      (auto simp: r1_def r2_def t1_def t2_def clear_def)
  have 3: "focus_inv (clear r3)"
    by (rule focus_inv_cong [OF _ _ _ _ _ focus_inv_replace [OF 2, of k t2 t3]])
      (use w in \<open>simp_all add: r2_def r3_def t1_def t2_def t3_def clear_def wf_task_def\<close>)
  have w1: "wf_tasks r1" using focus_wf [OF 1] by (simp add: wf_tasks_def clear_def)
  have k1: "dget (s_tasks r1) k = Some t1" "dget (s_tasks r2) k = Some t2" by (simp_all add: r1_def r2_def)
  have "transition uuid5 k SUSPENDED reason s = (Inr (), r1)"
    by (simp add: transition_eq [OF wf t(1)] r1_def t1_def)
  moreover have "transition uuid5 k QUEUED ''suspended task returned to queue'' r1 = (Inr (), r2)"
    by (simp add: transition_eq [OF w1 k1(1)] r2_def t2_def)
  moreover have "replace_task k (\<lambda>t. t\<lparr>at_enqueued_cycle := s_cycle r2\<rparr>) r2 = (Inr (), r3)"
    by (simp add: replace_task_eq [OF k1(2)] r3_def t3_def) (simp add: r2_def r1_def)
  ultimately have "requeue_active uuid5 reason s = (Inr (), clear r3)"
    using Some by (simp add: requeue_active_def sbind_def clear_def)
  then show thesis
    by (rule that [OF _ 3]) (simp_all add: clear_def r3_def r2_def r1_def t3_def t2_def t1_def)
qed

section \<open>The queue order\<close>

text \<open>The queue key ends with the task id, so the ranking does not depend on the order in which the
  task table was filled.\<close>

interpretation queue_order: canonical_order "queue_key s cycle" at_task_id for s cycle
  by unfold_locales (simp add: queue_key_def)

definition runnable :: "scheduler \<Rightarrow> attention_task \<Rightarrow> bool" where
  "runnable s t \<longleftrightarrow> at_status t = QUEUED \<and> dependencies_satisfied s t \<and> resources_satisfied s t"

lemma ranked_queued_eq:
  "ranked_queued_task_ids s cycle =
     map at_task_id (sort_key (queue_key s cycle) (filter (runnable s) (dvalues (s_tasks s))))"
proof -
  have "(\<lambda>x. resources_satisfied s x \<and> at_status x = QUEUED \<and> dependencies_satisfied s x) = runnable s"
    by (auto simp: runnable_def fun_eq_iff)
  then show ?thesis
    by (simp add: ranked_queued_task_ids_def ranked_dependency_satisfied_def filter_sort conj_ac)
qed

lemma best_queued_Some:
  assumes "best_queued_task_id s = Some c" and "wf_tasks s"
  obtains t where "dget (s_tasks s) c = Some t" and "runnable s t" and "at_task_id t = c"
    and "\<And>k t'. dget (s_tasks s) k = Some t' \<Longrightarrow> runnable s t' \<Longrightarrow> queue_key s None t \<le> queue_key s None t'"
proof -
  let ?xs = "sort_key (queue_key s None) (filter (runnable s) (dvalues (s_tasks s)))"
  from assms(1) obtain t ts where ts: "?xs = t # ts" "at_task_id t = c"
    by (auto simp: best_queued_task_id_def ranked_queued_eq split: list.splits)
  then have "t \<in> set ?xs" by simp
  then have t: "t \<in> set (dvalues (s_tasks s))" "runnable s t" by (auto simp del: set_map)
  have "sorted (map (queue_key s None) ?xs)" by (rule sorted_sort_key)
  then have least: "\<forall>t'\<in>set ?xs. queue_key s None t \<le> queue_key s None t'"
    by (simp add: ts(1))
  show thesis
  proof (rule that [OF _ t(2) ts(2)])
    show "dget (s_tasks s) c = Some t" using wf_tasksD(3) [OF assms(2) t(1)] ts(2) by simp
    fix k t' assume "dget (s_tasks s) k = Some t'" "runnable s t'"
    then have "t' \<in> set ?xs" by (simp del: set_map add: dget_Some_in)
    with least show "queue_key s None t \<le> queue_key s None t'" by blast
  qed
qed

lemma best_queued_None:
  "best_queued_task_id s = None \<Longrightarrow> dget (s_tasks s) k = Some t \<Longrightarrow> \<not> runnable s t"
proof -
  assume "best_queued_task_id s = None" and t: "dget (s_tasks s) k = Some t"
  then have "filter (runnable s) (dvalues (s_tasks s)) = []"
    by (auto simp: best_queued_task_id_def ranked_queued_eq split: list.splits)
      (metis length_0_conv length_sort)
  then show ?thesis using dget_Some_in [OF t] by (auto simp: filter_empty_conv simp del: set_map)
qed

section \<open>Outcomes of a focus decision\<close>

definition legacy_mode :: "scheduler \<Rightarrow> bool" where
  "legacy_mode s \<longleftrightarrow> \<not> s_resource_safety_required s \<and> s_current_epoch s = None \<and> s_pending_epoch_plan s = None"

definition next_cycle :: "scheduler \<Rightarrow> scheduler" where
  "next_cycle s = (invalidate_scheduling_plan s)\<lparr>s_cycle := s_cycle s + 1\<rparr>"

lemma require_legacy [simp]: "legacy_mode s \<Longrightarrow> require_legacy_focus_mode s = (Inr (), s)"
  by (simp add: legacy_mode_def require_legacy_focus_mode_def)

lemma advance_one [simp]: "advance_cycle 1 s = (Inr (s_cycle s + 1), next_cycle s)"
  by (simp add: advance_cycle_def next_cycle_def Let_def)

lemma next_cycle_simps [simp]:
  "s_tasks (next_cycle s) = s_tasks s" "s_active_task_id (next_cycle s) = s_active_task_id s"
  "s_pending_preemption_task_id (next_cycle s) = s_pending_preemption_task_id s"
  "s_cycle (next_cycle s) = s_cycle s + 1"
  by (simp_all add: next_cycle_def)

lemma next_cycle_focus [simp]: "focus_inv s \<Longrightarrow> focus_inv (next_cycle s)"
  by (rule focus_inv_cong [of _ s]) (simp_all add: next_cycle_def)

lemma active_running:
  assumes "focus_inv s" and "s_active_task_id s = Some a"
  obtains ta where "dget (s_tasks s) a = Some ta" and "at_status ta = RUNNING" and "at_task_id ta = a"
proof -
  from assms have "\<exists>t. dget (s_tasks s) a = Some t \<and> at_status t = RUNNING"
    unfolding focus_inv_def exclusive_focus_def by blast
  with that wf_tasksD(1) [OF focus_wf [OF assms(1)]] show thesis by blast
qed

lemma start_eq:
  assumes "focus_inv s" and "s_active_task_id s = None"
    and "dget (s_tasks s) c = Some t" and "at_status t = QUEUED"
  obtains s' where "start uuid5 c reason s = (Inr (), s')" and "focus_inv s'"
    and "s_active_task_id s' = Some c" and "s_cycle s' = s_cycle s"
    and "\<And>j. j \<noteq> c \<Longrightarrow> dget (s_tasks s') j = dget (s_tasks s) j"
proof -
  have ok: "focus_inv (snd (start uuid5 c reason s))" by (rule start_focus [OF assms(1)])
  show thesis
    by (rule that [OF _ ok])
      (use assms in \<open>simp_all add: start_def sbind_def dlookup_Some transition_eq [OF focus_wf]\<close>)
qed

lemma switch_focus_eq:
  assumes "focus_inv s" and "s_active_task_id s = Some a" and "dget (s_tasks s) c = Some tc"
    and "at_status tc = QUEUED"
  obtains s' ta' where "switch_focus uuid5 c r1 r2 s = decision PREEMPT (Some c) (Some c) r2 s'"
    and "focus_inv s'" and "s_active_task_id s' = Some c" and "s_cycle s' = s_cycle s"
    and "dget (s_tasks s') a = Some ta'" and "at_status ta' = QUEUED"
    and "at_enqueued_cycle ta' = s_cycle s"
proof -
  obtain ta where ta: "dget (s_tasks s) a = Some ta" "at_status ta = RUNNING" "at_task_id ta = a"
    by (rule active_running [OF assms(1,2)])
  have ne: "a \<noteq> c" using ta assms by auto
  obtain s1 ta' where r: "requeue_active uuid5 r1 s = (Inr (), s1)" "focus_inv s1"
      "s_active_task_id s1 = None" "s_cycle s1 = s_cycle s" "at_status ta' = QUEUED"
      "at_enqueued_cycle ta' = s_cycle s"
      "\<And>j. dget (s_tasks s1) j = (if j = a then Some ta' else dget (s_tasks s) j)"
    by (rule requeue_active_eq [OF assms(1,2) ta(1,2), of uuid5 r1]) blast
  obtain s2 where st: "start uuid5 c r2 s1 = (Inr (), s2)" "focus_inv s2" "s_active_task_id s2 = Some c"
      "s_cycle s2 = s_cycle s1" "\<And>j. j \<noteq> c \<Longrightarrow> dget (s_tasks s2) j = dget (s_tasks s1) j"
    by (rule start_eq [OF r(2,3), of c tc]) (use r(7) ne assms in auto)
  show thesis
    by (rule that [OF _ st(2,3), of ta']) (use r st ne in \<open>simp_all add: switch_focus_def\<close>)
qed

text \<open>A change of focus from \<open>a\<close> is justified when the new task is the first of the runnable tasks, its
  effective priority is strictly above the base priority of \<open>a\<close>, and \<open>a\<close> is back in the queue with
  its waiting time restarted.\<close>

definition justified_switch :: "scheduler \<Rightarrow> uuid \<Rightarrow> scheduler \<Rightarrow> bool" where
  "justified_switch s a s' \<longleftrightarrow>
     (\<exists>b tb ta ta'. s_active_task_id s' = Some b \<and> dget (s_tasks s) b = Some tb \<and> runnable s tb \<and>
        (\<forall>k t. dget (s_tasks s) k = Some t \<longrightarrow> runnable s t \<longrightarrow> queue_key s None tb \<le> queue_key s None t) \<and>
        dget (s_tasks s) a = Some ta \<and> sm_interruption_policy (at_metadata ta) \<noteq> ATOMIC \<and>
        effective_priority s None tb < derive_priority (at_metadata ta) \<and>
        dget (s_tasks s') a = Some ta' \<and> at_status ta' = QUEUED \<and> at_enqueued_cycle ta' = s_cycle s')"

lemma switch_justified:
  assumes "focus_inv s" and "s_active_task_id s = Some a" and "dget (s_tasks s) a = Some ta"
    and "best_queued_task_id s = Some c" and "dget (s_tasks s) c = Some tc"
    and "strictly_outprioritizes s None tc ta" and "sm_interruption_policy (at_metadata ta) \<noteq> ATOMIC"
  shows "\<exists>d s'. switch_focus uuid5 c r1 r2 s = (Inr d, s') \<and> focus_inv s' \<and> fd_action d = PREEMPT \<and>
    fd_active_task_id d = s_active_task_id s' \<and> justified_switch s a s'"
proof -
  obtain t where t: "dget (s_tasks s) c = Some t" "runnable s t"
    "\<And>k t'. dget (s_tasks s) k = Some t' \<Longrightarrow> runnable s t' \<Longrightarrow> queue_key s None t \<le> queue_key s None t'"
    by (rule best_queued_Some [OF assms(4) focus_wf [OF assms(1)]]) blast
  then have "at_status tc = QUEUED" using assms(5) by (simp add: runnable_def)
  from assms(1,2,5) this obtain s' ta' where sw:
      "switch_focus uuid5 c r1 r2 s = decision PREEMPT (Some c) (Some c) r2 s'" "focus_inv s'"
      "s_active_task_id s' = Some c" "s_cycle s' = s_cycle s" "dget (s_tasks s') a = Some ta'"
      "at_status ta' = QUEUED" "at_enqueued_cycle ta' = s_cycle s"
    by (rule switch_focus_eq)
  have "justified_switch s a s'"
    unfolding justified_switch_def using t sw assms
    by (auto simp: strictly_outprioritizes_def less_priority_class_def)
  with sw show ?thesis by (simp add: decision_def)
qed

lemma runnable_cycle: "best_queued_task_id s = Some c \<Longrightarrow> wf_tasks s \<Longrightarrow>
    \<exists>t. dget (s_tasks s) c = Some t \<and> at_status t = QUEUED \<and> at_task_id t = c"
  by (erule best_queued_Some) (auto simp: runnable_def)

lemma reconcile_active_outcome:
  assumes "focus_inv s" and "s_active_task_id s = Some a" and "dget (s_tasks s) a = Some ta"
  shows "\<exists>d s'. reconcile_active uuid5 (best_queued_task_id s) ta s = (Inr d, s') \<and> focus_inv s' \<and>
    fd_active_task_id d = s_active_task_id s' \<and> fd_action d \<noteq> IDLE \<and>
    (s_active_task_id s' = Some a \<or>
     justified_switch s a s' \<and> sm_interruption_policy (at_metadata ta) = PREEMPTIBLE)"
proof (cases "best_queued_task_id s")
  case None
  then show ?thesis using assms wf_tasksD(1) [OF focus_wf [OF assms(1)] assms(3)]
    by (simp add: reconcile_active_def decision_def)
next
  case (Some c)
  with focus_wf [OF assms(1)] obtain tc where tc: "dget (s_tasks s) c = Some tc" "at_status tc = QUEUED"
    "at_task_id tc = c" by (blast dest: runnable_cycle)
  have ta: "at_task_id ta = a" using wf_tasksD(1) [OF focus_wf [OF assms(1)] assms(3)] .
  have wait: "focus_inv (s\<lparr>s_pending_preemption_task_id := Some c\<rparr>)"
    using assms(1) tc by (auto simp: focus_inv_def wf_tasks_def exclusive_focus_def legal_log_def)
  show ?thesis
  proof (cases "strictly_outprioritizes s None tc ta \<and> sm_interruption_policy (at_metadata ta) = PREEMPTIBLE")
    case True
    with switch_justified [OF assms Some tc(1), of uuid5 "''preempted by higher-priority task''"
        "''preempted '' @ uuid_str a"]
    show ?thesis using Some tc ta by (auto simp: reconcile_active_def dlookup_Some sbind_def)
  next
    case False
    then show ?thesis using Some tc ta wait assms
      by (auto simp: reconcile_active_def dlookup_Some sbind_def decision_def
          split: interruption_policy.split)
  qed
qed

lemma checkpoint_yield_outcome:
  assumes "focus_inv s" and "s_active_task_id s = Some a" and "dget (s_tasks s) a = Some ta"
  shows "\<exists>d s'. checkpoint_yield uuid5 ta s = (Inr d, s') \<and> focus_inv s' \<and>
    fd_active_task_id d = s_active_task_id s' \<and> fd_action d \<noteq> IDLE \<and>
    (s_active_task_id s' = Some a \<or> justified_switch s a s')"
proof (cases "best_queued_task_id s")
  case None
  have "focus_inv (s\<lparr>s_pending_preemption_task_id := None\<rparr>)"
    using assms(1) by (auto simp: focus_inv_def wf_tasks_def exclusive_focus_def legal_log_def)
  with None show ?thesis using assms wf_tasksD(1) [OF focus_wf [OF assms(1)] assms(3)]
    by (simp add: checkpoint_yield_def decision_def)
next
  case (Some c)
  with focus_wf [OF assms(1)] obtain tc where tc: "dget (s_tasks s) c = Some tc" "at_status tc = QUEUED"
    "at_task_id tc = c" by (blast dest: runnable_cycle)
  have ta: "at_task_id ta = a" using wf_tasksD(1) [OF focus_wf [OF assms(1)] assms(3)] .
  have clear: "focus_inv (s\<lparr>s_pending_preemption_task_id := None\<rparr>)"
    using assms(1) by (auto simp: focus_inv_def wf_tasks_def exclusive_focus_def legal_log_def)
  show ?thesis
  proof (cases "strictly_outprioritizes s None tc ta \<and> sm_interruption_policy (at_metadata ta) \<noteq> ATOMIC")
    case True
    with switch_justified [OF assms Some tc(1), of uuid5 "''yielded at checkpoint to higher-priority task''"
        "''checkpoint preemption of '' @ uuid_str a"]
    show ?thesis using Some tc ta by (auto simp: checkpoint_yield_def dlookup_Some sbind_def)
  next
    case False
    then show ?thesis using Some tc ta clear assms
      by (auto simp: checkpoint_yield_def dlookup_Some sbind_def decision_def)
  qed
qed

lemma reconcile_focus_outcome:
  assumes "legacy_mode s" and "focus_inv s"
  shows "\<exists>d s'. reconcile_focus uuid5 s = (Inr d, s') \<and> focus_inv s' \<and>
    fd_active_task_id d = s_active_task_id s' \<and>
    (s_active_task_id s' = None \<longrightarrow> (\<forall>k t. dget (s_tasks s) k = Some t \<longrightarrow> \<not> runnable (next_cycle s) t)) \<and>
    (\<forall>a ta. s_active_task_id s = Some a \<longrightarrow> dget (s_tasks s) a = Some ta \<longrightarrow> s_active_task_id s' = Some a \<or>
      justified_switch (next_cycle s) a s' \<and> sm_interruption_policy (at_metadata ta) = PREEMPTIBLE)"
proof -
  let ?s = "next_cycle s"
  have inv1: "focus_inv ?s" using assms(2) by simp
  show ?thesis
  proof (cases "s_active_task_id s")
    case (Some a)
    then obtain ta where ta: "dget (s_tasks s) a = Some ta" by (rule active_running [OF assms(2)])
    have "\<exists>d s'. reconcile_active uuid5 (best_queued_task_id ?s) ta ?s = (Inr d, s') \<and> focus_inv s' \<and>
      fd_active_task_id d = s_active_task_id s' \<and> fd_action d \<noteq> IDLE \<and>
      (s_active_task_id s' = Some a \<or>
       justified_switch ?s a s' \<and> sm_interruption_policy (at_metadata ta) = PREEMPTIBLE)"
      by (rule reconcile_active_outcome [OF inv1]) (use Some ta in simp_all)
    then show ?thesis using Some ta assms(1)
      by (auto simp: reconcile_focus_def sbind_def dlookup_Some justified_switch_def)
  next
    case None
    show ?thesis
    proof (cases "best_queued_task_id ?s")
      case no: None
      with best_queued_None [OF no] show ?thesis using None assms(1) inv1
        by (auto simp: reconcile_focus_def sbind_def decision_def)
    next
      case (Some c)
      then obtain t where "dget (s_tasks ?s) c = Some t" "at_status t = QUEUED"
        using runnable_cycle [OF _ focus_wf [OF inv1]] by blast
      then obtain s' where "start uuid5 c ''highest-ranked runnable task'' ?s = (Inr (), s')"
        "focus_inv s'" "s_active_task_id s' = Some c"
        by (rule start_eq [OF inv1, rotated]) (use None in simp_all)
      then show ?thesis using None Some assms(1)
        by (auto simp: reconcile_focus_def sbind_def decision_def)
    qed
  qed
qed

lemma checkpoint_active_outcome:
  assumes "legacy_mode s" and "focus_inv s"
  shows "\<exists>d s'. checkpoint_active uuid5 s = (Inr d, s') \<and> focus_inv s' \<and>
    fd_active_task_id d = s_active_task_id s' \<and>
    (\<forall>a. s_active_task_id s = Some a \<longrightarrow> s_active_task_id s' = Some a \<or> justified_switch (next_cycle s) a s')"
proof (cases "s_active_task_id s")
  case None
  then show ?thesis using reconcile_focus_outcome [OF assms] assms(1)
    by (fastforce simp: checkpoint_active_def sbind_def)
next
  case (Some a)
  then obtain ta where ta: "dget (s_tasks s) a = Some ta" by (rule active_running [OF assms(2)])
  have "\<exists>d s'. checkpoint_yield uuid5 ta (next_cycle s) = (Inr d, s') \<and> focus_inv s' \<and>
      fd_active_task_id d = s_active_task_id s' \<and> fd_action d \<noteq> IDLE \<and>
      (s_active_task_id s' = Some a \<or> justified_switch (next_cycle s) a s')"
    by (rule checkpoint_yield_outcome) (use assms Some ta in simp_all)
  then show ?thesis using Some ta assms(1)
    by (auto simp: checkpoint_active_def sbind_def dlookup_Some)
qed

text \<open>The operations outside focus mode leave the object unchanged.\<close>

lemma require_legacy_snd: "snd (require_legacy_focus_mode s) = s"
  by (simp add: require_legacy_focus_mode_def)

lemma not_legacy: "\<not> legacy_mode s \<Longrightarrow> \<exists>e. require_legacy_focus_mode s = (Inl e, s)"
  by (auto simp: legacy_mode_def require_legacy_focus_mode_def)

lemma reconcile_focus_keeps [invariant_keeps]: "focus_inv s \<Longrightarrow> focus_inv (snd (reconcile_focus uuid5 s))"
  using reconcile_focus_outcome [of s uuid5] not_legacy [of s]
  by (cases "legacy_mode s") (auto simp: reconcile_focus_def)

lemma checkpoint_active_keeps [invariant_keeps]: "focus_inv s \<Longrightarrow> focus_inv (snd (checkpoint_active uuid5 s))"
  using checkpoint_active_outcome [of s uuid5] not_legacy [of s]
  by (cases "legacy_mode s") (auto simp: checkpoint_active_def)

lemma finish_active_keeps:
  assumes "focus_inv s" and "to \<in> {COMPLETED, FAILED}"
  shows "focus_inv (snd (finish_active uuid5 to reason st s))"
proof (cases "legacy_mode s \<and> s_active_task_id s \<noteq> None")
  case True
  then obtain k where k: "s_active_task_id s = Some k" by auto
  obtain r s1 where s1: "store_resumable_state k st s = (r, s1)" by fastforce
  have "focus_inv s1" using store_resumable_focus [OF assms(1), of k st] s1 by simp
  moreover have "s_active_task_id s1 = Some k"
    using s1 k by (auto simp: store_resumable_state_def replace_task_def Let_def split: option.splits)
  ultimately show ?thesis
    using True k s1 assms(2) finish_focus [of s1 k to uuid5 reason]
    by (cases r) (auto simp: finish_active_def sbind_def)
next
  case False
  then show ?thesis using assms(1) not_legacy [of s]
    by (cases "legacy_mode s") (auto simp: finish_active_def sbind_def)
qed

lemmas complete_active_keeps [invariant_keeps] = finish_active_keeps [where to = COMPLETED, folded complete_active_def]
lemmas fail_active_keeps [invariant_keeps] = finish_active_keeps [where to = FAILED, folded fail_active_def]

lemma advance_cycle_keeps [invariant_keeps]: "focus_inv s \<Longrightarrow> focus_inv (snd (advance_cycle n s))"
  by (rule focus_inv_cong [of _ s]) (auto simp: advance_cycle_def Let_def)

lemma configure_keeps [invariant_keeps]: "focus_inv s \<Longrightarrow> focus_inv (snd (configure_execution_resource r s))"
  by (rule focus_inv_cong [of _ s]) (auto simp: configure_execution_resource_def Let_def)

lemma enable_safety_keeps [invariant_keeps]: "focus_inv s \<Longrightarrow> focus_inv (snd (enable_resource_safety v s))"
  by (rule focus_inv_cong [of _ s]) (auto simp: enable_resource_safety_def)

lemma set_resumable_keeps [invariant_keeps]: "focus_inv s \<Longrightarrow> focus_inv (snd (set_resumable_state k st s))"
  using store_resumable_focus [of s k "Some st"]
  by (auto simp: set_resumable_state_def store_resumable_state_def sbind_def split: prod.split sum.split)

lemma fresh_task:
  assumes "focus_inv s" and "dget (s_tasks s) (at_task_id t) = None" and "wf_task t" and "at_status t = NEW"
    and "\<not> list_ex (\<lambda>x. at_created_seq x = at_created_seq t) (dvalues (s_tasks s))"
  shows "focus_inv (s\<lparr>s_tasks := dset (at_task_id t) t (s_tasks s)\<rparr>)"
proof -
  have fresh: "at_created_seq t' \<noteq> at_created_seq t" if "dget (s_tasks s) k = Some t'" for k t'
    using assms(5) dget_Some_in [OF that] by (auto simp: list_ex_iff simp del: set_map)
  have "wf_tasks (s\<lparr>s_tasks := dset (at_task_id t) t (s_tasks s)\<rparr>)"
    using focus_wf [OF assms(1)] assms(3) fresh unfolding wf_tasks_def
    by simp (metis option.inject)
  then show ?thesis using assms by (auto simp: focus_inv_def exclusive_focus_def legal_log_def)
qed

lemma submit_keeps [invariant_keeps]:
  assumes "focus_inv s" and "wf_task t"
  shows "focus_inv (snd (submit uuid5 t s))"
proof (cases "at_task_id t \<in> set (dkeys (s_tasks s)) \<or> at_status t \<noteq> NEW \<or>
    list_ex (\<lambda>x. at_created_seq x = at_created_seq t) (dvalues (s_tasks s))")
  case True
  then show ?thesis using assms(1) by (auto simp: submit_def)
next
  case False
  let ?k = "at_task_id t"
  define s0 where "s0 = s\<lparr>s_tasks := dset ?k t (s_tasks s)\<rparr>"
  define t1 where "t1 = t\<lparr>at_status := QUEUED, at_revision := at_revision t + 1\<rparr>"
  define s1 where "s1 = (invalidate_scheduling_plan s0)\<lparr>s_transitions := s_transitions s0 @
     [transition_record uuid5 t QUEUED ''task submitted'' (s_cycle s0)], s_tasks := dset ?k t1 (s_tasks s0)\<rparr>"
  have none: "dget (s_tasks s) ?k = None" using False by (simp add: map_of_eq_None_iff)
  have 0: "focus_inv s0"
    unfolding s0_def by (rule fresh_task [OF assms(1) none assms(2)]) (use False in auto)
  have k0: "dget (s_tasks s0) ?k = Some t" by (simp add: s0_def)
  have 1: "focus_inv s1"
    by (rule focus_inv_move [OF 0 k0, where to = QUEUED])
      (use False none assms(1) in \<open>auto simp: s1_def t1_def s0_def focus_inv_def exclusive_focus_def\<close>)
  have tr: "transition uuid5 ?k QUEUED ''task submitted'' s0 = (Inr (), s1)"
    by (simp add: transition_eq [OF focus_wf [OF 0] k0] s1_def t1_def)
  have k1: "dget (s_tasks s1) ?k = Some t1" by (simp add: s1_def)
  have "focus_inv ((invalidate_scheduling_plan s1)\<lparr>s_tasks :=
      dset ?k (t1\<lparr>at_enqueued_cycle := s_cycle s1\<rparr>) (s_tasks (invalidate_scheduling_plan s1))\<rparr>)"
    by (rule focus_inv_replace [where t = t1])
      (use 1 k1 assms focus_wf [OF 1] in \<open>auto simp: t1_def wf_task_def wf_tasks_def\<close>)
  then show ?thesis using False tr
    by (simp add: submit_def sbind_def s0_def [symmetric] replace_task_eq [OF k1])
qed

text \<open>Completing a task directly keeps the invariant as long as it neither owns focus nor waits to
  take it.\<close>

lemma complete_task_keeps [invariant_keeps]:
  assumes "focus_inv s" and "s_active_task_id s \<noteq> Some k" and "s_pending_preemption_task_id s \<noteq> Some k"
  shows "focus_inv (snd (complete_task uuid5 k st s))"
proof (cases "dget (s_tasks s) k")
  case None
  then show ?thesis using assms(1) by (simp add: complete_task_def)
next
  case (Some t)
  have nr: "at_status t \<noteq> RUNNING" using assms(1,2) Some by (auto simp: focus_inv_def exclusive_focus_def)
  obtain r s1 where s1: "store_resumable_state k st s = (r, s1)" by fastforce
  have inv1: "focus_inv s1" using store_resumable_focus [OF assms(1), of k st] s1 by simp
  have same: "s_active_task_id s1 = s_active_task_id s"
    "s_pending_preemption_task_id s1 = s_pending_preemption_task_id s"
    "\<exists>t1. dget (s_tasks s1) k = Some t1 \<and> at_status t1 = at_status t"
    using s1 Some by (auto simp: store_resumable_state_def replace_task_eq split: option.splits)
  then obtain t1 where t1: "dget (s_tasks s1) k = Some t1" "at_status t1 = at_status t" by blast
  show ?thesis
  proof (cases "at_status t \<in> {COMPLETED, FAILED, NEW}")
    case True
    then show ?thesis using Some assms(1) by (auto simp: complete_task_def)
  next
    case False
    have "focus_inv (snd (transition uuid5 k COMPLETED ''all durable worker steps completed'' s1))"
      by (rule focus_inv_move [OF inv1 t1(1), where to = COMPLETED])
        (use False nr t1 same assms in \<open>cases "at_status t"; auto simp: transition_eq [OF focus_wf [OF inv1]]\<close>)+
    then show ?thesis using False Some s1 inv1
      by (auto simp: complete_task_def sbind_def split: sum.split prod.split)
  qed
qed

lemma init_focus: "init_scheduler g b v = Inr s \<Longrightarrow> focus_inv s"
  by (auto simp: init_scheduler_def focus_inv_def wf_tasks_def exclusive_focus_def legal_log_def
      split: option.splits)

section \<open>Properties\<close>

definition sample_uuid5 :: "uuid \<Rightarrow> string \<Rightarrow> uuid" where
  "sample_uuid5 ns name = ns + of_nat (length name)"

definition sample_idle :: scheduler where
  "sample_idle = projr (init_scheduler None False RESOURCE_SAFETY_POLICY_VERSION)"

definition sample_background :: attention_task where
  "sample_background = \<lparr>at_task_id = 1, at_task_key = ''index'', at_created_seq = 1,
     at_metadata = sample_metadata OPPORTUNISTIC BACKGROUND PREEMPTIBLE [], at_parent_task_id = None,
     at_status = NEW, at_enqueued_cycle = 0, at_revision = 0, at_resumable_state = []\<rparr>"

definition sample_urgent :: attention_task where
  "sample_urgent = \<lparr>at_task_id = 2, at_task_key = ''reply'', at_created_seq = 2,
     at_metadata = sample_metadata USER_BLOCKING INTERACTIVE PREEMPTIBLE [], at_parent_task_id = None,
     at_status = NEW, at_enqueued_cycle = 0, at_revision = 0, at_resumable_state = []\<rparr>"

text \<open>A background task owns focus, then an urgent one is submitted.\<close>

definition sample_focus :: scheduler where
  "sample_focus = snd (submit sample_uuid5 sample_urgent (snd (reconcile_focus sample_uuid5
     (snd (submit sample_uuid5 sample_background sample_idle)))))"

lemma sample_idle_init: "init_scheduler None False RESOURCE_SAFETY_POLICY_VERSION = Inr sample_idle"
proof -
  have "succeeds (init_scheduler None False RESOURCE_SAFETY_POLICY_VERSION)"
    by (simp add: init_scheduler_def RESOURCE_SAFETY_POLICY_VERSION_def py_strip_def is_py_space_def)
  then show ?thesis by (auto simp: sample_idle_def succeeds_iff)
qed

lemma sample_wf: "wf_task sample_background" "wf_task sample_urgent"
  by (simp_all add: wf_task_def sample_background_def sample_urgent_def wf_metadata_def sample_metadata_def)

lemma sample_focus_inv: "focus_inv sample_focus"
  unfolding sample_focus_def
  by (intro submit_keeps reconcile_focus_keeps init_focus [OF sample_idle_init] sample_wf)

lemma sample_focus_legacy: "legacy_mode sample_focus" "s_active_task_id sample_focus = Some 1"
  by code_simp+

text \<open>C33. Focus is work-conserving and preemption is justified: in focus mode a reconciliation never
  raises; it leaves focus empty only if no queued task is runnable; and it takes focus from the active
  task only if that task is preemptible, the new task ranks first among the runnable tasks and its
  effective priority is strictly higher, the displaced task being queued again with its waiting time
  restarted.\<close>

theorem reconcile_focus_sound:
  assumes "legacy_mode s" and "focus_inv s"
  shows "\<exists>d s'. reconcile_focus uuid5 s = (Inr d, s') \<and> focus_inv s' \<and>
    fd_active_task_id d = s_active_task_id s' \<and>
    (s_active_task_id s' = None \<longrightarrow> (\<forall>k t. dget (s_tasks s) k = Some t \<longrightarrow> \<not> runnable (next_cycle s) t)) \<and>
    (\<forall>a ta. s_active_task_id s = Some a \<longrightarrow> dget (s_tasks s) a = Some ta \<longrightarrow> s_active_task_id s' = Some a \<or>
      justified_switch (next_cycle s) a s' \<and> sm_interruption_policy (at_metadata ta) = PREEMPTIBLE)"
  by (rule reconcile_focus_outcome [OF assms])

theorem reconcile_focus_sound_witness:
  "\<exists>d s'. reconcile_focus sample_uuid5 sample_focus = (Inr d, s') \<and> s_active_task_id s' = Some 2 \<and>
     justified_switch (next_cycle sample_focus) 1 s'"
proof -
  from reconcile_focus_sound [OF sample_focus_legacy(1) sample_focus_inv, of sample_uuid5]
  obtain d s' where ds: "reconcile_focus sample_uuid5 sample_focus = (Inr d, s')"
    "\<And>ta. dget (s_tasks sample_focus) 1 = Some ta \<Longrightarrow>
       s_active_task_id s' = Some 1 \<or> justified_switch (next_cycle sample_focus) 1 s'"
    using sample_focus_legacy(2) by blast
  have "dget (s_tasks sample_focus) 1 \<noteq> None" by code_simp
  moreover have two: "s_active_task_id (snd (reconcile_focus sample_uuid5 sample_focus)) = Some 2"
    by code_simp
  ultimately have "justified_switch (next_cycle sample_focus) 1 s'" using ds by auto
  with ds(1) two show ?thesis by simp
qed

text \<open>C34. A checkpoint yields focus only for a reason: in focus mode \<^verbatim>\<open>checkpoint_active\<close> never raises,
  and the active task keeps focus unless it is not atomic, the task that replaces it ranks first among
  the runnable tasks with a strictly higher effective priority, and the displaced task is queued.\<close>

theorem checkpoint_active_sound:
  assumes "legacy_mode s" and "focus_inv s"
  shows "\<exists>d s'. checkpoint_active uuid5 s = (Inr d, s') \<and> focus_inv s' \<and>
    fd_active_task_id d = s_active_task_id s' \<and>
    (\<forall>a. s_active_task_id s = Some a \<longrightarrow> s_active_task_id s' = Some a \<or> justified_switch (next_cycle s) a s')"
  by (rule checkpoint_active_outcome [OF assms])

theorem checkpoint_active_sound_witness:
  "\<exists>d s'. checkpoint_active sample_uuid5 sample_focus = (Inr d, s') \<and> s_active_task_id s' = Some 2 \<and>
     justified_switch (next_cycle sample_focus) 1 s'"
proof -
  from checkpoint_active_sound [OF sample_focus_legacy(1) sample_focus_inv, of sample_uuid5]
  obtain d s' where ds: "checkpoint_active sample_uuid5 sample_focus = (Inr d, s')"
    "s_active_task_id s' = Some 1 \<or> justified_switch (next_cycle sample_focus) 1 s'"
    using sample_focus_legacy(2) by blast
  have two: "s_active_task_id (snd (checkpoint_active sample_uuid5 sample_focus)) = Some 2"
    by code_simp
  then have "justified_switch (next_cycle sample_focus) 1 s'" using ds by auto
  with ds(1) two show ?thesis by simp
qed

text \<open>What a smaller key means for a task that has waited for its guarantee.\<close>

lemma smaller_key:
  assumes key: "queue_key s (Some c) u \<le> queue_key s (Some c) t" and "at_status t = QUEUED"
    and due: "service_due s (Some c) t" and diff: "at_created_seq u \<noteq> at_created_seq t"
  shows "effective_priority s (Some c) u \<le>
      sg_guaranteed_priority (s_service_guarantees s (sm_service_class (at_metadata t)))"
    and "effective_priority s (Some c) u = effective_priority s (Some c) t \<Longrightarrow>
      service_due s (Some c) u \<and>
      (normalize_deadline (sm_deadline (at_metadata u)) < normalize_deadline (sm_deadline (at_metadata t)) \<or>
       normalize_deadline (sm_deadline (at_metadata u)) = normalize_deadline (sm_deadline (at_metadata t)) \<and>
       at_created_seq u < at_created_seq t)"
proof -
  have "effective_priority s (Some c) t \<le>
      sg_guaranteed_priority (s_service_guarantees s (sm_service_class (at_metadata t)))"
    using assms(2) due by (simp add: effective_priority_def Let_def)
  moreover have "effective_priority s (Some c) u \<le> effective_priority s (Some c) t"
    using key by (auto simp: queue_key_def less_eq_prod_def less_eq_priority_class_def split: if_splits)
  ultimately show "effective_priority s (Some c) u \<le>
      sg_guaranteed_priority (s_service_guarantees s (sm_service_class (at_metadata t)))" by simp
  show "service_due s (Some c) u \<and>
      (normalize_deadline (sm_deadline (at_metadata u)) < normalize_deadline (sm_deadline (at_metadata t)) \<or>
       normalize_deadline (sm_deadline (at_metadata u)) = normalize_deadline (sm_deadline (at_metadata t)) \<and>
       at_created_seq u < at_created_seq t)"
    if "effective_priority s (Some c) u = effective_priority s (Some c) t"
    using key due diff that by (auto simp: queue_key_def less_eq_prod_def less_prod_def split: if_splits)
qed

text \<open>C35. Waiting is bounded by the service guarantee. A queued task whose dependencies are completed has
  exactly one place in the ranking of a cycle. Once it has waited the maximum number of cycles of its
  service class, each task ranked before it has an effective priority at least as high as the guaranteed
  one; and one of equal effective priority is overdue as well and has an earlier deadline, or the same
  deadline and an earlier creation number.\<close>

theorem service_guarantee_bounds_rank:
  assumes "wf_tasks s" and "dget (s_tasks s) k = Some t" and "at_status t = QUEUED" and "dependencies_satisfied s t"
    and "s_service_guarantees s (sm_service_class (at_metadata t)) =
      \<lparr>sg_max_wait_cycles = Some w, sg_guaranteed_priority = p\<rparr>"
    and "at_enqueued_cycle t + w \<le> c"
    and "ranked = ranked_dependency_satisfied_queued_task_ids s (Some c)"
  shows "distinct ranked \<and> (\<exists>j<length ranked. ranked ! j = k \<and> (\<forall>i<j. \<exists>u. dget (s_tasks s) (ranked ! i) = Some u \<and>
    effective_priority s (Some c) u \<le> p \<and>
    (effective_priority s (Some c) u = effective_priority s (Some c) t \<longrightarrow>
       service_due s (Some c) u \<and>
       (normalize_deadline (sm_deadline (at_metadata u)) < normalize_deadline (sm_deadline (at_metadata t)) \<or>
        normalize_deadline (sm_deadline (at_metadata u)) = normalize_deadline (sm_deadline (at_metadata t)) \<and>
        at_created_seq u < at_created_seq t))))"
proof -
  let ?ts = "ranked_dependency_satisfied s (Some c)"
  have ids: "distinct (map at_task_id (dvalues (s_tasks s)))"
  proof -
    have "map at_task_id (dvalues (s_tasks s)) = dkeys (s_tasks s)"
      using assms(1) by (auto simp: wf_tasks_def map_of_eq_Some_iff)
    then show ?thesis using assms(1) by (metis wf_tasks_def)
  qed
  have mem: "x \<in> set ?ts \<longleftrightarrow> x \<in> set (dvalues (s_tasks s)) \<and> at_status x = QUEUED \<and> dependencies_satisfied s x" for x
    by (auto simp: ranked_dependency_satisfied_def simp del: set_map)
  let ?run = "filter (\<lambda>t. at_status t = QUEUED \<and> dependencies_satisfied s t) (dvalues (s_tasks s))"
  have "mset (map at_task_id ?ts) = mset (map at_task_id ?run)"
    by (simp add: ranked_dependency_satisfied_def del: filter.simps)
  from mset_eq_imp_distinct_iff [OF this] have dist: "distinct (map at_task_id ?ts)"
    using distinct_map_filter [OF ids] by blast
  have ranked: "ranked = map at_task_id ?ts" by (simp add: assms(7) ranked_dependency_satisfied_queued_task_ids_def)
  have "t \<in> set ?ts" using assms(3,4) dget_Some_in [OF assms(2)] unfolding mem by blast
  then obtain j where j: "j < length ?ts" "?ts ! j = t" by (auto simp: in_set_conv_nth)
  have due: "service_due s (Some c) t" using assms(5,6) by (simp add: service_due_def)
  have "\<exists>u. dget (s_tasks s) (ranked ! i) = Some u \<and> effective_priority s (Some c) u \<le> p \<and>
    (effective_priority s (Some c) u = effective_priority s (Some c) t \<longrightarrow> service_due s (Some c) u \<and>
       (normalize_deadline (sm_deadline (at_metadata u)) < normalize_deadline (sm_deadline (at_metadata t)) \<or>
        normalize_deadline (sm_deadline (at_metadata u)) = normalize_deadline (sm_deadline (at_metadata t)) \<and>
        at_created_seq u < at_created_seq t))" if i: "i < j" for i
  proof -
    let ?u = "?ts ! i"
    have "?u \<in> set ?ts" using i j(1) by simp
    then have u: "dget (s_tasks s) (at_task_id ?u) = Some ?u" using wf_tasksD(3) [OF assms(1)] unfolding mem by blast
    have "at_task_id ?u \<noteq> at_task_id t"
      using nth_eq_iff_index_eq [OF dist, of i j] i j by simp
    then have diff: "at_created_seq ?u \<noteq> at_created_seq t"
      using assms(1,2) u wf_tasksD(1) [OF assms(1,2)] by (metis wf_tasks_def)
    have "sorted (map (queue_key s (Some c)) ?ts)" unfolding ranked_dependency_satisfied_def by (rule sorted_sort_key)
    from sorted_nth_mono [OF this, of i j] have key: "queue_key s (Some c) ?u \<le> queue_key s (Some c) t"
      using i j by simp
    show ?thesis
      using u i j(1) smaller_key [OF key assms(3) due diff] assms(5) by (intro exI [of _ ?u]) (simp add: ranked)
  qed
  then show ?thesis using dist j wf_tasksD(1) [OF assms(1,2)] unfolding ranked
    by (intro conjI exI [of _ j]) auto
qed

text \<open>A background task has waited two hundred cycles when an urgent one is ranked before it.\<close>

definition sample_queue :: scheduler where
  "sample_queue = snd (submit sample_uuid5 sample_urgent (snd (submit sample_uuid5 sample_background sample_idle)))"

lemma sample_queue_inv: "focus_inv sample_queue"
  unfolding sample_queue_def by (intro submit_keeps init_focus [OF sample_idle_init] sample_wf)

theorem service_guarantee_bounds_rank_witness:
  "\<exists>u. dget (s_tasks sample_queue) 2 = Some u \<and> effective_priority sample_queue (Some 200) u \<le> P3 \<and>
     ranked_dependency_satisfied_queued_task_ids sample_queue (Some 200) = [2, 1]"
proof -
  let ?t = "the (dget (s_tasks sample_queue) 1)"
  have "dget (s_tasks sample_queue) 1 \<noteq> None" by code_simp
  then have some: "dget (s_tasks sample_queue) 1 = Some ?t" by auto
  have 1: "at_status ?t = QUEUED" "dependencies_satisfied sample_queue ?t" by code_simp+
  have g: "sg_max_wait_cycles (s_service_guarantees sample_queue (sm_service_class (at_metadata ?t))) = Some 128"
    "sg_guaranteed_priority (s_service_guarantees sample_queue (sm_service_class (at_metadata ?t))) = P3"
    by code_simp+
  have 2: "s_service_guarantees sample_queue (sm_service_class (at_metadata ?t)) =
      \<lparr>sg_max_wait_cycles = Some 128, sg_guaranteed_priority = P3\<rparr>"
    by (rule service_guarantee.equality) (simp_all only: g service_guarantee.simps unit_eq)
  have 3: "at_enqueued_cycle ?t + 128 \<le> 200" by code_simp
  have ranked: "ranked_dependency_satisfied_queued_task_ids sample_queue (Some 200) = [2, 1]" by code_simp
  obtain j where j: "j < length [2, 1 :: uuid]" "[2, 1] ! j = (1 :: uuid)"
    and before: "\<forall>i<j. \<exists>u. dget (s_tasks sample_queue) ([2, 1] ! i) = Some u \<and>
      effective_priority sample_queue (Some 200) u \<le> P3"
    using service_guarantee_bounds_rank [OF focus_wf [OF sample_queue_inv] some 1 2 3 ranked [symmetric]] by blast
  have "j = 1" using j by (cases j) auto
  with before have "\<exists>u. dget (s_tasks sample_queue) ([2, 1] ! 0) = Some u \<and>
      effective_priority sample_queue (Some 200) u \<le> P3" by blast
  then show ?thesis using ranked by simp
qed

text \<open>The ranking is a function of the set of tasks: filling the task table in another order
  gives the same queue.\<close>

theorem ranking_insertion_independent:
  assumes "distinct (dkeys (s_tasks s))" and "mset ts = mset (s_tasks s)"
    and "\<And>k t. dget (s_tasks s) k = Some t \<Longrightarrow> at_task_id t = k"
  shows "ranked_queued_task_ids (s\<lparr>s_tasks := ts\<rparr>) cycle = ranked_queued_task_ids s cycle"
proof -
  have "mset (map fst ts) = mset (dkeys (s_tasks s))" by (simp add: assms(2))
  then have d: "distinct (dkeys ts)" using assms(1) by (metis mset_eq_imp_distinct_iff)
  have get: "dget ts = dget (s_tasks s)"
    using assms(1,2) d by (metis map_of_inject_set mset_eq_setD)
  let ?s = "s\<lparr>s_tasks := ts\<rparr>"
  have run: "runnable ?s = runnable s" and key: "queue_key ?s cycle = queue_key s cycle"
    by (auto simp: fun_eq_iff runnable_def dependencies_satisfied_def resources_satisfied_def
        available_by_class_def queue_key_def effective_priority_def service_due_def get Let_def
        split: option.split)
  have ids: "distinct (map at_task_id (dvalues ts))"
  proof -
    have "map at_task_id (dvalues ts) = dkeys ts"
      using assms(3) map_of_is_SomeI [OF d] get by auto
    with d show ?thesis by (simp only:)
  qed
  have "sort_key (queue_key s cycle) (filter (runnable s) (dvalues ts)) =
      sort_key (queue_key s cycle) (filter (runnable s) (dvalues (s_tasks s)))"
    by (rule queue_order.sort_canonical)
      (use ids assms(2) in \<open>simp_all add: distinct_map_filter\<close>)
  then show ?thesis by (simp add: ranked_queued_eq run key)
qed

theorem ranking_insertion_independent_witness:
  "ranked_queued_task_ids (sample_focus\<lparr>s_tasks := rev (s_tasks sample_focus)\<rparr>) None = [2]"
proof -
  have "wf_tasks sample_focus" by (rule focus_wf [OF sample_focus_inv])
  then have "ranked_queued_task_ids (sample_focus\<lparr>s_tasks := rev (s_tasks sample_focus)\<rparr>) None =
      ranked_queued_task_ids sample_focus None"
    by (intro ranking_insertion_independent) (auto simp: wf_tasks_def)
  also have "\<dots> = [2]" by code_simp
  finally show ?thesis .
qed

end
