(* ===== verification/Allocation.thy ===== *)
theory Allocation
  imports Scheduler
begin

text \<open>
  Properties of the allocation of a task's resource contract (\<^verbatim>\<open>_allocate_task_resources\<close>,
  \<^verbatim>\<open>_resource_class_deficits\<close>, \<^verbatim>\<open>_hold_available_task_capacity\<close>,
  \<^verbatim>\<open>_consume_preserved_reservations\<close>). The greedy allocation is exact: it grants a contract
  whenever the pools of each class hold enough units together, it reserves exactly the required
  units, and it never takes more from a pool than is left there. The account \<open>ledger\<close> is the
  abstract contract the planner relies on.
\<close>

section \<open>Accounts\<close>

definition units_on :: "string \<Rightarrow> resource_reservation list \<Rightarrow> int" where
  "units_on k rs = (\<Sum>r\<leftarrow>filter (\<lambda>r. rr_resource_id r = k) rs. rr_units r)"

definition class_units :: "execution_resource_class \<Rightarrow> resource_reservation list \<Rightarrow> int" where
  "class_units c rs = (\<Sum>r\<leftarrow>filter (\<lambda>r. rr_resource_class r = c) rs. rr_units r)"

definition pool_units :: "execution_resource list \<Rightarrow> (string, int) dict \<Rightarrow> int" where
  "pool_units pools rem = (\<Sum>r\<leftarrow>pools. dval rem (er_resource_id r))"

definition required_units ::
  "resource_requirement list \<Rightarrow> execution_resource_class \<Rightarrow> int" where
  "required_units qs c = (\<Sum>q\<leftarrow>filter (\<lambda>q. rq_resource_class q = c) qs. rq_units q)"

text \<open>The pools of a planning pass: distinct, named by stripped non-empty ids, and accounted for.\<close>

definition pools_ready :: "execution_resource list \<Rightarrow> (string, int) dict \<Rightarrow> bool" where
  "pools_ready pools rem \<longleftrightarrow> distinct (map er_resource_id pools) \<and>
     (\<forall>r\<in>set pools. py_strip (er_resource_id r) = er_resource_id r \<and> er_resource_id r \<noteq> [] \<and>
        dget rem (er_resource_id r) \<noteq> None)"

definition nonneg :: "(string, int) dict \<Rightarrow> bool" where
  "nonneg rem \<longleftrightarrow> (\<forall>k. 0 \<le> dval rem k)"

text \<open>What an allocation for task \<open>t\<close> does: the reservations \<open>new\<close> move units out of \<open>rem\<close>.\<close>

definition allocates ::
  "uuid \<Rightarrow> execution_resource list \<Rightarrow> resource_reservation list \<Rightarrow> (string, int) dict \<Rightarrow>
     (string, int) dict \<Rightarrow> bool" where
  "allocates t pools new rem rem' \<longleftrightarrow>
     dom (dget rem') = dom (dget rem) \<and> nonneg rem' \<and>
     (\<forall>k. dval rem' k = dval rem k - units_on k new) \<and> distinct (map rr_resource_id new) \<and>
     (\<forall>r\<in>set new. rr_task_id r = t \<and> 1 \<le> rr_units r \<and>
        (\<exists>p\<in>set pools. rr_resource_id r = er_resource_id p \<and>
           rr_resource_class r = er_resource_class p))"

text \<open>The contract of the account: no pool is overdrawn, and what is left plus what is reserved stays
  within the envelope.\<close>

definition ledger ::
  "(string \<Rightarrow> int) \<Rightarrow> (string, int) dict \<Rightarrow> resource_reservation list \<Rightarrow> bool" where
  "ledger cap rem rs \<longleftrightarrow> nonneg rem \<and>
     (\<forall>r\<in>set rs. dget rem (rr_resource_id r) \<noteq> None) \<and>
     (\<forall>k\<in>dom (dget rem). dval rem k + units_on k rs \<le> cap k)"

lemma units_on_simps [simp]:
  "units_on k [] = 0"
  "units_on k (r # rs) = (if rr_resource_id r = k then rr_units r else 0) + units_on k rs"
  "units_on k (xs @ ys) = units_on k xs + units_on k ys"
  by (simp_all add: units_on_def)

lemma class_units_simps [simp]:
  "class_units c [] = 0"
  "class_units c (r # rs) = (if rr_resource_class r = c then rr_units r else 0) + class_units c rs"
  "class_units c (xs @ ys) = class_units c xs + class_units c ys"
  by (simp_all add: class_units_def)

lemma required_units_simps [simp]:
  "required_units [] c = 0"
  "required_units (q # qs) c = (if rq_resource_class q = c then rq_units q else 0) + required_units qs c"
  by (simp_all add: required_units_def)

lemma pool_units_simps [simp]:
  "pool_units [] rem = 0"
  "pool_units (p # ps) rem = dval rem (er_resource_id p) + pool_units ps rem"
  by (simp_all add: pool_units_def)

lemma pool_units_nonneg: "nonneg rem \<Longrightarrow> 0 \<le> pool_units pools rem"
  by (induction pools) (auto simp: nonneg_def)

lemma pool_units_cong:
  "(\<And>p. p \<in> set pools \<Longrightarrow> dval rem (er_resource_id p) = dval rem' (er_resource_id p)) \<Longrightarrow>
     pool_units pools rem = pool_units pools rem'"
  by (induction pools) auto

lemma units_on_outside: "(\<And>r. r \<in> set rs \<Longrightarrow> rr_resource_id r \<noteq> k) \<Longrightarrow> units_on k rs = 0"
  by (induction rs) auto

lemma class_units_outside: "(\<And>r. r \<in> set rs \<Longrightarrow> rr_resource_class r \<noteq> c) \<Longrightarrow> class_units c rs = 0"
  by (induction rs) auto

lemma units_on_mset: "mset xs = mset ys \<Longrightarrow> units_on k xs = units_on k ys"
  unfolding units_on_def by (rule sum_list_filter_mset)

lemma nonneg_dset: "nonneg rem \<Longrightarrow> 0 \<le> v \<Longrightarrow> nonneg (dset k v rem)"
  by (simp add: nonneg_def)

lemma dom_dget_dset [simp]: "dom (dget (dset k v d)) = insert k (dom (dget d))"
  by (auto simp: dom_def)

lemma dget_dval: "dget rem k \<noteq> None \<Longrightarrow> dget rem k = Some (dval rem k)"
  by (auto simp: dval_def)

section \<open>One requirement\<close>

lemma allocate_requirement_spec:
  assumes "pools_ready pools rem" and "nonneg rem" and "0 \<le> needed"
    and "\<forall>p\<in>set pools. er_resource_class p = c"
  shows "\<exists>new rem'.
     allocate_requirement uuid5 t pools needed acc rem =
       Inr (max 0 (needed - pool_units pools rem), acc @ new, rem') \<and>
     allocates t pools new rem rem' \<and> class_units c new = min needed (pool_units pools rem)"
  using assms
proof (induction pools arbitrary: needed acc rem)
  case Nil
  then show ?case by (auto simp: allocates_def)
next
  case (Cons p ps)
  let ?k = "er_resource_id p" and ?av = "dval rem (er_resource_id p)"
  have av: "dget rem ?k = Some ?av" "0 \<le> ?av" "dlookup rem ?k = Inr ?av"
    using Cons.prems(1,2) dget_dval [of rem ?k] by (auto simp: pools_ready_def nonneg_def)
  have rest: "pools_ready ps rem" using Cons.prems(1) by (auto simp: pools_ready_def)
  show ?case
  proof (cases "min needed ?av \<le> 0")
    case True
    obtain new rem' where *: "allocate_requirement uuid5 t ps needed acc rem =
        Inr (max 0 (needed - pool_units ps rem), acc @ new, rem')"
      "allocates t ps new rem rem'" "class_units c new = min needed (pool_units ps rem)"
      using Cons.IH [OF rest Cons.prems(2,3), of acc] Cons.prems(4) by auto
    moreover have "max 0 (needed - pool_units ps rem) = max 0 (needed - pool_units (p # ps) rem)"
      "min needed (pool_units ps rem) = min needed (pool_units (p # ps) rem)"
      using True av Cons.prems(3) pool_units_nonneg [OF Cons.prems(2), of ps] by auto
    ultimately show ?thesis using True av by (auto simp: allocates_def Let_def)
  next
    case False
    let ?m = "min needed ?av"
    define rid where "rid = uuid5 t (''prometheist-resource-reservation:'' @ py_strip ?k)"
    let ?new = "\<lparr>rr_reservation_id = rid, rr_task_id = t, rr_resource_id = ?k,
        rr_resource_class = er_resource_class p, rr_units = ?m\<rparr>"
    let ?rem = "dset ?k (?av - ?m) rem"
    have wf: "py_strip ?k = ?k" "?k \<noteq> []" using Cons.prems(1) by (auto simp: pools_ready_def)
    have did: "deterministic_reservation_id uuid5 t ?k = Inr rid"
      using wf by (simp add: deterministic_reservation_id_def rid_def)
    have mk: "mk_ResourceReservation rid t ?k (er_resource_class p) ?m = Inr ?new"
      by (rule mk_ResourceReservation_ok) (use wf False in auto)
    have body: "allocate_requirement uuid5 t (p # ps) needed acc rem =
        (if needed - ?m = 0 then Inr (needed - ?m, acc @ [?new], ?rem)
         else allocate_requirement uuid5 t ps (needed - ?m) (acc @ [?new]) ?rem)"
      using False by (simp only: allocate_requirement.simps av(3) rbind_Inr Let_def did mk if_False)
    have nn: "nonneg ?rem" using Cons.prems(2) by (simp add: nonneg_dset)
    have k: "?k \<in> dom (dget rem)" using av by auto
    show ?thesis
    proof (cases "needed \<le> ?av")
      case True
      then have "allocates t (p # ps) [?new] rem ?rem"
        using False nn k by (auto simp: allocates_def)
      moreover have "max 0 (needed - pool_units (p # ps) rem) = 0"
        "min needed (pool_units (p # ps) rem) = needed"
        using True pool_units_nonneg [OF Cons.prems(2), of ps] by auto
      ultimately show ?thesis using True body Cons.prems(4) by (auto intro!: exI [of _ "[?new]"])
    next
      case av_less: False
      have ready: "pools_ready ps ?rem" using rest by (auto simp: pools_ready_def)
      have same: "pool_units ps ?rem = pool_units ps rem"
      proof (rule pool_units_cong)
        fix x assume "x \<in> set ps"
        then have "er_resource_id x \<in> set (map er_resource_id ps)" by simp
        with Cons.prems(1) have "er_resource_id x \<noteq> ?k" by (auto simp: pools_ready_def)
        then show "dval ?rem (er_resource_id x) = dval rem (er_resource_id x)" by simp
      qed
      obtain new rem' where *: "allocate_requirement uuid5 t ps (needed - ?av) (acc @ [?new]) ?rem =
          Inr (max 0 (needed - ?av - pool_units ps ?rem), (acc @ [?new]) @ new, rem')"
        "allocates t ps new ?rem rem'" "class_units c new = min (needed - ?av) (pool_units ps ?rem)"
        using Cons.IH [OF ready nn, of "needed - ?av" "acc @ [?new]"] Cons.prems(4) av_less by auto
      have "allocates t (p # ps) (?new # new) rem rem'"
        using *(2) av_less Cons.prems(1) k False by (fastforce simp: allocates_def pools_ready_def)
      with * av_less body same Cons.prems(4) show ?thesis
        by (auto intro!: exI [of _ "?new # new"] simp: algebra_simps)
    qed
  qed
qed

section \<open>A whole contract\<close>

lemma pools_ready_class: "pools_ready enabled rem \<Longrightarrow> pools_ready (resources_by_class enabled c) rem"
  by (auto simp: pools_ready_def resources_by_class_def distinct_map_filter)

lemma pools_ready_allocates:
  "pools_ready pools rem \<Longrightarrow> allocates t ps new rem rem' \<Longrightarrow> pools_ready pools rem'"
  by (auto simp: pools_ready_def allocates_def dom_def set_eq_iff)

text \<open>An allocation in one class does not touch the pools of another.\<close>

lemma allocates_other_class:
  assumes "pools_ready enabled rem" and "allocates t (resources_by_class enabled c) new rem rem'"
    and "c \<noteq> d"
  shows "pool_units (resources_by_class enabled d) rem' = pool_units (resources_by_class enabled d) rem"
proof (rule pool_units_cong)
  fix p assume p: "p \<in> set (resources_by_class enabled d)"
  have "rr_resource_id r \<noteq> er_resource_id p" if "r \<in> set new" for r
  proof -
    from assms(2) that obtain p' where "p' \<in> set (resources_by_class enabled c)"
      "rr_resource_id r = er_resource_id p'" by (auto simp: allocates_def)
    moreover from this p assms(1,3) have "er_resource_id p' \<noteq> er_resource_id p"
      by (auto simp: pools_ready_def resources_by_class_def distinct_map inj_on_def)
    ultimately show ?thesis by simp
  qed
  then have "units_on (er_resource_id p) new = 0" by (rule units_on_outside)
  with assms(2) show "dval rem' (er_resource_id p) = dval rem (er_resource_id p)"
    by (simp add: allocates_def)
qed

lemma allocates_classes:
  "allocates t (resources_by_class enabled c) new rem rem' \<Longrightarrow> r \<in> set new \<Longrightarrow> rr_resource_class r = c"
  by (auto simp: allocates_def resources_by_class_def)

lemma allocates_enabled:
  "allocates t (resources_by_class enabled c) new rem rem' \<Longrightarrow> allocates t enabled new rem rem'"
  by (fastforce simp: allocates_def resources_by_class_def)

lemma allocates_append:
  "allocates t enabled new rem rem' \<Longrightarrow> allocates t enabled new' rem' rem'' \<Longrightarrow>
   set (map rr_resource_id new) \<inter> set (map rr_resource_id new') = {} \<Longrightarrow>
     allocates t enabled (new @ new') rem rem''"
  by (auto simp: allocates_def)

lemma allocates_trans:
  assumes "allocates t (resources_by_class enabled c) new rem rem'" and "allocates t enabled new' rem' rem''"
    and "pools_ready enabled rem" and "\<And>r. r \<in> set new' \<Longrightarrow> rr_resource_class r \<noteq> c"
  shows "allocates t enabled (new @ new') rem rem''"
proof -
  have "rr_resource_id r \<noteq> rr_resource_id r'" if "r \<in> set new" "r' \<in> set new'" for r r'
  proof -
    from that assms(1,2) obtain p p' where "p \<in> set enabled" "p' \<in> set enabled"
      "rr_resource_id r = er_resource_id p" "rr_resource_class r = er_resource_class p"
      "rr_resource_id r' = er_resource_id p'" "rr_resource_class r' = er_resource_class p'"
      by (fastforce simp: allocates_def resources_by_class_def)
    with assms(3,4) that allocates_classes [OF assms(1) that(1)] show ?thesis
      by (auto simp: pools_ready_def distinct_map inj_on_def)
  qed
  then have "set (map rr_resource_id new) \<inter> set (map rr_resource_id new') = {}" by auto
  then show ?thesis by (rule allocates_append [OF allocates_enabled [OF assms(1)] assms(2)])
qed

definition grantable ::
  "execution_resource list \<Rightarrow> resource_requirement list \<Rightarrow> (string, int) dict \<Rightarrow> bool" where
  "grantable enabled qs rem \<longleftrightarrow>
     (\<forall>q\<in>set qs. rq_units q \<le> pool_units (resources_by_class enabled (rq_resource_class q)) rem)"

lemma allocate_requirements_spec:
  assumes "pools_ready enabled rem" and "nonneg rem" and "distinct (map rq_resource_class qs)"
    and "\<forall>q\<in>set qs. 1 \<le> rq_units q"
  shows "if grantable enabled qs rem
    then \<exists>new rem'. allocate_requirements uuid5 t (resources_by_class enabled) qs acc rem =
        Inr (Some (acc @ new, rem')) \<and> allocates t enabled new rem rem' \<and>
        (\<forall>c. class_units c new = required_units qs c) \<and>
        (\<forall>r\<in>set new. rr_resource_class r \<in> rq_resource_class ` set qs)
    else allocate_requirements uuid5 t (resources_by_class enabled) qs acc rem = Inr None"
  using assms
proof (induction qs arbitrary: acc rem)
  case Nil
  then show ?case by (simp add: grantable_def allocates_def)
next
  case (Cons q qs)
  let ?c = "rq_resource_class q" and ?ps = "resources_by_class enabled (rq_resource_class q)"
  have q: "0 \<le> rq_units q" using Cons.prems(4) by auto
  have "\<forall>p\<in>set ?ps. er_resource_class p = ?c" by (simp add: resources_by_class_def)
  from allocate_requirement_spec [OF pools_ready_class [OF Cons.prems(1)] Cons.prems(2) q this,
      of uuid5 t acc]
  obtain new rem' where
    head: "allocate_requirement uuid5 t ?ps (rq_units q) acc rem =
      Inr (max 0 (rq_units q - pool_units ?ps rem), acc @ new, rem')"
    and eff: "allocates t ?ps new rem rem'"
    and units: "class_units ?c new = min (rq_units q) (pool_units ?ps rem)"
    by blast
  show ?case
  proof (cases "rq_units q \<le> pool_units ?ps rem")
    case False
    then show ?thesis using head by (simp add: grantable_def)
  next
    case True
    have other: "pool_units (resources_by_class enabled d) rem' =
        pool_units (resources_by_class enabled d) rem" if "d \<in> rq_resource_class ` set qs" for d
      by (rule allocates_other_class [OF Cons.prems(1) eff]) (use that Cons.prems(3) in auto)
    then have grant: "grantable enabled (q # qs) rem \<longleftrightarrow> grantable enabled qs rem'"
      using True by (simp add: grantable_def)
    have body: "allocate_requirements uuid5 t (resources_by_class enabled) (q # qs) acc rem =
        allocate_requirements uuid5 t (resources_by_class enabled) qs (acc @ new) rem'"
      using head True by simp
    note IH = Cons.IH [OF pools_ready_allocates [OF Cons.prems(1) eff], of "acc @ new"]
    show ?thesis
    proof (cases "grantable enabled qs rem'")
      case False
      with IH Cons.prems eff grant body show ?thesis by (auto simp: allocates_def)
    next
      case True': True
      with IH Cons.prems(3,4) eff obtain new' rem'' where
        tail: "allocate_requirements uuid5 t (resources_by_class enabled) qs (acc @ new) rem' =
          Inr (Some ((acc @ new) @ new', rem''))"
        and eff': "allocates t enabled new' rem' rem''"
        and units': "\<forall>c. class_units c new' = required_units qs c"
        and cls': "\<forall>r\<in>set new'. rr_resource_class r \<in> rq_resource_class ` set qs"
        by (auto simp: allocates_def)
      have "rr_resource_class r \<noteq> ?c" if "r \<in> set new'" for r
      proof -
        have "rr_resource_class r \<in> set (map rq_resource_class qs)" using cls' that by auto
        with Cons.prems(3) show ?thesis by auto
      qed
      then have "allocates t enabled (new @ new') rem rem''"
        by (rule allocates_trans [OF eff eff' Cons.prems(1)])
      moreover have "class_units c (new @ new') = required_units (q # qs) c" for c
        using units units' True class_units_outside [of new c] allocates_classes [OF eff] by auto
      moreover have "\<forall>r\<in>set (new @ new'). rr_resource_class r \<in> rq_resource_class ` set (q # qs)"
        using cls' allocates_classes [OF eff] by auto
      moreover have "allocate_requirements uuid5 t (resources_by_class enabled) (q # qs) acc rem =
          Inr (Some (acc @ (new @ new'), rem''))"
        unfolding body tail by simp
      ultimately have "\<exists>new rem'. allocate_requirements uuid5 t (resources_by_class enabled) (q # qs)
          acc rem = Inr (Some (acc @ new, rem')) \<and> allocates t enabled new rem rem' \<and>
          (\<forall>c. class_units c new = required_units (q # qs) c) \<and>
          (\<forall>r\<in>set new. rr_resource_class r \<in> rq_resource_class ` set (q # qs))"
        by blast
      then show ?thesis using grant True' by (simp only: if_True)
    qed
  qed
qed

lemma allocate_spec:
  assumes "pools_ready enabled rem" and "nonneg rem" and "wf_metadata (at_metadata task)"
  shows "if grantable enabled (quantitative_resource_requirements (at_metadata task)) rem
    then \<exists>new rem'. allocate_task_resources uuid5 task rem (resources_by_class enabled) =
        Inr (Some (new, rem')) \<and> allocates (at_task_id task) enabled new rem rem' \<and>
        (\<forall>c. class_units c new =
           required_units (quantitative_resource_requirements (at_metadata task)) c)
    else allocate_task_resources uuid5 task rem (resources_by_class enabled) = Inr None"
proof -
  let ?qs = "quantitative_resource_requirements (at_metadata task)"
  have "distinct (map rq_resource_class ?qs)"
    using assms(3) quantitative_classes [OF assms(3)] by (simp add: wf_metadata_def)
  moreover have "\<forall>q\<in>set ?qs. 1 \<le> rq_units q" using quantitative_pos [OF assms(3)] by blast
  ultimately show ?thesis
    using allocate_requirements_spec [OF assms(1,2), of ?qs uuid5 "at_task_id task" "[]"]
    by (auto simp: allocate_task_resources_def)
qed

text \<open>C32. Greedy allocation is exact. For a task with a well-formed contract and a ready set of
  pools, \<^verbatim>\<open>_allocate_task_resources\<close> never raises; it grants the contract if and only if the
  pools of every required class hold the required units together; a grant reserves exactly the
  required units of each class, each reservation is positive and on a listed pool of its class,
  and no pool goes below zero.\<close>

theorem allocate_task_resources_exact:
  assumes "pools_ready enabled rem" and "nonneg rem" and "wf_metadata (at_metadata task)"
  shows "if grantable enabled (quantitative_resource_requirements (at_metadata task)) rem
    then \<exists>new rem'. allocate_task_resources uuid5 task rem (resources_by_class enabled) =
        Inr (Some (new, rem')) \<and> allocates (at_task_id task) enabled new rem rem' \<and>
        (\<forall>c. class_units c new =
           required_units (quantitative_resource_requirements (at_metadata task)) c)
    else allocate_task_resources uuid5 task rem (resources_by_class enabled) = Inr None"
  by (rule allocate_spec [OF assms])

definition sample_task :: "uuid \<Rightarrow> int \<Rightarrow> scheduling_metadata \<Rightarrow> attention_task" where
  "sample_task t seq md =
     \<lparr>at_task_id = t, at_task_key = ''task'', at_created_seq = seq, at_metadata = md,
      at_parent_task_id = None, at_status = NEW, at_enqueued_cycle = 0, at_revision = 0,
      at_resumable_state = []\<rparr>"

theorem allocate_task_resources_exact_witness:
  "\<exists>new rem'. allocate_task_resources (\<lambda>ns name. ns + of_nat (length name))
       (sample_task 7 1 (sample_metadata SUPPORTING SUPPORT PREEMPTIBLE [cpu_units 5]))
       [(''a'', 3), (''b'', 4)]
       (resources_by_class [sample_pool ''a'' CPU_GENERAL 3 0, sample_pool ''b'' CPU_GENERAL 4 0]) =
         Inr (Some (new, rem')) \<and>
     class_units CPU_GENERAL new = 5 \<and> dval rem' ''a'' + dval rem' ''b'' = 2"
proof -
  let ?md = "sample_metadata SUPPORTING SUPPORT PREEMPTIBLE [cpu_units 5]"
  let ?pools = "[sample_pool ''a'' CPU_GENERAL 3 0, sample_pool ''b'' CPU_GENERAL 4 0]"
  let ?rem = "[(''a'', 3), (''b'', 4)] :: (string, int) dict"
  have qs: "quantitative_resource_requirements ?md = [cpu_units 5]" by code_simp
  have "pools_ready ?pools ?rem"
    by (simp add: pools_ready_def sample_pool_def py_strip_def is_py_space_def of_char_of)
  moreover have "nonneg ?rem" by (simp add: nonneg_def dval_def)
  moreover have "wf_metadata (at_metadata (sample_task 7 1 ?md))"
    by (simp add: sample_task_def wf_metadata_def sample_metadata_def cpu_units_def)
  moreover have "grantable ?pools (quantitative_resource_requirements (at_metadata (sample_task 7 1 ?md))) ?rem"
    by (simp add: sample_task_def qs) (simp add: grantable_def resources_by_class_def sample_pool_def cpu_units_def dval_def)
  ultimately obtain new rem' where *:
    "allocate_task_resources (\<lambda>ns name. ns + of_nat (length name)) (sample_task 7 1 ?md) ?rem
       (resources_by_class ?pools) = Inr (Some (new, rem'))"
    "allocates 7 ?pools new ?rem rem'"
    "\<forall>c. class_units c new = required_units [cpu_units 5] c"
    using allocate_task_resources_exact [of ?pools ?rem "sample_task 7 1 ?md" "\<lambda>ns name. ns + of_nat (length name)"]
    by (auto simp: sample_task_def qs)
  have cls: "class_units CPU_GENERAL new = 5" using *(3) by (simp add: cpu_units_def)
  have "class_units CPU_GENERAL new = units_on ''a'' new + units_on ''b'' new"
  proof -
    have "\<forall>r\<in>set new. rr_resource_class r = CPU_GENERAL \<and> rr_resource_id r \<in> {''a'', ''b''}"
      using *(2) by (auto simp: allocates_def sample_pool_def)
    then show ?thesis by (induction new) auto
  qed
  with cls *(2) have "dval rem' ''a'' + dval rem' ''b'' = 2"
    by (simp add: allocates_def dval_def [of ?rem])
  with *(1) cls show ?thesis by blast
qed

section \<open>The account of a planning pass\<close>

text \<open>Allocation, holding and consumption keep the pools accounted for and the envelope respected.
  \<open>shrinks\<close> is what holding capacity for a waiting target does.\<close>

definition shrinks :: "(string, int) dict \<Rightarrow> (string, int) dict \<Rightarrow> bool" where
  "shrinks rem rem' \<longleftrightarrow> dom (dget rem') = dom (dget rem) \<and> (nonneg rem \<longrightarrow> nonneg rem') \<and>
     (\<forall>k. dval rem' k \<le> dval rem k)"

lemma shrinks_refl [simp]: "shrinks rem rem"
  by (simp add: shrinks_def)

lemma shrinks_trans: "shrinks a b \<Longrightarrow> shrinks b c \<Longrightarrow> shrinks a c"
  by (auto simp: shrinks_def intro: order_trans)

lemma shrinks_dset:
  "dget rem k = Some v \<Longrightarrow> 0 \<le> v' \<Longrightarrow> v' \<le> v \<Longrightarrow> shrinks rem (dset k v' rem)"
  by (auto simp: shrinks_def nonneg_def dval_def)

lemma hold_requirement_shrinks:
  "hold_requirement pools wanted held rem = Inr rem' \<Longrightarrow> shrinks rem rem'"
proof (induction pools arbitrary: held rem)
  case (Cons r rs)
  from Cons.prems obtain v where v: "dget rem (er_resource_id r) = Some v" by auto
  let ?u = "min (wanted - held) v"
  let ?rem = "dset (er_resource_id r) (v - ?u) rem"
  show ?case
  proof (cases "?u \<le> 0")
    case True
    with Cons v show ?thesis by (simp add: dlookup_Some Let_def)
  next
    case False
    have s: "shrinks rem ?rem" by (rule shrinks_dset [OF v]) (use False in auto)
    have "rem' = ?rem \<or> hold_requirement rs wanted (held + ?u) ?rem = Inr rem'"
      using Cons.prems v False by (auto simp: dlookup_Some Let_def split: if_splits)
    with s Cons.IH show ?thesis by (auto intro: shrinks_trans)
  qed
qed simp

interpretation hold_loop: result_loop
  "\<lambda>q rem. hold_requirement (by_class (rq_resource_class q)) (rq_units q) 0 rem"
  "shrinks rem0" "\<lambda>_. True" for by_class rem0
  by unfold_locales (auto dest!: hold_requirement_shrinks intro: shrinks_trans)

lemma hold_shrinks:
  "hold_available_task_capacity task by_class rem = Inr rem' \<Longrightarrow> shrinks rem rem'"
  unfolding hold_available_task_capacity_def by (rule hold_loop.loop_inv) auto

text \<open>\<open>accounts\<close> is what the planner relies on; every movement of units below satisfies it.\<close>

locale accounts =
  fixes good :: "(string, int) dict \<Rightarrow> resource_reservation list \<Rightarrow> bool"
    and pools :: "execution_resource list"
  assumes allocation: "pools_ready pools rem \<Longrightarrow> good rem rs \<Longrightarrow> allocates t pools new rem rem' \<Longrightarrow>
      good rem' (rs @ new)"
    and holding: "good rem rs \<Longrightarrow> shrinks rem rem' \<Longrightarrow> good rem' rs"
    and reordering: "mset rs = mset rs' \<Longrightarrow> good rem rs \<Longrightarrow> good rem rs'"
begin

lemma allocation_reordered:
  "pools_ready pools rem \<Longrightarrow> good rem rs \<Longrightarrow> allocates t pools new rem rem' \<Longrightarrow> mset new = mset new' \<Longrightarrow>
     good rem' (rs @ new')"
  by (rule reordering [OF _ allocation]) auto

end

lemma ledger_move:
  assumes "ledger cap rem rs" and "dom (dget rem') = dom (dget rem)" and "nonneg rem'"
    and "\<And>k. dval rem' k + units_on k rs' = dval rem k + units_on k rs"
    and "\<And>r. r \<in> set rs' \<Longrightarrow> rr_resource_id r \<in> dom (dget rem)"
  shows "ledger cap rem' rs'"
  using assms(1,2,3,5) assms(4) [symmetric] unfolding ledger_def by (metis domIff)

interpretation capacity: accounts "ledger cap" pools for cap pools
proof
  fix rem rs t new rem'
  assume a: "pools_ready pools rem" "ledger cap rem rs" "allocates t pools new rem rem'"
  show "ledger cap rem' (rs @ new)"
  proof (rule ledger_move [OF a(2)])
    show "dval rem' k + units_on k (rs @ new) = dval rem k + units_on k rs" for k
      using a(3) by (simp add: allocates_def)
    show "rr_resource_id r \<in> dom (dget rem)" if "r \<in> set (rs @ new)" for r
      using a that by (auto simp: ledger_def allocates_def pools_ready_def)
  qed (use a(3) in \<open>simp_all add: allocates_def\<close>)
next
  fix rem rs rem'
  assume "ledger cap rem rs" "shrinks rem rem'"
  then show "ledger cap rem' rs"
    unfolding ledger_def shrinks_def by (metis add_right_mono domIff order_trans)
next
  fix rs rs' :: "resource_reservation list" and rem
  assume "mset rs = mset rs'" "ledger cap rem rs"
  then show "ledger cap rem rs'"
    using units_on_mset [of rs rs'] mset_eq_setD [of rs rs'] by (simp add: ledger_def)
qed

lemma pools_ready_shrinks: "pools_ready pools rem \<Longrightarrow> shrinks rem rem' \<Longrightarrow> pools_ready pools rem'"
  by (auto simp: pools_ready_def shrinks_def dom_def set_eq_iff)

lemma consume_reservation_ledger:
  assumes "ledger cap rem rs" and "consume_reservation r rem = Inr rem'"
  shows "ledger cap rem' (rs @ [r]) \<and> dom (dget rem') = dom (dget rem)"
proof -
  from assms(2) obtain v where v: "dget rem (rr_resource_id r) = Some v" "rr_units r \<le> v"
    and rem': "rem' = dset (rr_resource_id r) (v - rr_units r) rem"
    by (auto simp: consume_reservation_def split: option.splits)
  have d: "dom (dget rem') = dom (dget rem)" using v by (auto simp: rem')
  have "ledger cap rem' (rs @ [r])"
  proof (rule ledger_move [OF assms(1) d])
    show "nonneg rem'" using assms(1) v by (simp add: rem' nonneg_dset ledger_def)
    show "dval rem' k + units_on k (rs @ [r]) = dval rem k + units_on k rs" for k
      using v by (auto simp: rem' dval_def)
  qed (use assms(1) v in \<open>auto simp: ledger_def\<close>)
  with d show ?thesis by simp
qed

lemma consume_preserved_ledger:
  "ledger cap rem rs \<Longrightarrow> consume_preserved_reservations new rem = Inr rem' \<Longrightarrow>
     ledger cap rem' (rs @ new) \<and> dom (dget rem') = dom (dget rem)"
  unfolding consume_preserved_reservations_def
proof (induction new arbitrary: rem rs)
  case (Cons r new)
  from Cons.prems(2) obtain rem1 where 1: "consume_reservation r rem = Inr rem1"
    "rfold consume_reservation new rem1 = Inr rem'" by auto
  with consume_reservation_ledger [OF Cons.prems(1) 1(1)] Cons.IH [of rem1 "rs @ [r]"]
  show ?case by auto
qed simp

section \<open>Deficits\<close>

lemma rmap_dlookup_pools:
  "pools_ready pools rem \<Longrightarrow> rmap (\<lambda>r. dlookup rem (er_resource_id r)) pools =
     Inr (map (\<lambda>r. dval rem (er_resource_id r)) pools)"
  by (induction pools) (auto simp: pools_ready_def dval_def dlookup_Some)

definition deficit ::
  "execution_resource list \<Rightarrow> (string, int) dict \<Rightarrow> resource_requirement \<Rightarrow> int" where
  "deficit enabled rem q =
     max 0 (rq_units q - pool_units (resources_by_class enabled (rq_resource_class q)) rem)"

lemma class_deficit_eq:
  "pools_ready enabled rem \<Longrightarrow> class_deficit rem (resources_by_class enabled) q d =
     Inr (if deficit enabled rem q \<noteq> 0 then dset (rq_resource_class q) (deficit enabled rem q) d else d)"
  by (simp add: class_deficit_def rmap_dlookup_pools [OF pools_ready_class] deficit_def Let_def
      pool_units_def)

text \<open>The deficits are exactly the classes the pools cannot serve, with the missing units.\<close>

lemma deficits_rfold:
  assumes "pools_ready enabled rem" and "distinct (map rq_resource_class qs)"
    and "set (dkeys d) \<inter> rq_resource_class ` set qs = {}"
  shows "rfold (class_deficit rem (resources_by_class enabled)) qs d =
    Inr (d @ map (\<lambda>q. (rq_resource_class q, deficit enabled rem q))
          (filter (\<lambda>q. deficit enabled rem q \<noteq> 0) qs))"
  using assms(2,3)
  by (induction qs arbitrary: d) (auto simp: class_deficit_eq [OF assms(1)] dset_fresh)

lemma resource_class_deficits_eq:
  assumes "pools_ready enabled rem" and "wf_metadata (at_metadata task)"
  shows "resource_class_deficits task rem (resources_by_class enabled) =
    Inr (map (\<lambda>q. (rq_resource_class q, deficit enabled rem q))
      (filter (\<lambda>q. deficit enabled rem q \<noteq> 0)
         (quantitative_resource_requirements (at_metadata task))))"
  unfolding resource_class_deficits_def
  by (subst deficits_rfold [OF assms(1)])
    (use assms(2) quantitative_classes [OF assms(2)] in \<open>simp_all add: wf_metadata_def\<close>)

lemma grantable_iff_no_deficit:
  "grantable enabled qs rem \<longleftrightarrow> (\<forall>q\<in>set qs. deficit enabled rem q = 0)"
  by (auto simp: grantable_def deficit_def)

end
