(* ===== verification/Validation.thy ===== *)
theory Validation
  imports Focus Allocation
begin

text \<open>
  Snapshots of the scheduler (\<^verbatim>\<open>attention.py\<close>): \<^verbatim>\<open>_validate_snapshot\<close>, \<^verbatim>\<open>snapshot\<close> and
  \<^verbatim>\<open>from_snapshot\<close>. The validator is modelled check by check, in the order of the code; it is the
  sequence of the parts below. The theorems show what a valid state guarantees (exclusive focus,
  capacity safety, exact satisfaction of every admitted contract) and that a snapshot can always be
  restored and then yields the same snapshot again.
\<close>

section \<open>The validator\<close>

definition rcheck :: "('a \<Rightarrow> unit res) \<Rightarrow> 'a list \<Rightarrow> unit res" where
  "rcheck f xs = rfold (\<lambda>x _. f x) xs ()"

definition dict_equal :: "('k, 'v) dict \<Rightarrow> ('k, 'v) dict \<Rightarrow> bool" where
  "dict_equal a b \<longleftrightarrow> set (dkeys a) = set (dkeys b) \<and> (\<forall>k\<in>set (dkeys a). dget a k = dget b k)"

definition validate_focus :: "scheduler \<Rightarrow> unit res" where
  "validate_focus s =
    (let running = map at_task_id (filter (\<lambda>t. at_status t = RUNNING) (dvalues (s_tasks s)))
     in
     raise_if (py_strip (s_preemption_policy_version s) = [])
       (ValueError ''Snapshot preemption policy version must not be empty'')
    (raise_if (py_strip (s_resource_safety_policy_version s) = [])
       (ValueError ''Snapshot resource safety policy version must not be empty'')
    (raise_if (\<not> distinct (map pv_event_id (s_preemption_events s)))
       (ValueError ''Snapshot contains duplicate preemption event ids'')
    (raise_if (s_active_task_id s = None \<and> running \<noteq> [])
       (ValueError ''Snapshot has RUNNING task but no active_task_id'')
    (raise_if (case s_active_task_id s of None \<Rightarrow> False | Some a \<Rightarrow> running \<noteq> [a])
       (ValueError ''Snapshot active_task_id does not match exactly one RUNNING task'')
    (raise_if (case s_pending_preemption_task_id s of
         None \<Rightarrow> False
       | Some p \<Rightarrow> (case dget (s_tasks s) p of None \<Rightarrow> True | Some t \<Rightarrow> at_status t \<noteq> QUEUED))
       (ValueError ''pending_preemption_task_id must reference a queued task'')
    (raise_if (\<not> distinct (map at_created_seq (dvalues (s_tasks s))))
       (ValueError ''Snapshot contains duplicate created_seq values'')
    (Inr ()))))))))"

definition validate_admitted_task :: "scheduler \<Rightarrow> uuid \<Rightarrow> unit res" where
  "validate_admitted_task s task_id =
     (case dget (s_tasks s) task_id of
        None \<Rightarrow> Inl (ValueError ''admitted_task_ids must reference existing tasks'')
      | Some task \<Rightarrow>
          raise_if (at_status task \<notin> {QUEUED, RUNNING, COMPLETED, FAILED})
            (ValueError ''Only executable or terminal-draining tasks may be admitted'')
         (raise_if (\<not> dependencies_satisfied s task)
            (ValueError ''Admitted task dependencies must be satisfied'')
         (Inr ())))"

definition validate_admitted :: "scheduler \<Rightarrow> unit res" where
  "validate_admitted s =
     raise_if (\<not> distinct (s_admitted_task_ids s))
       (ValueError ''Snapshot contains duplicate admitted task ids'')
    (rbind (rcheck (validate_admitted_task s) (s_admitted_task_ids s)) (\<lambda>_.
     raise_if (s_admitted_task_ids s \<noteq> [] \<and>
         (case s_active_task_id s of None \<Rightarrow> False | Some a \<Rightarrow> a \<notin> set (s_admitted_task_ids s)))
       (ValueError ''An authoritative admission set must include the active task'')
    (Inr ())))"

text \<open>The loop over the reservations keeps the units used per resource, the units per task and class,
  and the pairs seen.\<close>

record reservation_audit =
  ra_usage :: "(string, int) dict"
  ra_class_usage :: "(uuid, (execution_resource_class, int) dict) dict"
  ra_pairs :: "(uuid \<times> string) set"

definition class_usage_of ::
  "(uuid, (execution_resource_class, int) dict) dict \<Rightarrow> uuid \<Rightarrow> (execution_resource_class, int) dict"
where
  "class_usage_of d t = (case dget d t of None \<Rightarrow> [] | Some u \<Rightarrow> u)"

definition audit_reservation ::
  "(uuid \<Rightarrow> string \<Rightarrow> uuid) \<Rightarrow> scheduler \<Rightarrow> resource_reservation \<Rightarrow> reservation_audit \<Rightarrow>
     reservation_audit res" where
  "audit_reservation uuid5 s r audit =
    (let tid = rr_task_id r; rid = rr_resource_id r; cls = rr_resource_class r
     in
     raise_if (tid \<notin> set (s_admitted_task_ids s))
       (ValueError ''Resource reservation must belong to an admitted task'')
    (case dget (s_resources s) rid of
       None \<Rightarrow> Inl (ValueError ''Resource reservation references an unknown resource'')
     | Some resource \<Rightarrow>
         raise_if (er_resource_class resource \<noteq> cls)
           (ValueError ''Resource reservation class does not match its resource'')
        (rbind (deterministic_reservation_id uuid5 tid rid) (\<lambda>expected.
         raise_if (rr_reservation_id r \<noteq> expected)
           (ValueError ''Resource reservation id is not deterministic'')
        (raise_if ((tid, rid) \<in> ra_pairs audit)
           (ValueError ''Task has duplicate reservations for one resource'')
        (let used = dval (ra_usage audit) rid + rr_units r;
             class_usage = class_usage_of (ra_class_usage audit) tid
         in
         raise_if (used > admissible_capacity resource)
           (ValueError ''Resource reservations exceed admissible capacity'')
        (Inr \<lparr>ra_usage = dset rid used (ra_usage audit),
              ra_class_usage =
                dset tid (dset cls (dval class_usage cls + rr_units r) class_usage) (ra_class_usage audit),
              ra_pairs = insert (tid, rid) (ra_pairs audit)\<rparr>)))))))"

definition validate_contract :: "scheduler \<Rightarrow> reservation_audit \<Rightarrow> uuid \<Rightarrow> unit res" where
  "validate_contract s audit task_id =
     rbind (dlookup (s_tasks s) task_id) (\<lambda>task.
     raise_if (\<not> dict_equal (class_usage_of (ra_class_usage audit) task_id)
         (fold (\<lambda>q. dset (rq_resource_class q) (rq_units q))
           (quantitative_resource_requirements (at_metadata task)) []))
       (ValueError ''Admitted task reservations do not exactly satisfy its requirements'')
    (Inr ()))"

definition validate_reservations ::
  "(uuid \<Rightarrow> string \<Rightarrow> uuid) \<Rightarrow> scheduler \<Rightarrow> reservation_audit res" where
  "validate_reservations uuid5 s =
     rbind (rfold (audit_reservation uuid5 s) (dvalues (s_resource_reservations s))
       \<lparr>ra_usage = [], ra_class_usage = [], ra_pairs = {}\<rparr>) (\<lambda>audit.
     rbind (rcheck (validate_contract s audit) (s_admitted_task_ids s)) (\<lambda>_. Inr audit))"

definition validate_no_epoch :: "scheduler \<Rightarrow> unit res" where
  "validate_no_epoch s =
     raise_if (s_epoch_sequence s \<noteq> 0)
       (ValueError ''Snapshot without a current epoch must have sequence zero'')
    (raise_if (s_assignments s \<noteq> [])
       (ValueError ''Snapshot assignments require a committed current epoch'')
    (raise_if (s_pending_preemptions s \<noteq> [])
       (ValueError ''Pending preemptions require a committed current epoch'')
    (raise_if (s_current_resource_observation s \<noteq> None)
       (ValueError ''A current resource observation requires a committed epoch'')
    (Inr ()))))"

definition validate_epoch_header :: "scheduler \<Rightarrow> scheduling_epoch \<Rightarrow> unit res" where
  "validate_epoch_header s e =
     raise_if (ep_status e \<noteq> COMMITTED)
       (ValueError ''The current scheduling epoch must be committed'')
    (raise_if (ep_sequence e \<noteq> s_epoch_sequence s)
       (ValueError ''Current epoch sequence does not match scheduler state'')
    (raise_if (ep_scheduler_cycle e > s_cycle s)
       (ValueError ''Current epoch cannot be newer than scheduler state'')
    (raise_if (ep_admission_policy_version e \<noteq> s_admission_policy_version s)
       (ValueError ''Current epoch admission policy does not match scheduler state'')
    (raise_if (ep_assignment_policy_version e \<noteq> s_assignment_policy_version s)
       (ValueError ''Current epoch assignment policy does not match scheduler state'')
    (raise_if (ep_preemption_policy_version e \<noteq> None \<and>
         ep_preemption_policy_version e \<noteq> Some (s_preemption_policy_version s))
       (ValueError ''Current epoch preemption policy does not match scheduler state'')
    (raise_if (ep_sequence e = 1 \<and> ep_previous_epoch_id e \<noteq> None)
       (ValueError ''The first scheduling epoch cannot have a predecessor'')
    (raise_if (ep_sequence e > 1 \<and> ep_previous_epoch_id e = None)
       (ValueError ''A later scheduling epoch must identify its predecessor'')
    (raise_if (s_resource_safety_required s \<and> ep_resource_observation_id e = None)
       (ValueError ''Host-safe epoch must reference a resource observation'')
    (Inr ())))))))))"

definition validate_epoch_observation ::
  "scheduler \<Rightarrow> scheduling_epoch \<Rightarrow> (string, int) dict \<Rightarrow> unit res" where
  "validate_epoch_observation s e resource_usage =
     (case ep_resource_observation_id e of
        None \<Rightarrow>
          raise_if (s_current_resource_observation s \<noteq> None)
            (ValueError ''Configured-only epoch cannot own an observation'') (Inr ())
      | Some oid \<Rightarrow>
          (case s_current_resource_observation s of
             None \<Rightarrow> Inl (ValueError ''Epoch resource observation is missing from state'')
           | Some ob \<Rightarrow>
               raise_if (ob_observation_id ob \<noteq> oid \<or> ob_scheduler_cycle ob \<noteq> ep_scheduler_cycle e \<or>
                   Some (ob_safety_policy_version ob) \<noteq> ep_resource_safety_policy_version e \<or>
                   ob_safety_policy_version ob \<noteq> s_resource_safety_policy_version s)
                 (ValueError ''Current resource observation does not match epoch'')
              (raise_if (list_ex (\<lambda>(rid, used).
                   case dget (capacity_by_resource_id ob) rid of
                     None \<Rightarrow> True
                   | Some c \<Rightarrow> used > oc_admission_capacity c) resource_usage)
                 (ValueError ''Current reservations exceed observed admission capacity'')
              (Inr ()))))"

definition validate_assignment_state ::
  "(uuid \<Rightarrow> string \<Rightarrow> uuid) \<Rightarrow> scheduler \<Rightarrow> scheduling_epoch \<Rightarrow> durable_assignment \<Rightarrow> unit res" where
  "validate_assignment_state uuid5 s e a =
     (case dget (s_tasks s) (da_task_id a) of
        None \<Rightarrow> Inl (ValueError ''Assignment must reference an existing task'')
      | Some task \<Rightarrow>
          raise_if (da_status a \<noteq> READY) (ValueError ''Worker-visible assignments must be ready'')
         (raise_if (ep_resource_observation_id e \<noteq> None \<and>
             sm_process_resource_estimate (at_metadata task) = None)
            (ValueError ''Host-safe assignment requires a process resource estimate'')
         (let terminal_drain = (at_status task \<in> {COMPLETED, FAILED} \<and>
                da_task_revision a + 1 = at_revision task);
              task_reservations = reservations_for_task (da_task_id a) s
          in
          raise_if (da_task_revision a \<noteq> at_revision task \<and> \<not> terminal_drain)
            (ValueError ''Assignment task revision does not match current task'')
         (raise_if (da_created_epoch_sequence a > ep_sequence e)
            (ValueError ''Assignment cannot be created after its current epoch'')
         (raise_if (set (da_reservation_ids a) \<noteq> rr_reservation_id ` set task_reservations)
            (ValueError ''Assignment reservation ids do not match current task reservations'')
         (rbind (deterministic_assignment_id uuid5 (da_task_id a) (da_task_revision a)
            (da_created_epoch_sequence a) task_reservations) (\<lambda>expected.
          raise_if (da_assignment_id a \<noteq> expected) (ValueError ''Assignment id is not deterministic'')
         (Inr ()))))))))"

definition validate_epoch_assignments ::
  "(uuid \<Rightarrow> string \<Rightarrow> uuid) \<Rightarrow> scheduler \<Rightarrow> scheduling_epoch \<Rightarrow> durable_assignment list res" where
  "validate_epoch_assignments uuid5 s e =
     raise_if (set (dkeys (s_assignments s)) \<noteq> set (ep_assignment_ids e))
       (ValueError ''Current epoch assignment ids do not match assignment state'')
    (rbind (rmap (dlookup (s_assignments s)) (ep_assignment_ids e)) (\<lambda>assignments.
     raise_if (map da_task_id assignments \<noteq> s_admitted_task_ids s)
       (ValueError ''Current assignments must match admitted task order'')
    (raise_if (ep_reservations e \<noteq> resource_reservations s)
       (ValueError ''Current epoch reservation snapshot does not match scheduler state'')
    (rbind (rcheck (validate_assignment_state uuid5 s e) assignments) (\<lambda>_. Inr assignments)))))"

definition validate_victim ::
  "scheduler \<Rightarrow> (uuid, durable_assignment) dict \<Rightarrow> uuid \<times> uuid \<Rightarrow> uuid list \<Rightarrow> uuid list res" where
  "validate_victim s assignment_by_task v checkpoint_victims =
     (case (dget (s_tasks s) (fst v), dget assignment_by_task (fst v)) of
        (Some victim, Some assignment) \<Rightarrow>
          raise_if (da_assignment_id assignment \<noteq> snd v)
            (ValueError ''Pending preemption victim assignment does not match'')
         (raise_if (sm_interruption_policy (at_metadata victim) = ATOMIC)
            (ValueError ''Atomic work cannot be a preemption victim'')
         (Inr (if sm_interruption_policy (at_metadata victim) = CHECKPOINT_ONLY
               then checkpoint_victims @ [fst v] else checkpoint_victims)))
      | _ \<Rightarrow> Inl (ValueError ''Pending preemption victim must remain assigned''))"

definition validate_pending ::
  "(uuid \<Rightarrow> string \<Rightarrow> uuid) \<Rightarrow> scheduler \<Rightarrow> (uuid, durable_assignment) dict \<Rightarrow> pending_preemption \<Rightarrow>
     uuid set \<times> uuid set \<Rightarrow> (uuid set \<times> uuid set) res" where
  "validate_pending uuid5 s assignment_by_task p acc =
    (let target_id = pp_target_task_id p
     in case dget (s_tasks s) target_id of
       None \<Rightarrow> Inl (ValueError ''Pending preemption target must be a queued task'')
     | Some target \<Rightarrow>
         raise_if (at_status target \<noteq> QUEUED)
           (ValueError ''Pending preemption target must be a queued task'')
        (raise_if (\<not> dependencies_satisfied s target)
           (ValueError ''Pending preemption target dependencies must be satisfied'')
        (raise_if (at_revision target \<noteq> pp_target_task_revision p)
           (ValueError ''Pending preemption target revision does not match'')
        (raise_if (target_id \<in> set (s_admitted_task_ids s))
           (ValueError ''Pending preemption target cannot already be admitted'')
        (raise_if (pp_requested_epoch_sequence p > s_epoch_sequence s)
           (ValueError ''Pending preemption cannot originate in a future epoch'')
        (raise_if (target_id \<in> fst acc)
           (ValueError ''A task may be the target of only one pending preemption'')
        (raise_if (snd acc \<inter> set (pp_victim_task_ids p) \<noteq> {})
           (ValueError ''A victim may belong to only one pending preemption'')
        (rbind (rfold (validate_victim s assignment_by_task)
           (zip (pp_victim_task_ids p) (pp_victim_assignment_ids p)) []) (\<lambda>checkpoint_victims.
         raise_if (length (pp_victim_task_ids p) \<noteq> length (pp_victim_assignment_ids p))
           (ValueError ''zip() arguments of different length'')
        (raise_if (checkpoint_victims \<noteq> pp_checkpoint_victim_task_ids p)
           (ValueError ''Pending preemption checkpoint victims do not match policy'')
        (rbind (deterministic_preemption_id uuid5 target_id (pp_target_task_revision p)
           (pp_victim_assignment_ids p) (pp_requested_epoch_sequence p)) (\<lambda>expected.
         raise_if (pp_preemption_id p \<noteq> expected)
           (ValueError ''Pending preemption id is not deterministic'')
        (Inr (insert target_id (fst acc), snd acc \<union> set (pp_victim_task_ids p)))))))))))))))"

definition validate_epoch ::
  "(uuid \<Rightarrow> string \<Rightarrow> uuid) \<Rightarrow> (pending_preemption \<Rightarrow> string) \<Rightarrow> scheduler \<Rightarrow> (string, int) dict \<Rightarrow>
     scheduling_epoch \<Rightarrow> unit res" where
  "validate_epoch uuid5 intent_json s resource_usage e =
     rbind (validate_epoch_header s e) (\<lambda>_.
     rbind (validate_epoch_observation s e resource_usage) (\<lambda>_.
     rbind (validate_epoch_assignments uuid5 s e) (\<lambda>assignments.
     rbind (rfold (validate_pending uuid5 s (dict_of da_task_id assignments))
       (pending_preemptions s) ({}, {})) (\<lambda>(pending_targets, pending_victims).
     raise_if (pending_targets \<inter> pending_victims \<noteq> {})
       (ValueError ''Pending preemption targets and victims must be disjoint'')
    (rbind (deterministic_epoch_id uuid5 intent_json e) (\<lambda>expected.
     raise_if (ep_epoch_id e \<noteq> expected) (ValueError ''Scheduling epoch id is not deterministic'')
    (Inr ())))))))"

definition validate_snapshot ::
  "(uuid \<Rightarrow> string \<Rightarrow> uuid) \<Rightarrow> (pending_preemption \<Rightarrow> string) \<Rightarrow> scheduler \<Rightarrow> unit res" where
  "validate_snapshot uuid5 intent_json s =
     rbind (validate_focus s) (\<lambda>_.
     rbind (validate_admitted s) (\<lambda>_.
     rbind (validate_reservations uuid5 s) (\<lambda>audit.
     case s_current_epoch s of
       None \<Rightarrow> validate_no_epoch s
     | Some e \<Rightarrow> validate_epoch uuid5 intent_json s (ra_usage audit) e)))"

section \<open>Snapshots\<close>

record scheduler_snapshot =
  sn_cycle :: int
  sn_active_task_id :: "uuid option"
  sn_pending_preemption_task_id :: "uuid option"
  sn_tasks :: "attention_task list"
  sn_execution_resources :: "execution_resource list"
  sn_admission_policy_version :: string
  sn_admitted_task_ids :: "uuid list"
  sn_resource_reservations :: "resource_reservation list"
  sn_epoch_sequence :: int
  sn_assignment_policy_version :: string
  sn_preemption_policy_version :: string
  sn_preemption_state_revision :: int
  sn_pending_preemptions :: "pending_preemption list"
  sn_current_epoch :: "scheduling_epoch option"
  sn_assignments :: "durable_assignment list"
  sn_resource_safety_required :: bool
  sn_resource_safety_policy_version :: string
  sn_current_resource_observation :: "resource_observation option"

definition task_creation_key :: "attention_task \<Rightarrow> int \<times> uuid" where
  "task_creation_key t = (at_created_seq t, at_task_id t)"

definition mk_SchedulerSnapshot :: "scheduler_snapshot \<Rightarrow> scheduler_snapshot res" where
  "mk_SchedulerSnapshot x =
     raise_if (sn_cycle x < 0) (ValueError ''cycle: ge 0'')
    (raise_if (sn_admission_policy_version x = []) (ValueError ''admission_policy_version: min_length'')
    (raise_if (sn_epoch_sequence x < 0) (ValueError ''epoch_sequence: ge 0'')
    (raise_if (sn_assignment_policy_version x = []) (ValueError ''assignment_policy_version: min_length'')
    (raise_if (sn_preemption_policy_version x = []) (ValueError ''preemption_policy_version: min_length'')
    (raise_if (sn_preemption_state_revision x < 0) (ValueError ''preemption_state_revision: ge 0'')
    (raise_if (sn_resource_safety_policy_version x = [])
       (ValueError ''resource_safety_policy_version: min_length'')
    (Inr x)))))))"

definition snapshot_fields :: "scheduler \<Rightarrow> durable_assignment list \<Rightarrow> scheduler_snapshot" where
  "snapshot_fields s assignments =
     \<lparr>sn_cycle = s_cycle s, sn_active_task_id = s_active_task_id s,
      sn_pending_preemption_task_id = s_pending_preemption_task_id s,
      sn_tasks = sort_key task_creation_key (dvalues (s_tasks s)),
      sn_execution_resources = execution_resources False s,
      sn_admission_policy_version = s_admission_policy_version s,
      sn_admitted_task_ids = s_admitted_task_ids s,
      sn_resource_reservations = resource_reservations s,
      sn_epoch_sequence = s_epoch_sequence s,
      sn_assignment_policy_version = s_assignment_policy_version s,
      sn_preemption_policy_version = s_preemption_policy_version s,
      sn_preemption_state_revision = s_preemption_state_revision s,
      sn_pending_preemptions = pending_preemptions s, sn_current_epoch = s_current_epoch s,
      sn_assignments = assignments, sn_resource_safety_required = s_resource_safety_required s,
      sn_resource_safety_policy_version = s_resource_safety_policy_version s,
      sn_current_resource_observation = s_current_resource_observation s\<rparr>"

definition snapshot ::
  "(uuid \<Rightarrow> string \<Rightarrow> uuid) \<Rightarrow> (pending_preemption \<Rightarrow> string) \<Rightarrow> scheduler \<Rightarrow> scheduler_snapshot res" where
  "snapshot uuid5 intent_json s =
     rbind (validate_snapshot uuid5 intent_json s) (\<lambda>_.
     rbind (worker_visible_assignments s) (\<lambda>assignments.
     mk_SchedulerSnapshot (snapshot_fields s assignments)))"

definition restore_fields :: "scheduler \<Rightarrow> scheduler_snapshot \<Rightarrow> scheduler" where
  "restore_fields s x =
     s\<lparr>s_tasks := dict_of at_task_id (sn_tasks x),
       s_resources := dict_of er_resource_id (sn_execution_resources x),
       s_admission_policy_version := sn_admission_policy_version x,
       s_admitted_task_ids := sn_admitted_task_ids x,
       s_resource_reservations := dict_of rr_reservation_id (sn_resource_reservations x),
       s_epoch_sequence := sn_epoch_sequence x,
       s_assignment_policy_version := sn_assignment_policy_version x,
       s_preemption_policy_version := sn_preemption_policy_version x,
       s_preemption_state_revision := sn_preemption_state_revision x,
       s_persisted_preemption_state_revision := sn_preemption_state_revision x,
       s_current_epoch := sn_current_epoch x,
       s_assignments := dict_of da_assignment_id (sn_assignments x),
       s_pending_preemptions := dict_of pp_preemption_id (sn_pending_preemptions x),
       s_current_resource_observation := sn_current_resource_observation x,
       s_active_task_id := sn_active_task_id x,
       s_pending_preemption_task_id := sn_pending_preemption_task_id x,
       s_cycle := sn_cycle x\<rparr>"

definition from_snapshot ::
  "(uuid \<Rightarrow> string \<Rightarrow> uuid) \<Rightarrow> (pending_preemption \<Rightarrow> string) \<Rightarrow>
     (service_class, service_guarantee) dict option \<Rightarrow> scheduler_snapshot \<Rightarrow> scheduler res" where
  "from_snapshot uuid5 intent_json service_guarantees x =
     rbind (init_scheduler service_guarantees (sn_resource_safety_required x)
        (sn_resource_safety_policy_version x)) (\<lambda>s.
     raise_if (\<not> distinct (map at_task_id (sn_tasks x)))
       (ValueError ''Snapshot contains duplicate task ids'')
    (raise_if (\<not> distinct (map er_resource_id (sn_execution_resources x)))
       (ValueError ''Snapshot contains duplicate execution resource ids'')
    (raise_if (\<not> distinct (sn_admitted_task_ids x))
       (ValueError ''Snapshot contains duplicate admitted task ids'')
    (raise_if (\<not> distinct (map rr_reservation_id (sn_resource_reservations x)))
       (ValueError ''Snapshot contains duplicate resource reservation ids'')
    (raise_if (\<not> distinct (map da_assignment_id (sn_assignments x)))
       (ValueError ''Snapshot contains duplicate assignment ids'')
    (raise_if (\<not> distinct (map pp_preemption_id (sn_pending_preemptions x)))
       (ValueError ''Snapshot contains duplicate pending preemption ids'')
    (let s' = restore_fields s x
     in rbind (validate_snapshot uuid5 intent_json s') (\<lambda>_. Inr s'))))))))"

section \<open>What the reservation audit computes\<close>

lemma rcheck_eq [simp]: "rcheck f xs = Inr () \<longleftrightarrow> (\<forall>x\<in>set xs. f x = Inr ())"
  by (induction xs) (auto simp: rcheck_def)

definition reservation_fits ::
  "(uuid \<Rightarrow> string \<Rightarrow> uuid) \<Rightarrow> scheduler \<Rightarrow> resource_reservation \<Rightarrow> bool" where
  "reservation_fits uuid5 s r \<longleftrightarrow> rr_task_id r \<in> set (s_admitted_task_ids s) \<and>
     deterministic_reservation_id uuid5 (rr_task_id r) (rr_resource_id r) = Inr (rr_reservation_id r) \<and>
     (\<exists>p. dget (s_resources s) (rr_resource_id r) = Some p \<and> er_resource_class p = rr_resource_class r)"

definition pool_limit :: "scheduler \<Rightarrow> string \<Rightarrow> int" where
  "pool_limit s k = (case dget (s_resources s) k of None \<Rightarrow> 0 | Some p \<Rightarrow> admissible_capacity p)"

definition add_audit :: "resource_reservation \<Rightarrow> reservation_audit \<Rightarrow> reservation_audit" where
  "add_audit r a =
     (let u = class_usage_of (ra_class_usage a) (rr_task_id r)
      in \<lparr>ra_usage = dset (rr_resource_id r) (dval (ra_usage a) (rr_resource_id r) + rr_units r) (ra_usage a),
          ra_class_usage = dset (rr_task_id r)
            (dset (rr_resource_class r) (dval u (rr_resource_class r) + rr_units r) u) (ra_class_usage a),
          ra_pairs = insert (rr_task_id r, rr_resource_id r) (ra_pairs a)\<rparr>)"

lemma audit_reservation_eq:
  "audit_reservation uuid5 s r a = Inr b \<longleftrightarrow>
     reservation_fits uuid5 s r \<and> (rr_task_id r, rr_resource_id r) \<notin> ra_pairs a \<and>
     dval (ra_usage a) (rr_resource_id r) + rr_units r \<le> pool_limit s (rr_resource_id r) \<and>
     b = add_audit r a"
  by (auto simp: audit_reservation_def reservation_fits_def pool_limit_def add_audit_def Let_def
      split: option.splits)

definition pair :: "resource_reservation \<Rightarrow> uuid \<times> string" where
  "pair r = (rr_task_id r, rr_resource_id r)"

definition task_class_units ::
  "uuid \<Rightarrow> execution_resource_class \<Rightarrow> resource_reservation list \<Rightarrow> int" where
  "task_class_units t c rs = class_units c (filter (\<lambda>r. rr_task_id r = t) rs)"

lemma keys_dset [simp]: "fst ` set (dset k v d) = insert k (fst ` set d)"
  by (induction d) auto

lemma add_audit_simps [simp]:
  "dval (ra_usage (add_audit r a)) k = dval (ra_usage a) k + (if rr_resource_id r = k then rr_units r else 0)"
  "ra_pairs (add_audit r a) = insert (pair r) (ra_pairs a)"
  "set (dkeys (ra_usage (add_audit r a))) = insert (rr_resource_id r) (set (dkeys (ra_usage a)))"
  by (auto simp: add_audit_def Let_def pair_def)

lemma add_audit_class:
  "dval (class_usage_of (ra_class_usage (add_audit r a)) t) c =
     dval (class_usage_of (ra_class_usage a) t) c +
       (if rr_task_id r = t \<and> rr_resource_class r = c then rr_units r else 0)"
  "set (dkeys (class_usage_of (ra_class_usage (add_audit r a)) t)) =
     set (dkeys (class_usage_of (ra_class_usage a) t)) \<union>
       (if rr_task_id r = t then {rr_resource_class r} else {})"
  by (auto simp: add_audit_def Let_def class_usage_of_def split: option.split)

lemma fold_add_audit:
  "dval (ra_usage (fold add_audit rs a)) k = dval (ra_usage a) k + units_on k rs"
  "ra_pairs (fold add_audit rs a) = pair ` set rs \<union> ra_pairs a"
  "set (dkeys (ra_usage (fold add_audit rs a))) = rr_resource_id ` set rs \<union> set (dkeys (ra_usage a))"
  "dval (class_usage_of (ra_class_usage (fold add_audit rs a)) t) c =
     dval (class_usage_of (ra_class_usage a) t) c + task_class_units t c rs"
  "set (dkeys (class_usage_of (ra_class_usage (fold add_audit rs a)) t)) =
     set (dkeys (class_usage_of (ra_class_usage a) t)) \<union>
       rr_resource_class ` {r \<in> set rs. rr_task_id r = t}"
proof (induction rs arbitrary: a)
  case (Cons r rs)
  case 1 show ?case using Cons.IH(1) by simp
  case 2 show ?case using Cons.IH(2) by simp
  case 3 show ?case using Cons.IH(3) [of "add_audit r a"] add_audit_simps(3) [of r a] by auto
  case 4 show ?case using Cons.IH(4) by (simp add: add_audit_class task_class_units_def)
  case 5
  have "{x \<in> set (r # rs). rr_task_id x = t} =
      (if rr_task_id r = t then {r} else {}) \<union> {x \<in> set rs. rr_task_id x = t}" by auto
  then show ?case using Cons.IH(5) [of "add_audit r a"] add_audit_class(2) [of r a t]
    by (simp only: fold_simps) auto
qed (simp_all add: task_class_units_def)

lemma audit_result:
  "rfold (audit_reservation uuid5 s) rs a = Inr b \<Longrightarrow>
     b = fold add_audit rs a \<and> (\<forall>r\<in>set rs. reservation_fits uuid5 s r) \<and> distinct (map pair rs) \<and>
     pair ` set rs \<inter> ra_pairs a = {} \<and>
     (\<forall>r\<in>set rs. dval (ra_usage b) (rr_resource_id r) \<le> pool_limit s (rr_resource_id r))"
proof (induction rs arbitrary: a)
  case (Cons r rs)
  from Cons.prems have r: "reservation_fits uuid5 s r" "pair r \<notin> ra_pairs a"
    "dval (ra_usage a) (rr_resource_id r) + rr_units r \<le> pool_limit s (rr_resource_id r)"
    and tail: "rfold (audit_reservation uuid5 s) rs (add_audit r a) = Inr b"
    by (auto simp: audit_reservation_eq pair_def)
  note IH = Cons.IH [OF tail]
  have "dval (ra_usage b) (rr_resource_id r) \<le> pool_limit s (rr_resource_id r)"
  proof (cases "rr_resource_id r \<in> rr_resource_id ` set rs")
    case True
    with IH show ?thesis by auto
  next
    case False
    then have "units_on (rr_resource_id r) rs = 0" by (intro units_on_outside) (metis imageI)
    with IH r(3) show ?thesis by (simp add: fold_add_audit)
  qed
  with IH r show ?case by (auto simp: pair_def)
qed simp

lemma units_on_nonneg: "(\<And>r. r \<in> set rs \<Longrightarrow> 0 \<le> rr_units r) \<Longrightarrow> 0 \<le> units_on k rs"
  by (induction rs) (auto simp: add_nonneg_nonneg)

lemma audit_ok:
  assumes "\<And>r. r \<in> set rs \<Longrightarrow> reservation_fits uuid5 s r \<and> 0 \<le> rr_units r" and "distinct (map pair rs)"
    and "pair ` set rs \<inter> ra_pairs a = {}"
    and "\<And>r. r \<in> set rs \<Longrightarrow> dval (ra_usage a) (rr_resource_id r) + units_on (rr_resource_id r) rs
           \<le> pool_limit s (rr_resource_id r)"
  shows "rfold (audit_reservation uuid5 s) rs a = Inr (fold add_audit rs a)"
  using assms
proof (induction rs arbitrary: a)
  case (Cons r rs)
  have nn: "0 \<le> units_on k rs" for k
    by (rule units_on_nonneg) (use Cons.prems(1) in auto)
  have "audit_reservation uuid5 s r a = Inr (add_audit r a)"
    using Cons.prems(1) [of r] Cons.prems(3) Cons.prems(4) [of r] nn [of "rr_resource_id r"]
    by (auto simp: audit_reservation_eq pair_def)
  moreover have "rfold (audit_reservation uuid5 s) rs (add_audit r a) = Inr (fold add_audit rs (add_audit r a))"
  proof (rule Cons.IH)
    fix r' assume r': "r' \<in> set rs"
    show "dval (ra_usage (add_audit r a)) (rr_resource_id r') + units_on (rr_resource_id r') rs
        \<le> pool_limit s (rr_resource_id r')"
      using Cons.prems(4) [of r'] r' by (simp add: algebra_simps split: if_splits)
  qed (use Cons.prems in auto)
  ultimately show ?case by simp
qed simp

lemma validate_reservations_result:
  assumes "validate_reservations uuid5 s = Inr audit"
  defines "rs \<equiv> dvalues (s_resource_reservations s)"
  shows "audit = fold add_audit rs \<lparr>ra_usage = [], ra_class_usage = [], ra_pairs = {}\<rparr>"
    and "\<forall>r\<in>set rs. reservation_fits uuid5 s r"
    and "distinct (map pair rs)"
    and "\<forall>r\<in>set rs. units_on (rr_resource_id r) rs \<le> pool_limit s (rr_resource_id r)"
    and "\<forall>t\<in>set (s_admitted_task_ids s). validate_contract s audit t = Inr ()"
proof -
  have loop: "rfold (audit_reservation uuid5 s) rs \<lparr>ra_usage = [], ra_class_usage = [], ra_pairs = {}\<rparr> =
      Inr audit" and con: "\<forall>t\<in>set (s_admitted_task_ids s). validate_contract s audit t = Inr ()"
    using assms(1) unfolding validate_reservations_def rs_def by (auto simp del: set_map)
  note res = audit_result [OF loop]
  have "dval (ra_usage audit) k = units_on k rs" for k
    using res fold_add_audit(1) [of rs "\<lparr>ra_usage = [], ra_class_usage = [], ra_pairs = {}\<rparr>" k]
    by (simp add: dval_def [of "[]"])
  with res con show "audit = fold add_audit rs \<lparr>ra_usage = [], ra_class_usage = [], ra_pairs = {}\<rparr>"
    and "\<forall>r\<in>set rs. reservation_fits uuid5 s r"
    and "distinct (map pair rs)"
    and "\<forall>r\<in>set rs. units_on (rr_resource_id r) rs \<le> pool_limit s (rr_resource_id r)"
    and "\<forall>t\<in>set (s_admitted_task_ids s). validate_contract s audit t = Inr ()" by auto
qed

lemma validate_snapshot_parts:
  assumes "validate_snapshot uuid5 intent_json s = Inr ()"
  obtains audit where "validate_focus s = Inr ()" and "validate_admitted s = Inr ()"
    and "validate_reservations uuid5 s = Inr audit"
    and "s_current_epoch s = None \<Longrightarrow> validate_no_epoch s = Inr ()"
    and "\<And>e. s_current_epoch s = Some e \<Longrightarrow> validate_epoch uuid5 intent_json s (ra_usage audit) e = Inr ()"
proof -
  from assms obtain audit where a: "validate_focus s = Inr ()" "validate_admitted s = Inr ()"
    "validate_reservations uuid5 s = Inr audit"
    "(case s_current_epoch s of None \<Rightarrow> validate_no_epoch s
      | Some e \<Rightarrow> validate_epoch uuid5 intent_json s (ra_usage audit) e) = Inr ()"
    by (auto simp: validate_snapshot_def)
  show thesis by (rule that [OF a(1,2,3)]) (use a(4) in auto)
qed

lemma requirement_dict:
  "distinct (map rq_resource_class qs) \<Longrightarrow>
     fold (\<lambda>q. dset (rq_resource_class q) (rq_units q)) qs [] = map (\<lambda>q. (rq_resource_class q, rq_units q)) qs"
proof -
  have "distinct (map rq_resource_class qs) \<Longrightarrow> set (dkeys d) \<inter> rq_resource_class ` set qs = {} \<Longrightarrow>
      fold (\<lambda>q. dset (rq_resource_class q) (rq_units q)) qs d =
        d @ map (\<lambda>q. (rq_resource_class q, rq_units q)) qs" for d
    by (induction qs arbitrary: d) (auto simp: dset_fresh)
  from this [of "[]"] show "distinct (map rq_resource_class qs) \<Longrightarrow> ?thesis" by simp
qed

lemma required_units_dval:
  "distinct (map rq_resource_class qs) \<Longrightarrow>
     dval (map (\<lambda>q. (rq_resource_class q, rq_units q)) qs) c = required_units qs c"
proof (induction qs)
  case (Cons q qs)
  have "required_units qs (rq_resource_class q) = 0"
  proof -
    have "filter (\<lambda>x. rq_resource_class x = rq_resource_class q) qs = []"
      using Cons.prems by (auto simp: filter_empty_conv) (metis imageI)
    then show ?thesis by (simp add: required_units_def)
  qed
  with Cons show ?case by (auto simp: dval_def)
qed (simp add: dval_def)

section \<open>What a valid state guarantees\<close>

lemma dict_equal_dval:
  assumes "dict_equal a b"
  shows "dval a k = dval b k"
proof -
  have "dget a k = dget b k"
    using assms map_of_eq_None_iff [of a k] map_of_eq_None_iff [of b k]
    unfolding dict_equal_def by (metis set_map)
  then show ?thesis by (simp add: dval_def)
qed

lemma contract_exact:
  assumes "validate_reservations uuid5 s = Inr audit" and "wf_tasks s" and "t \<in> set (s_admitted_task_ids s)"
  shows "\<exists>task. dget (s_tasks s) t = Some task \<and>
    (\<forall>c. task_class_units t c (dvalues (s_resource_reservations s)) =
       required_units (quantitative_resource_requirements (at_metadata task)) c)"
proof -
  note res = validate_reservations_result [OF assms(1)]
  from res(5) assms(3) have "validate_contract s audit t = Inr ()" by blast
  then obtain task where task: "dget (s_tasks s) t = Some task"
    and eq: "dict_equal (class_usage_of (ra_class_usage audit) t)
      (fold (\<lambda>q. dset (rq_resource_class q) (rq_units q))
         (quantitative_resource_requirements (at_metadata task)) [])"
    by (auto simp: validate_contract_def)
  let ?qs = "quantitative_resource_requirements (at_metadata task)"
  have wf: "wf_metadata (at_metadata task)" using wf_tasksD(2) [OF assms(2) task] by (simp add: wf_task_def)
  have d: "distinct (map rq_resource_class ?qs)"
    using quantitative_classes [OF wf] wf by (simp add: wf_metadata_def)
  have "task_class_units t c (dvalues (s_resource_reservations s)) = required_units ?qs c" for c
    using dict_equal_dval [OF eq, of c] requirement_dict [OF d] required_units_dval [OF d, of c]
      fold_add_audit(4) [of "dvalues (s_resource_reservations s)"
        "\<lparr>ra_usage = [], ra_class_usage = [], ra_pairs = {}\<rparr>" t c]
    by (simp add: res(1) class_usage_of_def [of "[]"] dval_def [of "[]"])
  with task show ?thesis by blast
qed

lemma validate_focus_exclusive:
  assumes "validate_focus s = Inr ()" and "wf_tasks s"
  shows "exclusive_focus s"
proof -
  let ?run = "map at_task_id (filter (\<lambda>t. at_status t = RUNNING) (dvalues (s_tasks s)))"
  have run: "k \<in> set ?run \<longleftrightarrow> (\<exists>t. dget (s_tasks s) k = Some t \<and> at_status t = RUNNING)" for k
  proof
    assume "k \<in> set ?run"
    then obtain t where "t \<in> set (dvalues (s_tasks s))" "at_status t = RUNNING" "at_task_id t = k" by auto
    with wf_tasksD(3) [OF assms(2)] show "\<exists>t. dget (s_tasks s) k = Some t \<and> at_status t = RUNNING" by blast
  next
    assume "\<exists>t. dget (s_tasks s) k = Some t \<and> at_status t = RUNNING"
    then obtain t where "dget (s_tasks s) k = Some t" "at_status t = RUNNING" by blast
    with wf_tasksD(1) [OF assms(2)] dget_Some_in show "k \<in> set ?run" by (force simp del: map_map)
  qed
  have "s_active_task_id s = None \<and> ?run = [] \<or> (\<exists>a. s_active_task_id s = Some a \<and> ?run = [a])"
    using assms(1) by (auto simp: validate_focus_def Let_def split: option.splits)
  then have "s_active_task_id s = Some k \<longleftrightarrow> k \<in> set ?run" for k
    by (elim disjE exE conjE) (auto simp only: list.set option.inject empty_iff insert_iff option.distinct)
  moreover have "\<exists>t. dget (s_tasks s) p = Some t \<and> at_status t = QUEUED"
    if "s_pending_preemption_task_id s = Some p" for p
    using assms(1) that by (auto simp: validate_focus_def Let_def split: option.splits)
  ultimately show ?thesis unfolding exclusive_focus_def run by blast
qed

text \<open>C22. A state that passes validation is safe: at most one task is running and it is the active one;
  every reservation is on an existing resource of its class, and the units reserved there in total are
  within its admissible capacity; every admitted task exists, has its dependencies satisfied, and holds
  exactly the units its contract requires of each class.\<close>

theorem valid_snapshot_safe:
  assumes "validate_snapshot uuid5 intent_json s = Inr ()" and "wf_tasks s"
  shows "exclusive_focus s \<and>
    (\<forall>r\<in>set (dvalues (s_resource_reservations s)). \<exists>p. dget (s_resources s) (rr_resource_id r) = Some p \<and>
       er_resource_class p = rr_resource_class r \<and>
       committed_units (rr_resource_id r) s \<le> admissible_capacity p) \<and>
    (\<forall>t\<in>set (s_admitted_task_ids s). \<exists>task. dget (s_tasks s) t = Some task \<and>
       dependencies_satisfied s task \<and>
       (\<forall>c. task_class_units t c (dvalues (s_resource_reservations s)) =
          required_units (quantitative_resource_requirements (at_metadata task)) c))"
proof -
  from assms(1) obtain audit where v: "validate_focus s = Inr ()" "validate_admitted s = Inr ()"
    "validate_reservations uuid5 s = Inr audit" by (rule validate_snapshot_parts)
  note res = validate_reservations_result [OF v(3)]
  have "\<exists>p. dget (s_resources s) (rr_resource_id r) = Some p \<and> er_resource_class p = rr_resource_class r \<and>
      committed_units (rr_resource_id r) s \<le> admissible_capacity p"
    if "r \<in> set (dvalues (s_resource_reservations s))" for r
    using bspec [OF res(2) that] bspec [OF res(4) that]
    by (auto simp: reservation_fits_def pool_limit_def committed_units_def units_on_def)
  moreover have "\<exists>task. dget (s_tasks s) t = Some task \<and> dependencies_satisfied s task \<and>
      (\<forall>c. task_class_units t c (dvalues (s_resource_reservations s)) =
        required_units (quantitative_resource_requirements (at_metadata task)) c)"
    if t: "t \<in> set (s_admitted_task_ids s)" for t
  proof -
    from v(2) t have "validate_admitted_task s t = Inr ()" by (auto simp: validate_admitted_def)
    with contract_exact [OF v(3) assms(2) t] show ?thesis
      by (auto simp: validate_admitted_task_def split: option.splits)
  qed
  ultimately show ?thesis using validate_focus_exclusive [OF v(1) assms(2)] by blast
qed

definition sample_admitted :: scheduler where
  "sample_admitted = sample_idle
     \<lparr>s_tasks := [(7, (sample_task 7 1 (sample_metadata SUPPORTING SUPPORT PREEMPTIBLE [cpu_units 2]))
         \<lparr>at_status := QUEUED, at_revision := 1\<rparr>)],
      s_resources := [(''cpu'', sample_pool ''cpu'' CPU_GENERAL 4 1)], s_admitted_task_ids := [7],
      s_resource_reservations :=
        (let rid = sample_uuid5 7 ''prometheist-resource-reservation:cpu''
         in [(rid, (sample_reservation 7 ''cpu'' CPU_GENERAL 2)\<lparr>rr_reservation_id := rid\<rparr>)])\<rparr>"

lemma sample_admitted_valid: "validate_snapshot sample_uuid5 (\<lambda>_. []) sample_admitted = Inr ()"
  by code_simp

lemma sample_admitted_wf: "wf_tasks sample_admitted"
  by (simp add: wf_tasks_def sample_admitted_def sample_idle_def init_scheduler_def
      RESOURCE_SAFETY_POLICY_VERSION_def py_strip_def is_py_space_def wf_task_def sample_task_def
      wf_metadata_def sample_metadata_def cpu_units_def)

theorem valid_snapshot_safe_witness:
  "\<exists>p. dget (s_resources sample_admitted) ''cpu'' = Some p \<and>
     committed_units ''cpu'' sample_admitted \<le> admissible_capacity p \<and>
     task_class_units 7 CPU_GENERAL (dvalues (s_resource_reservations sample_admitted)) = 2"
proof -
  let ?rid = "sample_uuid5 7 ''prometheist-resource-reservation:cpu''"
  let ?r = "(sample_reservation 7 ''cpu'' CPU_GENERAL 2)\<lparr>rr_reservation_id := ?rid\<rparr>"
  have r: "?r \<in> set (dvalues (s_resource_reservations sample_admitted))"
    by (simp add: sample_admitted_def Let_def)
  note safe = valid_snapshot_safe [OF sample_admitted_valid sample_admitted_wf]
  from safe r have "\<exists>p. dget (s_resources sample_admitted) (rr_resource_id ?r) = Some p \<and>
      er_resource_class p = rr_resource_class ?r \<and>
      committed_units (rr_resource_id ?r) sample_admitted \<le> admissible_capacity p" by blast
  moreover have "task_class_units 7 CPU_GENERAL (dvalues (s_resource_reservations sample_admitted)) = 2"
    by code_simp
  ultimately show ?thesis by (auto simp: sample_reservation_def)
qed

section \<open>Restoring a snapshot\<close>

text \<open>\<open>keyed\<close>: a dictionary that stores every value under its own key, as all the dictionaries of the
  scheduler do.\<close>

definition keyed :: "('v \<Rightarrow> 'k) \<Rightarrow> ('k, 'v) dict \<Rightarrow> bool" where
  "keyed key d \<longleftrightarrow> distinct (dkeys d) \<and> (\<forall>(k, v)\<in>set d. key v = k)"

lemma keyed_eq: "keyed key d \<Longrightarrow> d = map (\<lambda>v. (key v, v)) (dvalues d)"
  by (induction d) (auto simp: keyed_def)

lemma keyed_distinct: "keyed key d \<Longrightarrow> distinct (map key (dvalues d))"
proof -
  assume k: "keyed key d"
  have "map key (dvalues d) = dkeys d" using k by (auto simp: keyed_def)
  with k show ?thesis by (simp add: keyed_def del: map_map)
qed

text \<open>Rebuilding a dictionary from its values, in any order, gives the same lookups.\<close>

lemma keyed_rebuild:
  assumes "keyed key d" and "mset xs = mset (dvalues d)"
  shows "distinct (map key xs)" and "dvalues (dict_of key xs) = xs" and "dget (dict_of key xs) = dget d"
    and "mset (dict_of key xs) = mset d" and "keyed key (dict_of key xs)"
proof -
  show d: "distinct (map key xs)"
    using keyed_distinct [OF assms(1)] assms(2) by (metis mset_eq_imp_distinct_iff mset_map)
  show "dvalues (dict_of key xs) = xs" by (rule dvalues_dict_of [OF d])
  have eq: "dict_of key xs = map (\<lambda>v. (key v, v)) xs" by (rule dict_of_distinct [OF d])
  show m: "mset (dict_of key xs) = mset d"
  proof -
    have "mset (dict_of key xs) = mset (map (\<lambda>v. (key v, v)) (dvalues d))"
      by (simp only: eq mset_map assms(2))
    with keyed_eq [OF assms(1)] show ?thesis by simp
  qed
  show kd: "keyed key (dict_of key xs)" using d by (auto simp: eq keyed_def o_def)
  show "dget (dict_of key xs) = dget d"
    using m kd assms(1) by (metis keyed_def map_of_inject_set mset_eq_setD)
qed

text \<open>\<open>same_state s s'\<close>: \<open>s'\<close> is \<open>s\<close> with its dictionaries possibly filled in another order.\<close>

definition same_state :: "scheduler \<Rightarrow> scheduler \<Rightarrow> bool" where
  "same_state s s' \<longleftrightarrow>
     mset (dvalues (s_tasks s')) = mset (dvalues (s_tasks s)) \<and> dget (s_tasks s') = dget (s_tasks s) \<and>
     dget (s_resources s') = dget (s_resources s) \<and>
     mset (dvalues (s_resource_reservations s')) = mset (dvalues (s_resource_reservations s)) \<and>
     dget (s_assignments s') = dget (s_assignments s) \<and>
     mset (dvalues (s_pending_preemptions s')) = mset (dvalues (s_pending_preemptions s)) \<and>
     s_active_task_id s' = s_active_task_id s \<and>
     s_pending_preemption_task_id s' = s_pending_preemption_task_id s \<and> s_cycle s' = s_cycle s \<and>
     s_admitted_task_ids s' = s_admitted_task_ids s \<and> s_epoch_sequence s' = s_epoch_sequence s \<and>
     s_current_epoch s' = s_current_epoch s \<and>
     s_current_resource_observation s' = s_current_resource_observation s \<and>
     s_admission_policy_version s' = s_admission_policy_version s \<and>
     s_assignment_policy_version s' = s_assignment_policy_version s \<and>
     s_preemption_policy_version s' = s_preemption_policy_version s \<and>
     s_resource_safety_required s' = s_resource_safety_required s \<and>
     s_resource_safety_policy_version s' = s_resource_safety_policy_version s \<and>
     distinct (map pv_event_id (s_preemption_events s'))"

lemma same_focus:
  assumes "same_state s s'" and "validate_focus s = Inr ()"
  shows "validate_focus s' = Inr ()"
proof -
  let ?run = "\<lambda>s. map at_task_id (filter (\<lambda>t. at_status t = RUNNING) (dvalues (s_tasks s)))"
  have m: "mset (dvalues (s_tasks s')) = mset (dvalues (s_tasks s))" using assms(1) by (simp add: same_state_def)
  then have "mset (?run s') = mset (?run s)" by simp
  then have run: "?run s' = [] \<longleftrightarrow> ?run s = []" "?run s' = [a] \<longleftrightarrow> ?run s = [a]" for a
    by (metis mset_zero_iff, metis mset_single_iff_right)
  have seq: "distinct (map at_created_seq (dvalues (s_tasks s'))) \<longleftrightarrow>
      distinct (map at_created_seq (dvalues (s_tasks s)))"
    by (rule mset_eq_imp_distinct_iff)
      (use arg_cong [OF m, of "image_mset at_created_seq"] in \<open>simp only: mset_map\<close>)
  show ?thesis using assms run seq
    by (auto simp add: validate_focus_def same_state_def Let_def simp del: map_map split: option.splits)
qed

lemma same_lookups:
  assumes "same_state s s'"
  shows "dget (s_tasks s') = dget (s_tasks s)" and "dget (s_resources s') = dget (s_resources s)"
    and "dlookup (s_assignments s') = dlookup (s_assignments s)"
    and "dependencies_satisfied s' = dependencies_satisfied s"
    and "s_admitted_task_ids s' = s_admitted_task_ids s"
    and "set (dkeys (s_assignments s')) = set (dkeys (s_assignments s))"
  using assms by (simp_all add: same_state_def fun_eq_iff dlookup_def dependencies_satisfied_def
      flip: dom_map_of_conv_image_fst) (simp add: dom_def)

lemma same_admitted:
  assumes "same_state s s'" and "validate_admitted s = Inr ()"
  shows "validate_admitted s' = Inr ()"
proof -
  have "validate_admitted_task s' = validate_admitted_task s"
    by (intro ext) (simp only: validate_admitted_task_def same_lookups [OF assms(1)])
  moreover have "s_active_task_id s' = s_active_task_id s" using assms(1) by (simp add: same_state_def)
  ultimately have "validate_admitted s' = validate_admitted s"
    by (simp only: validate_admitted_def same_lookups [OF assms(1)])
  with assms(2) show ?thesis by simp
qed

lemma same_listings:
  assumes "same_state s s'" and "keyed rr_reservation_id (s_resource_reservations s)"
    and "keyed pp_preemption_id (s_pending_preemptions s)"
  shows "resource_reservations s' = resource_reservations s"
    and "reservations_for_task t s' = reservations_for_task t s"
    and "pending_preemptions s' = pending_preemptions s"
proof -
  let ?rs = "\<lambda>s. dvalues (s_resource_reservations s)" and ?ps = "\<lambda>s. dvalues (s_pending_preemptions s)"
  have m: "mset (?rs s') = mset (?rs s)" "mset (?ps s') = mset (?ps s)"
    using assms(1) by (auto simp only: same_state_def)
  have d: "distinct (map rr_reservation_id (?rs s'))" "distinct (map pp_preemption_id (?ps s'))"
    using keyed_rebuild(1) [OF assms(2) m(1)] keyed_rebuild(1) [OF assms(3) m(2)] by auto
  show "resource_reservations s' = resource_reservations s"
    unfolding resource_reservations_def by (rule reservation_order.sort_canonical [OF d(1) m(1)])
  show "reservations_for_task t s' = reservations_for_task t s"
    unfolding reservations_for_task_def
    by (rule reservation_order.sort_canonical [OF distinct_map_filter [OF d(1)]])
      (use m(1) in \<open>simp add: mset_filter\<close>)
  show "pending_preemptions s' = pending_preemptions s"
    unfolding pending_preemptions_def by (rule intent_order.sort_canonical [OF d(2) m(2)])
qed

lemma audit_usage_distinct:
  "distinct (dkeys (ra_usage a)) \<Longrightarrow> distinct (dkeys (ra_usage (fold add_audit rs a)))"
  by (induction rs arbitrary: a) (auto simp: add_audit_def Let_def)

lemma dict_equal_cong:
  assumes "set (dkeys a) = set (dkeys b)" and "\<And>k. dval a k = dval b k" and "dict_equal a c"
  shows "dict_equal b c"
proof -
  have "dget b k = dget c k" if "k \<in> set (dkeys a)" for k
  proof -
    have "dget a k \<noteq> None" "dget b k \<noteq> None" using that assms(1) by (auto simp: map_of_eq_None_iff)
    then have "dget b k = dget a k" using assms(2) [of k] by (auto simp: dval_def)
    then show ?thesis using assms(3) that by (simp add: dict_equal_def del: set_map)
  qed
  then show ?thesis using assms(1,3) by (simp add: dict_equal_def del: set_map)
qed

lemma task_class_units_mset: "mset xs = mset ys \<Longrightarrow> task_class_units t c xs = task_class_units t c ys"
proof -
  assume "mset xs = mset ys"
  then have "mset (filter (\<lambda>r. rr_task_id r = t) xs) = mset (filter (\<lambda>r. rr_task_id r = t) ys)" by simp
  then show ?thesis unfolding task_class_units_def class_units_def by (rule sum_list_filter_mset)
qed

lemma same_reservations:
  assumes "same_state s s'" and "validate_reservations uuid5 s = Inr audit"
    and "\<forall>r\<in>set (dvalues (s_resource_reservations s)). 0 \<le> rr_units r"
  obtains audit' where "validate_reservations uuid5 s' = Inr audit'"
    and "distinct (dkeys (ra_usage audit))" and "distinct (dkeys (ra_usage audit'))"
    and "dget (ra_usage audit') = dget (ra_usage audit)"
proof -
  let ?rs = "dvalues (s_resource_reservations s)" and ?rs' = "dvalues (s_resource_reservations s')"
  let ?a0 = "\<lparr>ra_usage = [], ra_class_usage = [], ra_pairs = {}\<rparr>"
  define audit' where "audit' = fold add_audit ?rs' ?a0"
  note res = validate_reservations_result [OF assms(2)] and look = same_lookups [OF assms(1)]
  have m: "mset ?rs' = mset ?rs" using assms(1) by (auto simp only: same_state_def)
  note st = mset_eq_setD [OF m] and un = units_on_mset [OF m]
  have pairs: "distinct (map pair ?rs')"
    using res(3) arg_cong [OF m, of "image_mset pair"] by (metis mset_eq_imp_distinct_iff mset_map)
  have fits: "reservation_fits uuid5 s' = reservation_fits uuid5 s" "pool_limit s' = pool_limit s"
    by (intro ext, simp only: reservation_fits_def pool_limit_def look)+
  have loop: "rfold (audit_reservation uuid5 s') ?rs' ?a0 = Inr audit'"
    unfolding audit'_def
    by (rule audit_ok) (use res(2,4) assms(3) pairs fits in \<open>auto simp only: st un dval_def reservation_audit.simps
        map_of.simps option.case add_0_left image_empty Int_empty_right\<close>)
  have audit: "audit = fold add_audit ?rs ?a0" by (rule res(1))
  have usage: "dval (ra_usage audit') k = dval (ra_usage audit) k" for k
    by (simp only: audit'_def audit fold_add_audit un)
  have keys: "set (dkeys (ra_usage audit')) = set (dkeys (ra_usage audit))"
    by (simp only: audit'_def audit fold_add_audit st)
  have ckeys: "set (dkeys (class_usage_of (ra_class_usage audit) t)) =
      set (dkeys (class_usage_of (ra_class_usage audit') t))" for t
    by (simp only: audit'_def audit fold_add_audit st)
  have cuse: "dval (class_usage_of (ra_class_usage audit) t) c =
      dval (class_usage_of (ra_class_usage audit') t) c" for t c
    by (simp only: audit'_def audit fold_add_audit task_class_units_mset [OF m])
  have "validate_contract s' audit' t = Inr ()" if "t \<in> set (s_admitted_task_ids s')" for t
    using res(5) that dict_equal_cong [OF ckeys [of t] cuse [of t]] look
    by (fastforce simp: validate_contract_def dlookup_def split: option.splits)
  then have "validate_reservations uuid5 s' = Inr audit'"
    using loop by (simp add: validate_reservations_def)
  moreover have "distinct (dkeys (ra_usage audit))" "distinct (dkeys (ra_usage audit'))"
    by (simp_all add: audit audit'_def audit_usage_distinct)
  moreover have "dget (ra_usage audit') k = dget (ra_usage audit) k" for k
    using keys usage [of k] map_of_eq_None_iff [of "ra_usage audit'" k] map_of_eq_None_iff [of "ra_usage audit" k]
    by (cases "dget (ra_usage audit') k"; cases "dget (ra_usage audit) k") (auto simp: dval_def)
  ultimately show thesis using that by blast
qed

lemma same_no_epoch:
  assumes "same_state s s'" and "validate_no_epoch s = Inr ()"
  shows "validate_no_epoch s' = Inr ()"
proof -
  have "s_assignments s' = []"
    using same_lookups(6) [OF assms(1)] assms(2) by (simp add: validate_no_epoch_def)
  moreover have "s_pending_preemptions s' = []"
    using assms by (auto simp: same_state_def validate_no_epoch_def)
  ultimately show ?thesis using assms by (simp add: validate_no_epoch_def same_state_def)
qed

lemma same_observation:
  assumes "same_state s s'" and "distinct (dkeys u)" and "distinct (dkeys u')" and "dget u' = dget u"
    and "validate_epoch_observation s e u = Inr ()"
  shows "validate_epoch_observation s' e u' = Inr ()"
proof -
  have "set u' = set u" using assms(2-4) by (metis map_of_inject_set)
  then have "list_ex P u' = list_ex P u" for P by (simp add: list_ex_iff)
  moreover have "s_current_resource_observation s' = s_current_resource_observation s"
    "s_resource_safety_policy_version s' = s_resource_safety_policy_version s"
    using assms(1) by (auto simp only: same_state_def)
  ultimately have "validate_epoch_observation s' e u' = validate_epoch_observation s e u"
    by (simp only: validate_epoch_observation_def)
  with assms(5) show ?thesis by simp
qed

lemma same_epoch:
  assumes "same_state s s'" and "keyed rr_reservation_id (s_resource_reservations s)"
    and "keyed pp_preemption_id (s_pending_preemptions s)"
    and "distinct (dkeys u)" and "distinct (dkeys u')" and "dget u' = dget u"
    and "validate_epoch uuid5 intent_json s u e = Inr ()"
  shows "validate_epoch uuid5 intent_json s' u' e = Inr ()"
proof -
  note look = same_lookups [OF assms(1)] and lst = same_listings [OF assms(1-3)]
  have hd: "validate_epoch_header s' e = validate_epoch_header s e"
    using assms(1) by (simp only: validate_epoch_header_def same_state_def)
  have asg: "validate_assignment_state uuid5 s' e = validate_assignment_state uuid5 s e"
    by (intro ext) (simp only: validate_assignment_state_def look lst)
  have asgs: "validate_epoch_assignments uuid5 s' e = validate_epoch_assignments uuid5 s e"
    by (simp only: validate_epoch_assignments_def look lst asg)
  have vic: "validate_victim s' = validate_victim s"
    by (intro ext) (simp only: validate_victim_def look)
  have "s_epoch_sequence s' = s_epoch_sequence s" using assms(1) by (simp only: same_state_def)
  then have pend: "validate_pending uuid5 s' = validate_pending uuid5 s"
    by (intro ext) (simp only: validate_pending_def look vic)
  have "validate_epoch_observation s e u = Inr ()" using assms(7) by (auto simp: validate_epoch_def)
  note obs = same_observation [OF assms(1,4-6) this]
  from assms(7) obs show ?thesis
    unfolding validate_epoch_def hd asgs pend lst by (auto split: prod.splits)
qed

lemma same_valid:
  assumes "same_state s s'" and "keyed rr_reservation_id (s_resource_reservations s)"
    and "keyed pp_preemption_id (s_pending_preemptions s)"
    and "\<forall>r\<in>set (dvalues (s_resource_reservations s)). 0 \<le> rr_units r"
    and "validate_snapshot uuid5 intent_json s = Inr ()"
  shows "validate_snapshot uuid5 intent_json s' = Inr ()"
proof -
  from assms(5) obtain audit where v: "validate_focus s = Inr ()" "validate_admitted s = Inr ()"
    "validate_reservations uuid5 s = Inr audit"
    "s_current_epoch s = None \<Longrightarrow> validate_no_epoch s = Inr ()"
    "\<And>e. s_current_epoch s = Some e \<Longrightarrow> validate_epoch uuid5 intent_json s (ra_usage audit) e = Inr ()"
    by (rule validate_snapshot_parts) (rule that, assumption+)
  obtain audit' where a: "validate_reservations uuid5 s' = Inr audit'"
    "distinct (dkeys (ra_usage audit))" "distinct (dkeys (ra_usage audit'))"
    "dget (ra_usage audit') = dget (ra_usage audit)"
    by (rule same_reservations [OF assms(1) v(3) assms(4)])
  have e: "s_current_epoch s' = s_current_epoch s" using assms(1) by (simp only: same_state_def)
  show ?thesis
  proof (cases "s_current_epoch s")
    case None
    with same_focus [OF assms(1) v(1)] same_admitted [OF assms(1) v(2)] a(1) e
      same_no_epoch [OF assms(1) v(4)] show ?thesis by (simp add: validate_snapshot_def)
  next
    case (Some ep)
    with same_focus [OF assms(1) v(1)] same_admitted [OF assms(1) v(2)] a(1) e
      same_epoch [OF assms(1-3) a(2-4) v(5)] show ?thesis by (simp add: validate_snapshot_def)
  qed
qed

text \<open>The object invariant a scheduler keeps outside its validator: dictionaries are keyed by the ids of
  their values, pools and reservations are as their constructors leave them, and the safety policy
  version is stripped.\<close>

definition wf_scheduler :: "scheduler \<Rightarrow> bool" where
  "wf_scheduler s \<longleftrightarrow> keyed at_task_id (s_tasks s) \<and> keyed er_resource_id (s_resources s) \<and>
     keyed rr_reservation_id (s_resource_reservations s) \<and> keyed da_assignment_id (s_assignments s) \<and>
     keyed pp_preemption_id (s_pending_preemptions s) \<and>
     (\<forall>p\<in>set (dvalues (s_resources s)). wf_resource p) \<and>
     (\<forall>r\<in>set (dvalues (s_resource_reservations s)). 1 \<le> rr_units r) \<and>
     py_strip (s_resource_safety_policy_version s) = s_resource_safety_policy_version s"

interpretation creation_order: canonical_order task_creation_key at_task_id
  by unfold_locales (simp add: task_creation_key_def)

lemma init_fields:
  assumes "init_scheduler g b v = Inr s"
  shows "s_preemption_events s = []" and "s_resource_safety_required s = b"
    and "s_resource_safety_policy_version s = py_strip v"
  using assms by (auto simp: init_scheduler_def)

lemma lookup_rebuilt:
  assumes "distinct (map key xs)" and "\<And>a. a \<in> set xs \<Longrightarrow> dget d (key a) = Some a"
    and "set (dkeys d) \<subseteq> set (map key xs)"
  shows "dget (dict_of key xs) k = dget d k"
proof (cases "k \<in> set (map key xs)")
  case True
  then obtain a where a: "a \<in> set xs" "k = key a" by auto
  then have "dget (dict_of key xs) k = Some a"
    using assms(1) by (simp add: dict_of_distinct map_of_eq_Some_iff o_def)
  with a assms(2) show ?thesis by simp
next
  case False
  then have "dget d k = None" using assms(3) by (auto simp: map_of_eq_None_iff)
  moreover have "dget (dict_of key xs) k = None"
    using False assms(1) by (simp add: dict_of_distinct map_of_eq_None_iff o_def image_image)
  ultimately show ?thesis by simp
qed

lemma worker_visible_keyed:
  assumes "worker_visible_assignments s = Inr as" and "keyed da_assignment_id (s_assignments s)"
    and "validate_snapshot uuid5 intent_json s = Inr ()"
  shows "distinct (map da_assignment_id as)" and "dget (dict_of da_assignment_id as) = dget (s_assignments s)"
    and "\<And>e. s_current_epoch s = Some e \<Longrightarrow> map da_assignment_id as = ep_assignment_ids e"
proof -
  have vals: "da_assignment_id a = k" if "dget (s_assignments s) k = Some a" for k a
    using assms(2) that by (force simp: keyed_def dest: map_of_SomeD)
  have *: "distinct (map da_assignment_id as) \<and> dget (dict_of da_assignment_id as) = dget (s_assignments s) \<and>
      (\<forall>e. s_current_epoch s = Some e \<longrightarrow> map da_assignment_id as = ep_assignment_ids e)"
  proof (cases "s_current_epoch s")
    case None
    with assms(1,3) show ?thesis
      by (auto simp: worker_visible_assignments_def validate_snapshot_def validate_no_epoch_def dict_of_def)
  next
    case (Some e)
    with assms(3) obtain u where "validate_epoch uuid5 intent_json s u e = Inr ()"
      by (auto simp: validate_snapshot_def)
    then have st: "ep_status e = COMMITTED" and keys: "set (dkeys (s_assignments s)) = set (ep_assignment_ids e)"
      and dis: "\<And>xs. rmap (dlookup (s_assignments s)) (ep_assignment_ids e) = Inr xs \<Longrightarrow>
         map da_task_id xs = s_admitted_task_ids s"
      by (auto simp: validate_epoch_def validate_epoch_header_def validate_epoch_assignments_def simp del: set_map)
    have as: "rmap (dlookup (s_assignments s)) (ep_assignment_ids e) = Inr as"
      using assms(1) Some st by (simp add: worker_visible_assignments_def)
    then have ids: "map da_assignment_id as = ep_assignment_ids e"
      using vals by (auto simp: rmap_eq_Inr list_all2_conv_all_nth intro!: nth_equalityI)
    have "distinct (s_admitted_task_ids s)" using assms(3) by (auto simp: validate_snapshot_def validate_admitted_def)
    with dis [OF as] have dtask: "distinct (map da_task_id as)" by simp
    have all: "\<And>i. i < length as \<Longrightarrow> dget (s_assignments s) (da_assignment_id (as ! i)) = Some (as ! i)"
      using as vals by (fastforce simp: rmap_eq_Inr list_all2_conv_all_nth)
    have d: "distinct (map da_assignment_id as)"
    proof (rule distinct_conv_nth [THEN iffD2], clarsimp)
      fix i j assume ij: "i < length as" "j < length as" "i \<noteq> j" "da_assignment_id (as ! i) = da_assignment_id (as ! j)"
      then have "as ! i = as ! j" using all by (metis option.inject)
      with dtask ij show False by (metis distinct_conv_nth length_map nth_map)
    qed
    have "dget (dict_of da_assignment_id as) k = dget (s_assignments s) k" for k
    proof (rule lookup_rebuilt [OF d])
      show "\<And>a. a \<in> set as \<Longrightarrow> dget (s_assignments s) (da_assignment_id a) = Some a"
        using all by (auto simp: in_set_conv_nth)
      show "set (dkeys (s_assignments s)) \<subseteq> set (map da_assignment_id as)" by (simp only: keys ids)
    qed
    with d ids Some show ?thesis by auto
  qed
  from * show "distinct (map da_assignment_id as)" "dget (dict_of da_assignment_id as) = dget (s_assignments s)"
    "\<And>e. s_current_epoch s = Some e \<Longrightarrow> map da_assignment_id as = ep_assignment_ids e" by auto
qed

lemma same_state_restored:
  assumes "wf_scheduler s" and "validate_snapshot uuid5 intent_json s = Inr ()"
    and "worker_visible_assignments s = Inr as"
    and "init_scheduler g (s_resource_safety_required s) (s_resource_safety_policy_version s) = Inr s0"
  shows "same_state s (restore_fields s0 (snapshot_fields s as))"
proof -
  note w = assms(1) [unfolded wf_scheduler_def]
  have m: "mset (sort_key task_creation_key (dvalues (s_tasks s))) = mset (dvalues (s_tasks s))"
    "mset (execution_resources False s) = mset (dvalues (s_resources s))"
    "mset (resource_reservations s) = mset (dvalues (s_resource_reservations s))"
    "mset (pending_preemptions s) = mset (dvalues (s_pending_preemptions s))"
    by (simp_all add: execution_resources_def resource_reservations_def pending_preemptions_def)
  have k: "keyed at_task_id (s_tasks s)" "keyed er_resource_id (s_resources s)"
    "keyed rr_reservation_id (s_resource_reservations s)" "keyed pp_preemption_id (s_pending_preemptions s)"
    "keyed da_assignment_id (s_assignments s)"
    using w by auto
  show ?thesis
    unfolding same_state_def restore_fields_def snapshot_fields_def
    using w by (simp add: init_fields [OF assms(4)] keyed_rebuild(3,4) [OF k(1) m(1)]
        keyed_rebuild(3) [OF k(2) m(2)] keyed_rebuild(4) [OF k(3) m(3)] keyed_rebuild(4) [OF k(4) m(4)]
        worker_visible_keyed(2) [OF assms(3) k(5) assms(2)])
qed

lemma snapshot_fields_same:
  assumes "wf_scheduler s" and "same_state s s'" and "mset (dvalues (s_resources s')) = mset (dvalues (s_resources s))"
    and "s_preemption_state_revision s' = s_preemption_state_revision s"
  shows "snapshot_fields s' as = snapshot_fields s as"
proof -
  have k: "keyed at_task_id (s_tasks s)" "keyed er_resource_id (s_resources s)"
    "keyed rr_reservation_id (s_resource_reservations s)" "keyed pp_preemption_id (s_pending_preemptions s)"
    using assms(1) by (auto simp: wf_scheduler_def)
  have m: "mset (dvalues (s_tasks s')) = mset (dvalues (s_tasks s))"
    using assms(2) by (auto simp only: same_state_def)
  have "sort_key task_creation_key (dvalues (s_tasks s')) = sort_key task_creation_key (dvalues (s_tasks s))"
    by (rule creation_order.sort_canonical [OF keyed_rebuild(1) [OF k(1) m] m])
  moreover have "execution_resources False s' = execution_resources False s"
    using resource_order.sort_canonical [OF keyed_rebuild(1) [OF k(2) assms(3)] assms(3)]
    by (simp add: execution_resources_def)
  ultimately show ?thesis using assms(2,4) same_listings [OF assms(2) k(3,4)]
    by (simp add: snapshot_fields_def same_state_def)
qed

text \<open>C23. A snapshot can be restored: if a scheduler yields a snapshot, restoring it under any complete
  service guarantees succeeds, the restored scheduler has the same tasks, resources and assignments
  under the same ids, and its own snapshot is the one it was restored from.\<close>

theorem snapshot_round_trip:
  assumes "wf_scheduler s" and "snapshot uuid5 intent_json s = Inr x"
    and "init_scheduler g (s_resource_safety_required s) (s_resource_safety_policy_version s) = Inr s0"
  shows "\<exists>s'. from_snapshot uuid5 intent_json g x = Inr s' \<and>
    dget (s_tasks s') = dget (s_tasks s) \<and> dget (s_resources s') = dget (s_resources s) \<and>
    dget (s_assignments s') = dget (s_assignments s) \<and> snapshot uuid5 intent_json s' = Inr x"
proof -
  from assms(2) obtain as where valid: "validate_snapshot uuid5 intent_json s = Inr ()"
    and as: "worker_visible_assignments s = Inr as" and mk: "mk_SchedulerSnapshot x = Inr x"
    and x: "x = snapshot_fields s as"
    by (auto simp: snapshot_def mk_SchedulerSnapshot_def)
  define s' where "s' = restore_fields s0 x"
  have same: "same_state s s'"
    unfolding s'_def x by (rule same_state_restored [OF assms(1) valid as assms(3)])
  have k: "keyed at_task_id (s_tasks s)" "keyed er_resource_id (s_resources s)"
    "keyed rr_reservation_id (s_resource_reservations s)" "keyed pp_preemption_id (s_pending_preemptions s)"
    "keyed da_assignment_id (s_assignments s)"
    and u: "\<forall>r\<in>set (dvalues (s_resource_reservations s)). 0 \<le> rr_units r"
    using assms(1) by (fastforce simp: wf_scheduler_def)+
  have valid': "validate_snapshot uuid5 intent_json s' = Inr ()"
    by (rule same_valid [OF same k(3,4) u valid])
  have m: "mset (sn_tasks x) = mset (dvalues (s_tasks s))"
    "mset (sn_execution_resources x) = mset (dvalues (s_resources s))"
    "mset (sn_resource_reservations x) = mset (dvalues (s_resource_reservations s))"
    "mset (sn_pending_preemptions x) = mset (dvalues (s_pending_preemptions s))"
    by (simp_all add: x snapshot_fields_def execution_resources_def resource_reservations_def pending_preemptions_def)
  have "distinct (s_admitted_task_ids s)" using valid by (auto simp: validate_snapshot_def validate_admitted_def)
  then have from_eq: "from_snapshot uuid5 intent_json g x = Inr s'"
    using assms(3) valid' keyed_rebuild(1) [OF k(1) m(1)] keyed_rebuild(1) [OF k(2) m(2)]
      keyed_rebuild(1) [OF k(3) m(3)] keyed_rebuild(1) [OF k(4) m(4)] worker_visible_keyed(1) [OF as k(5) valid]
    by (simp add: from_snapshot_def Let_def s'_def x snapshot_fields_def)
  have "worker_visible_assignments s' = Inr as"
    using as same same_lookups(3) [OF same]
    by (auto simp: worker_visible_assignments_def same_state_def split: option.splits)
  moreover have "snapshot_fields s' as = x"
    unfolding x
    by (rule snapshot_fields_same [OF assms(1) same])
      (use keyed_rebuild(2) [OF k(2) m(2)] m(2) in \<open>simp_all add: s'_def restore_fields_def x snapshot_fields_def\<close>)
  ultimately have "snapshot uuid5 intent_json s' = Inr x" using valid' mk by (simp add: snapshot_def)
  with from_eq same show ?thesis by (simp add: same_state_def)
qed

theorem snapshot_round_trip_witness:
  "\<exists>x s'. snapshot sample_uuid5 (\<lambda>_. []) sample_admitted = Inr x \<and>
     from_snapshot sample_uuid5 (\<lambda>_. []) None x = Inr s' \<and> snapshot sample_uuid5 (\<lambda>_. []) s' = Inr x"
proof -
  have wf: "wf_scheduler sample_admitted"
    by (simp add: wf_scheduler_def keyed_def sample_admitted_def sample_idle_def init_scheduler_def
        RESOURCE_SAFETY_POLICY_VERSION_def py_strip_def is_py_space_def sample_task_def sample_pool_def
        sample_reservation_def Let_def wf_resource_def)
  have "succeeds (snapshot sample_uuid5 (\<lambda>_. []) sample_admitted)" by code_simp
  then obtain x where x: "snapshot sample_uuid5 (\<lambda>_. []) sample_admitted = Inr x" by (auto simp: succeeds_iff)
  have "succeeds (init_scheduler None (s_resource_safety_required sample_admitted)
      (s_resource_safety_policy_version sample_admitted))" by code_simp
  then obtain s0 where "init_scheduler None (s_resource_safety_required sample_admitted)
      (s_resource_safety_policy_version sample_admitted) = Inr s0" by (auto simp: succeeds_iff)
  from snapshot_round_trip [OF wf x this] x show ?thesis by blast
qed

end
