(* ===== verification/Planning.thy ===== *)
theory Planning
  imports Validation
begin

text \<open>
  Epoch planning (\<^verbatim>\<open>attention.py\<close>): \<^verbatim>\<open>plan_scheduling_epoch\<close> with its nested functions,
  \<^verbatim>\<open>_commit_pending_epoch\<close>, \<^verbatim>\<open>checkpoint_pending_preemption\<close>, \<^verbatim>\<open>reconcile_resource_admission\<close>,
  \<^verbatim>\<open>assess_unestimated_processes\<close> and \<^verbatim>\<open>attach_resource_observation\<close>. The local variables of the
  planner are a record; its loops are folds whose bodies may raise. The theorems show that every plan
  stays within the capacity envelope, that atomic work is never released, and what a commit publishes.
\<close>

section \<open>The planner's local state\<close>

record planning =
  ps_remaining :: "(string, int) dict"
  ps_assignments :: "durable_assignment list"
  ps_reservations :: "resource_reservation list"
  ps_admitted :: "uuid list"
  ps_events :: "preemption_event list"
  ps_carried :: "pending_preemption list"
  ps_protected :: "uuid set"
  ps_waiting :: "uuid set"
  ps_released :: "uuid set"

definition planning_observation :: "scheduler \<Rightarrow> resource_observation option res" where
  "planning_observation s =
     (if \<not> s_resource_safety_required s then Inr None
      else case s_pending_resource_observation s of
        None \<Rightarrow> Inl (ResourceObservationError
          ''a fresh resource observation is required before epoch planning'')
      | Some ob \<Rightarrow>
          raise_if (ob_scheduler_cycle ob \<noteq> s_cycle s + 1)
            (ResourceObservationError ''pending resource observation targets the wrong scheduler cycle'')
         (raise_if (list_ex (\<lambda>t. at_status t \<notin> {COMPLETED, FAILED} \<and>
              sm_process_resource_estimate (at_metadata t) = None) (dvalues (s_tasks s)))
            (ResourceObservationError ''every unfinished task requires a persisted process estimate'')
         (Inr (Some ob))))"

definition pool_envelope ::
  "resource_observation option \<Rightarrow> execution_resource \<Rightarrow> (string, int) dict \<Rightarrow> (string, int) dict res" where
  "pool_envelope observation r rem =
     (case observation of
        None \<Rightarrow> Inr (dset (er_resource_id r) (admissible_capacity r) rem)
      | Some ob \<Rightarrow>
          rbind (dlookup (capacity_by_resource_id ob) (er_resource_id r)) (\<lambda>c.
          Inr (dset (er_resource_id r) (oc_admission_capacity c) rem)))"

definition planning_remaining ::
  "resource_observation option \<Rightarrow> execution_resource list \<Rightarrow> (string, int) dict res" where
  "planning_remaining observation enabled = rfold (pool_envelope observation) enabled []"

definition keep_assignment ::
  "durable_assignment \<Rightarrow> resource_reservation list \<Rightarrow> planning \<Rightarrow> planning res" where
  "keep_assignment a task_reservations ps =
     rbind (consume_preserved_reservations task_reservations (ps_remaining ps)) (\<lambda>rem.
     Inr (ps\<lparr>ps_remaining := rem, ps_assignments := ps_assignments ps @ [a],
             ps_reservations := ps_reservations ps @ task_reservations,
             ps_admitted := ps_admitted ps @ [da_task_id a]\<rparr>))"

definition preserve_assignment :: "scheduler \<Rightarrow> uuid \<Rightarrow> planning \<Rightarrow> planning res" where
  "preserve_assignment s assignment_id ps =
     rbind (dlookup (s_assignments s) assignment_id) (\<lambda>a.
     rbind (dlookup (s_tasks s) (da_task_id a)) (\<lambda>task.
     if at_status task \<in> {COMPLETED, FAILED} then Inr ps
     else keep_assignment a (reservations_for_task (da_task_id a) s) ps))"

text \<open>The reservation-only upgrade: the reservations are consumed before the assignment is built.\<close>

definition preserve_admitted ::
  "(uuid \<Rightarrow> string \<Rightarrow> uuid) \<Rightarrow> scheduler \<Rightarrow> int \<Rightarrow> uuid \<Rightarrow> planning \<Rightarrow> planning res" where
  "preserve_admitted uuid5 s next_sequence task_id ps =
    (let task_reservations = reservations_for_task task_id s
     in
     rbind (consume_preserved_reservations task_reservations (ps_remaining ps)) (\<lambda>rem.
     rbind (new_assignment uuid5 task_id task_reservations next_sequence s) (\<lambda>a.
     Inr (ps\<lparr>ps_remaining := rem, ps_assignments := ps_assignments ps @ [a],
             ps_reservations := ps_reservations ps @ task_reservations,
             ps_admitted := ps_admitted ps @ [task_id]\<rparr>))))"

definition preserve_committed ::
  "(uuid \<Rightarrow> string \<Rightarrow> uuid) \<Rightarrow> scheduler \<Rightarrow> (string, int) dict \<Rightarrow> planning res" where
  "preserve_committed uuid5 s remaining =
    (let start_state = \<lparr>ps_remaining = remaining, ps_assignments = [], ps_reservations = [],
        ps_admitted = [], ps_events = [], ps_carried = [], ps_protected = {}, ps_waiting = {},
        ps_released = {}\<rparr>
     in case s_current_epoch s of
          Some e \<Rightarrow> rfold (preserve_assignment s) (ep_assignment_ids e) start_state
        | None \<Rightarrow> rfold (preserve_admitted uuid5 s (s_epoch_sequence s + 1)) (s_admitted_task_ids s)
            start_state)"

section \<open>Admitting and releasing\<close>

definition admit_with_allocation ::
  "(uuid \<Rightarrow> string \<Rightarrow> uuid) \<Rightarrow> scheduler \<Rightarrow> uuid \<Rightarrow> resource_reservation list \<times> (string, int) dict \<Rightarrow>
     planning \<Rightarrow> planning res" where
  "admit_with_allocation uuid5 s task_id allocation ps =
    (let task_reservations = sort_key resource_reservation_sort_key (fst allocation)
     in
     rbind (new_assignment uuid5 task_id task_reservations (s_epoch_sequence s + 1) s) (\<lambda>a.
     Inr (ps\<lparr>ps_remaining := snd allocation, ps_assignments := ps_assignments ps @ [a],
             ps_reservations := ps_reservations ps @ task_reservations,
             ps_admitted := ps_admitted ps @ [task_id]\<rparr>)))"

definition release_unit ::
  "uuid set \<Rightarrow> resource_reservation \<Rightarrow> (string, int) dict \<Rightarrow> (string, int) dict res" where
  "release_unit victims r rem =
     (if rr_task_id r \<in> victims
      then rbind (dlookup rem (rr_resource_id r)) (\<lambda>v.
           Inr (dset (rr_resource_id r) (v + rr_units r) rem))
      else Inr rem)"

definition release_selected :: "uuid set \<Rightarrow> planning \<Rightarrow> planning res" where
  "release_selected victims ps =
     rbind (rfold (release_unit victims) (ps_reservations ps) (ps_remaining ps)) (\<lambda>rem.
     Inr (ps\<lparr>ps_remaining := rem,
             ps_assignments := filter (\<lambda>a. da_task_id a \<notin> victims) (ps_assignments ps),
             ps_reservations := filter (\<lambda>r. rr_task_id r \<notin> victims) (ps_reservations ps),
             ps_admitted := filter (\<lambda>t. t \<notin> victims) (ps_admitted ps),
             ps_released := ps_released ps \<union> victims\<rparr>))"

definition add_event :: "preemption_event \<Rightarrow> planning \<Rightarrow> planning" where
  "add_event v ps = ps\<lparr>ps_events := ps_events ps @ [v]\<rparr>"

definition carry_intent :: "pending_preemption \<Rightarrow> planning \<Rightarrow> planning" where
  "carry_intent intent ps =
     ps\<lparr>ps_carried := ps_carried ps @ [intent],
        ps_protected := ps_protected ps \<union> set (pp_victim_task_ids intent),
        ps_waiting := insert (pp_target_task_id intent) (ps_waiting ps)\<rparr>"

definition hold_for ::
  "attention_task \<Rightarrow> (execution_resource_class \<Rightarrow> execution_resource list) \<Rightarrow> planning \<Rightarrow> planning res" where
  "hold_for task by_class ps =
     rbind (hold_available_task_capacity task by_class (ps_remaining ps)) (\<lambda>rem.
     Inr (ps\<lparr>ps_remaining := rem\<rparr>))"

definition await_target :: "uuid \<Rightarrow> planning \<Rightarrow> planning" where
  "await_target t ps = ps\<lparr>ps_waiting := insert t (ps_waiting ps)\<rparr>"

section \<open>Pending intents\<close>

definition execute_intent ::
  "(uuid \<Rightarrow> string \<Rightarrow> uuid) \<Rightarrow> scheduler \<Rightarrow> (execution_resource_class \<Rightarrow> execution_resource list) \<Rightarrow>
     attention_task \<Rightarrow> pending_preemption \<Rightarrow> planning \<Rightarrow> planning res" where
  "execute_intent uuid5 s by_class target intent ps =
    (let victims = set (pp_victim_task_ids intent); cycle = s_cycle s + 1; seq = s_epoch_sequence s + 1
     in
     rbind (rfold (release_unit victims) (ps_reservations ps) (ps_remaining ps)) (\<lambda>releasable.
     rbind (allocate_task_resources uuid5 target releasable by_class) (\<lambda>replacement.
     case replacement of
       None \<Rightarrow>
         rbind (make_preemption_event uuid5 intent CANCELLED cycle seq
            ''selected victims no longer make the target admissible'' None) (\<lambda>v.
         Inr (add_event v ps))
     | Some allocation \<Rightarrow>
         rbind (release_selected victims ps) (\<lambda>ps1.
         rbind (admit_with_allocation uuid5 s (pp_target_task_id intent) allocation
            (ps1\<lparr>ps_remaining := releasable\<rparr>)) (\<lambda>ps2.
         rbind (make_preemption_event uuid5 intent EXECUTED cycle seq
            ''all required checkpoints committed; replacement published'' None) (\<lambda>v.
         Inr (await_target (pp_target_task_id intent) (add_event v ps2))))))))"

definition resolve_intent ::
  "(uuid \<Rightarrow> string \<Rightarrow> uuid) \<Rightarrow> scheduler \<Rightarrow> bool \<Rightarrow>
     (execution_resource_class \<Rightarrow> execution_resource list) \<Rightarrow> pending_preemption \<Rightarrow> planning \<Rightarrow>
     planning res" where
  "resolve_intent uuid5 s allow_new_admission by_class intent ps =
     (if \<not> allow_new_admission then Inr (carry_intent intent ps)
      else
        rbind (dlookup (s_tasks s) (pp_target_task_id intent)) (\<lambda>target.
        rbind (allocate_task_resources uuid5 target (ps_remaining ps) by_class) (\<lambda>direct_allocation.
        case direct_allocation of
          Some allocation \<Rightarrow>
            rbind (admit_with_allocation uuid5 s (pp_target_task_id intent) allocation ps) (\<lambda>ps1.
            rbind (make_preemption_event uuid5 intent CANCELLED (s_cycle s + 1) (s_epoch_sequence s + 1)
               ''target became admissible without releasing selected victims'' None) (\<lambda>v.
            Inr (await_target (pp_target_task_id intent) (add_event v ps1))))
        | None \<Rightarrow>
            if \<not> ready_to_execute intent
            then hold_for target by_class (carry_intent intent ps)
            else execute_intent uuid5 s by_class target intent ps)))"

section \<open>Candidates and victims\<close>

definition victim_candidate ::
  "scheduler \<Rightarrow> uuid set \<Rightarrow> planning \<Rightarrow> attention_task \<Rightarrow> (execution_resource_class, int) dict \<Rightarrow>
     nat \<times> durable_assignment \<Rightarrow> preemption_candidate option res" where
  "victim_candidate s preemptible ps task deficits ia =
    (let current_index = fst ia; a = snd ia; victim_id = da_task_id a
     in if victim_id \<notin> preemptible \<or> victim_id \<in> ps_protected ps then Inr None
        else rbind (dlookup (s_tasks s) victim_id) (\<lambda>victim.
          if sm_interruption_policy (at_metadata victim) = ATOMIC then Inr None
          else if \<not> strictly_outprioritizes s (Some (s_cycle s + 1)) task victim then Inr None
          else
            let released_units = map (\<lambda>c. (c, class_units c
                  (filter (\<lambda>r. rr_task_id r = victim_id) (ps_reservations ps)))) (dkeys deficits)
            in if \<not> list_ex (\<lambda>u. u \<noteq> 0) (dvalues released_units) then Inr None
               else Inr (Some
                 \<lparr>pc_task_id = victim_id, pc_assignment_id = da_assignment_id a,
                  pc_base_priority = priority_int (derive_priority (at_metadata victim)),
                  pc_checkpoint_required =
                    (sm_interruption_policy (at_metadata victim) = CHECKPOINT_ONLY),
                  pc_current_order =
                    da_created_epoch_sequence a * (int (length (s_tasks s)) + 1) + int current_index,
                  pc_released_units = released_units\<rparr>)))"

definition victim_candidates ::
  "scheduler \<Rightarrow> uuid set \<Rightarrow> planning \<Rightarrow> attention_task \<Rightarrow> (execution_resource_class, int) dict \<Rightarrow>
     preemption_candidate list res" where
  "victim_candidates s preemptible ps task deficits =
     rbind (rmap (victim_candidate s preemptible ps task deficits) (enumerate 0 (ps_assignments ps)))
       (\<lambda>cs. Inr (List.map_filter id cs))"

definition request_checkpoint ::
  "(uuid \<Rightarrow> string \<Rightarrow> uuid) \<Rightarrow> scheduler \<Rightarrow> (execution_resource_class \<Rightarrow> execution_resource list) \<Rightarrow>
     attention_task \<Rightarrow> preemption_candidate list \<Rightarrow> uuid \<Rightarrow> planning \<Rightarrow> planning res" where
  "request_checkpoint uuid5 s by_class task selected preemption_id ps =
     rbind (validate_intent
       \<lparr>pp_preemption_id = preemption_id, pp_target_task_id = at_task_id task,
        pp_target_task_revision = at_revision task, pp_victim_task_ids = map pc_task_id selected,
        pp_victim_assignment_ids = map pc_assignment_id selected,
        pp_checkpoint_victim_task_ids = map pc_task_id (filter pc_checkpoint_required selected),
        pp_checkpointed_victim_task_ids = [],
        pp_requested_epoch_sequence = s_epoch_sequence s + 1\<rparr>) (\<lambda>intent.
     rbind (make_preemption_event uuid5 intent REQUESTED (s_cycle s + 1) (s_epoch_sequence s + 1)
       ''replacement waits for selected safe checkpoints'' None) (\<lambda>v.
     hold_for task by_class (add_event v (carry_intent intent ps))))"

definition execute_preemption ::
  "(uuid \<Rightarrow> string \<Rightarrow> uuid) \<Rightarrow> scheduler \<Rightarrow> (execution_resource_class \<Rightarrow> execution_resource list) \<Rightarrow>
     attention_task \<Rightarrow> preemption_candidate list \<Rightarrow> uuid \<Rightarrow> planning \<Rightarrow> planning res" where
  "execute_preemption uuid5 s by_class task selected preemption_id ps =
     rbind (release_selected (set (map pc_task_id selected)) ps) (\<lambda>ps1.
     rbind (allocate_task_resources uuid5 task (ps_remaining ps1) by_class) (\<lambda>replacement.
     case replacement of
       None \<Rightarrow> Inl (RuntimeError ''Deterministic victim selection failed to satisfy its deficits'')
     | Some allocation \<Rightarrow>
         rbind (admit_with_allocation uuid5 s (at_task_id task) allocation ps1) (\<lambda>ps2.
         rbind (make_selection_preemption_event uuid5 preemption_id (at_task_id task)
            (map pc_task_id selected) (map pc_assignment_id selected) EXECUTED (s_cycle s + 1)
            (s_epoch_sequence s + 1) ''minimum compatible preemptible victim set released'' None) (\<lambda>v.
         Inr (add_event v ps2)))))"

definition contend ::
  "(uuid \<Rightarrow> string \<Rightarrow> uuid) \<Rightarrow> scheduler \<Rightarrow> (execution_resource_class \<Rightarrow> execution_resource list) \<Rightarrow>
     uuid set \<Rightarrow> attention_task \<Rightarrow> planning \<Rightarrow> planning res" where
  "contend uuid5 s by_class preemptible task ps =
     rbind (resource_class_deficits task (ps_remaining ps) by_class) (\<lambda>deficits.
     rbind (victim_candidates s preemptible ps task deficits) (\<lambda>candidates.
     rbind (select_minimum_victims deficits candidates) (\<lambda>result.
     case result of
       None \<Rightarrow> Inr ps
     | Some selected \<Rightarrow>
         rbind (deterministic_preemption_id uuid5 (at_task_id task) (at_revision task)
            (map pc_assignment_id selected) (s_epoch_sequence s + 1)) (\<lambda>preemption_id.
         if filter pc_checkpoint_required selected \<noteq> []
         then request_checkpoint uuid5 s by_class task selected preemption_id ps
         else execute_preemption uuid5 s by_class task selected preemption_id ps))))"

definition consider_candidate ::
  "(uuid \<Rightarrow> string \<Rightarrow> uuid) \<Rightarrow> scheduler \<Rightarrow> (execution_resource_class \<Rightarrow> execution_resource list) \<Rightarrow>
     uuid set \<Rightarrow> uuid \<Rightarrow> planning \<Rightarrow> planning res" where
  "consider_candidate uuid5 s by_class preemptible task_id ps =
     rbind (dlookup (s_tasks s) task_id) (\<lambda>task.
     rbind (allocate_task_resources uuid5 task (ps_remaining ps) by_class) (\<lambda>result.
     case result of
       Some allocation \<Rightarrow> admit_with_allocation uuid5 s task_id allocation ps
     | None \<Rightarrow>
         raise_if (Some task_id = s_active_task_id s)
           (RuntimeError ''Active task resource requirements exceed the safe capacity envelope'')
           (contend uuid5 s by_class preemptible task ps)))"

definition planning_candidates :: "scheduler \<Rightarrow> planning \<Rightarrow> uuid list" where
  "planning_candidates s ps =
     (case s_active_task_id s of
        Some a \<Rightarrow> if a \<notin> set (ps_admitted ps) then [a] else []
      | None \<Rightarrow> []) @
     filter (\<lambda>t. t \<notin> set (ps_admitted ps) \<and> Some t \<noteq> s_active_task_id s \<and>
        t \<notin> ps_waiting ps \<and> t \<notin> ps_released ps)
       (ranked_dependency_satisfied_queued_task_ids s (Some (s_cycle s + 1)))"

definition planning_unadmitted :: "scheduler \<Rightarrow> uuid list \<Rightarrow> uuid list" where
  "planning_unadmitted s admitted =
    (let ranked = ranked_dependency_satisfied_queued_task_ids s (Some (s_cycle s + 1));
         ranked_ids = (case s_active_task_id s of
            Some a \<Rightarrow> if a \<notin> set ranked then a # ranked else ranked
          | None \<Rightarrow> ranked)
     in filter (\<lambda>t. t \<notin> set admitted) ranked_ids)"

section \<open>The plan\<close>

definition plan_body ::
  "(uuid \<Rightarrow> string \<Rightarrow> uuid) \<Rightarrow> scheduler \<Rightarrow> resource_observation option \<Rightarrow> planning res" where
  "plan_body uuid5 s observation =
    (let enabled = execution_resources True s; by_class = resources_by_class enabled;
         allow = (case observation of None \<Rightarrow> True | Some ob \<Rightarrow> ob_healthy ob)
     in
     rbind (planning_remaining observation enabled) (\<lambda>remaining.
     rbind (preserve_committed uuid5 s remaining) (\<lambda>ps0.
     rbind (rfold (resolve_intent uuid5 s allow by_class) (pending_preemptions s) ps0) (\<lambda>ps1.
     rfold (consider_candidate uuid5 s by_class (set (ps_admitted ps0)))
       (if allow then planning_candidates s ps1 else []) ps1))))"

definition plan_epoch_record ::
  "scheduler \<Rightarrow> resource_observation option \<Rightarrow> planning \<Rightarrow> scheduling_epoch" where
  "plan_epoch_record s observation ps =
     \<lparr>ep_epoch_id = 0, ep_sequence = s_epoch_sequence s + 1,
      ep_previous_epoch_id = map_option ep_epoch_id (s_current_epoch s),
      ep_scheduler_cycle = s_cycle s + 1,
      ep_admission_policy_version = s_admission_policy_version s,
      ep_assignment_policy_version = s_assignment_policy_version s, ep_status = PLANNED,
      ep_assignment_ids = map da_assignment_id (ps_assignments ps),
      ep_reservations = sort_key resource_reservation_sort_key (ps_reservations ps),
      ep_preemption_policy_version = Some (s_preemption_policy_version s),
      ep_pending_preemptions = sort_key pending_preemption_sort_key (ps_carried ps),
      ep_preemption_event_ids = map pv_event_id (ps_events ps),
      ep_executed_preemption_ids = event_preemption_ids EXECUTED (ps_events ps),
      ep_cancelled_preemption_ids = event_preemption_ids CANCELLED (ps_events ps),
      ep_resource_observation_id = map_option ob_observation_id observation,
      ep_resource_safety_policy_version = map_option ob_safety_policy_version observation\<rparr>"

definition build_plan ::
  "(uuid \<Rightarrow> string \<Rightarrow> uuid) \<Rightarrow> (pending_preemption \<Rightarrow> string) \<Rightarrow> scheduler \<Rightarrow>
     resource_observation option \<Rightarrow> planning \<Rightarrow> scheduling_epoch_plan res" where
  "build_plan uuid5 intent_json s observation ps =
    (let e = plan_epoch_record s observation ps
     in
     rbind (deterministic_epoch_id uuid5 intent_json e) (\<lambda>epoch_id.
     rbind (normalize_complete_set (e\<lparr>ep_epoch_id := epoch_id\<rparr>)) (\<lambda>epoch.
     validate_complete_plan intent_json
       \<lparr>pl_epoch = epoch, pl_admitted_task_ids = ps_admitted ps,
        pl_unadmitted_task_ids = planning_unadmitted s (ps_admitted ps),
        pl_assignments = ps_assignments ps,
        pl_pending_preemptions = sort_key pending_preemption_sort_key (ps_carried ps),
        pl_preemption_events = ps_events ps, pl_resource_observation = observation\<rparr>)))"

definition compute_plan ::
  "(uuid \<Rightarrow> string \<Rightarrow> uuid) \<Rightarrow> (pending_preemption \<Rightarrow> string) \<Rightarrow> scheduler \<Rightarrow> scheduling_epoch_plan res"
where
  "compute_plan uuid5 intent_json s =
     rbind (validate_snapshot uuid5 intent_json s) (\<lambda>_.
     rbind (planning_observation s) (\<lambda>observation.
     rbind (plan_body uuid5 s observation) (build_plan uuid5 intent_json s observation)))"

definition plan_scheduling_epoch ::
  "(uuid \<Rightarrow> string \<Rightarrow> uuid) \<Rightarrow> (pending_preemption \<Rightarrow> string) \<Rightarrow> scheduling_epoch_plan sched_op" where
  "plan_scheduling_epoch uuid5 intent_json s =
     (case s_pending_epoch_plan s of
        Some plan \<Rightarrow> (Inr plan, s)
      | None \<Rightarrow>
          (case compute_plan uuid5 intent_json s of
             Inl e \<Rightarrow> (Inl e, s)
           | Inr plan \<Rightarrow> (Inr plan, s\<lparr>s_pending_epoch_plan := Some plan\<rparr>)))"

section \<open>Committing a plan\<close>

fun sfold :: "('a \<Rightarrow> ('s, unit) op) \<Rightarrow> 'a list \<Rightarrow> ('s, unit) op" where
  "sfold f [] = slift (Inr ())"
| "sfold f (x # xs) = sbind (f x) (\<lambda>_. sfold f xs)"

definition publish_plan :: "scheduling_epoch_plan \<Rightarrow> scheduler \<Rightarrow> scheduler" where
  "publish_plan plan s =
    (let e = (pl_epoch plan)\<lparr>ep_status := COMMITTED\<rparr>
     in s\<lparr>s_cycle := ep_scheduler_cycle e, s_epoch_sequence := ep_sequence e, s_current_epoch := Some e,
          s_admission_policy_version := ep_admission_policy_version e,
          s_assignment_policy_version := ep_assignment_policy_version e,
          s_preemption_policy_version :=
            (case ep_preemption_policy_version e of None \<Rightarrow> s_preemption_policy_version s | Some v \<Rightarrow> v),
          s_admitted_task_ids := pl_admitted_task_ids plan,
          s_resource_reservations := dict_of rr_reservation_id (ep_reservations e),
          s_assignments := dict_of da_assignment_id (pl_assignments plan),
          s_pending_preemptions := dict_of pp_preemption_id (pl_pending_preemptions plan),
          s_preemption_state_revision := s_preemption_state_revision s + 1\<rparr>)"

definition commit_pending_epoch ::
  "(uuid \<Rightarrow> string \<Rightarrow> uuid) \<Rightarrow> (pending_preemption \<Rightarrow> string) \<Rightarrow> uuid \<Rightarrow> unit sched_op" where
  "commit_pending_epoch uuid5 intent_json epoch_id s =
     (case s_pending_epoch_plan s of
        None \<Rightarrow> (Inl (RuntimeError ''No matching provisional scheduling epoch''), s)
      | Some plan \<Rightarrow>
          if ep_epoch_id (pl_epoch plan) \<noteq> epoch_id
          then (Inl (RuntimeError ''No matching provisional scheduling epoch''), s)
          else
            sbind (sfold append_preemption_event (pl_preemption_events plan)) (\<lambda>_ s1.
              let s2 = s1\<lparr>s_current_resource_observation := pl_resource_observation plan,
                          s_pending_resource_observation := None, s_pending_epoch_plan := None\<rparr>
              in (validate_snapshot uuid5 intent_json s2, s2))
            (publish_plan plan s))"

section \<open>Checkpoints\<close>

definition checkpoint_pending_preemption ::
  "(uuid \<Rightarrow> string \<Rightarrow> uuid) \<Rightarrow> (pending_preemption \<Rightarrow> string) \<Rightarrow> uuid \<Rightarrow> json_object option \<Rightarrow>
     pending_preemption sched_op" where
  "checkpoint_pending_preemption uuid5 intent_json victim_task_id resumable_state s =
     (case filter (\<lambda>i. victim_task_id \<in> set (pp_checkpoint_victim_task_ids i))
         (dvalues (s_pending_preemptions s)) of
        [] \<Rightarrow> (Inl KeyError, s)
      | [intent] \<Rightarrow>
          if victim_task_id \<in> set (pp_checkpointed_victim_task_ids intent) then (Inr intent, s)
          else
            sbind (\<lambda>s1. case resumable_state of
                None \<Rightarrow> (Inr (), s1)
              | Some st \<Rightarrow>
                  (case dget (s_tasks s1) victim_task_id of
                     None \<Rightarrow> (Inl KeyError, s1)
                   | Some t \<Rightarrow> (Inr (), s1\<lparr>s_tasks :=
                       dset victim_task_id (t\<lparr>at_resumable_state := st\<rparr>) (s_tasks s1)\<rparr>))) (\<lambda>_ s1.
            let updated = intent\<lparr>pp_checkpointed_victim_task_ids :=
                  pp_checkpointed_victim_task_ids intent @ [victim_task_id]\<rparr>;
                s2 = s1\<lparr>s_pending_preemptions :=
                    dset (pp_preemption_id updated) updated (s_pending_preemptions s1),
                  s_preemption_state_revision := s_preemption_state_revision s1 + 1\<rparr>
            in sbind (slift (make_preemption_event uuid5 updated CHECKPOINT_ACKNOWLEDGED (s_cycle s2)
                  (s_epoch_sequence s2) ''checkpoint-only victim acknowledged a safe boundary''
                  (Some victim_task_id))) (\<lambda>event.
               sbind (append_preemption_event event) (\<lambda>_ s3.
                 (rbind (validate_snapshot uuid5 intent_json s3) (\<lambda>_. Inr updated), s3))) s2)
            (invalidate_scheduling_plan s)
      | _ \<Rightarrow> (Inl (RuntimeError ''A checkpoint victim belongs to multiple intents''), s))"

section \<open>Reservation-only admission\<close>

definition admit_reservation ::
  "(uuid \<Rightarrow> string \<Rightarrow> uuid) \<Rightarrow> scheduler \<Rightarrow> (execution_resource_class \<Rightarrow> execution_resource list) \<Rightarrow> uuid \<Rightarrow>
     (string, int) dict \<times> uuid list \<times> uuid list \<times> resource_reservation list \<Rightarrow>
     ((string, int) dict \<times> uuid list \<times> uuid list \<times> resource_reservation list) res" where
  "admit_reservation uuid5 s by_class task_id acc =
    (case acc of (remaining, admitted, unadmitted, reservations) \<Rightarrow>
     rbind (dlookup (s_tasks s) task_id) (\<lambda>task.
     rbind (allocate_task_resources uuid5 task remaining by_class) (\<lambda>allocation.
     case allocation of
       None \<Rightarrow>
         raise_if (Some task_id = s_active_task_id s)
           (RuntimeError ''Active task resource requirements exceed the safe capacity envelope'')
           (Inr (remaining, admitted, unadmitted @ [task_id], reservations))
     | Some (task_reservations, updated_remaining) \<Rightarrow>
         Inr (updated_remaining, admitted @ [task_id], unadmitted, reservations @ task_reservations))))"

definition reconcile_resource_admission ::
  "(uuid \<Rightarrow> string \<Rightarrow> uuid) \<Rightarrow> resource_admission_plan sched_op" where
  "reconcile_resource_admission uuid5 s =
     (if s_resource_safety_required s
      then (Inl (RuntimeError ''Host-safe admission requires an observed scheduling epoch''), s)
      else if s_current_epoch s \<noteq> None \<or> s_pending_epoch_plan s \<noteq> None
      then (Inl (RuntimeError
        ''Reservation-only reconciliation is unavailable after epoch scheduling begins''), s)
      else
        let enabled = execution_resources True s;
            candidates = (case s_active_task_id s of None \<Rightarrow> [] | Some a \<Rightarrow> [a]) @
              filter (\<lambda>t. Some t \<noteq> s_active_task_id s)
                (ranked_dependency_satisfied_queued_task_ids s None)
        in case rbind (planning_remaining None enabled) (\<lambda>remaining.
              rbind (rfold (admit_reservation uuid5 s (resources_by_class enabled)) candidates
                (remaining, [], [], [])) (\<lambda>(_, admitted, unadmitted, reservations).
              mk_ResourceAdmissionPlan RESOURCE_ADMISSION_POLICY_VERSION admitted unadmitted
                (sort_key resource_reservation_sort_key reservations))) of
             Inl e \<Rightarrow> (Inl e, s)
           | Inr plan \<Rightarrow>
               (Inr plan, s\<lparr>s_admission_policy_version := rap_policy_version plan,
                  s_admitted_task_ids := rap_admitted_task_ids plan,
                  s_resource_reservations := dict_of rr_reservation_id (rap_reservations plan)\<rparr>))"

section \<open>Estimates and observations\<close>

fun assess_tasks ::
  "resource_safety_policy \<Rightarrow> attention_task list \<Rightarrow> uuid list \<Rightarrow> uuid list sched_op" where
  "assess_tasks policy [] assessed s = (Inr assessed, s)"
| "assess_tasks policy (task # tasks) assessed s =
     (if at_status task \<in> {COMPLETED, FAILED} \<or> sm_process_resource_estimate (at_metadata task) \<noteq> None
      then assess_tasks policy tasks assessed s
      else if at_task_id task \<in> set (s_admitted_task_ids s)
      then (Inl (ResourceObservationError
        ''an already-assigned task has no process resource estimate''), s)
      else
        sbind (slift (rbind (conservative_process_estimate (at_metadata task) policy) (\<lambda>estimate.
          normalize_resource_contract
            ((at_metadata task)\<lparr>sm_process_resource_estimate := Some estimate\<rparr>)))) (\<lambda>md s1.
        assess_tasks policy tasks (assessed @ [at_task_id task])
          (s1\<lparr>s_tasks := dset (at_task_id task)
             (task\<lparr>at_metadata := md, at_revision := at_revision task + 1\<rparr>) (s_tasks s1)\<rparr>)) s)"

definition assess_unestimated_processes :: "resource_safety_policy \<Rightarrow> uuid list sched_op" where
  "assess_unestimated_processes policy s =
     (if sp_policy_version policy \<noteq> s_resource_safety_policy_version s
      then (Inl (ResourceObservationError
        ''resource estimate policy does not match scheduler safety policy''), s)
      else
        sbind (assess_tasks policy (sort_key task_creation_key (dvalues (s_tasks s))) [])
          (\<lambda>assessed s1. (Inr assessed,
             if assessed \<noteq> [] then invalidate_scheduling_plan s1 else s1)) s)"

definition capacity_matches ::
  "(string, observed_resource_capacity) dict \<Rightarrow> (string, int) dict \<Rightarrow> execution_resource \<Rightarrow> unit res" where
  "capacity_matches capacity_by_id committed r =
     rbind (dlookup capacity_by_id (er_resource_id r)) (\<lambda>c.
     raise_if (oc_resource_class c \<noteq> er_resource_class r \<or> oc_configured_capacity c \<noteq> er_capacity r \<or>
         oc_configured_headroom_units c \<noteq> er_system_headroom r \<or>
         oc_committed_units c \<noteq> dval committed (er_resource_id r))
       (ResourceObservationError ''resource observation does not match configured/committed state'')
     (Inr ()))"

definition attach_resource_observation ::
  "resource_observation \<Rightarrow> datetime \<Rightarrow> unit sched_op" where
  "attach_resource_observation ob evaluated_at s =
    (let resources = execution_resources False s; capacity_by_id = capacity_by_resource_id ob
     in case
       raise_if (\<not> s_resource_safety_required s)
         (ResourceObservationError ''host resource safety must be enabled before attaching observations'')
      (rbind (assert_fresh ob evaluated_at) (\<lambda>_.
       raise_if (ob_scheduler_cycle ob \<noteq> s_cycle s + 1)
         (ResourceObservationError ''resource observation does not target the next scheduler cycle'')
      (raise_if (ob_safety_policy_version ob \<noteq> s_resource_safety_policy_version s)
         (ResourceObservationError ''resource observation policy does not match scheduler policy'')
      (raise_if (set (dkeys capacity_by_id) \<noteq> set (map er_resource_id resources))
         (ResourceObservationError ''resource observation must cover every configured resource exactly'')
      (rcheck (capacity_matches capacity_by_id
         (committed_by_resource (dvalues (s_resource_reservations s)))) resources))))) of
       Inl e \<Rightarrow> (Inl e, s)
     | Inr _ \<Rightarrow>
         (Inr (), (invalidate_scheduling_plan s)\<lparr>s_pending_resource_observation := Some ob\<rparr>))"

section \<open>The account of a planning pass\<close>

text \<open>\<open>account\<close> is the invariant of the planner's resources: the pools are accounted for, the envelope
  is respected, every reservation is positive and on an enabled pool of its class, and every task holds
  its exact contract as often as it is admitted.\<close>

definition on_pools :: "execution_resource list \<Rightarrow> resource_reservation list \<Rightarrow> bool" where
  "on_pools enabled rs \<longleftrightarrow> (\<forall>r\<in>set rs. 1 \<le> rr_units r \<and>
     (\<exists>p\<in>set enabled. rr_resource_id r = er_resource_id p \<and> rr_resource_class r = er_resource_class p))"

definition contract_units :: "scheduler \<Rightarrow> uuid \<Rightarrow> execution_resource_class \<Rightarrow> int" where
  "contract_units s t c = (case dget (s_tasks s) t of None \<Rightarrow> 0
     | Some task \<Rightarrow> required_units (quantitative_resource_requirements (at_metadata task)) c)"

definition account ::
  "scheduler \<Rightarrow> execution_resource list \<Rightarrow> (string \<Rightarrow> int) \<Rightarrow> (string, int) dict \<Rightarrow>
     resource_reservation list \<Rightarrow> uuid list \<Rightarrow> bool" where
  "account s enabled cap rem rs admitted \<longleftrightarrow> wf_tasks s \<and> pools_ready enabled rem \<and> ledger cap rem rs \<and>
     on_pools enabled rs \<and>
     (\<forall>t c. task_class_units t c rs = int (count_list admitted t) * contract_units s t c)"

lemma task_class_units_simps [simp]:
  "task_class_units t c [] = 0"
  "task_class_units t c (xs @ ys) = task_class_units t c xs + task_class_units t c ys"
  by (simp_all add: task_class_units_def)

lemma task_class_units_same:
  "(\<And>r. r \<in> set rs \<Longrightarrow> rr_task_id r = t) \<Longrightarrow> task_class_units t' c rs = (if t' = t then class_units c rs else 0)"
  by (induction rs) (auto simp: task_class_units_def)

lemma task_class_units_filter:
  "task_class_units t c (filter (\<lambda>r. rr_task_id r \<notin> V) rs) = (if t \<in> V then 0 else task_class_units t c rs)"
  by (induction rs) (auto simp: task_class_units_def)

lemma count_list_filter: "count_list (filter P xs) t = (if P t then count_list xs t else 0)"
  by (induction xs) auto

lemma count_list_distinct: "distinct xs \<Longrightarrow> t \<in> set xs \<Longrightarrow> count_list xs t = 1"
  by (induction xs) (auto simp: count_notin)

lemma account_nonneg: "account s enabled cap rem rs admitted \<Longrightarrow> nonneg rem"
  by (simp add: account_def ledger_def)

lemma account_allocation:
  assumes "account s enabled cap rem rs admitted" and "dget (s_tasks s) t = Some task"
    and "allocate_task_resources uuid5 task rem (resources_by_class enabled) = Inr (Some (new, rem'))"
  shows "allocates t enabled new rem rem'"
    and "class_units c new = required_units (quantitative_resource_requirements (at_metadata task)) c"
proof -
  have wf: "wf_metadata (at_metadata task)" and tid: "at_task_id task = t"
    using assms(1,2) wf_tasksD(1,2) [of s t task] by (auto simp: account_def wf_task_def)
  have *: "allocates (at_task_id task) enabled new rem rem' \<and>
      (\<forall>c. class_units c new = required_units (quantitative_resource_requirements (at_metadata task)) c)"
    using allocate_spec [where enabled = enabled and rem = rem and task = task and ?uuid5.0 = uuid5] assms account_nonneg [OF assms(1)] wf
    by (auto simp: account_def split: if_splits)
  then show "allocates t enabled new rem rem'"
    and "class_units c new = required_units (quantitative_resource_requirements (at_metadata task)) c"
    using tid by auto
qed

lemma account_admit:
  assumes "account s enabled cap rem rs admitted" and "dget (s_tasks s) t = Some task"
    and "allocate_task_resources uuid5 task rem (resources_by_class enabled) = Inr (Some (new, rem'))"
    and "mset new' = mset new"
  shows "account s enabled cap rem' (rs @ new') (admitted @ [t])"
proof -
  note al = account_allocation [OF assms(1-3)] and ac = assms(1) [unfolded account_def]
  have st: "set new' = set new" using assms(4) by (rule mset_eq_setD)
  have "on_pools enabled new'" and own: "\<And>r. r \<in> set new' \<Longrightarrow> rr_task_id r = t"
    using al(1) by (auto simp: on_pools_def allocates_def st)
  moreover have "ledger cap rem' (rs @ new')"
    using capacity.allocation_reordered [where pools = enabled and rem = rem and cap = cap and rs = rs and t = t] ac al(1) assms(4) by simp
  moreover have "class_units c new' = contract_units s t c" for c
    using al(2) [of c] sum_list_filter_mset [OF assms(4), of rr_units "\<lambda>r. rr_resource_class r = c"] assms(2)
    by (simp add: class_units_def contract_units_def)
  ultimately show ?thesis
    using ac pools_ready_allocates [of enabled rem t enabled new rem'] al(1) task_class_units_same [OF own]
    by (auto simp: account_def on_pools_def algebra_simps)
qed

lemma account_hold:
  "account s enabled cap rem rs admitted \<Longrightarrow> shrinks rem rem' \<Longrightarrow> account s enabled cap rem' rs admitted"
  using capacity.holding pools_ready_shrinks by (auto simp: account_def)

lemma release_units_result:
  "rfold (release_unit V) rs rem = Inr rem' \<Longrightarrow>
     dom (dget rem') = dom (dget rem) \<and>
     (\<forall>k. dval rem' k = dval rem k + units_on k (filter (\<lambda>r. rr_task_id r \<in> V) rs))"
proof (induction rs arbitrary: rem)
  case (Cons r rs)
  from Cons.prems obtain rem1 where 1: "release_unit V r rem = Inr rem1"
    "rfold (release_unit V) rs rem1 = Inr rem'" by auto
  have "dom (dget rem1) = dom (dget rem) \<and>
      (\<forall>k. dval rem1 k = dval rem k + units_on k (filter (\<lambda>r. rr_task_id r \<in> V) [r]))"
    using 1(1) by (auto simp: release_unit_def dval_def split: if_splits)
  with Cons.IH [OF 1(2)] show ?case by auto
qed simp

lemma units_on_partition:
  "units_on k (filter (\<lambda>r. rr_task_id r \<in> V) rs) + units_on k (filter (\<lambda>r. rr_task_id r \<notin> V) rs) = units_on k rs"
  by (induction rs) auto

lemma release_units_total:
  assumes "\<And>r. r \<in> set rs \<Longrightarrow> rr_resource_id r \<in> dom (dget rem)"
  shows "\<exists>rem'. rfold (release_unit V) rs rem = Inr rem'"
  using assms
proof (induction rs arbitrary: rem)
  case (Cons r rs)
  have "\<exists>rem1. release_unit V r rem = Inr rem1 \<and> dom (dget rem1) = dom (dget rem)"
    using Cons.prems [of r] by (auto simp: release_unit_def dlookup_Some)
  then obtain rem1 where 1: "release_unit V r rem = Inr rem1" "dom (dget rem1) = dom (dget rem)" by blast
  have "\<exists>rem'. rfold (release_unit V) rs rem1 = Inr rem'"
    by (rule Cons.IH) (use Cons.prems 1(2) in auto)
  with 1(1) show ?case by auto
qed simp

lemma account_release:
  assumes "account s enabled cap rem rs admitted" and "rfold (release_unit V) rs rem = Inr rem'"
  shows "account s enabled cap rem' (filter (\<lambda>r. rr_task_id r \<notin> V) rs) (filter (\<lambda>t. t \<notin> V) admitted)"
proof -
  note ac = assms(1) [unfolded account_def] and rel = release_units_result [OF assms(2)]
  have nn: "0 \<le> units_on k (filter (\<lambda>r. rr_task_id r \<in> V) rs)" for k
    by (rule units_on_nonneg) (use ac in \<open>auto simp: on_pools_def\<close>)
  have "nonneg rem'" unfolding nonneg_def
  proof
    fix k
    have "0 \<le> dval rem k" using ac by (simp add: ledger_def nonneg_def)
    with rel nn [of k] show "0 \<le> dval rem' k" by simp
  qed
  then have "ledger cap rem' (filter (\<lambda>r. rr_task_id r \<notin> V) rs)"
  proof (rule ledger_move [of cap rem rs, rotated 2])
    show "dval rem' k + units_on k (filter (\<lambda>r. rr_task_id r \<notin> V) rs) = dval rem k + units_on k rs" for k
      using rel units_on_partition [of k V rs] by simp
    show "rr_resource_id r \<in> dom (dget rem)" if "r \<in> set (filter (\<lambda>r. rr_task_id r \<notin> V) rs)" for r
      using ac that by (auto simp: ledger_def)
  qed (use ac rel in simp_all)
  moreover have "pools_ready enabled rem'"
    using ac rel by (auto simp: pools_ready_def dom_def set_eq_iff)
  ultimately show ?thesis using ac
    by (auto simp: account_def on_pools_def task_class_units_filter count_list_filter)
qed

lemma account_keep:
  assumes "account s enabled cap rem rs admitted" and "consume_preserved_reservations new rem = Inr rem'"
    and "on_pools enabled new" and "\<And>r. r \<in> set new \<Longrightarrow> rr_task_id r = t"
    and "\<And>c. class_units c new = contract_units s t c"
  shows "account s enabled cap rem' (rs @ new) (admitted @ [t])"
proof -
  note ac = assms(1) [unfolded account_def]
  have "ledger cap rem' (rs @ new) \<and> dom (dget rem') = dom (dget rem)"
    using consume_preserved_ledger [OF _ assms(2)] ac by blast
  moreover from this have "pools_ready enabled rem'"
    using ac by (auto simp: pools_ready_def dom_def set_eq_iff)
  ultimately show ?thesis using ac assms(3,5) task_class_units_same [OF assms(4)]
    by (auto simp: account_def on_pools_def algebra_simps)
qed

section \<open>The planner keeps the account\<close>

definition plan_inv ::
  "scheduler \<Rightarrow> execution_resource list \<Rightarrow> (string \<Rightarrow> int) \<Rightarrow> planning \<Rightarrow> bool" where
  "plan_inv s enabled cap ps \<longleftrightarrow> account s enabled cap (ps_remaining ps) (ps_reservations ps) (ps_admitted ps)"

lemma plan_inv_simps [simp]:
  "plan_inv s enabled cap (add_event v ps) = plan_inv s enabled cap ps"
  "plan_inv s enabled cap (carry_intent i ps) = plan_inv s enabled cap ps"
  "plan_inv s enabled cap (await_target t ps) = plan_inv s enabled cap ps"
  by (simp_all add: plan_inv_def add_event_def carry_intent_def await_target_def)

lemma hold_for_inv:
  "plan_inv s enabled cap ps \<Longrightarrow> hold_for task by_class ps = Inr ps' \<Longrightarrow> plan_inv s enabled cap ps'"
  by (auto simp: hold_for_def plan_inv_def dest!: hold_shrinks intro: account_hold)

lemma release_selected_inv:
  "plan_inv s enabled cap ps \<Longrightarrow> release_selected V ps = Inr ps' \<Longrightarrow> plan_inv s enabled cap ps'"
  by (auto simp: release_selected_def plan_inv_def account_release)

lemma admit_inv:
  assumes "account s enabled cap rem (ps_reservations ps) (ps_admitted ps)"
    and "dget (s_tasks s) t = Some task"
    and "allocate_task_resources uuid5 task rem (resources_by_class enabled) = Inr (Some allocation)"
    and "admit_with_allocation uuid5 s t allocation ps = Inr ps'"
  shows "plan_inv s enabled cap ps'"
proof -
  obtain new rem' where al: "allocation = (new, rem')" by (cases allocation)
  have "account s enabled cap rem' (ps_reservations ps @ sort_key resource_reservation_sort_key new)
      (ps_admitted ps @ [t])"
    by (rule account_admit [OF assms(1,2) assms(3) [unfolded al]]) simp
  with assms(4) show ?thesis by (auto simp: admit_with_allocation_def al plan_inv_def Let_def)
qed

lemma execute_intent_inv:
  assumes "plan_inv s enabled cap ps" and "dget (s_tasks s) (pp_target_task_id i) = Some target"
    and "execute_intent uuid5 s (resources_by_class enabled) target i ps = Inr ps'"
  shows "plan_inv s enabled cap ps'"
proof -
  from assms(3) obtain rem result where
    rem: "rfold (release_unit (set (pp_victim_task_ids i))) (ps_reservations ps) (ps_remaining ps) = Inr rem"
    and alloc: "allocate_task_resources uuid5 target rem (resources_by_class enabled) = Inr result"
    by (auto simp: execute_intent_def Let_def)
  show ?thesis
  proof (cases result)
    case None
    with assms rem alloc show ?thesis by (auto simp: execute_intent_def Let_def)
  next
    case (Some allocation)
    with assms(3) rem alloc obtain ps1 ps2 v where
      ps1: "release_selected (set (pp_victim_task_ids i)) ps = Inr ps1"
      and ps2: "admit_with_allocation uuid5 s (pp_target_task_id i) allocation (ps1\<lparr>ps_remaining := rem\<rparr>) = Inr ps2"
      and ps': "ps' = await_target (pp_target_task_id i) (add_event v ps2)"
      by (auto simp: execute_intent_def Let_def)
    have "account s enabled cap rem (ps_reservations ps1) (ps_admitted ps1)"
      using account_release [OF assms(1) [unfolded plan_inv_def] rem] ps1 by (auto simp: release_selected_def)
    from admit_inv [where ps = "ps1\<lparr>ps_remaining := rem\<rparr>", OF _ assms(2) alloc [unfolded Some] ps2] this
    show ?thesis by (simp add: ps')
  qed
qed

lemma resolve_intent_inv:
  assumes "plan_inv s enabled cap ps"
    and "resolve_intent uuid5 s allow (resources_by_class enabled) i ps = Inr ps'"
  shows "plan_inv s enabled cap ps'"
proof (cases allow)
  case False
  with assms show ?thesis by (auto simp: resolve_intent_def)
next
  case True
  with assms(2) obtain target result where target: "dget (s_tasks s) (pp_target_task_id i) = Some target"
    and alloc: "allocate_task_resources uuid5 target (ps_remaining ps) (resources_by_class enabled) = Inr result"
    by (auto simp: resolve_intent_def)
  show ?thesis
  proof (cases result)
    case None
    then show ?thesis using assms target alloc True execute_intent_inv [OF assms(1) target]
      hold_for_inv [of s enabled cap "carry_intent i ps"]
      by (auto simp: resolve_intent_def dlookup_Some split: if_splits)
  next
    case (Some allocation)
    then show ?thesis using assms target alloc True
        admit_inv [OF assms(1) [unfolded plan_inv_def] target alloc [unfolded Some]]
      by (auto simp: resolve_intent_def dlookup_Some)
  qed
qed

lemma execute_preemption_inv:
  assumes "plan_inv s enabled cap ps" and "dget (s_tasks s) (at_task_id task) = Some task"
    and "execute_preemption uuid5 s (resources_by_class enabled) task selected pid ps = Inr ps'"
  shows "plan_inv s enabled cap ps'"
proof -
  from assms(3) obtain ps1 allocation ps2 v where
    ps1: "release_selected (set (map pc_task_id selected)) ps = Inr ps1"
    and alloc: "allocate_task_resources uuid5 task (ps_remaining ps1) (resources_by_class enabled) =
      Inr (Some allocation)"
    and ps2: "admit_with_allocation uuid5 s (at_task_id task) allocation ps1 = Inr ps2"
    and ps': "ps' = add_event v ps2"
    unfolding execute_preemption_def by (auto split: option.splits simp del: set_map)
  have "plan_inv s enabled cap ps1" by (rule release_selected_inv [OF assms(1) ps1])
  from admit_inv [OF this [unfolded plan_inv_def] assms(2) alloc ps2] show ?thesis by (simp add: ps')
qed

lemma contend_inv:
  assumes "plan_inv s enabled cap ps" and "dget (s_tasks s) (at_task_id task) = Some task"
    and "contend uuid5 s (resources_by_class enabled) V task ps = Inr ps'"
  shows "plan_inv s enabled cap ps'"
proof -
  from assms(3) obtain deficits candidates result where
    "select_minimum_victims deficits candidates = Inr result"
    and rest: "(case result of None \<Rightarrow> Inr ps | Some selected \<Rightarrow>
         rbind (deterministic_preemption_id uuid5 (at_task_id task) (at_revision task)
            (map pc_assignment_id selected) (s_epoch_sequence s + 1)) (\<lambda>preemption_id.
         if filter pc_checkpoint_required selected \<noteq> []
         then request_checkpoint uuid5 s (resources_by_class enabled) task selected preemption_id ps
         else execute_preemption uuid5 s (resources_by_class enabled) task selected preemption_id ps)) = Inr ps'"
    unfolding contend_def by auto
  show ?thesis
  proof (cases result)
    case None
    with rest assms(1) show ?thesis by simp
  next
    case (Some selected)
    with rest obtain pid where "request_checkpoint uuid5 s (resources_by_class enabled) task selected pid ps = Inr ps'
        \<or> execute_preemption uuid5 s (resources_by_class enabled) task selected pid ps = Inr ps'"
      by (auto split: if_splits)
    then show ?thesis
    proof
      assume "request_checkpoint uuid5 s (resources_by_class enabled) task selected pid ps = Inr ps'"
      then obtain i v where "hold_for task (resources_by_class enabled) (add_event v (carry_intent i ps)) = Inr ps'"
        by (auto simp: request_checkpoint_def)
      from hold_for_inv [OF _ this] assms(1) show ?thesis by simp
    qed (rule execute_preemption_inv [OF assms(1,2)])
  qed
qed

lemma plan_inv_wf: "plan_inv s enabled cap ps \<Longrightarrow> wf_tasks s"
  by (simp add: plan_inv_def account_def)

lemma consider_candidate_inv:
  assumes "plan_inv s enabled cap ps"
    and "consider_candidate uuid5 s (resources_by_class enabled) V t ps = Inr ps'"
  shows "plan_inv s enabled cap ps'"
proof -
  from assms(2) obtain task result where task: "dget (s_tasks s) t = Some task"
    and alloc: "allocate_task_resources uuid5 task (ps_remaining ps) (resources_by_class enabled) = Inr result"
    by (auto simp: consider_candidate_def)
  have tid: "at_task_id task = t" by (rule wf_tasksD(1) [OF plan_inv_wf [OF assms(1)] task])
  show ?thesis
  proof (cases result)
    case None
    with assms(2) task alloc have "contend uuid5 s (resources_by_class enabled) V task ps = Inr ps'"
      by (auto simp: consider_candidate_def)
    from contend_inv [OF assms(1) _ this] task tid show ?thesis by simp
  next
    case (Some allocation)
    with assms(2) task alloc have "admit_with_allocation uuid5 s t allocation ps = Inr ps'"
      by (auto simp: consider_candidate_def)
    with admit_inv [OF assms(1) [unfolded plan_inv_def] task alloc [unfolded Some]] show ?thesis .
  qed
qed

interpretation intent_loop: result_loop
  "resolve_intent uuid5 s allow (resources_by_class enabled)" "plan_inv s enabled cap" "\<lambda>_. True"
  for uuid5 s allow enabled cap
  by unfold_locales (rule resolve_intent_inv)

interpretation candidate_loop: result_loop
  "consider_candidate uuid5 s (resources_by_class enabled) V" "plan_inv s enabled cap" "\<lambda>_. True"
  for uuid5 s enabled V cap
  by unfold_locales (rule consider_candidate_inv)

section \<open>Preserving the committed epoch\<close>

text \<open>The capacity a plan may use of a pool: the configured safe capacity, or the observed one.\<close>

definition envelope :: "resource_observation option \<Rightarrow> execution_resource \<Rightarrow> int" where
  "envelope observation p =
     (case observation of
        None \<Rightarrow> admissible_capacity p
      | Some ob \<Rightarrow> (case dget (capacity_by_resource_id ob) (er_resource_id p) of
          None \<Rightarrow> 0 | Some c \<Rightarrow> oc_admission_capacity c))"

lemma pool_envelope_eq:
  "pool_envelope observation r rem = Inr rem' \<Longrightarrow> rem' = dset (er_resource_id r) (envelope observation r) rem"
  by (auto simp: pool_envelope_def envelope_def split: option.splits)

lemma planning_remaining_result:
  assumes "rfold (pool_envelope observation) enabled rem = Inr rem'"
    and "distinct (map er_resource_id enabled)"
  shows "dom (dget rem') = dom (dget rem) \<union> er_resource_id ` set enabled \<and>
    (\<forall>k. k \<notin> er_resource_id ` set enabled \<longrightarrow> dget rem' k = dget rem k) \<and>
    (\<forall>p\<in>set enabled. dget rem' (er_resource_id p) = Some (envelope observation p))"
  using assms
proof (induction enabled arbitrary: rem)
  case (Cons p ps)
  from Cons.prems(1) have "rfold (pool_envelope observation) ps
      (dset (er_resource_id p) (envelope observation p) rem) = Inr rem'"
    by (auto dest: pool_envelope_eq)
  from Cons.IH [OF this] Cons.prems(2) show ?case by auto
qed simp

lemma enabled_pools:
  assumes "wf_scheduler s"
  shows "distinct (map er_resource_id (execution_resources True s))"
    and "p \<in> set (execution_resources True s) \<Longrightarrow> dget (s_resources s) (er_resource_id p) = Some p \<and> wf_resource p"
proof -
  have k: "keyed er_resource_id (s_resources s)" using assms by (simp add: wf_scheduler_def)
  have "distinct (map er_resource_id (filter er_enabled (dvalues (s_resources s))))"
    by (rule distinct_map_filter [OF keyed_distinct [OF k]])
  then show "distinct (map er_resource_id (execution_resources True s))"
    by (simp add: execution_resources_def distinct_map)
  assume "p \<in> set (execution_resources True s)"
  then obtain i where "(i, p) \<in> set (s_resources s)" by (auto simp: execution_resources_def)
  moreover from this have "i = er_resource_id p" "wf_resource p"
    using k assms by (auto simp: keyed_def wf_scheduler_def)
  ultimately show "dget (s_resources s) (er_resource_id p) = Some p \<and> wf_resource p"
    using k by (simp add: keyed_def map_of_is_SomeI)
qed

lemma consume_dom:
  "rfold consume_reservation new rem = Inr rem' \<Longrightarrow> r \<in> set new \<Longrightarrow> rr_resource_id r \<in> dom (dget rem)"
proof (induction new arbitrary: rem)
  case (Cons x new)
  from Cons.prems(1) obtain rem1 where 1: "consume_reservation x rem = Inr rem1"
    "rfold consume_reservation new rem1 = Inr rem'" by auto
  have "dom (dget rem1) = dom (dget rem)" "rr_resource_id x \<in> dom (dget rem)"
    using 1(1) by (auto simp: consume_reservation_def split: option.splits if_splits)
  with Cons.IH [OF 1(2)] Cons.prems(2) show ?case by auto
qed simp

lemma reservations_for_task_simps:
  "r \<in> set (reservations_for_task t s) \<longleftrightarrow>
     r \<in> set (dvalues (s_resource_reservations s)) \<and> rr_task_id r = t"
  "class_units c (reservations_for_task t s) = task_class_units t c (dvalues (s_resource_reservations s))"
proof -
  show "r \<in> set (reservations_for_task t s) \<longleftrightarrow>
     r \<in> set (dvalues (s_resource_reservations s)) \<and> rr_task_id r = t"
    by (simp add: reservations_for_task_def del: set_map)
  show "class_units c (reservations_for_task t s) = task_class_units t c (dvalues (s_resource_reservations s))"
    unfolding class_units_def task_class_units_def reservations_for_task_def
    by (rule sum_list_filter_mset) simp
qed

lemma preserved_on_pools:
  assumes "wf_scheduler s" and "validate_reservations uuid5 s = Inr audit"
    and "consume_preserved_reservations (reservations_for_task t s) rem = Inr rem'"
    and "dom (dget rem) = er_resource_id ` set (execution_resources True s)"
  shows "on_pools (execution_resources True s) (reservations_for_task t s)"
  unfolding on_pools_def
proof
  fix r assume r: "r \<in> set (reservations_for_task t s)"
  then have mem: "r \<in> set (dvalues (s_resource_reservations s))" by (simp only: reservations_for_task_simps)
  have "rr_resource_id r \<in> dom (dget rem)"
    using consume_dom [OF assms(3) [unfolded consume_preserved_reservations_def] r] .
  then obtain p where p: "p \<in> set (execution_resources True s)" "rr_resource_id r = er_resource_id p"
    using assms(4) by auto
  moreover have "rr_resource_class r = er_resource_class p"
    using enabled_pools(2) [OF assms(1) p(1)] p(2) validate_reservations_result(2) [OF assms(2)] mem
    by (auto simp: reservation_fits_def)
  moreover have "1 \<le> rr_units r" using assms(1) mem unfolding wf_scheduler_def by blast
  ultimately show "1 \<le> rr_units r \<and> (\<exists>p\<in>set (execution_resources True s).
      rr_resource_id r = er_resource_id p \<and> rr_resource_class r = er_resource_class p)" by blast
qed

text \<open>The invariant of the preservation loops.\<close>

definition preserve_inv ::
  "(uuid \<Rightarrow> string \<Rightarrow> uuid) \<Rightarrow> scheduler \<Rightarrow> (string \<Rightarrow> int) \<Rightarrow> planning \<Rightarrow> bool" where
  "preserve_inv uuid5 s cap ps \<longleftrightarrow> wf_scheduler s \<and> succeeds (validate_reservations uuid5 s) \<and>
     dom (dget (ps_remaining ps)) = er_resource_id ` set (execution_resources True s) \<and>
     plan_inv s (execution_resources True s) cap ps"

lemma preserve_step:
  assumes "preserve_inv uuid5 s cap ps" and "t \<in> set (s_admitted_task_ids s)"
    and "consume_preserved_reservations (reservations_for_task t s) (ps_remaining ps) = Inr rem"
    and "ps_remaining ps' = rem" and "ps_reservations ps' = ps_reservations ps @ reservations_for_task t s"
    and "ps_admitted ps' = ps_admitted ps @ [t]"
  shows "preserve_inv uuid5 s cap ps'"
proof -
  obtain audit where v: "validate_reservations uuid5 s = Inr audit"
    using assms(1) by (auto simp: preserve_inv_def succeeds_iff)
  note inv1 = assms(1) [unfolded preserve_inv_def]
  have wf: "wf_tasks s" using inv1 plan_inv_wf by blast
  have "class_units c (reservations_for_task t s) = contract_units s t c" for c
    using contract_exact [OF v wf assms(2)] by (auto simp: reservations_for_task_simps(2) contract_units_def)
  moreover have "on_pools (execution_resources True s) (reservations_for_task t s)"
    using preserved_on_pools [OF _ v assms(3)] inv1 by blast
  ultimately have "account s (execution_resources True s) cap rem
      (ps_reservations ps @ reservations_for_task t s) (ps_admitted ps @ [t])"
    using inv1 assms(3) by (intro account_keep) (auto simp: plan_inv_def reservations_for_task_simps(1) simp del: set_map)
  moreover have "ledger cap (ps_remaining ps) (ps_reservations ps)"
    using inv1 by (simp add: plan_inv_def account_def)
  then have "dom (dget rem) = dom (dget (ps_remaining ps))"
    using consume_preserved_ledger [OF _ assms(3)] by blast
  ultimately show ?thesis using inv1 assms(4-6) by (simp add: preserve_inv_def plan_inv_def)
qed

interpretation preserve_loop: result_loop "preserve_assignment s" "preserve_inv uuid5 s cap"
  "\<lambda>i. \<forall>a. dget (s_assignments s) i = Some a \<longrightarrow> da_task_id a \<in> set (s_admitted_task_ids s)"
  for s uuid5 cap
proof
  fix i ps ps'
  assume a: "\<forall>a. dget (s_assignments s) i = Some a \<longrightarrow> da_task_id a \<in> set (s_admitted_task_ids s)"
    "preserve_inv uuid5 s cap ps" "preserve_assignment s i ps = Inr ps'"
  show "preserve_inv uuid5 s cap ps'"
  proof (cases "ps' = ps")
    case False
    with a(3) obtain x where "dget (s_assignments s) i = Some x"
      "keep_assignment x (reservations_for_task (da_task_id x) s) ps = Inr ps'"
      by (auto simp: preserve_assignment_def split: if_splits)
    with a(1,2) show ?thesis by (auto simp: keep_assignment_def intro!: preserve_step [OF a(2)])
  qed (use a(2) in simp)
qed

interpretation upgrade_loop: result_loop "preserve_admitted uuid5 s n" "preserve_inv uuid5 s cap"
  "\<lambda>t. t \<in> set (s_admitted_task_ids s)" for s uuid5 n cap
proof
  fix t ps ps'
  assume a: "t \<in> set (s_admitted_task_ids s)" "preserve_inv uuid5 s cap ps"
    "preserve_admitted uuid5 s n t ps = Inr ps'"
  from a(3) obtain rem x where
    c: "consume_preserved_reservations (reservations_for_task t s) (ps_remaining ps) = Inr rem"
    and ps': "ps' = ps\<lparr>ps_remaining := rem, ps_assignments := ps_assignments ps @ [x],
       ps_reservations := ps_reservations ps @ reservations_for_task t s,
       ps_admitted := ps_admitted ps @ [t]\<rparr>"
    by (auto simp: preserve_admitted_def Let_def)
  show "preserve_inv uuid5 s cap ps'" by (rule preserve_step [OF a(2,1) c]) (simp_all add: ps')
qed

section \<open>Every plan respects the envelope\<close>

definition wf_pending_observation :: "scheduler \<Rightarrow> bool" where
  "wf_pending_observation s =
     (case s_pending_resource_observation s of None \<Rightarrow> True
      | Some ob \<Rightarrow> list_all (\<lambda>c. 0 \<le> oc_admission_capacity c) (ob_capacities ob))"

lemma planning_observation_wf:
  assumes "planning_observation s = Inr observation" and "wf_pending_observation s" and "wf_resource p"
  shows "0 \<le> envelope observation p"
proof (cases observation)
  case None
  then show ?thesis using admissible_capacity_nonneg [OF assms(3)] by (simp add: envelope_def)
next
  case (Some ob)
  then have "s_pending_resource_observation s = Some ob"
    using assms(1) by (auto simp: planning_observation_def split: if_splits option.splits)
  then have "0 \<le> oc_admission_capacity c" if "c \<in> set (ob_capacities ob)" for c
    using assms(2) that by (simp add: wf_pending_observation_def list_all_iff)
  moreover have "c \<in> set (ob_capacities ob)" if "dget (capacity_by_resource_id ob) k = Some c" for k c
    using that by (auto simp: capacity_by_resource_id_def dget_dict_of find_Some_iff)
      (metis length_rev nth_mem set_rev)
  ultimately show ?thesis using Some by (auto simp: envelope_def split: option.split)
qed

lemma start_account:
  assumes "wf_scheduler s" and "wf_tasks s" and "wf_pending_observation s"
    and "planning_observation s = Inr observation"
    and "planning_remaining observation (execution_resources True s) = Inr rem"
  shows "account s (execution_resources True s) (dval rem) rem [] []"
    and "dom (dget rem) = er_resource_id ` set (execution_resources True s)"
    and "p \<in> set (execution_resources True s) \<Longrightarrow> dval rem (er_resource_id p) = envelope observation p"
proof -
  let ?en = "execution_resources True s"
  note res = planning_remaining_result [OF assms(5) [unfolded planning_remaining_def] enabled_pools(1) [OF assms(1)]]
  show d: "dom (dget rem) = er_resource_id ` set ?en" using res by simp
  have val: "dval rem (er_resource_id p) = envelope observation p" if "p \<in> set ?en" for p
    using res that by (simp add: dval_def)
  then show "p \<in> set ?en \<Longrightarrow> dval rem (er_resource_id p) = envelope observation p" .
  have "0 \<le> dval rem k" for k
  proof (cases "k \<in> dom (dget rem)")
    case True
    then obtain p where "p \<in> set ?en" "k = er_resource_id p" using d by auto
    with val planning_observation_wf [OF assms(4,3)] enabled_pools(2) [OF assms(1)] show ?thesis by simp
  qed (auto simp: dval_def split: option.split)
  moreover have "pools_ready ?en rem"
    using enabled_pools [OF assms(1)] res by (auto simp: pools_ready_def wf_resource_def)
  ultimately show "account s ?en (dval rem) rem [] []"
    using assms(2) by (simp add: account_def ledger_def nonneg_def on_pools_def)
qed

lemma epoch_assignment_tasks:
  assumes "validate_snapshot uuid5 intent_json s = Inr ()" and "s_current_epoch s = Some e"
    and "i \<in> set (ep_assignment_ids e)" and "dget (s_assignments s) i = Some a"
  shows "da_task_id a \<in> set (s_admitted_task_ids s)"
proof -
  from assms(1,2) obtain as where "rmap (dlookup (s_assignments s)) (ep_assignment_ids e) = Inr as"
    "map da_task_id as = s_admitted_task_ids s"
    by (auto simp: validate_snapshot_def validate_epoch_def validate_epoch_assignments_def)
  with assms(3,4) show ?thesis
    by (auto simp: rmap_eq_Inr list_all2_conv_all_nth in_set_conv_nth [of i] simp flip: \<open>map da_task_id as = _\<close>)
qed

lemma preserve_committed_inv:
  assumes "wf_scheduler s" and "validate_snapshot uuid5 intent_json s = Inr ()"
    and "account s (execution_resources True s) cap rem [] []"
    and "dom (dget rem) = er_resource_id ` set (execution_resources True s)"
    and "preserve_committed uuid5 s rem = Inr ps"
  shows "plan_inv s (execution_resources True s) cap ps"
proof -
  let ?start = "\<lparr>ps_remaining = rem, ps_assignments = [], ps_reservations = [], ps_admitted = [],
    ps_events = [], ps_carried = [], ps_protected = {}, ps_waiting = {}, ps_released = {}\<rparr>"
  have "succeeds (validate_reservations uuid5 s)" using assms(2) by (auto simp: validate_snapshot_def succeeds_iff)
  then have start: "preserve_inv uuid5 s cap ?start"
    using assms(1,3,4) by (simp add: preserve_inv_def plan_inv_def)
  have "preserve_inv uuid5 s cap ps"
  proof (cases "s_current_epoch s")
    case None
    then show ?thesis using assms(5) upgrade_loop.loop_inv [OF start] by (auto simp: preserve_committed_def Let_def)
  next
    case (Some e)
    then have "rfold (preserve_assignment s) (ep_assignment_ids e) ?start = Inr ps"
      using assms(5) by (simp add: preserve_committed_def Let_def)
    from preserve_loop.loop_inv [OF start this] epoch_assignment_tasks [OF assms(2) Some] show ?thesis by blast
  qed
  then show ?thesis by (simp add: preserve_inv_def)
qed

lemma plan_body_inv:
  assumes "wf_scheduler s" and "wf_tasks s" and "wf_pending_observation s"
    and "validate_snapshot uuid5 intent_json s = Inr ()" and "planning_observation s = Inr observation"
    and "plan_body uuid5 s observation = Inr ps"
  obtains cap where "plan_inv s (execution_resources True s) cap ps"
    and "\<And>p. p \<in> set (execution_resources True s) \<Longrightarrow> cap (er_resource_id p) = envelope observation p"
proof -
  let ?en = "execution_resources True s"
  let ?allow = "case observation of None \<Rightarrow> True | Some ob \<Rightarrow> ob_healthy ob"
  from assms(6) obtain rem ps0 ps1 where rem: "planning_remaining observation ?en = Inr rem"
    and ps0: "preserve_committed uuid5 s rem = Inr ps0"
    and ps1: "rfold (resolve_intent uuid5 s ?allow (resources_by_class ?en)) (pending_preemptions s) ps0 = Inr ps1"
    and ps: "rfold (consider_candidate uuid5 s (resources_by_class ?en) (set (ps_admitted ps0)))
       (if ?allow then planning_candidates s ps1 else []) ps1 = Inr ps"
    unfolding plan_body_def Let_def by auto
  note st = start_account [OF assms(1-3,5) rem]
  have "plan_inv s ?en (dval rem) ps0" by (rule preserve_committed_inv [OF assms(1,4) st(1,2) ps0])
  then have "plan_inv s ?en (dval rem) ps1" by (rule intent_loop.loop_inv [OF _ ps1]) simp
  then have "plan_inv s ?en (dval rem) ps" by (rule candidate_loop.loop_inv [OF _ ps]) simp
  with st(3) that show thesis by blast
qed

lemma build_plan_result:
  assumes "build_plan uuid5 intent_json s observation ps = Inr plan"
  shows "mset (ep_reservations (pl_epoch plan)) = mset (ps_reservations ps)"
    and "pl_admitted_task_ids plan = ps_admitted ps" and "pl_resource_observation plan = observation"
    and "distinct (ps_admitted ps)" and "pl_assignments plan = ps_assignments ps"
    and "pl_preemption_events plan = ps_events ps"
    and "ep_sequence (pl_epoch plan) = s_epoch_sequence s + 1"
    and "ep_scheduler_cycle (pl_epoch plan) = s_cycle s + 1"
    and "map da_task_id (ps_assignments ps) = ps_admitted ps"
    and "ep_assignment_ids (pl_epoch plan) = map da_assignment_id (ps_assignments ps)"
    and "distinct (map da_assignment_id (ps_assignments ps))"
    and "distinct (map rr_reservation_id (ps_reservations ps))"
proof -
  let ?e = "plan_epoch_record s observation ps"
  let ?p = "\<lambda>epoch. \<lparr>pl_epoch = epoch, pl_admitted_task_ids = ps_admitted ps,
        pl_unadmitted_task_ids = planning_unadmitted s (ps_admitted ps), pl_assignments = ps_assignments ps,
        pl_pending_preemptions = sort_key pending_preemption_sort_key (ps_carried ps),
        pl_preemption_events = ps_events ps, pl_resource_observation = observation\<rparr>"
  from assms obtain i epoch where n: "normalize_complete_set (?e\<lparr>ep_epoch_id := i\<rparr>) = Inr epoch"
    and v: "validate_complete_plan intent_json (?p epoch) = Inr plan"
    by (auto simp: build_plan_def Let_def)
  note nr = normalize_complete_set_result [OF n] and vr = validate_complete_plan_result [OF v]
  have "distinct (map rr_reservation_id (sort_key resource_reservation_sort_key (ps_reservations ps)))"
    using nr by (simp add: plan_epoch_record_def)
  moreover have "mset (map rr_reservation_id (sort_key resource_reservation_sort_key (ps_reservations ps))) =
      mset (map rr_reservation_id (ps_reservations ps))" by simp
  ultimately show "distinct (map rr_reservation_id (ps_reservations ps))" by (metis mset_eq_imp_distinct_iff)
  from nr vr show "mset (ep_reservations (pl_epoch plan)) = mset (ps_reservations ps)"
    and "pl_admitted_task_ids plan = ps_admitted ps" and "pl_resource_observation plan = observation"
    and "distinct (ps_admitted ps)" and "pl_assignments plan = ps_assignments ps"
    and "pl_preemption_events plan = ps_events ps"
    and "ep_sequence (pl_epoch plan) = s_epoch_sequence s + 1"
    and "ep_scheduler_cycle (pl_epoch plan) = s_cycle s + 1"
    and "map da_task_id (ps_assignments ps) = ps_admitted ps"
    and "ep_assignment_ids (pl_epoch plan) = map da_assignment_id (ps_assignments ps)"
    and "distinct (map da_assignment_id (ps_assignments ps))"
    by (simp_all add: plan_epoch_record_def)
qed

lemma compute_plan_parts:
  assumes "compute_plan uuid5 intent_json s = Inr plan"
  obtains observation ps where "validate_snapshot uuid5 intent_json s = Inr ()"
    and "planning_observation s = Inr observation" and "plan_body uuid5 s observation = Inr ps"
    and "build_plan uuid5 intent_json s observation ps = Inr plan"
  using assms by (auto simp: compute_plan_def)

lemma plan_scheduling_epoch_cases:
  assumes "plan_scheduling_epoch uuid5 intent_json s = (Inr plan, s')" and "s_pending_epoch_plan s = None"
  shows "compute_plan uuid5 intent_json s = Inr plan" and "s' = s\<lparr>s_pending_epoch_plan := Some plan\<rparr>"
  using assms by (auto simp: plan_scheduling_epoch_def split: sum.splits)

text \<open>C1. Every epoch plan respects the envelope: the units it reserves on an enabled pool are within
  the pool's admissible capacity, or within its observed admission capacity when host safety is
  required; every reservation is positive and on an enabled pool of its class; and every admitted task
  holds exactly the units of each class that its contract requires.\<close>

theorem plan_within_envelope:
  assumes "wf_scheduler s" and "wf_tasks s" and "wf_pending_observation s"
    and "s_pending_epoch_plan s = None"
    and "plan_scheduling_epoch uuid5 intent_json s = (Inr plan, s')"
  shows "(\<forall>p\<in>set (execution_resources True s).
      units_on (er_resource_id p) (ep_reservations (pl_epoch plan))
        \<le> envelope (pl_resource_observation plan) p) \<and>
    on_pools (execution_resources True s) (ep_reservations (pl_epoch plan)) \<and>
    (\<forall>t\<in>set (pl_admitted_task_ids plan). \<forall>c.
      task_class_units t c (ep_reservations (pl_epoch plan)) = contract_units s t c)"
proof -
  from plan_scheduling_epoch_cases(1) [OF assms(5,4)] obtain observation ps where
    v: "validate_snapshot uuid5 intent_json s = Inr ()" "planning_observation s = Inr observation"
      "plan_body uuid5 s observation = Inr ps" "build_plan uuid5 intent_json s observation ps = Inr plan"
    by (rule compute_plan_parts)
  note b = build_plan_result [OF v(4)]
  from assms(1-3) v(1-3) obtain cap where pinv: "plan_inv s (execution_resources True s) cap ps"
    and cap: "\<And>p. p \<in> set (execution_resources True s) \<Longrightarrow> cap (er_resource_id p) = envelope observation p"
    by (rule plan_body_inv) blast
  note ac = pinv [unfolded plan_inv_def account_def]
  have "units_on (er_resource_id p) (ep_reservations (pl_epoch plan)) \<le> envelope (pl_resource_observation plan) p"
    if p: "p \<in> set (execution_resources True s)" for p
  proof -
    have dom: "er_resource_id p \<in> dom (dget (ps_remaining ps))" using ac p by (auto simp: pools_ready_def)
    have "\<forall>k\<in>dom (dget (ps_remaining ps)). dval (ps_remaining ps) k + units_on k (ps_reservations ps) \<le> cap k"
      using ac by (simp add: ledger_def)
    from bspec [OF this dom] have "dval (ps_remaining ps) (er_resource_id p) +
        units_on (er_resource_id p) (ps_reservations ps) \<le> envelope observation p" by (simp add: cap [OF p])
    moreover have "0 \<le> dval (ps_remaining ps) (er_resource_id p)" using ac by (simp add: ledger_def nonneg_def)
    ultimately show ?thesis using units_on_mset [OF b(1)] b(3) by simp
  qed
  moreover have "on_pools (execution_resources True s) (ep_reservations (pl_epoch plan))"
    using ac mset_eq_setD [OF b(1)] by (simp add: on_pools_def)
  moreover have "task_class_units t c (ep_reservations (pl_epoch plan)) = contract_units s t c"
    if "t \<in> set (pl_admitted_task_ids plan)" for t c
  proof -
    have "count_list (ps_admitted ps) t = 1" using that b(2,4) by (simp add: count_list_distinct)
    then show ?thesis using ac task_class_units_mset [OF b(1)] by simp
  qed
  ultimately show ?thesis by blast
qed

text \<open>A background task is committed in the first epoch, then a more urgent task arrives that needs units
  it holds.\<close>

definition sample_work ::
  "uuid \<Rightarrow> int \<Rightarrow> task_criticality \<Rightarrow> interruption_policy \<Rightarrow> int \<Rightarrow> attention_task" where
  "sample_work t seq crit pol n = sample_task t seq (sample_metadata crit SUPPORT pol [cpu_units n])"

definition plan_and_commit :: "scheduler \<Rightarrow> scheduler" where
  "plan_and_commit s =
     (case plan_scheduling_epoch sample_uuid5 (\<lambda>_. []) s of
        (Inr plan, s1) \<Rightarrow> snd (commit_pending_epoch sample_uuid5 (\<lambda>_. []) (ep_epoch_id (pl_epoch plan)) s1)
      | (Inl _, s1) \<Rightarrow> s1)"

definition sample_pools :: scheduler where
  "sample_pools = snd (configure_execution_resource (sample_pool ''cpu'' CPU_GENERAL 5 1) sample_idle)"

definition sample_contended :: scheduler where
  "sample_contended =
     snd (submit sample_uuid5 (sample_work 2000 2 USER_BLOCKING PREEMPTIBLE 3)
       (plan_and_commit
         (snd (submit sample_uuid5 (sample_work 1000 1 OPPORTUNISTIC PREEMPTIBLE 2) sample_pools))))"

text \<open>An executable form of the task-table invariant, for concrete states.\<close>

lemma wf_tasks_check:
  assumes "keyed at_task_id (s_tasks s)" and "list_all wf_task (dvalues (s_tasks s))"
    and "distinct (map at_created_seq (dvalues (s_tasks s)))" and "0 \<le> s_cycle s"
  shows "wf_tasks s"
proof -
  have key: "at_task_id t = k" and val: "t \<in> set (dvalues (s_tasks s))" if "dget (s_tasks s) k = Some t" for k t
    using assms(1) that dget_Some_in [OF that] by (auto simp: keyed_def dest!: map_of_SomeD)
  have "k = k'" if "dget (s_tasks s) k = Some t" "dget (s_tasks s) k' = Some t'"
    "at_created_seq t = at_created_seq t'" for k k' t t'
  proof -
    have "t = t'" using val [OF that(1)] val [OF that(2)] that(3) assms(3)
      by (auto simp only: distinct_map inj_on_def)
    then show ?thesis using key [OF that(1)] key [OF that(2)] by simp
  qed
  moreover have "wf_task t" if "dget (s_tasks s) k = Some t" for k t
    using val [OF that] assms(2) by (simp only: list_all_iff)
  moreover have "distinct (dkeys (s_tasks s))" using assms(1) by (simp only: keyed_def)
  ultimately show ?thesis using key assms(4) unfolding wf_tasks_def by blast
qed

text \<open>\<open>settled\<close> collects what the theorems ask of a concrete state, and \<open>plan_admits\<close> reads the tasks that a
  plan admits, so that a sample state is evaluated only once.\<close>

definition settled :: "scheduler \<Rightarrow> bool" where
  "settled s \<longleftrightarrow> wf_scheduler s \<and> list_all wf_task (dvalues (s_tasks s)) \<and>
     distinct (map at_created_seq (dvalues (s_tasks s))) \<and> 0 \<le> s_cycle s \<and> wf_pending_observation s \<and>
     s_pending_epoch_plan s = None"

definition plan_admits :: "scheduler \<Rightarrow> uuid list option" where
  "plan_admits s =
     (case plan_scheduling_epoch sample_uuid5 (\<lambda>_. []) s of
        (Inr plan, _) \<Rightarrow> Some (pl_admitted_task_ids plan) | (Inl _, _) \<Rightarrow> None)"

lemma settledD:
  assumes "settled s"
  shows "wf_scheduler s" and "wf_tasks s" and "wf_pending_observation s" and "s_pending_epoch_plan s = None"
  using assms wf_tasks_check [of s] by (auto simp: settled_def wf_scheduler_def)

lemma plan_admitsD:
  assumes "plan_admits s = Some ts"
  obtains plan s' where "plan_scheduling_epoch sample_uuid5 (\<lambda>_. []) s = (Inr plan, s')"
    and "pl_admitted_task_ids plan = ts"
  using assms by (auto simp: plan_admits_def split: prod.splits sum.splits)

definition check_contended :: "scheduler \<Rightarrow> bool" where
  "check_contended s \<longleftrightarrow> settled s \<and> plan_admits s = Some [2000] \<and> s_admitted_task_ids s = [1000]"

lemma sample_contended_checked: "check_contended sample_contended"
  by code_simp

theorem plan_within_envelope_witness:
  "\<exists>plan s'. plan_scheduling_epoch sample_uuid5 (\<lambda>_. []) sample_contended = (Inr plan, s') \<and>
     pl_admitted_task_ids plan = [2000] \<and>
     task_class_units 2000 CPU_GENERAL (ep_reservations (pl_epoch plan)) = contract_units sample_contended 2000 CPU_GENERAL"
proof -
  note ok = sample_contended_checked [unfolded check_contended_def]
  obtain plan s' where p: "plan_scheduling_epoch sample_uuid5 (\<lambda>_. []) sample_contended = (Inr plan, s')"
    "pl_admitted_task_ids plan = [2000]"
    by (rule plan_admitsD [of sample_contended "[2000]"]) (use ok in auto)
  from ok have st: "settled sample_contended" by blast
  from plan_within_envelope [OF settledD [OF st] p(1)] p(2)
  have "task_class_units 2000 CPU_GENERAL (ep_reservations (pl_epoch plan)) =
      contract_units sample_contended 2000 CPU_GENERAL" by simp
  with p show ?thesis by blast
qed

end
