(* ===== verification/PlanSafety.thy ===== *)
theory PlanSafety
  imports Planning
begin

text \<open>
  Safety of the preemption decisions of the planner: atomic work keeps its assignment and its
  reservations through every plan.
\<close>

section \<open>Tasks that are not victims are untouched\<close>

definition retains ::
  "uuid \<Rightarrow> durable_assignment \<Rightarrow> resource_reservation set \<Rightarrow> planning \<Rightarrow> bool" where
  "retains t a R ps \<longleftrightarrow> t \<in> set (ps_admitted ps) \<and> a \<in> set (ps_assignments ps) \<and> da_task_id a = t \<and>
     (\<forall>r\<in>R. r \<in> set (ps_reservations ps) \<and> rr_task_id r = t)"

lemma retains_simps [simp]:
  "retains t a R (add_event v ps) = retains t a R ps"
  "retains t a R (carry_intent i ps) = retains t a R ps"
  "retains t a R (await_target u ps) = retains t a R ps"
  "retains t a R (ps\<lparr>ps_remaining := rem\<rparr>) = retains t a R ps"
  by (simp_all add: retains_def add_event_def carry_intent_def await_target_def)

lemma retains_hold: "hold_for task by_class ps = Inr ps' \<Longrightarrow> retains t a R ps \<Longrightarrow> retains t a R ps'"
  by (auto simp: hold_for_def)

lemma retains_admit:
  "admit_with_allocation uuid5 s u al ps = Inr ps' \<Longrightarrow> retains t a R ps \<Longrightarrow> retains t a R ps'"
  by (auto simp: admit_with_allocation_def retains_def Let_def)

lemma retains_release:
  "release_selected V ps = Inr ps' \<Longrightarrow> t \<notin> V \<Longrightarrow> retains t a R ps \<Longrightarrow> retains t a R ps'"
  by (auto simp: release_selected_def retains_def)

lemma retains_execute_intent:
  assumes "execute_intent uuid5 s by_class target i ps = Inr ps'" and "t \<notin> set (pp_victim_task_ids i)"
    and "retains t a R ps"
  shows "retains t a R ps'"
proof -
  consider v where "ps' = add_event v ps" | rem ps1 ps2 al v where
      "release_selected (set (pp_victim_task_ids i)) ps = Inr ps1"
      "admit_with_allocation uuid5 s (pp_target_task_id i) al (ps1\<lparr>ps_remaining := rem\<rparr>) = Inr ps2"
      "ps' = await_target (pp_target_task_id i) (add_event v ps2)"
    using assms(1) by (auto simp: execute_intent_def Let_def split: option.splits)
  then show ?thesis
  proof cases
    case 2
    then show ?thesis using retains_admit [OF 2(2)] retains_release [OF 2(1) assms(2,3)] by simp
  qed (use assms(3) in simp)
qed

lemma retains_resolve_intent:
  assumes "resolve_intent uuid5 s allow by_class i ps = Inr ps'" and "t \<notin> set (pp_victim_task_ids i)"
    and "retains t a R ps"
  shows "retains t a R ps'"
proof (cases allow)
  case False
  with assms show ?thesis by (auto simp: resolve_intent_def)
next
  case True
  with assms(1) obtain target result where target: "dlookup (s_tasks s) (pp_target_task_id i) = Inr target"
    and alloc: "allocate_task_resources uuid5 target (ps_remaining ps) by_class = Inr result"
    by (auto simp: resolve_intent_def)
  show ?thesis
  proof (cases result)
    case (Some al)
    with assms(1) True target alloc obtain ps1 v where
      "admit_with_allocation uuid5 s (pp_target_task_id i) al ps = Inr ps1"
      "ps' = await_target (pp_target_task_id i) (add_event v ps1)" by (auto simp: resolve_intent_def)
    then show ?thesis using retains_admit assms(3) by simp
  next
    case None
    with assms(1) True target alloc have "hold_for target by_class (carry_intent i ps) = Inr ps' \<or>
        execute_intent uuid5 s by_class target i ps = Inr ps'"
      by (auto simp: resolve_intent_def split: if_splits)
    then show ?thesis using retains_hold [of target by_class "carry_intent i ps"] assms(3)
        retains_execute_intent [OF _ assms(2,3)] by auto
  qed
qed

text \<open>Selected victims are never atomic, and they were admitted before the pass.\<close>

lemma victim_candidate_policy:
  assumes "victim_candidate s V ps task d ia = Inr (Some c)"
  shows "\<exists>victim. dget (s_tasks s) (pc_task_id c) = Some victim \<and>
      sm_interruption_policy (at_metadata victim) \<noteq> ATOMIC \<and>
      strictly_outprioritizes s (Some (s_cycle s + 1)) task victim \<and>
      pc_task_id c \<in> V \<and> pc_task_id c \<notin> ps_protected ps"
  using assms by (auto simp: victim_candidate_def Let_def split: if_splits)

lemma rmap_in: "rmap f xs = Inr ys \<Longrightarrow> y \<in> set ys \<Longrightarrow> \<exists>x\<in>set xs. f x = Inr y"
  by (induction xs arbitrary: ys) auto

lemma victim_candidates_policy:
  assumes "victim_candidates s V ps task d = Inr cs" and "c \<in> set cs"
  shows "\<exists>victim. dget (s_tasks s) (pc_task_id c) = Some victim \<and>
      sm_interruption_policy (at_metadata victim) \<noteq> ATOMIC \<and>
      strictly_outprioritizes s (Some (s_cycle s + 1)) task victim \<and>
      pc_task_id c \<in> V \<and> pc_task_id c \<notin> ps_protected ps"
proof -
  from assms obtain xs where xs: "rmap (victim_candidate s V ps task d) (enumerate 0 (ps_assignments ps)) = Inr xs"
    "cs = List.map_filter id xs" by (auto simp: victim_candidates_def)
  with assms(2) have "Some c \<in> set xs" by (auto simp: map_filter_def)
  with xs(1) obtain ia where "victim_candidate s V ps task d ia = Inr (Some c)"
    by (blast dest: rmap_in)
  then show ?thesis by (rule victim_candidate_policy)
qed

definition atomic :: "scheduler \<Rightarrow> uuid \<Rightarrow> bool" where
  "atomic s t \<longleftrightarrow> (\<exists>task. dget (s_tasks s) t = Some task \<and> sm_interruption_policy (at_metadata task) = ATOMIC)"

lemma deficits_distinct:
  assumes "plan_inv s enabled cap ps" and "dget (s_tasks s) t = Some task"
    and "resource_class_deficits task (ps_remaining ps) (resources_by_class enabled) = Inr d"
  shows "distinct (dkeys d)"
proof -
  have wf: "wf_metadata (at_metadata task)"
    using wf_tasksD(2) [OF plan_inv_wf [OF assms(1)] assms(2)] by (simp add: wf_task_def)
  have "distinct (map rq_resource_class (quantitative_resource_requirements (at_metadata task)))"
    using quantitative_classes [OF wf] wf by (simp add: wf_metadata_def)
  moreover have "pools_ready enabled (ps_remaining ps)" using assms(1) by (simp add: plan_inv_def account_def)
  ultimately show ?thesis using assms(3) resource_class_deficits_eq [OF _ wf]
    by (auto simp: o_def distinct_map_filter)
qed

lemma contend_cases:
  assumes "plan_inv s enabled cap ps" and "dget (s_tasks s) t = Some task"
    and "contend uuid5 s (resources_by_class enabled) V task ps = Inr ps'"
  obtains "ps' = ps"
    | selected pid where "\<And>c. c \<in> set selected \<Longrightarrow> \<not> atomic s (pc_task_id c)"
      and "request_checkpoint uuid5 s (resources_by_class enabled) task selected pid ps = Inr ps' \<or>
           execute_preemption uuid5 s (resources_by_class enabled) task selected pid ps = Inr ps'"
proof -
  from assms(3) obtain d cs result where
    d: "resource_class_deficits task (ps_remaining ps) (resources_by_class enabled) = Inr d"
    and cs: "victim_candidates s V ps task d = Inr cs"
    and sel: "select_minimum_victims d cs = Inr result"
    and rest: "(case result of None \<Rightarrow> Inr ps | Some selected \<Rightarrow>
         rbind (deterministic_preemption_id uuid5 (at_task_id task) (at_revision task)
            (map pc_assignment_id selected) (s_epoch_sequence s + 1)) (\<lambda>preemption_id.
         if filter pc_checkpoint_required selected \<noteq> []
         then request_checkpoint uuid5 s (resources_by_class enabled) task selected preemption_id ps
         else execute_preemption uuid5 s (resources_by_class enabled) task selected preemption_id ps)) = Inr ps'"
    unfolding contend_def by auto
  show thesis
  proof (cases result)
    case None
    with rest that(1) show thesis by simp
  next
    case (Some selected)
    have "set selected \<subseteq> set cs"
      using select_minimum_victims_sound(2) [OF sel [unfolded Some] deficits_distinct [OF assms(1,2) d]] .
    then have "\<not> atomic s (pc_task_id c)" if "c \<in> set selected" for c
      using victim_candidates_policy [OF cs, of c] that by (auto simp: atomic_def)
    with rest Some that(2) show thesis by (auto split: if_splits)
  qed
qed

lemma retains_consider:
  assumes "plan_inv s enabled cap ps" and "atomic s t" and "retains t a R ps"
    and "consider_candidate uuid5 s (resources_by_class enabled) V u ps = Inr ps'"
  shows "retains t a R ps'"
proof -
  from assms(4) obtain task result where task: "dget (s_tasks s) u = Some task"
    and alloc: "allocate_task_resources uuid5 task (ps_remaining ps) (resources_by_class enabled) = Inr result"
    by (auto simp: consider_candidate_def)
  show ?thesis
  proof (cases result)
    case (Some al)
    with assms(4) task alloc have "admit_with_allocation uuid5 s u al ps = Inr ps'"
      by (auto simp: consider_candidate_def)
    with assms(3) show ?thesis by (rule retains_admit [rotated])
  next
    case None
    with assms(4) task alloc have "contend uuid5 s (resources_by_class enabled) V task ps = Inr ps'"
      by (auto simp: consider_candidate_def)
    from assms(1) task this show ?thesis
    proof (cases rule: contend_cases)
      case 1
      with assms(3) show ?thesis by simp
    next
      case (2 selected pid)
      have t: "t \<notin> set (map pc_task_id selected)" using 2(1) assms(2) by auto
      from 2(2) show ?thesis
      proof
        assume "request_checkpoint uuid5 s (resources_by_class enabled) task selected pid ps = Inr ps'"
        then obtain i v where "hold_for task (resources_by_class enabled) (add_event v (carry_intent i ps)) = Inr ps'"
          by (auto simp: request_checkpoint_def)
        from retains_hold [OF this] assms(3) show ?thesis by simp
      next
        assume "execute_preemption uuid5 s (resources_by_class enabled) task selected pid ps = Inr ps'"
        then obtain ps1 al ps2 v where "release_selected (set (map pc_task_id selected)) ps = Inr ps1"
          "admit_with_allocation uuid5 s (at_task_id task) al ps1 = Inr ps2" "ps' = add_event v ps2"
          unfolding execute_preemption_def by (auto split: option.splits simp del: set_map)
        with retains_release [OF _ t assms(3)] retains_admit show ?thesis by fastforce
      qed
    qed
  qed
qed

interpretation retain_intents: result_loop "resolve_intent uuid5 s allow by_class" "retains t a R"
  "\<lambda>i. t \<notin> set (pp_victim_task_ids i)" for uuid5 s allow by_class t a R
  by unfold_locales (rule retains_resolve_intent)

interpretation retain_candidates: result_loop "consider_candidate uuid5 s (resources_by_class enabled) V"
  "\<lambda>ps. plan_inv s enabled cap ps \<and> atomic s t \<and> retains t a R ps" "\<lambda>_. True"
  for uuid5 s enabled V cap t a R
  by unfold_locales (blast intro: retains_consider consider_candidate_inv)

section \<open>Committed assignments enter the plan\<close>

lemma keep_assignment_retains:
  assumes "keep_assignment x rs ps = Inr ps'"
  shows "retains t a R ps \<Longrightarrow> retains t a R ps'"
    and "(\<And>r. r \<in> set rs \<Longrightarrow> rr_task_id r = da_task_id x) \<Longrightarrow> retains (da_task_id x) x (set rs) ps'"
  using assms by (auto simp: keep_assignment_def retains_def)

lemma preserve_assignment_keeps:
  "preserve_assignment s i ps = Inr ps' \<Longrightarrow> retains t a R ps \<Longrightarrow> retains t a R ps'"
  by (auto simp: preserve_assignment_def split: if_splits dest: keep_assignment_retains(1))

interpretation retain_committed: result_loop "preserve_assignment s" "retains t a R" "\<lambda>_. True" for s t a R
  by unfold_locales (rule preserve_assignment_keeps)

lemma preserved_retains:
  assumes "rfold (preserve_assignment s) ids ps = Inr ps'" and "i \<in> set ids"
    and "dget (s_assignments s) i = Some a" and "dget (s_tasks s) (da_task_id a) = Some task"
    and "at_status task \<notin> {COMPLETED, FAILED}"
  shows "retains (da_task_id a) a (set (reservations_for_task (da_task_id a) s)) ps'"
proof -
  from assms(2) obtain xs ys where ids: "ids = xs @ i # ys" by (auto simp: in_set_conv_decomp)
  with assms(1) obtain ps1 ps2 where "preserve_assignment s i ps1 = Inr ps2"
    and tail: "rfold (preserve_assignment s) ys ps2 = Inr ps'" by (auto simp: rfold_append)
  then have "keep_assignment a (reservations_for_task (da_task_id a) s) ps1 = Inr ps2"
    using assms(3-5) by (auto simp: preserve_assignment_def dlookup_Some)
  then have "retains (da_task_id a) a (set (reservations_for_task (da_task_id a) s)) ps2"
    by (rule keep_assignment_retains(2)) (simp add: reservations_for_task_simps(1) del: set_map)
  with retain_committed.loop_inv [OF _ tail] show ?thesis by blast
qed

section \<open>Recorded intents have no atomic victims\<close>

lemma validate_victims_atomic:
  "rfold (validate_victim s d) zs acc = Inr out \<Longrightarrow> z \<in> set zs \<Longrightarrow> \<not> atomic s (fst z)"
proof (induction zs arbitrary: acc)
  case (Cons x zs)
  from Cons.prems(1) obtain acc' where 1: "validate_victim s d x acc = Inr acc'"
    "rfold (validate_victim s d) zs acc' = Inr out" by auto
  have "\<not> atomic s (fst x)" using 1(1) by (auto simp: validate_victim_def atomic_def split: option.splits)
  with Cons.IH [OF 1(2)] Cons.prems(2) show ?case by auto
qed simp

lemma validate_pending_atomic:
  assumes "validate_pending uuid5 s d p acc = Inr out" and "v \<in> set (pp_victim_task_ids p)"
  shows "\<not> atomic s v"
proof -
  from assms(1) obtain cv where
    "rfold (validate_victim s d) (zip (pp_victim_task_ids p) (pp_victim_assignment_ids p)) [] = Inr cv"
    and len: "length (pp_victim_task_ids p) = length (pp_victim_assignment_ids p)"
    by (auto simp: validate_pending_def Let_def split: option.splits)
  moreover have "v \<in> set (map fst (zip (pp_victim_task_ids p) (pp_victim_assignment_ids p)))"
    by (subst map_fst_zip) (use assms(2) len in auto)
  then obtain z where "z \<in> set (zip (pp_victim_task_ids p) (pp_victim_assignment_ids p))" "v = fst z"
    unfolding set_map by blast
  ultimately show ?thesis using validate_victims_atomic by blast
qed

lemma rfold_step_in:
  "rfold f xs s = Inr s' \<Longrightarrow> x \<in> set xs \<Longrightarrow> \<exists>s1 s2. f x s1 = Inr s2"
  by (induction xs arbitrary: s) auto

lemma pending_victims_not_atomic:
  assumes "validate_snapshot uuid5 intent_json s = Inr ()" and "p \<in> set (pending_preemptions s)"
    and "v \<in> set (pp_victim_task_ids p)"
  shows "\<not> atomic s v"
proof (cases "s_current_epoch s")
  case None
  with assms(1) have "s_pending_preemptions s = []"
    by (auto simp: validate_snapshot_def validate_no_epoch_def)
  with assms(2) show ?thesis by (simp add: pending_preemptions_def)
next
  case (Some e)
  with assms(1) obtain as out where
    "rfold (validate_pending uuid5 s (dict_of da_task_id as)) (pending_preemptions s) ({}, {}) = Inr out"
    by (auto simp: validate_snapshot_def validate_epoch_def)
  from rfold_step_in [OF this assms(2)] validate_pending_atomic assms(3) show ?thesis by blast
qed

section \<open>Atomic work\<close>

text \<open>C3. Atomic work is never preempted by an epoch: an assignment of the committed epoch whose task is
  atomic and not finished is part of every plan, unchanged and with all its reservations, no matter
  which intents are pending and which tasks compete.\<close>

theorem atomic_work_survives:
  assumes "wf_scheduler s" and "wf_tasks s" and "wf_pending_observation s"
    and "s_pending_epoch_plan s = None"
    and "plan_scheduling_epoch uuid5 intent_json s = (Inr plan, s')"
    and "worker_visible_assignments s = Inr visible" and "a \<in> set visible"
    and "dget (s_tasks s) (da_task_id a) = Some task" and "at_status task \<notin> {COMPLETED, FAILED}"
    and "sm_interruption_policy (at_metadata task) = ATOMIC"
  shows "a \<in> set (pl_assignments plan) \<and> da_task_id a \<in> set (pl_admitted_task_ids plan) \<and>
    set (reservations_for_task (da_task_id a) s) \<subseteq> set (ep_reservations (pl_epoch plan))"
proof -
  let ?en = "execution_resources True s" and ?t = "da_task_id a"
  let ?R = "set (reservations_for_task ?t s)"
  from plan_scheduling_epoch_cases(1) [OF assms(5,4)] obtain observation ps where
    v: "validate_snapshot uuid5 intent_json s = Inr ()" "planning_observation s = Inr observation"
      "plan_body uuid5 s observation = Inr ps" "build_plan uuid5 intent_json s observation ps = Inr plan"
    by (rule compute_plan_parts)
  let ?allow = "case observation of None \<Rightarrow> True | Some ob \<Rightarrow> ob_healthy ob"
  from v(3) obtain rem ps0 ps1 where rem: "planning_remaining observation ?en = Inr rem"
    and ps0: "preserve_committed uuid5 s rem = Inr ps0"
    and ps1: "rfold (resolve_intent uuid5 s ?allow (resources_by_class ?en)) (pending_preemptions s) ps0 = Inr ps1"
    and ps: "rfold (consider_candidate uuid5 s (resources_by_class ?en) (set (ps_admitted ps0)))
       (if ?allow then planning_candidates s ps1 else []) ps1 = Inr ps"
    unfolding plan_body_def Let_def by auto
  from assms(6,7) obtain e where e: "s_current_epoch s = Some e"
    "rmap (dlookup (s_assignments s)) (ep_assignment_ids e) = Inr visible"
    by (auto simp: worker_visible_assignments_def split: option.splits if_splits)
  from rmap_in [OF e(2) assms(7)] obtain i where i: "i \<in> set (ep_assignment_ids e)"
    "dget (s_assignments s) i = Some a" by auto
  have atom: "atomic s ?t" using assms(8,10) by (simp add: atomic_def)
  have "retains ?t a ?R ps0"
    using ps0 e(1) preserved_retains [OF _ i assms(8,9)] by (auto simp: preserve_committed_def Let_def)
  then have r1: "retains ?t a ?R ps1"
    by (rule retain_intents.loop_inv [OF _ ps1]) (use pending_victims_not_atomic [OF v(1)] atom in blast)
  note st = start_account [OF assms(1-3) v(2) rem]
  have "plan_inv s ?en (dval rem) ps0" by (rule preserve_committed_inv [OF assms(1) v(1) st(1,2) ps0])
  then have "plan_inv s ?en (dval rem) ps1" by (rule intent_loop.loop_inv [OF _ ps1]) simp
  then have "retains ?t a ?R ps"
    using retain_candidates.loop_inv [OF _ ps, of "dval rem" ?t a ?R] atom r1 by blast
  then show ?thesis using build_plan_result [OF v(4)] mset_eq_setD [OF build_plan_result(1) [OF v(4)]]
    by (auto simp: retains_def)
qed

definition sample_atomic :: scheduler where
  "sample_atomic =
     snd (submit sample_uuid5 (sample_work 2000 2 USER_BLOCKING PREEMPTIBLE 3)
       (plan_and_commit
         (snd (submit sample_uuid5 (sample_work 1000 1 OPPORTUNISTIC ATOMIC 2) sample_pools))))"

definition check_atomic :: "scheduler \<Rightarrow> bool" where
  "check_atomic s \<longleftrightarrow> settled s \<and> plan_admits s \<noteq> None \<and>
     (case worker_visible_assignments s of Inl _ \<Rightarrow> False | Inr xs \<Rightarrow> map da_task_id xs = [1000]) \<and>
     map_option at_status (dget (s_tasks s) 1000) = Some QUEUED \<and>
     map_option (\<lambda>t. sm_interruption_policy (at_metadata t)) (dget (s_tasks s) 1000) = Some ATOMIC"

lemma sample_atomic_checked: "check_atomic sample_atomic"
  by code_simp

theorem atomic_work_survives_witness:
  "\<exists>plan s'. plan_scheduling_epoch sample_uuid5 (\<lambda>_. []) sample_atomic = (Inr plan, s') \<and>
     1000 \<in> set (pl_admitted_task_ids plan)"
proof -
  note ok = sample_atomic_checked [unfolded check_atomic_def]
  from ok obtain ts where "plan_admits sample_atomic = Some ts" by auto
  then obtain plan s' where p: "plan_scheduling_epoch sample_uuid5 (\<lambda>_. []) sample_atomic = (Inr plan, s')"
    by (rule plan_admitsD)
  from ok obtain visible where vis: "worker_visible_assignments sample_atomic = Inr visible"
    "map da_task_id visible = [1000]" by (auto split: sum.splits)
  then obtain a where a: "a \<in> set visible" "da_task_id a = 1000" by auto
  from ok obtain task where task: "dget (s_tasks sample_atomic) 1000 = Some task" "at_status task = QUEUED"
    "sm_interruption_policy (at_metadata task) = ATOMIC" by auto
  from ok have st: "settled sample_atomic" by blast
  have "1000 \<in> set (pl_admitted_task_ids plan)"
    using atomic_work_survives [OF settledD [OF st] p vis(1) a(1), of task] a(2) task by simp
  with p show ?thesis by blast
qed

end
