(* ===== verification/Admission.thy ===== *)
theory Admission
  imports PlanSafety
begin

text \<open>
  The host-safe gateway into epoch planning (\<^verbatim>\<open>LocalResourceAdmissionController\<close> of
  \<^verbatim>\<open>attention_observation.py\<close>): it enables host safety on a scheduler, and before every plan it
  estimates unestimated tasks, probes the host, configures the discovered pools, builds an observation
  and attaches it. The probe and the clock are arguments: a probe either returns a sample or raises,
  in which case its argument is the text of the error.
\<close>

section \<open>The controller\<close>

record admission_controller =
  lc_policy :: resource_safety_policy
  lc_host_id :: string

type_synonym probe_result = "string + host_resource_metrics"

definition init_controller :: "admission_controller \<Rightarrow> unit sched_op" where
  "init_controller lc = enable_resource_safety (sp_policy_version (lc_policy lc))"

definition probe_sample :: "probe_result \<Rightarrow> host_resource_metrics option \<times> string list" where
  "probe_sample probe = (case probe of Inl msg \<Rightarrow> (None, [msg]) | Inr m \<Rightarrow> (Some m, []))"

definition keep_existing :: "scheduler \<Rightarrow> execution_resource \<Rightarrow> execution_resource" where
  "keep_existing s r =
     (if er_resource_id r \<in> {HOST_CPU_RESOURCE_ID, HOST_MEMORY_RESOURCE_ID}
      then case dget (dict_of er_resource_id (execution_resources False s)) (er_resource_id r) of
             Some existing \<Rightarrow> existing | None \<Rightarrow> r
      else r)"

definition configure_discovered :: "execution_resource \<Rightarrow> unit sched_op" where
  "configure_discovered r s =
     (case configure_execution_resource r s of
        (Inr _, s') \<Rightarrow> (Inr (), s')
      | (Inl e, s') \<Rightarrow>
          (case e of
             ValueError _ \<Rightarrow>
               if dget (s_resources s') (er_resource_id r) = None then (Inl e, s') else (Inr (), s')
           | _ \<Rightarrow> (Inl e, s')))"

definition refresh ::
  "(uuid \<Rightarrow> string \<Rightarrow> uuid) \<Rightarrow> (resource_observation \<Rightarrow> string) \<Rightarrow> admission_controller \<Rightarrow> datetime \<Rightarrow>
     probe_result \<Rightarrow> resource_observation sched_op" where
  "refresh uuid5 dump lc now probe =
     sbind (slift (obs_as_utc now)) (\<lambda>captured_at.
     sbind (assess_unestimated_processes (lc_policy lc)) (\<lambda>_.
     sbind (slift (discover_local_execution_resources (fst (probe_sample probe)) (lc_policy lc)))
       (\<lambda>discovered s.
     sbind (sfold configure_discovered
         (if fst (probe_sample probe) = None then map (keep_existing s) discovered else discovered)) (\<lambda>_ s.
     sbind (slift (build_resource_observation uuid5 dump (s_cycle s + 1) captured_at
         (execution_resources False s) (resource_reservations s) (lc_policy lc)
         (fst (probe_sample probe)) (snd (probe_sample probe)) (lc_host_id lc))) (\<lambda>observation.
     sbind (attach_resource_observation observation captured_at) (\<lambda>_ s.
     (Inr observation, s))) s) s)))"

definition controller_plan ::
  "(uuid \<Rightarrow> string \<Rightarrow> uuid) \<Rightarrow> (resource_observation \<Rightarrow> string) \<Rightarrow> (pending_preemption \<Rightarrow> string) \<Rightarrow>
     admission_controller \<Rightarrow> datetime \<Rightarrow> probe_result \<Rightarrow> scheduling_epoch_plan sched_op" where
  "controller_plan uuid5 dump intent_json lc now probe =
     sbind (refresh uuid5 dump lc now probe) (\<lambda>_. plan_scheduling_epoch uuid5 intent_json)"

section \<open>What a refresh leaves behind\<close>

lemma assess_tasks_keeps:
  "assess_tasks policy ts acc s = (r, s') \<Longrightarrow>
     s_admitted_task_ids s' = s_admitted_task_ids s \<and> s_current_epoch s' = s_current_epoch s \<and>
     s_resources s' = s_resources s \<and> s_resource_reservations s' = s_resource_reservations s \<and>
     s_assignments s' = s_assignments s \<and> s_pending_preemptions s' = s_pending_preemptions s \<and>
     s_cycle s' = s_cycle s \<and>
     s_resource_safety_policy_version s' = s_resource_safety_policy_version s"
proof (induction ts arbitrary: acc s)
  case (Cons t ts)
  from Cons.prems consider "assess_tasks policy ts acc s = (r, s')" | "s' = s"
    | md where "assess_tasks policy ts (acc @ [at_task_id t]) (s\<lparr>s_tasks := dset (at_task_id t)
             (t\<lparr>at_metadata := md, at_revision := at_revision t + 1\<rparr>) (s_tasks s)\<rparr>) = (r, s')"
    by (auto simp: sbind_def split: if_splits sum.splits)
  then show ?case
  proof cases
    case 3
    from Cons.IH [OF 3] show ?thesis by simp
  qed (use Cons.IH in auto)
qed simp

definition admitted_within :: "uuid set \<Rightarrow> scheduler \<Rightarrow> bool" where
  "admitted_within A s \<longleftrightarrow> set (s_admitted_task_ids s) \<subseteq> A"

lemma invalidate_admitted: "admitted_within A s \<Longrightarrow> admitted_within A (invalidate_scheduling_plan s)"
  by (simp add: admitted_within_def invalidate_scheduling_plan_def Let_def)

lemma assess_admitted:
  assumes "admitted_within A s"
  shows "admitted_within A (snd (assess_unestimated_processes policy s))"
proof -
  obtain r s1 where as: "assess_tasks policy (sort_key task_creation_key (dvalues (s_tasks s))) [] s = (r, s1)"
    by fastforce
  have "admitted_within A s1" using assess_tasks_keeps [OF as] assms by (simp add: admitted_within_def)
  then show ?thesis using as assms invalidate_admitted [of A s1]
    by (auto simp: assess_unestimated_processes_def sbind_def split: sum.split)
qed

lemma configure_admitted:
  "admitted_within A s \<Longrightarrow> admitted_within A (snd (configure_execution_resource r s))"
  using invalidate_admitted [of A s] by (auto simp: configure_execution_resource_def admitted_within_def Let_def)

lemma configure_discovered_snd:
  "snd (configure_discovered r s) = snd (configure_execution_resource r s)"
  by (auto simp: configure_discovered_def split: prod.split sum.split py_error.split)

lemma sfold_keeps:
  assumes "\<And>x s. x \<in> set xs \<Longrightarrow> P s \<Longrightarrow> P (snd (f x s))" and "P s"
  shows "P (snd (sfold f xs s))"
  using assms
proof (induction xs arbitrary: s)
  case (Cons x xs)
  have "P (snd (f x s))" using Cons.prems by simp
  with Cons.IH [of "snd (f x s)"] Cons.prems(1) show ?case
    by (auto simp: sbind_def split: prod.split sum.split)
qed simp

lemma attach_result:
  assumes "attach_resource_observation ob now s = (Inr u, s')"
  shows "s_pending_resource_observation s' = Some ob" and "s_pending_epoch_plan s' = None"
    and "s_resource_safety_required s'" and "admitted_within A s \<Longrightarrow> admitted_within A s'"
    and "s' = (invalidate_scheduling_plan s)\<lparr>s_pending_resource_observation := Some ob\<rparr>"
  using assms invalidate_admitted [of A s]
  by (auto simp: attach_resource_observation_def Let_def admitted_within_def split: sum.splits)

lemma build_observation_health:
  assumes "build_resource_observation uuid5 dump n t rs res policy metrics errors host = Inr ob"
  shows "ob_healthy ob \<longleftrightarrow> metrics \<noteq> None \<and> filter (\<lambda>e. e \<noteq> []) (map py_strip errors) = []"
  using assms by (auto simp: build_resource_observation_def validate_observation_def Let_def)

text \<open>A refresh, step by step.\<close>

lemma refresh_parts:
  assumes "refresh uuid5 dump lc now probe s = (Inr ob, s')"
  obtains captured assessed s1 discovered s2 where
    "assess_unestimated_processes (lc_policy lc) s = (Inr assessed, s1)"
    and "discover_local_execution_resources (fst (probe_sample probe)) (lc_policy lc) = Inr discovered"
    and "sfold configure_discovered (if fst (probe_sample probe) = None
           then map (keep_existing s1) discovered else discovered) s1 = (Inr (), s2)"
    and "build_resource_observation uuid5 dump (s_cycle s2 + 1) captured (execution_resources False s2)
           (resource_reservations s2) (lc_policy lc) (fst (probe_sample probe)) (snd (probe_sample probe))
           (lc_host_id lc) = Inr ob"
    and "attach_resource_observation ob captured s2 = (Inr (), s')"
  using assms unfolding refresh_def by (auto simp: sbind_eq_Inr)

lemma refresh_admitted:
  assumes "refresh uuid5 dump lc now probe s = (Inr ob, s')" and "admitted_within A s"
  shows "admitted_within A s'"
proof -
  from assms(1) obtain captured assessed s1 discovered s2 where
    1: "assess_unestimated_processes (lc_policy lc) s = (Inr assessed, s1)"
    and 2: "sfold configure_discovered (if fst (probe_sample probe) = None
           then map (keep_existing s1) discovered else discovered) s1 = (Inr (), s2)"
    and 3: "attach_resource_observation ob captured s2 = (Inr (), s')"
    by (rule refresh_parts)
  have "admitted_within A s1" using assess_admitted [OF assms(2), of "lc_policy lc"] 1 by simp
  then have "admitted_within A (snd (sfold configure_discovered (if fst (probe_sample probe) = None
           then map (keep_existing s1) discovered else discovered) s1))"
    by (rule sfold_keeps [rotated]) (simp add: configure_discovered_snd configure_admitted)
  then show ?thesis using attach_result(4) [OF 3] 2 by simp
qed

section \<open>A failed probe admits nothing\<close>

definition quiet :: "uuid set \<Rightarrow> planning \<Rightarrow> bool" where
  "quiet A ps \<longleftrightarrow> set (ps_admitted ps) \<subseteq> A \<and> ps_events ps = []"

interpretation quiet_preserve: result_loop "preserve_assignment s" "quiet A"
  "\<lambda>i. \<forall>a. dget (s_assignments s) i = Some a \<longrightarrow> da_task_id a \<in> A" for s A
  by unfold_locales
    (auto simp: preserve_assignment_def keep_assignment_def quiet_def split: if_splits)

interpretation quiet_upgrade: result_loop "preserve_admitted uuid5 s n" "quiet A" "\<lambda>t. t \<in> A" for uuid5 s n A
  by unfold_locales (auto simp: preserve_admitted_def quiet_def Let_def)

interpretation quiet_intents: result_loop "resolve_intent uuid5 s False by_class" "quiet A" "\<lambda>_. True"
  for uuid5 s by_class A
  by unfold_locales (auto simp: resolve_intent_def carry_intent_def quiet_def)

lemma preserve_quiet:
  assumes "validate_snapshot uuid5 intent_json s = Inr ()" and "preserve_committed uuid5 s rem = Inr ps"
    and "set (s_admitted_task_ids s) \<subseteq> A"
  shows "quiet A ps"
proof -
  let ?start = "\<lparr>ps_remaining = rem, ps_assignments = [], ps_reservations = [], ps_admitted = [],
    ps_events = [], ps_carried = [], ps_protected = {}, ps_waiting = {}, ps_released = {}\<rparr>"
  have start: "quiet A ?start" by (simp add: quiet_def)
  show ?thesis
  proof (cases "s_current_epoch s")
    case None
    then have "rfold (preserve_admitted uuid5 s (s_epoch_sequence s + 1)) (s_admitted_task_ids s) ?start = Inr ps"
      using assms(2) by (simp add: preserve_committed_def Let_def)
    from quiet_upgrade.loop_inv [OF start this] assms(3) show ?thesis by blast
  next
    case (Some e)
    then have "rfold (preserve_assignment s) (ep_assignment_ids e) ?start = Inr ps"
      using assms(2) by (simp add: preserve_committed_def Let_def)
    from quiet_preserve.loop_inv [OF start this] epoch_assignment_tasks [OF assms(1) Some] assms(3)
    show ?thesis by blast
  qed
qed

lemma unhealthy_plan_quiet:
  assumes "compute_plan uuid5 intent_json s = Inr plan" and "planning_observation s = Inr (Some ob)"
    and "\<not> ob_healthy ob" and "set (s_admitted_task_ids s) \<subseteq> A"
  shows "set (pl_admitted_task_ids plan) \<subseteq> A \<and> pl_preemption_events plan = []"
proof -
  from assms(1) obtain observation ps where v: "validate_snapshot uuid5 intent_json s = Inr ()"
    "planning_observation s = Inr observation" "plan_body uuid5 s observation = Inr ps"
    "build_plan uuid5 intent_json s observation ps = Inr plan" by (rule compute_plan_parts)
  let ?by = "resources_by_class (execution_resources True s)"
  from v(2,3) assms(2,3) obtain rem ps0 where ps0: "preserve_committed uuid5 s rem = Inr ps0"
    and ps: "rfold (resolve_intent uuid5 s False ?by) (pending_preemptions s) ps0 = Inr ps"
    by (auto simp: plan_body_def Let_def)
  have "quiet A ps"
    by (rule quiet_intents.loop_inv [OF preserve_quiet [OF v(1) ps0 assms(4)] ps]) simp
  with build_plan_result(2,6) [OF v(4)] show ?thesis by (simp add: quiet_def)
qed

text \<open>C21. A failed probe admits nothing new: whatever the state of the scheduler, a plan made through the
  controller after the probe raised admits only tasks that were admitted before, and records no
  preemption.\<close>

theorem failed_probe_admits_nothing:
  assumes "controller_plan uuid5 dump intent_json lc now (Inl msg) s = (Inr plan, s')"
  shows "set (pl_admitted_task_ids plan) \<subseteq> set (s_admitted_task_ids s) \<and> pl_preemption_events plan = []"
proof -
  from assms obtain ob s1 where ref: "refresh uuid5 dump lc now (Inl msg) s = (Inr ob, s1)"
    and plan: "plan_scheduling_epoch uuid5 intent_json s1 = (Inr plan, s')"
    by (auto simp: controller_plan_def sbind_eq_Inr)
  from ref obtain captured s2 where
    build: "build_resource_observation uuid5 dump (s_cycle s2 + 1) captured (execution_resources False s2)
      (resource_reservations s2) (lc_policy lc) (fst (probe_sample (Inl msg))) (snd (probe_sample (Inl msg)))
      (lc_host_id lc) = Inr ob"
    and att: "attach_resource_observation ob captured s2 = (Inr (), s1)"
    by (rule refresh_parts)
  note at = attach_result(1,2,3) [OF att]
  have sick: "\<not> ob_healthy ob" using build_observation_health [OF build] by (simp add: probe_sample_def)
  have comp: "compute_plan uuid5 intent_json s1 = Inr plan"
    by (rule plan_scheduling_epoch_cases(1) [OF plan at(2)])
  then have obs: "planning_observation s1 = Inr (Some ob)"
    using at by (auto simp: compute_plan_def planning_observation_def raise_if_def split: if_splits)
  have "admitted_within (set (s_admitted_task_ids s)) s1"
    by (rule refresh_admitted [OF ref]) (simp add: admitted_within_def)
  then show ?thesis using unhealthy_plan_quiet [OF comp obs sick] by (simp add: admitted_within_def)
qed

definition sample_controller :: admission_controller where
  "sample_controller = \<lparr>lc_policy = default_resource_safety_policy, lc_host_id = ''host''\<rparr>"

definition sample_host :: scheduler where
  "sample_host = snd (init_controller sample_controller
     (snd (submit sample_uuid5 (sample_work 1000 1 USER_BLOCKING PREEMPTIBLE 2) sample_idle)))"

definition blind_plan :: "scheduler \<Rightarrow> uuid list option" where
  "blind_plan s =
     (case controller_plan sample_uuid5 (\<lambda>_. []) (\<lambda>_. []) sample_controller (Aware 1000000 0)
        (Inl ''OSError: no counters'') s of
      (Inr plan, _) \<Rightarrow> Some (pl_unadmitted_task_ids plan) | (Inl _, _) \<Rightarrow> None)"

lemma sample_blind: "blind_plan sample_host = Some [1000]" "s_admitted_task_ids sample_host = []"
  by code_simp+

theorem failed_probe_admits_nothing_witness:
  "\<exists>plan s'. controller_plan sample_uuid5 (\<lambda>_. []) (\<lambda>_. []) sample_controller (Aware 1000000 0)
        (Inl ''OSError: no counters'') sample_host = (Inr plan, s') \<and>
     pl_unadmitted_task_ids plan = [1000] \<and> pl_admitted_task_ids plan = []"
proof -
  obtain plan s' where p: "controller_plan sample_uuid5 (\<lambda>_. []) (\<lambda>_. []) sample_controller (Aware 1000000 0)
        (Inl ''OSError: no counters'') sample_host = (Inr plan, s')" "pl_unadmitted_task_ids plan = [1000]"
    using sample_blind(1) by (auto simp: blind_plan_def split: prod.splits sum.splits)
  from failed_probe_admits_nothing [OF p(1)] sample_blind(2) have "pl_admitted_task_ids plan = []" by simp
  with p show ?thesis by blast
qed

end
