(* ===== verification/Lifecycle.thy ===== *)
theory Lifecycle
  imports Admission "HOL-Library.Sublist"
begin

text \<open>
  The scheduler as a state machine: a step is one call of a public method of
  \<^verbatim>\<open>JITAttentionScheduler\<close> (or of the admission controller that drives it), whether it returns or
  raises. Runs start from the constructor. Of their calls two things are asked (\<open>contract\<close>): a submitted
  task is a value of the constructor of tasks, and \<^verbatim>\<open>complete_task\<close> is not used for the task that owns
  focus or waits for it; the latter is no convention of the code but the condition under which it works
  (\<open>Stalls\<close> shows what happens otherwise). The invariants of these runs show that focus stays exclusive,
  that the transition log of every task is a run of the task life cycle that ends in the task's present
  status, that finished tasks stay finished, and that a provisional plan always continues the committed
  epoch.
\<close>

section \<open>The transition log of a task\<close>

definition task_log :: "uuid \<Rightarrow> task_transition list \<Rightarrow> task_transition list" where
  "task_log k xs = filter (\<lambda>x. tt_task_id x = k) xs"

fun chained :: "task_status \<Rightarrow> task_transition list \<Rightarrow> task_status \<Rightarrow> bool" where
  "chained a [] b \<longleftrightarrow> a = b"
| "chained a (x # xs) b \<longleftrightarrow> tt_from_status x = a \<and> chained (tt_to_status x) xs b"

fun life_cycle_run :: "task_status \<Rightarrow> task_transition list \<Rightarrow> task_status \<Rightarrow> bool" where
  "life_cycle_run a [] b \<longleftrightarrow> a = b"
| "life_cycle_run a (x # xs) b \<longleftrightarrow> tt_from_status x = a \<and> life_cycle_edge a (tt_to_status x) \<and>
     life_cycle_run (tt_to_status x) xs b"

definition log_inv :: "scheduler \<Rightarrow> bool" where
  "log_inv s \<longleftrightarrow>
     (\<forall>k t. dget (s_tasks s) k = Some t \<longrightarrow>
        at_task_id t = k \<and> chained NEW (task_log k (s_transitions s)) (at_status t)) \<and>
     (\<forall>x\<in>set (s_transitions s). tt_task_id x \<in> set (dkeys (s_tasks s)))"

lemma task_log_append [simp]: "task_log k (xs @ ys) = task_log k xs @ task_log k ys"
  by (simp add: task_log_def)

lemma chained_append: "chained a (xs @ ys) b \<longleftrightarrow> (\<exists>c. chained a xs c \<and> chained c ys b)"
  by (induction xs arbitrary: a) auto

lemma chained_run:
  "chained a xs b \<Longrightarrow> \<forall>x\<in>set xs. life_cycle_edge (tt_from_status x) (tt_to_status x) \<Longrightarrow>
     life_cycle_run a xs b"
  by (induction xs arbitrary: a) auto

lemma run_from_terminal:
  "life_cycle_run a xs b \<Longrightarrow> a \<in> {COMPLETED, FAILED} \<Longrightarrow> xs = [] \<and> b = a"
  by (cases xs) auto

lemma run_append: "life_cycle_run a (xs @ ys) b \<longleftrightarrow> (\<exists>c. life_cycle_run a xs c \<and> life_cycle_run c ys b)"
  by (induction xs arbitrary: a) auto

lemma run_functional: "life_cycle_run a xs b \<Longrightarrow> life_cycle_run a xs c \<Longrightarrow> b = c"
  by (induction xs arbitrary: a) auto

section \<open>The books of the scheduler\<close>

text \<open>Besides the log: a provisional plan continues the committed epoch (its cycle and sequence number are
  the successors of the current ones, or the current ones after a commit that raised half-way), the policy
  versions are not blank, and no preemption event is recorded twice. The parameters record a past log and past tasks, so that the
  same lemmas show that the log only grows and that tasks are never forgotten.\<close>

definition continues :: "scheduling_epoch \<Rightarrow> int \<Rightarrow> int \<Rightarrow> bool" where
  "continues e cycle sequence \<longleftrightarrow>
     ep_scheduler_cycle e = cycle + 1 \<and> ep_sequence e = sequence + 1 \<or>
     ep_scheduler_cycle e = cycle \<and> ep_sequence e = sequence"

definition sequel_inv :: "scheduler \<Rightarrow> bool" where
  "sequel_inv s \<longleftrightarrow> (\<forall>plan. s_pending_epoch_plan s = Some plan \<longrightarrow>
     continues (pl_epoch plan) (s_cycle s) (s_epoch_sequence s) \<and>
     ep_preemption_policy_version (pl_epoch plan) = Some (s_preemption_policy_version s))"

definition version_inv :: "scheduler \<Rightarrow> bool" where
  "version_inv s \<longleftrightarrow> py_strip (s_preemption_policy_version s) \<noteq> [] \<and>
     py_strip (s_resource_safety_policy_version s) \<noteq> [] \<and>
     distinct (map pv_event_id (s_preemption_events s))"

definition book_inv :: "task_transition list \<Rightarrow> uuid set \<Rightarrow> scheduler \<Rightarrow> bool" where
  "book_inv L K s \<longleftrightarrow> log_inv s \<and> sequel_inv s \<and> version_inv s \<and>
     prefix L (s_transitions s) \<and> K \<subseteq> set (dkeys (s_tasks s))"

named_theorems book_keeps \<open>methods keep the books\<close>

lemma book_sbind:
  assumes "book_inv L K (snd (m s))" and "\<And>x s'. book_inv L K s' \<Longrightarrow> book_inv L K (snd (f x s'))"
  shows "book_inv L K (snd (sbind m f s))"
  using assms by (auto simp: sbind_def split: prod.splits sum.splits)

text \<open>What the books read of a state.\<close>

lemma book_frame:
  assumes "book_inv L K s" and "s_tasks s' = s_tasks s" and "s_transitions s' = s_transitions s"
    and "s_pending_epoch_plan s' = None \<or> s_pending_epoch_plan s' = s_pending_epoch_plan s \<and>
       s_cycle s' = s_cycle s \<and> s_epoch_sequence s' = s_epoch_sequence s"
    and "s_preemption_policy_version s' = s_preemption_policy_version s"
    and "py_strip (s_resource_safety_policy_version s') \<noteq> []"
    and "distinct (map pv_event_id (s_preemption_events s'))"
  shows "book_inv L K s'"
  using assms by (auto simp: book_inv_def log_inv_def sequel_inv_def version_inv_def)

lemma invalidate_more_simps [simp]:
  "s_epoch_sequence (invalidate_scheduling_plan s) = s_epoch_sequence s"
  "s_preemption_policy_version (invalidate_scheduling_plan s) = s_preemption_policy_version s"
  "s_resource_safety_policy_version (invalidate_scheduling_plan s) = s_resource_safety_policy_version s"
  "s_preemption_events (invalidate_scheduling_plan s) = s_preemption_events s"
  "s_pending_preemptions (invalidate_scheduling_plan s) = s_pending_preemptions s"
  by (simp_all add: invalidate_scheduling_plan_def Let_def)

lemma book_versionD:
  "book_inv L K s \<Longrightarrow> py_strip (s_resource_safety_policy_version s) \<noteq> []"
  "book_inv L K s \<Longrightarrow> distinct (map pv_event_id (s_preemption_events s))"
  by (simp_all add: book_inv_def version_inv_def)

lemma invalidate_book [book_keeps]: "book_inv L K s \<Longrightarrow> book_inv L K (invalidate_scheduling_plan s)"
  by (rule book_frame [where s = s]) (auto simp: book_versionD)

lemma book_focus_fields [simp]:
  "book_inv L K (s\<lparr>s_active_task_id := a\<rparr>) = book_inv L K s"
  "book_inv L K (s\<lparr>s_pending_preemption_task_id := p\<rparr>) = book_inv L K s"
  by (simp_all add: book_inv_def log_inv_def sequel_inv_def version_inv_def)

lemma book_task:
  assumes "book_inv L K s" and "dget (s_tasks s) k = Some t" and "at_task_id t' = at_task_id t"
    and "s_tasks s' = dset k t' (s_tasks s)"
    and "at_status t' = at_status t \<and> s_transitions s' = s_transitions s \<or>
      (\<exists>x. s_transitions s' = s_transitions s @ [x] \<and> tt_task_id x = at_task_id t \<and>
           tt_from_status x = at_status t \<and> tt_to_status x = at_status t')"
    and "s_pending_epoch_plan s' = None \<or> s_pending_epoch_plan s' = s_pending_epoch_plan s \<and>
       s_cycle s' = s_cycle s \<and> s_epoch_sequence s' = s_epoch_sequence s"
    and "s_preemption_policy_version s' = s_preemption_policy_version s"
    and "s_resource_safety_policy_version s' = s_resource_safety_policy_version s"
    and "s_preemption_events s' = s_preemption_events s"
  shows "book_inv L K s'"
  using assms
  by (auto simp: book_inv_def log_inv_def sequel_inv_def version_inv_def task_log_def chained_append)

lemma transition_book [book_keeps]: "book_inv L K s \<Longrightarrow> book_inv L K (snd (transition uuid5 k to reason s))"
proof (cases "dget (s_tasks s) k")
  case (Some t)
  assume inv: "book_inv L K s"
  show ?thesis
  proof (cases "at_revision t + 1 < 1 \<or> s_cycle s < 0")
    case True
    then show ?thesis using Some invalidate_book [OF inv] by (auto simp: transition_def Let_def)
  next
    case False
    then show ?thesis using Some
      by (intro book_task [OF inv Some, of "t\<lparr>at_status := to, at_revision := at_revision t + 1\<rparr>"])
        (auto simp: transition_def Let_def)
  qed
qed (simp add: transition_def invalidate_book)

lemma replace_book [book_keeps]:
  assumes "book_inv L K s" and "\<And>t. at_task_id (f t) = at_task_id t" and "\<And>t. at_status (f t) = at_status t"
  shows "book_inv L K (snd (replace_task k f s))"
proof (cases "dget (s_tasks s) k")
  case None
  then show ?thesis using assms(1) by (simp add: replace_task_def invalidate_book)
next
  case (Some t)
  show ?thesis
    by (rule book_task [OF assms(1) Some, of "f t"]) (simp_all add: assms replace_task_eq [OF Some])
qed

lemma store_book [book_keeps]: "book_inv L K s \<Longrightarrow> book_inv L K (snd (store_resumable_state k st s))"
  by (cases st) (simp_all add: store_resumable_state_def replace_book)

lemma start_book [book_keeps]: "book_inv L K s \<Longrightarrow> book_inv L K (snd (start uuid5 k reason s))"
  unfolding start_def by (auto intro!: book_sbind transition_book)

lemma requeue_book [book_keeps]: "book_inv L K s \<Longrightarrow> book_inv L K (snd (requeue_active uuid5 reason s))"
  unfolding requeue_active_def by (auto split: option.split intro!: book_sbind transition_book replace_book)

lemma decision_book [simp]: "snd (decision a b c d s) = s"
  by (simp add: decision_def)

lemma switch_book [book_keeps]: "book_inv L K s \<Longrightarrow> book_inv L K (snd (switch_focus uuid5 c r1 r2 s))"
  unfolding switch_focus_def by (auto intro!: book_sbind start_book requeue_book)

lemma reconcile_active_book [book_keeps]:
  "book_inv L K s \<Longrightarrow> book_inv L K (snd (reconcile_active uuid5 c a s))"
  unfolding reconcile_active_def Let_def
  by (auto split: option.split interruption_policy.split intro!: book_sbind switch_book)

lemma advance_book [book_keeps]: "book_inv L K s \<Longrightarrow> book_inv L K (snd (advance_cycle n s))"
  by (rule book_frame [where s = s]) (auto simp: advance_cycle_def Let_def book_versionD)

lemma next_cycle_book [book_keeps]: "book_inv L K s \<Longrightarrow> book_inv L K (next_cycle s)"
  using advance_book [of L K s 1] by simp

lemma reconcile_focus_book [book_keeps]: "book_inv L K s \<Longrightarrow> book_inv L K (snd (reconcile_focus uuid5 s))"
  unfolding reconcile_focus_def Let_def
  by (auto simp: require_legacy_snd split: option.split
      intro!: book_sbind next_cycle_book start_book reconcile_active_book)

lemma checkpoint_yield_book [book_keeps]:
  "book_inv L K s \<Longrightarrow> book_inv L K (snd (checkpoint_yield uuid5 a s))"
  unfolding checkpoint_yield_def Let_def by (auto split: option.split intro!: book_sbind switch_book)

lemma checkpoint_active_book [book_keeps]: "book_inv L K s \<Longrightarrow> book_inv L K (snd (checkpoint_active uuid5 s))"
  unfolding checkpoint_active_def
  by (auto simp: require_legacy_snd split: option.split
      intro!: book_sbind next_cycle_book reconcile_focus_book checkpoint_yield_book)

lemma finish_active_book [book_keeps]: "book_inv L K s \<Longrightarrow> book_inv L K (snd (finish_active uuid5 to reason st s))"
  unfolding finish_active_def
  by (auto simp: require_legacy_snd split: option.split intro!: book_sbind store_book transition_book)

lemma set_resumable_book [book_keeps]: "book_inv L K s \<Longrightarrow> book_inv L K (snd (set_resumable_state k st s))"
  unfolding set_resumable_state_def by (auto intro!: book_sbind replace_book)

lemma complete_task_book [book_keeps]: "book_inv L K s \<Longrightarrow> book_inv L K (snd (complete_task uuid5 k st s))"
  unfolding complete_task_def
  by (auto split: option.split intro!: book_sbind store_book transition_book)

lemma submit_book [book_keeps]:
  assumes "book_inv L K s"
  shows "book_inv L K (snd (submit uuid5 t s))"
proof (cases "at_task_id t \<notin> set (dkeys (s_tasks s)) \<and> at_status t = NEW")
  case True
  let ?s = "s\<lparr>s_tasks := dset (at_task_id t) t (s_tasks s)\<rparr>"
  have "tt_task_id x \<noteq> at_task_id t" if "x \<in> set (s_transitions s)" for x
    using assms True that by (metis book_inv_def log_inv_def)
  then have "task_log (at_task_id t) (s_transitions s) = []"
    by (simp add: task_log_def filter_empty_conv)
  moreover have "sequel_inv ?s \<and> version_inv ?s"
    using assms by (simp add: book_inv_def sequel_inv_def version_inv_def)
  ultimately have "book_inv L K ?s" using assms True by (auto simp: book_inv_def log_inv_def)
  then show ?thesis using assms unfolding submit_def
    by (auto intro!: book_sbind transition_book replace_book)
qed (use assms in \<open>auto simp: submit_def\<close>)

lemma configure_book [book_keeps]: "book_inv L K s \<Longrightarrow> book_inv L K (snd (configure_execution_resource r s))"
  by (rule book_frame [where s = s]) (auto simp: configure_execution_resource_def Let_def book_versionD)

lemma enable_safety_book [book_keeps]: "book_inv L K s \<Longrightarrow> book_inv L K (snd (enable_resource_safety v s))"
  by (rule book_frame [where s = s]) (auto simp: enable_resource_safety_def Let_def book_versionD)

lemma append_event_book [book_keeps]: "book_inv L K s \<Longrightarrow> book_inv L K (snd (append_preemption_event v s))"
  by (rule book_frame [where s = s])
    (auto simp: append_preemption_event_def book_versionD find_None_iff split: option.split)

lemma attach_book [book_keeps]: "book_inv L K s \<Longrightarrow> book_inv L K (snd (attach_resource_observation ob now s))"
  by (rule book_frame [where s = s])
    (auto simp: attach_resource_observation_def Let_def book_versionD split: sum.split)

lemma persisted_book [book_keeps]:
  "book_inv L K s \<Longrightarrow> book_inv L K (snd (mark_transitions_persisted n s))"
  "book_inv L K s \<Longrightarrow> book_inv L K (snd (mark_preemption_state_persisted r s))"
  by (rule book_frame [where s = s]; auto simp: mark_transitions_persisted_def
        mark_preemption_state_persisted_def book_versionD)+

lemma reservation_admission_book [book_keeps]:
  "book_inv L K s \<Longrightarrow> book_inv L K (snd (reconcile_resource_admission uuid5 s))"
  by (rule book_frame [where s = s])
    (auto simp: reconcile_resource_admission_def Let_def book_versionD split: sum.split)

text \<open>A new plan continues the present epoch.\<close>

lemma build_plan_record:
  assumes "build_plan uuid5 intent_json s observation ps = Inr plan"
  obtains i where "deterministic_epoch_id uuid5 intent_json (plan_epoch_record s observation ps) = Inr i"
    and "plan = \<lparr>pl_epoch = (plan_epoch_record s observation ps)\<lparr>ep_epoch_id := i\<rparr>,
        pl_admitted_task_ids = ps_admitted ps,
        pl_unadmitted_task_ids = planning_unadmitted s (ps_admitted ps),
        pl_assignments = ps_assignments ps,
        pl_pending_preemptions = sort_key pending_preemption_sort_key (ps_carried ps),
        pl_preemption_events = ps_events ps, pl_resource_observation = observation\<rparr>"
proof -
  let ?e = "plan_epoch_record s observation ps"
  have idem: "sort_key f (sort_key f xs) = sort_key f xs" for f :: "'x \<Rightarrow> 'y::linorder" and xs
    by (rule properties_for_sort_key) simp_all
  from assms obtain i epoch where i: "deterministic_epoch_id uuid5 intent_json ?e = Inr i"
    and n: "normalize_complete_set (?e\<lparr>ep_epoch_id := i\<rparr>) = Inr epoch"
    and v: "validate_complete_plan intent_json
       \<lparr>pl_epoch = epoch, pl_admitted_task_ids = ps_admitted ps,
        pl_unadmitted_task_ids = planning_unadmitted s (ps_admitted ps),
        pl_assignments = ps_assignments ps,
        pl_pending_preemptions = sort_key pending_preemption_sort_key (ps_carried ps),
        pl_preemption_events = ps_events ps, pl_resource_observation = observation\<rparr> = Inr plan"
    by (auto simp: build_plan_def Let_def)
  have "epoch = ?e\<lparr>ep_epoch_id := i\<rparr>"
    using normalize_complete_set_result [OF n] by (simp add: plan_epoch_record_def idem)
  then show thesis using validate_complete_plan_result(1) [OF v] by (intro that [OF i]) (simp add: idem)
qed

lemma plan_book [book_keeps]:
  assumes "book_inv L K s"
  shows "book_inv L K (snd (plan_scheduling_epoch uuid5 intent_json s))"
proof (cases "s_pending_epoch_plan s = None \<and> succeeds (compute_plan uuid5 intent_json s)")
  case True
  then obtain plan where plan: "compute_plan uuid5 intent_json s = Inr plan" by (auto simp: succeeds_iff)
  then obtain observation ps where b: "build_plan uuid5 intent_json s observation ps = Inr plan"
    by (rule compute_plan_parts)
  have "ep_scheduler_cycle (pl_epoch plan) = s_cycle s + 1 \<and> ep_sequence (pl_epoch plan) = s_epoch_sequence s + 1 \<and>
      ep_preemption_policy_version (pl_epoch plan) = Some (s_preemption_policy_version s)"
    by (rule build_plan_record [OF b]) (simp add: plan_epoch_record_def)
  then show ?thesis using assms True plan
    by (simp add: plan_scheduling_epoch_def book_inv_def log_inv_def sequel_inv_def version_inv_def continues_def)
next
  case False
  then have "snd (plan_scheduling_epoch uuid5 intent_json s) = s"
    by (auto simp: plan_scheduling_epoch_def split: option.split sum.split)
  then show ?thesis using assms by simp
qed

lemma append_events_only:
  "sfold append_preemption_event vs s = (r, s') \<Longrightarrow> s' = s\<lparr>s_preemption_events := s_preemption_events s'\<rparr>"
proof (induction vs arbitrary: s)
  case (Cons v vs)
  obtain r1 s1 where s1: "append_preemption_event v s = (r1, s1)" by fastforce
  then have "s1 = s\<lparr>s_preemption_events := s_preemption_events s1\<rparr>"
    by (auto simp: append_preemption_event_def split: option.splits if_splits)
  then show ?case using Cons s1
    by (cases r1) (auto simp: sbind_def, metis (no_types, lifting) scheduler.surjective scheduler.update_convs(15))
qed simp

lemma append_events_distinct:
  assumes "distinct (map pv_event_id (s_preemption_events s))"
  shows "distinct (map pv_event_id (s_preemption_events (snd (sfold append_preemption_event vs s))))"
  by (rule sfold_keeps [where P = "\<lambda>s. distinct (map pv_event_id (s_preemption_events s))"])
    (use assms in \<open>auto simp: append_preemption_event_def find_None_iff split: option.split\<close>)

lemma commit_book [book_keeps]:
  assumes inv: "book_inv L K s"
  shows "book_inv L K (snd (commit_pending_epoch uuid5 intent_json i s))"
proof (cases "\<exists>plan. s_pending_epoch_plan s = Some plan \<and> ep_epoch_id (pl_epoch plan) = i")
  case False
  then show ?thesis using inv by (auto simp: commit_pending_epoch_def split: option.split)
next
  case True
  then obtain plan where plan: "s_pending_epoch_plan s = Some plan" "ep_epoch_id (pl_epoch plan) = i" by blast
  let ?p = "publish_plan plan s"
  obtain r s1 where f: "sfold append_preemption_event (pl_preemption_events plan) ?p = (r, s1)"
    by fastforce
  obtain es where s1: "s1 = ?p\<lparr>s_preemption_events := es\<rparr>"
    using append_events_only [OF f] by blast
  have es: "distinct (map pv_event_id es)"
    using append_events_distinct [of ?p "pl_preemption_events plan"] f inv
    by (simp add: s1) (simp add: publish_plan_def Let_def book_versionD)
  have ver: "ep_preemption_policy_version (pl_epoch plan) = Some (s_preemption_policy_version s)"
    using inv plan by (simp add: book_inv_def sequel_inv_def)
  show ?thesis
  proof (cases r)
    case (Inl e)
    then have "snd (commit_pending_epoch uuid5 intent_json i s) = s1" using plan f by (simp add: commit_pending_epoch_def)
    moreover have "book_inv L K s1"
      using inv plan ver es by (simp add: s1 publish_plan_def Let_def book_inv_def log_inv_def sequel_inv_def version_inv_def continues_def)
    ultimately show ?thesis by simp
  next
    case (Inr u)
    then show ?thesis using plan f es ver
      by (intro book_frame [OF inv])
        (simp_all add: commit_pending_epoch_def s1, simp_all add: publish_plan_def Let_def book_versionD [OF inv])
  qed
qed

text \<open>Estimating tasks rewrites their metadata one by one: what one rewriting keeps, the loop keeps.\<close>

definition set_estimate :: "attention_task \<Rightarrow> scheduling_metadata \<Rightarrow> scheduler \<Rightarrow> scheduler" where
  "set_estimate t md s = s\<lparr>s_tasks := dset (at_task_id t)
     (t\<lparr>at_metadata := md, at_revision := at_revision t + 1\<rparr>) (s_tasks s)\<rparr>"

lemma assess_tasks_inv:
  assumes "assess_tasks policy ts acc s = (r, s')" and "P s"
    and step: "\<And>s t md est. P s \<Longrightarrow> dget (s_tasks s) (at_task_id t) = Some t \<Longrightarrow>
       normalize_resource_contract ((at_metadata t)\<lparr>sm_process_resource_estimate := Some est\<rparr>) = Inr md \<Longrightarrow>
       P (set_estimate t md s)"
    and "\<forall>t\<in>set ts. dget (s_tasks s) (at_task_id t) = Some t" and "distinct (map at_task_id ts)"
  shows "P s'"
  using assms(1,2,4,5)
proof (induction ts arbitrary: acc s)
  case (Cons t ts)
  consider (skip) "assess_tasks policy ts acc s = (r, s')" | (stop) "s' = s"
    | (set) md est where "assess_tasks policy ts (acc @ [at_task_id t]) (set_estimate t md s) = (r, s')"
      "normalize_resource_contract ((at_metadata t)\<lparr>sm_process_resource_estimate := Some est\<rparr>) = Inr md"
    using Cons.prems(1) by (auto simp: set_estimate_def sbind_def split: if_splits sum.splits)
  then show ?case
  proof cases
    case skip
    show ?thesis by (rule Cons.IH [OF skip]) (use Cons.prems(2-4) in auto)
  next
    case stop
    then show ?thesis using Cons.prems by simp
  next
    case set
    have "P (set_estimate t md s)" by (rule step [OF _ _ set(2)]) (use Cons.prems in simp_all)
    moreover have "at_task_id x \<noteq> at_task_id t" if "x \<in> set ts" for x
      using Cons.prems(4) that by (metis distinct.simps(2) image_eqI list.simps(9) set_map)
    ultimately show ?thesis using Cons.prems(3,4) by (intro Cons.IH [OF set(1)]) (simp_all add: set_estimate_def)
  qed
qed simp

lemma task_ids_distinct:
  assumes "wf_tasks s"
  shows "distinct (map at_task_id (dvalues (s_tasks s)))"
proof -
  have "map at_task_id (dvalues (s_tasks s)) = dkeys (s_tasks s)"
    using assms by (auto simp: wf_tasks_def map_of_eq_Some_iff)
  then show ?thesis using assms by (metis wf_tasks_def)
qed

lemma assess_inv:
  assumes "wf_tasks s" and "P s"
    and step: "\<And>s t md est. P s \<Longrightarrow> dget (s_tasks s) (at_task_id t) = Some t \<Longrightarrow>
       normalize_resource_contract ((at_metadata t)\<lparr>sm_process_resource_estimate := Some est\<rparr>) = Inr md \<Longrightarrow>
       P (set_estimate t md s)"
    and inval: "\<And>s. P s \<Longrightarrow> P (invalidate_scheduling_plan s)"
  shows "P (snd (assess_unestimated_processes policy s))"
proof -
  let ?ts = "sort_key task_creation_key (dvalues (s_tasks s))"
  obtain r s1 where as: "assess_tasks policy ?ts [] s = (r, s1)" by fastforce
  have "distinct (map at_task_id ?ts)" using task_ids_distinct [OF assms(1)] by (metis mset_eq_imp_distinct_iff mset_map mset_sort)
  then have "P s1"
    by (intro assess_tasks_inv [where P = P, OF as assms(2) step])
      (simp_all add: wf_tasksD(3) [OF assms(1)] del: set_map)
  then show ?thesis using as assms(2) inval
    by (auto simp: assess_unestimated_processes_def sbind_def split: sum.split)
qed

lemma assess_book [book_keeps]:
  assumes "book_inv L K s" and "wf_tasks s"
  shows "book_inv L K (snd (assess_unestimated_processes policy s))"
proof (rule assess_inv [where P = "book_inv L K", OF assms(2,1)])
  fix s t md est
  assume "book_inv L K s" "dget (s_tasks s) (at_task_id t) = Some t"
  then show "book_inv L K (set_estimate t md s)"
    by (rule book_task [of L K s "at_task_id t" t "t\<lparr>at_metadata := md, at_revision := at_revision t + 1\<rparr>"])
      (simp_all add: set_estimate_def)
qed (rule invalidate_book)

lemma checkpoint_pending_book [book_keeps]:
  assumes "book_inv L K s"
  shows "book_inv L K (snd (checkpoint_pending_preemption uuid5 intent_json v st s))"
proof -
  have upd: "book_inv L K ((invalidate_scheduling_plan s)
      \<lparr>s_tasks := dset v (t\<lparr>at_resumable_state := j\<rparr>) (s_tasks s)\<rparr>)"
    if "dget (s_tasks s) v = Some t" for t j
    by (rule book_task [OF assms that, of "t\<lparr>at_resumable_state := j\<rparr>"]) simp_all
  have rec: "book_inv L K (s\<lparr>s_pending_preemptions := d, s_preemption_state_revision := n\<rparr>)"
    if "book_inv L K s" for s d n
    by (rule book_frame [OF that]) (simp_all add: book_versionD [OF that])
  show ?thesis
    unfolding checkpoint_pending_preemption_def Let_def
    by (auto split: list.split option.split intro!: book_sbind assms upd rec invalidate_book append_event_book)
qed

lemma refresh_book [book_keeps]:
  assumes "book_inv L K s" and "wf_tasks s"
  shows "book_inv L K (snd (refresh uuid5 dump lc now probe s))"
proof -
  have configured: "book_inv L K (snd (sfold configure_discovered rs s))" if "book_inv L K s" for rs s
    by (rule sfold_keeps [where P = "book_inv L K"])
      (use that in \<open>simp_all add: configure_discovered_snd configure_book\<close>)
  show ?thesis
    using assms assess_book [OF assms]
    by (cases "obs_as_utc now") (auto simp: refresh_def intro!: book_sbind attach_book configured)
qed

section \<open>Focus under the remaining methods\<close>

lemma focus_frame:
  assumes "focus_inv s" and "s_tasks s' = s_tasks s" and "s_active_task_id s' = s_active_task_id s"
    and "s_pending_preemption_task_id s' = s_pending_preemption_task_id s"
    and "s_transitions s' = s_transitions s" and "s_cycle s \<le> s_cycle s'"
  shows "focus_inv s'"
  by (rule focus_inv_cong [OF assms(2-6,1)])

lemma plan_keeps [invariant_keeps]: "focus_inv s \<Longrightarrow> focus_inv (snd (plan_scheduling_epoch uuid5 j s))"
  by (rule focus_frame [of s]) (auto simp: plan_scheduling_epoch_def split: option.split sum.split)

lemma attach_keeps [invariant_keeps]:
  "focus_inv s \<Longrightarrow> focus_inv (snd (attach_resource_observation ob now s))"
  by (rule focus_frame [of s]) (auto simp: attach_resource_observation_def Let_def split: sum.split)

lemma reservation_admission_keeps [invariant_keeps]:
  "focus_inv s \<Longrightarrow> focus_inv (snd (reconcile_resource_admission uuid5 s))"
  by (rule focus_frame [of s]) (auto simp: reconcile_resource_admission_def Let_def split: sum.split)

lemma persisted_keeps [invariant_keeps]:
  "focus_inv s \<Longrightarrow> focus_inv (snd (mark_transitions_persisted n s))"
  "focus_inv s \<Longrightarrow> focus_inv (snd (mark_preemption_state_persisted r s))"
  by (rule focus_frame [of s]; auto simp: mark_transitions_persisted_def mark_preemption_state_persisted_def)+

lemma commit_state:
  obtains "snd (commit_pending_epoch uuid5 j i s) = s"
  | plan es ob pob pp where "s_pending_epoch_plan s = Some plan"
      and "snd (commit_pending_epoch uuid5 j i s) = (publish_plan plan s)\<lparr>s_preemption_events := es,
        s_current_resource_observation := ob, s_pending_resource_observation := pob,
        s_pending_epoch_plan := pp\<rparr>"
proof (cases "s_pending_epoch_plan s")
  case (Some plan)
  obtain r s1 where f: "sfold append_preemption_event (pl_preemption_events plan) (publish_plan plan s) = (r, s1)"
    by fastforce
  obtain es where s1: "s1 = (publish_plan plan s)\<lparr>s_preemption_events := es\<rparr>"
    using append_events_only [OF f] by blast
  let ?p = "publish_plan plan s"
  show thesis
  proof (cases "ep_epoch_id (pl_epoch plan) = i")
    case False
    then show thesis using Some by (intro that(1)) (simp add: commit_pending_epoch_def)
  next
    case True
    show thesis
    proof (cases r)
      case (Inl e)
      have "snd (commit_pending_epoch uuid5 j i s) = ?p\<lparr>s_preemption_events := es,
          s_current_resource_observation := s_current_resource_observation ?p,
          s_pending_resource_observation := s_pending_resource_observation ?p,
          s_pending_epoch_plan := s_pending_epoch_plan ?p\<rparr>"
        using Inl True Some f s1 by (simp add: commit_pending_epoch_def)
      then show thesis by (rule that(2) [OF Some])
    next
      case (Inr u)
      have "snd (commit_pending_epoch uuid5 j i s) = ?p\<lparr>s_preemption_events := es,
          s_current_resource_observation := pl_resource_observation plan,
          s_pending_resource_observation := None, s_pending_epoch_plan := None\<rparr>"
        using Inr True Some f s1 by (simp add: commit_pending_epoch_def Let_def)
      then show thesis by (rule that(2) [OF Some])
    qed
  qed
qed (use that in \<open>simp add: commit_pending_epoch_def\<close>)

lemma commit_keeps [invariant_keeps]:
  assumes "focus_inv s" and "sequel_inv s"
  shows "focus_inv (snd (commit_pending_epoch uuid5 j i s))"
proof (rule commit_state [of uuid5 j i s])
  fix plan es ob pob pp
  assume plan: "s_pending_epoch_plan s = Some plan"
    and eq: "snd (commit_pending_epoch uuid5 j i s) = (publish_plan plan s)\<lparr>s_preemption_events := es,
        s_current_resource_observation := ob, s_pending_resource_observation := pob,
        s_pending_epoch_plan := pp\<rparr>"
  have "s_cycle s \<le> ep_scheduler_cycle (pl_epoch plan)" using plan assms(2) by (auto simp: sequel_inv_def continues_def)
  then show ?thesis
    by (intro focus_frame [OF assms(1)]) (simp_all add: eq publish_plan_def Let_def)
qed (use assms in simp)

lemma append_event_keeps [invariant_keeps]: "focus_inv s \<Longrightarrow> focus_inv (snd (append_preemption_event v s))"
  by (rule focus_frame [of s]) (auto simp: append_preemption_event_def split: option.split)

lemma assess_keeps [invariant_keeps]:
  assumes "focus_inv s"
  shows "focus_inv (snd (assess_unestimated_processes policy s))"
proof (rule assess_inv [where P = focus_inv, OF focus_wf [OF assms] assms])
  fix s t md est
  assume inv: "focus_inv s" and t: "dget (s_tasks s) (at_task_id t) = Some t"
    and md: "normalize_resource_contract ((at_metadata t)\<lparr>sm_process_resource_estimate := Some est\<rparr>) = Inr md"
  have wf: "wf_task t" by (rule wf_tasksD(2) [OF focus_wf [OF inv] t])
  have "wf_metadata md"
    by (rule normalized_metadata_wf [OF md]) (use wf in \<open>auto simp: wf_task_def wf_metadata_def\<close>)
  then show "focus_inv (set_estimate t md s)"
    unfolding set_estimate_def by (intro focus_inv_replace [OF inv t]) (use wf in \<open>auto simp: wf_task_def\<close>)
qed simp

lemma focus_sbind:
  assumes "focus_inv (snd (m s))" and "\<And>x s'. focus_inv s' \<Longrightarrow> focus_inv (snd (f x s'))"
  shows "focus_inv (snd (sbind m f s))"
  using assms by (auto simp: sbind_def split: prod.splits sum.splits)

lemma checkpoint_pending_keeps [invariant_keeps]:
  assumes "focus_inv s"
  shows "focus_inv (snd (checkpoint_pending_preemption uuid5 intent_json v st s))"
proof -
  let ?s = "invalidate_scheduling_plan s"
  have upd: "focus_inv (?s\<lparr>s_tasks := dset v (t\<lparr>at_resumable_state := j\<rparr>) (s_tasks s)\<rparr>)"
    if t: "dget (s_tasks s) v = Some t" for t j
    using focus_inv_replace [of ?s v t "t\<lparr>at_resumable_state := j\<rparr>"] assms t
      wf_tasksD(1,2) [OF focus_wf [OF assms] t] by (simp add: wf_task_def)
  have rec: "focus_inv (s\<lparr>s_pending_preemptions := d, s_preemption_state_revision := n\<rparr>)"
    if "focus_inv s" for s d n
    by (rule focus_frame [OF that]) simp_all
  show ?thesis
    unfolding checkpoint_pending_preemption_def Let_def using assms
    by (auto split: list.split option.split intro!: focus_sbind upd rec append_event_keeps)
qed

lemma refresh_keeps [invariant_keeps]:
  assumes "focus_inv s"
  shows "focus_inv (snd (refresh uuid5 dump lc now probe s))"
proof -
  have configured: "focus_inv (snd (sfold configure_discovered rs s))" if "focus_inv s" for rs s
    by (rule sfold_keeps [where P = focus_inv])
      (use that in \<open>simp_all add: configure_discovered_snd configure_keeps\<close>)
  show ?thesis
    using assms assess_keeps [OF assms]
    by (cases "obs_as_utc now") (auto simp: refresh_def intro!: focus_sbind attach_keeps configured)
qed

section \<open>The machine\<close>

text \<open>The public methods as calls with their arguments, and what a call does to the scheduler, returning or
  raising.\<close>

datatype call =
    Submit attention_task
  | AdvanceCycle int
  | ConfigureExecutionResource execution_resource
  | EnableResourceSafety string
  | AssessUnestimatedProcesses resource_safety_policy
  | AttachResourceObservation resource_observation datetime
  | Refresh admission_controller datetime probe_result
  | ReconcileResourceAdmission
  | PlanSchedulingEpoch
  | CommitPendingEpoch uuid
  | CheckpointPendingPreemption uuid "json_object option"
  | ReconcileFocus
  | CheckpointActive
  | CompleteActive "json_object option"
  | FailActive "json_object option"
  | CompleteTask uuid "json_object option"
  | SetResumableState uuid json_object
  | MarkTransitionsPersisted nat
  | MarkPreemptionStatePersisted int

fun run_call ::
  "(uuid \<Rightarrow> string \<Rightarrow> uuid) \<Rightarrow> (pending_preemption \<Rightarrow> string) \<Rightarrow> (resource_observation \<Rightarrow> string) \<Rightarrow>
     call \<Rightarrow> scheduler \<Rightarrow> scheduler" where
  "run_call uuid5 intent_json dump (Submit t) s = snd (submit uuid5 t s)"
| "run_call uuid5 intent_json dump (AdvanceCycle n) s = snd (advance_cycle n s)"
| "run_call uuid5 intent_json dump (ConfigureExecutionResource r) s = snd (configure_execution_resource r s)"
| "run_call uuid5 intent_json dump (EnableResourceSafety v) s = snd (enable_resource_safety v s)"
| "run_call uuid5 intent_json dump (AssessUnestimatedProcesses policy) s = snd (assess_unestimated_processes policy s)"
| "run_call uuid5 intent_json dump (AttachResourceObservation ob now) s = snd (attach_resource_observation ob now s)"
| "run_call uuid5 intent_json dump (Refresh lc now probe) s = snd (refresh uuid5 dump lc now probe s)"
| "run_call uuid5 intent_json dump ReconcileResourceAdmission s = snd (reconcile_resource_admission uuid5 s)"
| "run_call uuid5 intent_json dump PlanSchedulingEpoch s = snd (plan_scheduling_epoch uuid5 intent_json s)"
| "run_call uuid5 intent_json dump (CommitPendingEpoch i) s = snd (commit_pending_epoch uuid5 intent_json i s)"
| "run_call uuid5 intent_json dump (CheckpointPendingPreemption k st) s =
     snd (checkpoint_pending_preemption uuid5 intent_json k st s)"
| "run_call uuid5 intent_json dump ReconcileFocus s = snd (reconcile_focus uuid5 s)"
| "run_call uuid5 intent_json dump CheckpointActive s = snd (checkpoint_active uuid5 s)"
| "run_call uuid5 intent_json dump (CompleteActive st) s = snd (complete_active uuid5 st s)"
| "run_call uuid5 intent_json dump (FailActive st) s = snd (fail_active uuid5 st s)"
| "run_call uuid5 intent_json dump (CompleteTask k st) s = snd (complete_task uuid5 k st s)"
| "run_call uuid5 intent_json dump (SetResumableState k state) s = snd (set_resumable_state k state s)"
| "run_call uuid5 intent_json dump (MarkTransitionsPersisted m) s = snd (mark_transitions_persisted m s)"
| "run_call uuid5 intent_json dump (MarkPreemptionStatePersisted r) s = snd (mark_preemption_state_persisted r s)"

fun run_calls ::
  "(uuid \<Rightarrow> string \<Rightarrow> uuid) \<Rightarrow> (pending_preemption \<Rightarrow> string) \<Rightarrow> (resource_observation \<Rightarrow> string) \<Rightarrow>
     call list \<Rightarrow> scheduler \<Rightarrow> scheduler" where
  "run_calls uuid5 intent_json dump [] s = s"
| "run_calls uuid5 intent_json dump (c # cs) s =
     run_calls uuid5 intent_json dump cs (run_call uuid5 intent_json dump c s)"

text \<open>What the callers owe: a submitted task was built by the constructor of tasks, and a task that owns
  focus or waits for a checkpoint of its owner is finished through the focus methods.\<close>

fun contract :: "call \<Rightarrow> scheduler \<Rightarrow> bool" where
  "contract (Submit t) s \<longleftrightarrow> wf_task t"
| "contract (CompleteTask k st) s \<longleftrightarrow> s_active_task_id s \<noteq> Some k \<and> s_pending_preemption_task_id s \<noteq> Some k"
| "contract c s \<longleftrightarrow> True"

text \<open>Each call of a sequence keeps to the contract in the state in which it is made.\<close>

fun contracts ::
  "(uuid \<Rightarrow> string \<Rightarrow> uuid) \<Rightarrow> (pending_preemption \<Rightarrow> string) \<Rightarrow> (resource_observation \<Rightarrow> string) \<Rightarrow>
     call list \<Rightarrow> scheduler \<Rightarrow> bool" where
  "contracts uuid5 intent_json dump [] s \<longleftrightarrow> True"
| "contracts uuid5 intent_json dump (c # cs) s \<longleftrightarrow> contract c s \<and>
     contracts uuid5 intent_json dump cs (run_call uuid5 intent_json dump c s)"

lemma preemption_version_named: "py_strip PREEMPTION_POLICY_VERSION \<noteq> []"
  by code_simp

lemma init_book: "init_scheduler g b v = Inr s \<Longrightarrow> book_inv [] {} s"
  using preemption_version_named
  by (auto simp: init_scheduler_def book_inv_def log_inv_def sequel_inv_def version_inv_def
      split: option.splits)

lemma call_inv:
  assumes "contract c s" and "focus_inv s" and "book_inv L K s"
  shows "focus_inv (run_call uuid5 intent_json dump c s) \<and> book_inv L K (run_call uuid5 intent_json dump c s)"
proof (cases c)
  case (CommitPendingEpoch i)
  then show ?thesis using assms commit_keeps commit_book by (simp add: book_inv_def)
qed (use assms in \<open>simp_all add: invariant_keeps book_keeps focus_wf complete_active_def fail_active_def
      finish_active_book finish_active_keeps\<close>)

lemma calls_inv:
  "contracts uuid5 intent_json dump cs s \<Longrightarrow> focus_inv s \<Longrightarrow> book_inv L K s \<Longrightarrow>
     focus_inv (run_calls uuid5 intent_json dump cs s) \<and> book_inv L K (run_calls uuid5 intent_json dump cs s)"
  by (induction cs arbitrary: s) (auto dest: call_inv)

lemma constructed_inv:
  assumes "init_scheduler g b v = Inr s0" and "contracts uuid5 intent_json dump cs s0"
  shows "focus_inv (run_calls uuid5 intent_json dump cs s0) \<and> book_inv [] {} (run_calls uuid5 intent_json dump cs s0)"
  by (rule calls_inv [OF assms(2) init_focus [OF assms(1)] init_book [OF assms(1)]])

lemma run_calls_append [simp]:
  "run_calls uuid5 intent_json dump (cs @ ds) s = run_calls uuid5 intent_json dump ds (run_calls uuid5 intent_json dump cs s)"
  by (induction cs arbitrary: s) auto

section \<open>Properties of the runs\<close>

lemma distinct_set_single: "distinct xs \<Longrightarrow> set xs = {a} \<Longrightarrow> xs = [a]"
proof (cases xs)
  case (Cons b ys)
  assume "distinct xs" "set xs = {a}"
  with Cons have b: "b = a" "set ys \<subseteq> {a}" "a \<notin> set ys" by auto
  then have "set ys = {}" using subset_singletonD [OF b(2)] by auto
  with Cons b(1) show ?thesis by simp
qed simp

text \<open>The running tasks, as the code's validation lists them.\<close>

lemma running_list:
  assumes "focus_inv s"
  shows "map at_task_id (filter (\<lambda>t. at_status t = RUNNING) (dvalues (s_tasks s))) =
     (case s_active_task_id s of None \<Rightarrow> [] | Some a \<Rightarrow> [a])" (is "?ids = _")
proof -
  note wf = focus_wf [OF assms]
  have d: "distinct ?ids" by (rule distinct_map_filter [OF task_ids_distinct [OF wf]])
  have "set ?ids = {k. s_active_task_id s = Some k}"
  proof -
    have "k \<in> set ?ids \<longleftrightarrow> (\<exists>t. dget (s_tasks s) k = Some t \<and> at_status t = RUNNING)" for k
    proof
      assume "k \<in> set ?ids"
      then obtain t where "t \<in> set (dvalues (s_tasks s))" "at_status t = RUNNING" "k = at_task_id t" by auto
      then show "\<exists>t. dget (s_tasks s) k = Some t \<and> at_status t = RUNNING" using wf_tasksD(3) [OF wf] by blast
    next
      assume "\<exists>t. dget (s_tasks s) k = Some t \<and> at_status t = RUNNING"
      then obtain t where t: "dget (s_tasks s) k = Some t" "at_status t = RUNNING" by blast
      then have "t \<in> set (dvalues (s_tasks s))" by (rule_tac dget_Some_in)
      then show "k \<in> set ?ids" using t wf_tasksD(1) [OF wf t(1)] by force
    qed
    then show ?thesis using assms by (auto simp: focus_inv_def exclusive_focus_def)
  qed
  then show ?thesis using d by (cases "s_active_task_id s") (simp_all add: distinct_set_single del: set_map)
qed

lemma created_distinct:
  assumes wf: "wf_tasks s"
  shows "distinct (map at_created_seq (dvalues (s_tasks s)))"
proof -
  let ?ts = "dvalues (s_tasks s)"
  have ids: "distinct ?ts" "inj_on at_task_id (set ?ts)"
    using task_ids_distinct [OF wf] by (simp_all only: distinct_map)
  have "inj_on at_created_seq (set ?ts)"
  proof (rule inj_onI)
    fix t t' assume t: "t \<in> set ?ts" "t' \<in> set ?ts" and "at_created_seq t = at_created_seq t'"
    then have "at_task_id t = at_task_id t'"
      using wf wf_tasksD(3) [OF wf t(1)] wf_tasksD(3) [OF wf t(2)] by (metis wf_tasks_def)
    then show "t = t'" using ids(2) t by (simp only: inj_on_def)
  qed
  then show ?thesis using ids(1) by (simp only: distinct_map)
qed

text \<open>C24. The code's own check of the focus state never raises in a run that keeps to the contract. The run
  starts from the constructor; each submitted task is a value of the constructor of tasks, and \<^verbatim>\<open>complete_task\<close>
  is never called on the task that owns focus or waits for it. Whatever other calls were made, returning or
  raising, the running tasks are then exactly the active one, the task waiting for a checkpoint is queued,
  and creation numbers and event ids are unique.\<close>

theorem reachable_focus_valid:
  assumes "init_scheduler g b v = Inr s0" and "contracts uuid5 intent_json dump cs s0"
  shows "validate_focus (run_calls uuid5 intent_json dump cs s0) = Inr ()"
proof -
  let ?s = "run_calls uuid5 intent_json dump cs s0"
  from constructed_inv [OF assms] have inv: "focus_inv ?s" and "version_inv ?s" by (simp_all add: book_inv_def)
  moreover have "\<exists>t. dget (s_tasks ?s) p = Some t \<and> at_status t = QUEUED"
    if "s_pending_preemption_task_id ?s = Some p" for p
    using inv that by (simp add: focus_inv_def exclusive_focus_def)
  ultimately show ?thesis
    using created_distinct [OF focus_wf [OF inv]]
    by (auto simp: validate_focus_def Let_def running_list [OF inv] version_inv_def
        split: option.splits)
qed

lemma log_run:
  assumes "focus_inv s" and "book_inv L K s" and "dget (s_tasks s) k = Some t"
  shows "life_cycle_run NEW (task_log k (s_transitions s)) (at_status t)"
  by (rule chained_run)
    (use assms in \<open>auto simp: book_inv_def log_inv_def focus_inv_def legal_log_def task_log_def\<close>)

text \<open>C25. The log is the history. In every run from the constructor in which submitted tasks are values of
  the constructor of tasks and \<^verbatim>\<open>complete_task\<close> is never called on the task that owns focus or waits for it,
  the recorded transitions of a task, in order, are a run of the task life cycle from its creation to its
  present status.\<close>

theorem reachable_log_replays:
  assumes "init_scheduler g b v = Inr s0" and "contracts uuid5 intent_json dump cs s0"
    and "dget (s_tasks (run_calls uuid5 intent_json dump cs s0)) k = Some t"
  shows "life_cycle_run NEW (task_log k (s_transitions (run_calls uuid5 intent_json dump cs s0))) (at_status t)"
  using constructed_inv [OF assms(1,2)] by (blast intro: log_run assms(3))

lemma later_calls:
  assumes "focus_inv s" and "book_inv [] {} s" and "contracts uuid5 intent_json dump ds s"
    and "s' = run_calls uuid5 intent_json dump ds s"
  shows "focus_inv s'" and "book_inv [] {} s'" and "prefix (s_transitions s) (s_transitions s')"
    and "set (dkeys (s_tasks s)) \<subseteq> set (dkeys (s_tasks s'))"
proof -
  have "book_inv (s_transitions s) (set (dkeys (s_tasks s))) s" using assms(2) by (simp add: book_inv_def)
  from calls_inv [OF assms(3,1) this] calls_inv [OF assms(3,1,2)] assms(4)
  show "focus_inv s'" and "book_inv [] {} s'" and "prefix (s_transitions s) (s_transitions s')"
    and "set (dkeys (s_tasks s)) \<subseteq> set (dkeys (s_tasks s'))" by (simp_all add: book_inv_def)
qed

text \<open>C26. Finished is final. In every run from the constructor in which submitted tasks are values of the
  constructor of tasks and \<^verbatim>\<open>complete_task\<close> is never called on the task that owns focus or waits for it, once
  a task is completed or failed no later call of the run changes its status or removes it.\<close>

theorem finished_tasks_stay_finished:
  assumes "init_scheduler g b v = Inr s0" and "contracts uuid5 intent_json dump cs s0"
    and "s = run_calls uuid5 intent_json dump cs s0" and "contracts uuid5 intent_json dump ds s"
    and "dget (s_tasks s) k = Some t" and "at_status t \<in> {COMPLETED, FAILED}"
  shows "\<exists>t'. dget (s_tasks (run_calls uuid5 intent_json dump ds s)) k = Some t' \<and> at_status t' = at_status t"
proof -
  let ?s = "run_calls uuid5 intent_json dump ds s"
  have inv: "focus_inv s" "book_inv [] {} s" using constructed_inv [OF assms(1,2)] by (simp_all add: assms(3))
  note st = later_calls [OF inv assms(4) refl]
  have "k \<in> set (dkeys (s_tasks ?s))" using st(4) assms(5) by (force dest: map_of_SomeD)
  then obtain t' where t': "dget (s_tasks ?s) k = Some t'" by (metis not_None_eq map_of_eq_None_iff set_map)
  obtain new where new: "s_transitions ?s = s_transitions s @ new" using st(3) by (auto simp: prefix_def)
  have "life_cycle_run NEW (task_log k (s_transitions s)) (at_status t)" by (rule log_run [OF inv assms(5)])
  moreover have "life_cycle_run NEW (task_log k (s_transitions ?s)) (at_status t')" by (rule log_run [OF st(1,2) t'])
  ultimately have "life_cycle_run (at_status t) (task_log k new) (at_status t')"
    by (auto simp: new run_append dest: run_functional)
  then show ?thesis using run_from_terminal [OF _ assms(6)] t' by blast
qed

section \<open>A run of the machine\<close>

text \<open>A background task is submitted, takes focus, is displaced by an urgent one, which completes.\<close>

definition sample_calls :: "call list" where
  "sample_calls = [Submit sample_background, ReconcileFocus, Submit sample_urgent, ReconcileFocus]"

definition sample_displaced :: scheduler where
  "sample_displaced = run_calls sample_uuid5 (\<lambda>_. []) (\<lambda>_. []) sample_calls sample_idle"

definition sample_finished :: scheduler where
  "sample_finished = run_calls sample_uuid5 (\<lambda>_. []) (\<lambda>_. []) (sample_calls @ [CompleteActive None]) sample_idle"

lemma sample_contracts:
  "contracts sample_uuid5 (\<lambda>_. []) (\<lambda>_. []) sample_calls sample_idle"
  "contracts sample_uuid5 (\<lambda>_. []) (\<lambda>_. []) (sample_calls @ [CompleteActive None]) sample_idle"
  by (simp_all add: sample_calls_def sample_wf)

definition status_of :: "uuid \<Rightarrow> scheduler \<Rightarrow> task_status option" where
  "status_of k s = map_option at_status (dget (s_tasks s) k)"

definition log_of :: "uuid \<Rightarrow> scheduler \<Rightarrow> task_status list" where
  "log_of k s = map tt_to_status (task_log k (s_transitions s))"

lemma sample_evaluated:
  "status_of 2 sample_finished = Some COMPLETED \<and> status_of 1 sample_finished = Some QUEUED \<and>
   log_of 1 sample_finished = [QUEUED, RUNNING, SUSPENDED, QUEUED] \<and>
   s_active_task_id sample_displaced = Some 2"
  by code_simp

theorem reachable_focus_valid_witness:
  "s_active_task_id sample_displaced = Some 2 \<and> validate_focus sample_displaced = Inr ()"
  using reachable_focus_valid [OF sample_idle_init sample_contracts(1)] sample_evaluated
  by (simp flip: sample_displaced_def)

theorem reachable_log_replays_witness:
  "life_cycle_run NEW (task_log 1 (s_transitions sample_finished)) QUEUED \<and>
   log_of 1 sample_finished = [QUEUED, RUNNING, SUSPENDED, QUEUED]"
  using reachable_log_replays [OF sample_idle_init sample_contracts(2), of 1, folded sample_finished_def] sample_evaluated
  by (auto simp: status_of_def)

theorem finished_tasks_stay_finished_witness:
  "status_of 2 (run_calls sample_uuid5 (\<lambda>_. []) (\<lambda>_. []) [CompleteTask 1 None, FailActive None] sample_finished) =
     Some COMPLETED"
proof -
  obtain t where t: "dget (s_tasks sample_finished) 2 = Some t" "at_status t = COMPLETED"
    using sample_evaluated by (auto simp: status_of_def)
  have "s_active_task_id sample_finished = None \<and> s_pending_preemption_task_id sample_finished = None"
    by code_simp
  then have "contracts sample_uuid5 (\<lambda>_. []) (\<lambda>_. []) [CompleteTask 1 None, FailActive None] sample_finished" by simp
  from finished_tasks_stay_finished [OF sample_idle_init sample_contracts(2) sample_finished_def this t(1)] t(2)
  show ?thesis by (auto simp: status_of_def)
qed

end
