(* ===== verification/Contention.thy ===== *)
theory Contention
  imports Lifecycle
begin

text \<open>
  What the planner does with contention: the victims it selects always free enough capacity for the
  task they make way for, so its internal consistency check never fires; every task a plan admits is
  runnable; and a commit publishes exactly the plan.
\<close>

section \<open>Releasing victims frees their units\<close>

lemma units_of_class:
  assumes "distinct (map er_resource_id enabled)" and "on_pools enabled rs"
  shows "(\<Sum>p\<leftarrow>resources_by_class enabled c. units_on (er_resource_id p) rs) = class_units c rs"
  using assms(2)
proof (induction rs)
  case (Cons r rs)
  from Cons.prems obtain p where p: "p \<in> set enabled" "rr_resource_id r = er_resource_id p"
    "rr_resource_class r = er_resource_class p" by (auto simp: on_pools_def)
  have inj: "q = p" if "q \<in> set enabled" "er_resource_id q = er_resource_id p" for q
    using assms(1) that p(1) by (auto simp: distinct_map inj_on_def)
  have d: "distinct (resources_by_class enabled c)"
    using assms(1) by (simp add: resources_by_class_def distinct_map)
  have "(\<Sum>q\<leftarrow>resources_by_class enabled c. if rr_resource_id r = er_resource_id q then rr_units r else 0) =
      (\<Sum>q\<leftarrow>resources_by_class enabled c. if q = p then rr_units r else 0)"
    by (intro arg_cong [where f = sum_list] map_cong) (use p inj in \<open>auto simp: resources_by_class_def\<close>)
  also have "\<dots> = (if rr_resource_class r = c then rr_units r else 0)"
    using d p by (auto simp: sum_list_distinct_conv_sum_set sum.If_cases resources_by_class_def)
  finally show ?case using Cons by (auto simp: on_pools_def sum_list_addf)
qed (simp add: class_units_def)

lemma task_class_units_Cons:
  "task_class_units t c (r # rs) = (if rr_task_id r = t then class_units c [r] else 0) + task_class_units t c rs"
  by (simp add: task_class_units_def)

lemma class_units_victims:
  assumes "distinct ts"
  shows "class_units c (filter (\<lambda>r. rr_task_id r \<in> set ts) rs) = (\<Sum>t\<leftarrow>ts. task_class_units t c rs)"
proof (induction rs)
  case (Cons r rs)
  have "(\<Sum>t\<leftarrow>ts. if rr_task_id r = t then class_units c [r] else 0) =
      (if rr_task_id r \<in> set ts then class_units c [r] else 0)"
    using assms by (simp add: sum_list_distinct_conv_sum_set)
  then show ?case using Cons
    by (simp add: task_class_units_Cons sum_list_addf del: class_units_simps(2)) simp
qed (simp add: task_class_units_def class_units_def)

lemma release_pool_units:
  assumes "account s enabled cap rem rs admitted" and "rfold (release_unit (set ts)) rs rem = Inr rem'"
    and "distinct ts"
  shows "pool_units (resources_by_class enabled c) rem' =
    pool_units (resources_by_class enabled c) rem + (\<Sum>t\<leftarrow>ts. task_class_units t c rs)"
proof -
  let ?rs = "filter (\<lambda>r. rr_task_id r \<in> set ts) rs"
  have "pool_units (resources_by_class enabled c) rem' = (\<Sum>p\<leftarrow>resources_by_class enabled c.
      dval rem (er_resource_id p) + units_on (er_resource_id p) ?rs)"
    using release_units_result [OF assms(2)] by (simp add: pool_units_def)
  also have "\<dots> = pool_units (resources_by_class enabled c) rem + class_units c ?rs"
    using units_of_class [of enabled ?rs c] assms(1)
    by (simp add: pool_units_def sum_list_addf account_def pools_ready_def on_pools_def)
  finally show ?thesis using class_units_victims [OF assms(3)] by simp
qed

text \<open>A candidate offers exactly the units that its task holds of the missing classes.\<close>

lemma dval_map_key: "c \<in> set ks \<Longrightarrow> dval (map (\<lambda>c. (c, f c)) ks) c = f c"
  by (induction ks) (auto simp: dval_def)

lemma victim_candidates_offer:
  assumes "victim_candidates s V ps task d = Inr cs" and "x \<in> set cs" and "c \<in> set (dkeys d)"
  shows "dval (pc_released_units x) c = task_class_units (pc_task_id x) c (ps_reservations ps)"
proof -
  from assms obtain xs where xs: "rmap (victim_candidate s V ps task d) (enumerate 0 (ps_assignments ps)) = Inr xs"
    "cs = List.map_filter id xs" by (auto simp: victim_candidates_def)
  with assms(2) have "Some x \<in> set xs" by (auto simp: map_filter_def)
  with xs(1) obtain ia where "victim_candidate s V ps task d ia = Inr (Some x)" by (blast dest: rmap_in)
  then have "pc_released_units x = map (\<lambda>c. (c, class_units c (filter (\<lambda>r. rr_task_id r = pc_task_id x)
      (ps_reservations ps)))) (dkeys d)"
    by (auto simp: victim_candidate_def Let_def split: if_splits)
  then show ?thesis using dval_map_key [OF assms(3)] by (simp only: task_class_units_def)
qed

text \<open>After the selected victims are released, the contract of the task can be granted.\<close>

lemma release_grants:
  assumes inv: "plan_inv s enabled cap ps" and task: "dget (s_tasks s) t = Some task"
    and d: "resource_class_deficits task (ps_remaining ps) (resources_by_class enabled) = Inr d"
    and cs: "victim_candidates s V ps task d = Inr cs"
    and sel: "select_minimum_victims d cs = Inr (Some selected)"
    and rel: "release_selected (set (map pc_task_id selected)) ps = Inr ps1"
  shows "\<exists>al. allocate_task_resources uuid5 task (ps_remaining ps1) (resources_by_class enabled) = Inr (Some al)"
proof -
  let ?qs = "quantitative_resource_requirements (at_metadata task)" and ?ts = "map pc_task_id selected"
  note ac = inv [unfolded plan_inv_def]
  have wf: "wf_metadata (at_metadata task)"
    using wf_tasksD(2) [OF plan_inv_wf [OF inv] task] by (simp add: wf_task_def)
  have rem: "rfold (release_unit (set ?ts)) (ps_reservations ps) (ps_remaining ps) = Inr (ps_remaining ps1)"
    using rel by (auto simp: release_selected_def)
  have ready: "pools_ready enabled (ps_remaining ps)" using ac by (simp add: account_def)
  have d_eq: "d = map (\<lambda>q. (rq_resource_class q, deficit enabled (ps_remaining ps) q))
      (filter (\<lambda>q. deficit enabled (ps_remaining ps) q \<noteq> 0) ?qs)"
    using resource_class_deficits_eq [OF ready wf] d by simp
  note sound = select_minimum_victims_sound [OF sel deficits_distinct [OF inv task d]]
  note units = release_pool_units [OF ac rem sound(3)]
  have rel_units: "(\<Sum>t\<leftarrow>?ts. task_class_units t c (ps_reservations ps)) = released selected c"
    if "c \<in> set (dkeys d)" for c
    unfolding released_def map_map o_def
    by (intro arg_cong [where f = sum_list] map_cong refl)
      (use victim_candidates_offer [OF cs _ that] sound(2) in auto)
  have inv1: "plan_inv s enabled cap ps1" by (rule release_selected_inv [OF inv rel])
  have "grantable enabled ?qs (ps_remaining ps1)"
    unfolding grantable_def
  proof
    fix q assume q: "q \<in> set ?qs"
    let ?c = "rq_resource_class q" and ?p = "resources_by_class enabled (rq_resource_class q)"
    have "0 \<le> task_class_units t ?c (ps_reservations ps)" for t
      unfolding task_class_units_def class_units_def
      by (intro sum_list_nonneg) (use ac in \<open>force simp: account_def on_pools_def\<close>)
    then have nn: "0 \<le> (\<Sum>t\<leftarrow>?ts. task_class_units t ?c (ps_reservations ps))"
      by (intro sum_list_nonneg) auto
    show "rq_units q \<le> pool_units ?p (ps_remaining ps1)"
    proof (cases "deficit enabled (ps_remaining ps) q = 0")
      case True
      then show ?thesis using units [of ?c] nn by (simp add: deficit_def)
    next
      case False
      then have "(?c, deficit enabled (ps_remaining ps) q) \<in> set d" using q by (auto simp: d_eq)
      moreover have "0 < deficit enabled (ps_remaining ps) q" using False by (simp add: deficit_def)
      ultimately have "deficit enabled (ps_remaining ps) q \<le> released selected ?c" "?c \<in> set (dkeys d)"
        using sound(1) by (force simp: covers_def)+
      then show ?thesis using units [of ?c] rel_units by (simp add: deficit_def)
    qed
  qed
  then show ?thesis
    using allocate_spec [where enabled = enabled and rem = "ps_remaining ps1" and task = task and ?uuid5.0 = uuid5]
      inv1 account_nonneg [OF inv1 [unfolded plan_inv_def]] wf
    by (auto simp: plan_inv_def account_def)
qed

section \<open>Errors that cannot occur\<close>

definition selection_error :: py_error where
  "selection_error = RuntimeError ''Deterministic victim selection failed to satisfy its deficits''"

definition spared :: "'a res \<Rightarrow> bool" where
  "spared m \<longleftrightarrow> m \<noteq> Inl selection_error"

lemma spared_simps [simp]:
  "spared (Inr x)" "spared (Inl (ValueError msg))" "spared (Inl KeyError)"
  "spared (Inl (ResourceObservationError msg))"
  "spared (raise_if c (ValueError msg) k) \<longleftrightarrow> c \<or> spared k"
  "spared (raise_if c (ResourceObservationError msg) k) \<longleftrightarrow> c \<or> spared k"
  by (auto simp: spared_def selection_error_def raise_if_def)

lemma spared_rbind:
  "spared m \<Longrightarrow> (\<And>x. m = Inr x \<Longrightarrow> spared (f x)) \<Longrightarrow> spared (rbind m f)"
  by (cases m) (auto simp: spared_def)

lemma spared_rfold:
  assumes "\<And>x s. x \<in> set xs \<Longrightarrow> P s \<Longrightarrow> spared (f x s)"
    and "\<And>x s s'. x \<in> set xs \<Longrightarrow> P s \<Longrightarrow> f x s = Inr s' \<Longrightarrow> P s'" and "P s"
  shows "spared (rfold f xs s)"
  using assms
proof (induction xs arbitrary: s)
  case (Cons x xs)
  have "spared (rfold f xs s')" if "f x s = Inr s'" for s'
    by (rule Cons.IH) (use Cons.prems that in \<open>auto intro: Cons.prems(1,2)\<close>)
  then show ?case using Cons.prems(1,3) by (auto intro!: spared_rbind)
qed simp

lemma spared_rfold': "(\<And>x s. spared (f x s)) \<Longrightarrow> spared (rfold f xs s)"
  by (rule spared_rfold [where P = "\<lambda>_. True"]) simp_all

lemma spared_rmap: "(\<And>x. spared (f x)) \<Longrightarrow> spared (rmap f xs)"
  by (induction xs) (auto intro!: spared_rbind)

lemma spared_rcheck: "(\<And>x. spared (f x)) \<Longrightarrow> spared (rcheck f xs)"
  unfolding rcheck_def by (rule spared_rfold') simp

lemmas spared_intros = spared_rbind spared_rfold' spared_rmap spared_rcheck

lemma spared_dlookup [simp]: "spared (dlookup d k)"
  by (simp add: dlookup_def split: option.split)

lemma spared_ids [simp]:
  "spared (deterministic_reservation_id uuid5 t r)" "spared (deterministic_assignment_id uuid5 t n m rs)"
  "spared (deterministic_preemption_id uuid5 t n vs m)" "spared (deterministic_epoch_id uuid5 j e)"
  by (auto simp: deterministic_reservation_id_def deterministic_assignment_id_def
      deterministic_preemption_id_def deterministic_epoch_id_def Let_def split: option.split intro!: spared_intros)

lemma spared_constructors [simp]:
  "spared (mk_ResourceReservation i t r cls n)" "spared (validate_assignment a)" "spared (validate_intent p)"
  "spared (make_preemption_event uuid5 p ty n m reason c)"
  "spared (make_selection_preemption_event uuid5 pid t vs as ty n m reason c)"
  "spared (new_assignment uuid5 t rs n s)"
  by (auto simp: mk_ResourceReservation_def normalize_resource_id_def validate_assignment_def validate_intent_def
      make_preemption_event_def make_selection_preemption_event_def validate_event_def new_assignment_def Let_def
      split: option.split intro!: spared_intros)

lemma spared_validate [simp]: "spared (validate_snapshot uuid5 j s)"
proof -
  have 1: "spared (validate_focus s)" "spared (validate_admitted s)" "spared (validate_no_epoch s)"
    "spared (validate_epoch_header s e)" "spared (validate_epoch_observation s e u)" for e u
    by (auto simp: validate_focus_def Let_def validate_admitted_def validate_admitted_task_def validate_no_epoch_def
        validate_epoch_header_def validate_epoch_observation_def split: option.split intro!: spared_intros)
  have 2: "spared (validate_reservations uuid5 s)"
    by (auto simp: validate_reservations_def audit_reservation_def validate_contract_def Let_def split: option.split
        intro!: spared_intros)
  have 3: "spared (validate_epoch_assignments uuid5 s e)" for e
    by (auto simp: validate_epoch_assignments_def validate_assignment_state_def Let_def split: option.split
        intro!: spared_intros)
  have 4: "spared (validate_pending uuid5 s d p acc)" for d p acc
    by (auto simp: validate_pending_def validate_victim_def Let_def split: option.split intro!: spared_intros)
  show ?thesis
    by (auto simp: validate_snapshot_def validate_epoch_def 1 2 3 split: option.split prod.split
        intro!: spared_intros 4)
qed

lemma spared_runtime [simp]:
  "spared (Inl (RuntimeError msg)) \<longleftrightarrow> RuntimeError msg \<noteq> selection_error"
  "spared (raise_if c (RuntimeError msg) k) \<longleftrightarrow> (c \<longrightarrow> RuntimeError msg \<noteq> selection_error) \<and> (c \<or> spared k)"
  by (auto simp: spared_def raise_if_def)

lemma other_errors [simp]:
  "RuntimeError ''Active task resource requirements exceed the safe capacity envelope'' \<noteq> selection_error"
  "RuntimeError ''Committed reservation resource is unavailable'' \<noteq> selection_error"
  "RuntimeError ''Committed reservations exceed safe resource capacity'' \<noteq> selection_error"
  by (simp_all add: selection_error_def)

lemma spared_allocate_requirement [simp]: "spared (allocate_requirement uuid5 t ps n rs rem)"
  by (induction uuid5 t ps n rs rem rule: allocate_requirement.induct)
    (auto simp: Let_def intro!: spared_intros)

lemma spared_allocate_requirements [simp]: "spared (allocate_requirements uuid5 t by_class qs rs rem)"
  by (induction uuid5 t by_class qs rs rem rule: allocate_requirements.induct)
    (auto simp: Let_def intro!: spared_intros split: prod.split)

lemma spared_hold_requirement [simp]: "spared (hold_requirement n ps held rem)"
  by (induction n ps held rem rule: hold_requirement.induct) (auto simp: Let_def intro!: spared_intros)

lemma spared_operations [simp]:
  "spared (allocate_task_resources uuid5 task rem by_class)"
  "spared (resource_class_deficits task rem by_class)"
  "spared (hold_for task by_class ps)"
  "spared (select_minimum_victims d cs)"
  "spared (admit_with_allocation uuid5 s t al ps)"
  "spared (release_selected V ps)"
  "spared (keep_assignment a rs ps)"
  "spared (planning_observation s)"
  by (auto simp: allocate_task_resources_def resource_class_deficits_def class_deficit_def hold_for_def
      hold_available_task_capacity_def select_minimum_victims_def admit_with_allocation_def release_selected_def
      release_unit_def keep_assignment_def consume_preserved_reservations_def consume_reservation_def
      planning_observation_def Let_def split: option.split intro!: spared_intros)

lemma spared_planner [simp]:
  "spared (planning_remaining observation enabled)"
  "spared (preserve_committed uuid5 s rem)"
  "spared (resolve_intent uuid5 s allow by_class i ps)"
  "spared (victim_candidates s V ps task d)"
  "spared (request_checkpoint uuid5 s by_class task selected pid ps)"
  "spared (build_plan uuid5 j s observation ps)"
  by (auto simp: planning_remaining_def pool_envelope_def preserve_committed_def preserve_assignment_def
      preserve_admitted_def consume_preserved_reservations_def consume_reservation_def resolve_intent_def
      execute_intent_def release_unit_def victim_candidates_def victim_candidate_def request_checkpoint_def
      build_plan_def normalize_complete_set_def validate_complete_plan_def collect_intent_def Let_def
      split: option.split prod.split intro!: spared_intros)

text \<open>The selection check of a preemption is decided by \<open>release_grants\<close>.\<close>

lemma spared_contend:
  assumes inv: "plan_inv s enabled cap ps" and task: "dget (s_tasks s) t = Some task"
  shows "spared (contend uuid5 s (resources_by_class enabled) V task ps)"
  unfolding contend_def
proof (intro spared_rbind)
  fix d cs result
  assume d: "resource_class_deficits task (ps_remaining ps) (resources_by_class enabled) = Inr d"
    and cs: "victim_candidates s V ps task d = Inr cs" and sel: "select_minimum_victims d cs = Inr result"
  have "spared (execute_preemption uuid5 s (resources_by_class enabled) task selected pid ps)"
    if "result = Some selected" for selected pid
    unfolding execute_preemption_def
  proof (intro spared_rbind)
    fix ps1 replacement
    assume "release_selected (set (map pc_task_id selected)) ps = Inr ps1"
      and "allocate_task_resources uuid5 task (ps_remaining ps1) (resources_by_class enabled) = Inr replacement"
    with release_grants [OF inv task d cs sel [unfolded that], of ps1 uuid5]
    show "spared (case replacement of
         None \<Rightarrow> Inl (RuntimeError ''Deterministic victim selection failed to satisfy its deficits'')
       | Some allocation \<Rightarrow>
         rbind (admit_with_allocation uuid5 s (at_task_id task) allocation ps1) (\<lambda>ps2.
         rbind (make_selection_preemption_event uuid5 pid (at_task_id task)
            (map pc_task_id selected) (map pc_assignment_id selected) EXECUTED (s_cycle s + 1)
            (s_epoch_sequence s + 1) ''minimum compatible preemptible victim set released'' None) (\<lambda>v.
         Inr (add_event v ps2))))"
      by (auto intro!: spared_intros)
  qed simp_all
  then show "spared (case result of
       None \<Rightarrow> Inr ps
     | Some selected \<Rightarrow>
         rbind (deterministic_preemption_id uuid5 (at_task_id task) (at_revision task)
            (map pc_assignment_id selected) (s_epoch_sequence s + 1)) (\<lambda>preemption_id.
         if filter pc_checkpoint_required selected \<noteq> []
         then request_checkpoint uuid5 s (resources_by_class enabled) task selected preemption_id ps
         else execute_preemption uuid5 s (resources_by_class enabled) task selected preemption_id ps))"
    by (auto split: option.split intro!: spared_intros)
qed simp_all

lemma spared_consider:
  assumes "plan_inv s enabled cap ps"
  shows "spared (consider_candidate uuid5 s (resources_by_class enabled) V t ps)"
  unfolding consider_candidate_def
  by (auto split: option.split intro!: spared_intros spared_contend [OF assms] simp: dlookup_eq_Inr)

lemma spared_plan_body:
  assumes "wf_scheduler s" and "wf_tasks s" and "wf_pending_observation s"
    and "validate_snapshot uuid5 j s = Inr ()" and "planning_observation s = Inr observation"
  shows "spared (plan_body uuid5 s observation)"
  unfolding plan_body_def Let_def
proof (intro spared_rbind)
  let ?en = "execution_resources True s"
  let ?allow = "case observation of None \<Rightarrow> True | Some ob \<Rightarrow> ob_healthy ob"
  fix rem ps0 ps1
  assume rem: "planning_remaining observation ?en = Inr rem"
    and ps0: "preserve_committed uuid5 s rem = Inr ps0"
    and ps1: "rfold (resolve_intent uuid5 s ?allow (resources_by_class ?en)) (pending_preemptions s) ps0 = Inr ps1"
  note st = start_account [OF assms(1-3,5) rem]
  have "plan_inv s ?en (dval rem) ps0" by (rule preserve_committed_inv [OF assms(1,4) st(1,2) ps0])
  then have "plan_inv s ?en (dval rem) ps1" by (rule intent_loop.loop_inv [OF _ ps1]) simp
  then show "spared (rfold (consider_candidate uuid5 s (resources_by_class ?en) (set (ps_admitted ps0)))
      (if ?allow then planning_candidates s ps1 else []) ps1)"
    by (rule spared_rfold [where P = "plan_inv s ?en (dval rem)", rotated 2])
      (blast intro: spared_consider consider_candidate_inv)+
qed (simp_all add: spared_rfold')

text \<open>C27. Selected victims always suffice: the planner's internal consistency check, which raises when
  the released victims do not make room for the task that displaces them, never fires.\<close>

theorem victim_selection_suffices:
  assumes "wf_scheduler s" and "wf_tasks s" and "wf_pending_observation s"
  shows "fst (plan_scheduling_epoch uuid5 intent_json s) \<noteq>
    Inl (RuntimeError ''Deterministic victim selection failed to satisfy its deficits'')"
proof -
  have "spared (compute_plan uuid5 intent_json s)"
    unfolding compute_plan_def by (intro spared_rbind spared_plan_body [OF assms]) simp_all
  then show ?thesis
    by (auto simp: plan_scheduling_epoch_def spared_def selection_error_def split: option.splits sum.splits)
qed

theorem victim_selection_suffices_witness:
  "fst (plan_scheduling_epoch sample_uuid5 (\<lambda>_. []) sample_contended) \<noteq>
    Inl (RuntimeError ''Deterministic victim selection failed to satisfy its deficits'')"
  using sample_contended_checked settledD [of sample_contended]
  by (intro victim_selection_suffices) (simp_all add: check_contended_def)

section \<open>A commit publishes the plan\<close>

lemma find_in: "find P xs = Some x \<Longrightarrow> x \<in> set xs"
  by (induction xs) (auto split: if_splits)

lemma append_event_result:
  assumes "append_preemption_event v s = (Inr u, s')"
  shows "set (s_preemption_events s') = insert v (set (s_preemption_events s))"
proof (cases "find (\<lambda>x. pv_event_id x = pv_event_id v) (s_preemption_events s)")
  case None
  with assms show ?thesis by (auto simp: append_preemption_event_def)
next
  case (Some x)
  with assms find_in [OF Some] show ?thesis by (auto simp: append_preemption_event_def split: if_splits)
qed

lemma append_events_result:
  "sfold append_preemption_event vs s = (Inr u, s') \<Longrightarrow>
     set (s_preemption_events s') = set (s_preemption_events s) \<union> set vs"
proof (induction vs arbitrary: s)
  case (Cons v vs)
  then obtain x s1 where "append_preemption_event v s = (Inr x, s1)" "sfold append_preemption_event vs s1 = (Inr u, s')"
    by (auto simp: sbind_eq_Inr)
  with Cons.IH append_event_result show ?case by fastforce
qed simp

lemma commit_result:
  assumes "commit_pending_epoch uuid5 j i s = (Inr u, s2)" and "s_pending_epoch_plan s = Some plan"
  obtains es where "s2 = (publish_plan plan s)\<lparr>s_preemption_events := es,
      s_current_resource_observation := pl_resource_observation plan,
      s_pending_resource_observation := None, s_pending_epoch_plan := None\<rparr>"
    and "set es = set (s_preemption_events s) \<union> set (pl_preemption_events plan)"
    and "validate_snapshot uuid5 j s2 = Inr ()"
proof -
  obtain r s1 where f: "sfold append_preemption_event (pl_preemption_events plan) (publish_plan plan s) = (r, s1)"
    by fastforce
  obtain es where s1: "s1 = (publish_plan plan s)\<lparr>s_preemption_events := es\<rparr>"
    using append_events_only [OF f] by blast
  have r: "r = Inr ()" using assms f by (cases r) (auto simp: commit_pending_epoch_def split: if_splits)
  have "set es = set (s_preemption_events s) \<union> set (pl_preemption_events plan)"
    using append_events_result [of "pl_preemption_events plan" "publish_plan plan s" "()" s1] f r
    by (simp add: s1) (simp add: publish_plan_def Let_def)
  moreover have "s2 = (publish_plan plan s)\<lparr>s_preemption_events := es,
      s_current_resource_observation := pl_resource_observation plan,
      s_pending_resource_observation := None, s_pending_epoch_plan := None\<rparr>"
    and "validate_snapshot uuid5 j s2 = Inr ()"
    using assms f r by (auto simp: commit_pending_epoch_def s1 Let_def split: if_splits)
  ultimately show thesis by (intro that)
qed

lemma rmap_dlookup_dict_of:
  "distinct (map key xs) \<Longrightarrow> rmap (dlookup (dict_of key xs)) (map key xs) = Inr xs"
  by (auto simp: rmap_eq_Inr list_all2_conv_all_nth dict_of_distinct o_def intro!: map_of_is_SomeI)

text \<open>C28. Planning is free of side effects on committed state, and a commit makes exactly the plan
  visible: before the commit workers see the old assignments; after it they see the plan's assignments,
  reservations, admitted tasks and intents, all planned events are recorded, the epoch and cycle advance
  by one, and no task is touched.\<close>

theorem commit_publishes_plan:
  assumes "s_pending_epoch_plan s = None" and "plan_scheduling_epoch uuid5 intent_json s = (Inr plan, s1)"
    and "commit_pending_epoch uuid5 intent_json (ep_epoch_id (pl_epoch plan)) s1 = (Inr u, s2)"
  shows "worker_visible_assignments s1 = worker_visible_assignments s \<and>
    resource_reservations s1 = resource_reservations s \<and>
    worker_visible_assignments s2 = Inr (pl_assignments plan) \<and>
    s_admitted_task_ids s2 = pl_admitted_task_ids plan \<and>
    resource_reservations s2 = ep_reservations (pl_epoch plan) \<and>
    (distinct (map pp_preemption_id (pl_pending_preemptions plan)) \<longrightarrow>
       pending_preemptions s2 = pl_pending_preemptions plan) \<and>
    set (s_preemption_events s2) = set (s_preemption_events s) \<union> set (pl_preemption_events plan) \<and>
    s_cycle s2 = s_cycle s + 1 \<and> s_epoch_sequence s2 = s_epoch_sequence s + 1 \<and>
    s_tasks s2 = s_tasks s \<and> s_transitions s2 = s_transitions s"
proof -
  note c = plan_scheduling_epoch_cases [OF assms(2,1)]
  from c(1) obtain observation ps where b: "build_plan uuid5 intent_json s observation ps = Inr plan"
    by (rule compute_plan_parts)
  from b obtain i where plan: "plan = \<lparr>pl_epoch = (plan_epoch_record s observation ps)\<lparr>ep_epoch_id := i\<rparr>,
        pl_admitted_task_ids = ps_admitted ps,
        pl_unadmitted_task_ids = planning_unadmitted s (ps_admitted ps),
        pl_assignments = ps_assignments ps,
        pl_pending_preemptions = sort_key pending_preemption_sort_key (ps_carried ps),
        pl_preemption_events = ps_events ps, pl_resource_observation = observation\<rparr>"
    by (rule build_plan_record)
  note r = build_plan_result [OF b]
  have idem: "sort_key f (sort_key f xs) = sort_key f xs" for f :: "'x \<Rightarrow> 'y::linorder" and xs
    by (rule properties_for_sort_key) simp_all
  have ids: "distinct (map rr_reservation_id (sort_key resource_reservation_sort_key (ps_reservations ps)))"
    using r(12) by (metis mset_eq_imp_distinct_iff mset_map mset_sort)
  have "s_pending_epoch_plan s1 = Some plan" by (simp add: c(2))
  from commit_result [OF assms(3) this] obtain es where
    s2: "s2 = (publish_plan plan s1)\<lparr>s_preemption_events := es,
      s_current_resource_observation := pl_resource_observation plan,
      s_pending_resource_observation := None, s_pending_epoch_plan := None\<rparr>"
    and es: "set es = set (s_preemption_events s1) \<union> set (pl_preemption_events plan)" by blast
  have "worker_visible_assignments s2 = Inr (ps_assignments ps)"
    using r(11) rmap_dlookup_dict_of [of da_assignment_id "ps_assignments ps"]
    by (simp add: s2 worker_visible_assignments_def publish_plan_def Let_def plan plan_epoch_record_def)
  moreover have "resource_reservations s2 = sort_key resource_reservation_sort_key (ps_reservations ps)"
    using ids by (simp add: s2 resource_reservations_def publish_plan_def Let_def plan plan_epoch_record_def idem)
  moreover have "pending_preemptions s2 = pl_pending_preemptions plan"
    if "distinct (map pp_preemption_id (pl_pending_preemptions plan))"
    using that by (simp add: s2 pending_preemptions_def publish_plan_def Let_def plan idem)
  moreover have "worker_visible_assignments s1 = worker_visible_assignments s"
    "resource_reservations s1 = resource_reservations s" "s_preemption_events s1 = s_preemption_events s"
    by (simp_all add: c(2) worker_visible_assignments_def resource_reservations_def split: option.split)
  moreover have "s_admitted_task_ids s2 = ps_admitted ps" "s_preemption_events s2 = es"
    "s_cycle s2 = s_cycle s + 1" "s_epoch_sequence s2 = s_epoch_sequence s + 1"
    "s_tasks s2 = s_tasks s" "s_transitions s2 = s_transitions s"
    by (simp_all add: s2 c(2) publish_plan_def Let_def plan plan_epoch_record_def)
  ultimately show ?thesis using es by (simp add: r(2,5)) (simp add: plan plan_epoch_record_def)
qed

section \<open>Admitted work is runnable\<close>

definition executable :: "scheduler \<Rightarrow> uuid \<Rightarrow> bool" where
  "executable s t \<longleftrightarrow> (\<exists>task. dget (s_tasks s) t = Some task \<and>
     (at_status task = QUEUED \<and> dependencies_satisfied s task \<or>
      at_status task = RUNNING \<and> s_active_task_id s = Some t))"

text \<open>A scheduler that has only admitted work under reservations and has no epoch yet passes its admission
  set on to the first epoch as it is, with the finished tasks that a restored snapshot may list in it.\<close>

definition finished_upgrade :: "scheduler \<Rightarrow> uuid \<Rightarrow> bool" where
  "finished_upgrade s t \<longleftrightarrow> s_current_epoch s = None \<and> t \<in> set (s_admitted_task_ids s) \<and>
     (\<exists>task. dget (s_tasks s) t = Some task \<and> at_status task \<in> {COMPLETED, FAILED})"

definition all_executable :: "scheduler \<Rightarrow> planning \<Rightarrow> bool" where
  "all_executable s ps \<longleftrightarrow> (\<forall>t\<in>set (ps_admitted ps). executable s t \<or> finished_upgrade s t)"

lemma all_executable_simps [simp]:
  "all_executable s (add_event v ps) = all_executable s ps"
  "all_executable s (carry_intent i ps) = all_executable s ps"
  "all_executable s (await_target u ps) = all_executable s ps"
  "all_executable s (ps\<lparr>ps_remaining := rem\<rparr>) = all_executable s ps"
  by (simp_all add: all_executable_def add_event_def carry_intent_def await_target_def)

lemma executable_hold: "hold_for task by_class ps = Inr ps' \<Longrightarrow> all_executable s ps \<Longrightarrow> all_executable s ps'"
  by (auto simp: hold_for_def)

lemma executable_admit:
  "admit_with_allocation uuid5 s' u al ps = Inr ps' \<Longrightarrow> all_executable s ps \<Longrightarrow> executable s u \<Longrightarrow>
     all_executable s ps'"
  by (auto simp: admit_with_allocation_def all_executable_def Let_def)

lemma executable_release: "release_selected V ps = Inr ps' \<Longrightarrow> all_executable s ps \<Longrightarrow> all_executable s ps'"
  by (auto simp: release_selected_def all_executable_def)

lemma executable_execute_intent:
  assumes "execute_intent uuid5 s by_class target i ps = Inr ps'" and "all_executable s ps"
    and "executable s (pp_target_task_id i)"
  shows "all_executable s ps'"
proof -
  consider v where "ps' = add_event v ps" | rem ps1 ps2 al v where
      "release_selected (set (pp_victim_task_ids i)) ps = Inr ps1"
      "admit_with_allocation uuid5 s (pp_target_task_id i) al (ps1\<lparr>ps_remaining := rem\<rparr>) = Inr ps2"
      "ps' = await_target (pp_target_task_id i) (add_event v ps2)"
    using assms(1) by (auto simp: execute_intent_def Let_def split: option.splits)
  then show ?thesis
  proof cases
    case 2
    then show ?thesis using executable_admit [OF 2(2)] executable_release [OF 2(1) assms(2)] assms(3) by simp
  qed (use assms(2) in simp)
qed

lemma resolve_intent_cases:
  assumes "resolve_intent uuid5 s allow by_class i ps = Inr ps'"
  obtains (carried) "ps' = carry_intent i ps"
  | (direct) al ps1 v where "admit_with_allocation uuid5 s (pp_target_task_id i) al ps = Inr ps1"
      and "ps' = await_target (pp_target_task_id i) (add_event v ps1)"
  | (held) target where "hold_for target by_class (carry_intent i ps) = Inr ps'"
  | (executed) target where "execute_intent uuid5 s by_class target i ps = Inr ps'"
  using assms by (cases allow) (auto simp: resolve_intent_def split: if_splits option.splits)

lemma executable_resolve_intent:
  assumes "resolve_intent uuid5 s allow by_class i ps = Inr ps'" and "all_executable s ps"
    and "executable s (pp_target_task_id i)"
  shows "all_executable s ps'"
  using assms(1)
proof (cases rule: resolve_intent_cases)
  case direct
  then show ?thesis using executable_admit [OF direct(1) assms(2,3)] by simp
next
  case held
  then show ?thesis using executable_hold [OF held] assms(2) by simp
next
  case executed
  then show ?thesis by (rule executable_execute_intent [OF _ assms(2,3)])
qed (use assms(2) in simp)

lemma executable_consider:
  assumes "consider_candidate uuid5 s by_class V t ps = Inr ps'" and "all_executable s ps"
    and "executable s t" and "wf_tasks s"
  shows "all_executable s ps'"
proof -
  from assms(1) obtain task result where task: "dget (s_tasks s) t = Some task"
    and alloc: "allocate_task_resources uuid5 task (ps_remaining ps) by_class = Inr result"
    by (auto simp: consider_candidate_def)
  have tid: "at_task_id task = t" by (rule wf_tasksD(1) [OF assms(4) task])
  show ?thesis
  proof (cases result)
    case (Some al)
    with assms(1) task alloc have "admit_with_allocation uuid5 s t al ps = Inr ps'"
      by (auto simp: consider_candidate_def)
    then show ?thesis by (rule executable_admit [OF _ assms(2,3)])
  next
    case None
    with assms(1) task alloc have "contend uuid5 s by_class V task ps = Inr ps'"
      by (auto simp: consider_candidate_def)
    then consider "ps' = ps" | sel pid where "request_checkpoint uuid5 s by_class task sel pid ps = Inr ps'"
      | sel pid where "execute_preemption uuid5 s by_class task sel pid ps = Inr ps'"
      by (auto simp: contend_def split: option.splits if_splits)
    then show ?thesis
    proof cases
      case 2
      then obtain i v where "hold_for task by_class (add_event v (carry_intent i ps)) = Inr ps'"
        by (auto simp: request_checkpoint_def)
      from executable_hold [OF this] assms(2) show ?thesis by simp
    next
      case 3
      then obtain ps1 al ps2 v where "release_selected (set (map pc_task_id sel)) ps = Inr ps1"
        "admit_with_allocation uuid5 s t al ps1 = Inr ps2" "ps' = add_event v ps2"
        unfolding execute_preemption_def by (auto split: option.splits simp: tid simp del: set_map)
      then show ?thesis
        using executable_admit [OF _ executable_release [OF _ assms(2)] assms(3)] by fastforce
    qed (use assms(2) in simp)
  qed
qed

interpretation executable_intents: result_loop "resolve_intent uuid5 s allow by_class" "all_executable s"
  "\<lambda>i. executable s (pp_target_task_id i)" for uuid5 s allow by_class
  by unfold_locales (rule executable_resolve_intent)

interpretation executable_candidates: result_loop "consider_candidate uuid5 s by_class V"
  "\<lambda>ps. wf_tasks s \<and> all_executable s ps" "executable s" for uuid5 s by_class V
  by unfold_locales (blast intro: executable_consider)

text \<open>Where the admitted tasks of a plan come from: committed assignments, targets of intents, and
  candidates of the pass.\<close>

lemma admitted_executable:
  assumes v: "validate_snapshot uuid5 j s = Inr ()" and "wf_tasks s" and "t \<in> set (s_admitted_task_ids s)"
    and task: "dget (s_tasks s) t = Some task" and "at_status task \<notin> {COMPLETED, FAILED}"
  shows "executable s t"
proof -
  have "validate_admitted_task s t = Inr ()" and f: "validate_focus s = Inr ()"
    using v assms(3) by (auto simp: validate_snapshot_def validate_admitted_def)
  then have st: "at_status task \<in> {QUEUED, RUNNING}" "dependencies_satisfied s task"
    using task assms(5) by (auto simp: validate_admitted_task_def)
  have "s_active_task_id s = Some t" if "at_status task = RUNNING"
  proof -
    have "t \<in> set (map at_task_id (filter (\<lambda>t. at_status t = RUNNING) (dvalues (s_tasks s))))"
      using dget_Some_in [OF task] wf_tasksD(1) [OF assms(2) task] that by force
    then show ?thesis using f by (auto simp: validate_focus_def Let_def split: option.splits simp del: set_map)
  qed
  with st task show ?thesis by (auto simp: executable_def)
qed

lemma active_executable:
  assumes v: "validate_snapshot uuid5 j s = Inr ()" and "wf_tasks s" and "s_active_task_id s = Some a"
  shows "executable s a"
proof -
  have "map at_task_id (filter (\<lambda>t. at_status t = RUNNING) (dvalues (s_tasks s))) = [a]"
    using v assms(3) by (auto simp: validate_snapshot_def validate_focus_def Let_def)
  then have "a \<in> set (map at_task_id (filter (\<lambda>t. at_status t = RUNNING) (dvalues (s_tasks s))))" by simp
  then obtain t where "t \<in> set (dvalues (s_tasks s))" "at_status t = RUNNING" "at_task_id t = a" by auto
  with wf_tasksD(3) [OF assms(2)] assms(3) show ?thesis by (auto simp: executable_def)
qed

lemma pending_target_executable:
  assumes "validate_snapshot uuid5 j s = Inr ()" and "p \<in> set (pending_preemptions s)"
  shows "executable s (pp_target_task_id p)"
proof (cases "s_current_epoch s")
  case None
  with assms(1) have "s_pending_preemptions s = []"
    by (auto simp: validate_snapshot_def validate_no_epoch_def)
  with assms(2) show ?thesis by (simp add: pending_preemptions_def)
next
  case (Some e)
  with assms(1) obtain as out where
    "rfold (validate_pending uuid5 s (dict_of da_task_id as)) (pending_preemptions s) ({}, {}) = Inr out"
    by (auto simp: validate_snapshot_def validate_epoch_def)
  from rfold_step_in [OF this assms(2)] obtain acc acc' where
    "validate_pending uuid5 s (dict_of da_task_id as) p acc = Inr acc'" by blast
  then show ?thesis by (auto simp: validate_pending_def executable_def Let_def split: option.splits)
qed

lemma candidates_executable:
  assumes "validate_snapshot uuid5 j s = Inr ()" and "wf_tasks s" and "t \<in> set (planning_candidates s ps)"
  shows "executable s t"
proof -
  from assms(3) consider "s_active_task_id s = Some t"
    | task where "task \<in> set (dvalues (s_tasks s))" "at_status task = QUEUED" "dependencies_satisfied s task"
        "t = at_task_id task"
    by (auto simp: planning_candidates_def ranked_dependency_satisfied_queued_task_ids_def
        ranked_dependency_satisfied_def split: option.splits if_splits)
  then show ?thesis
  proof cases
    case 1
    then show ?thesis by (rule active_executable [OF assms(1,2)])
  next
    case 2
    then show ?thesis using wf_tasksD(3) [OF assms(2)] by (auto simp: executable_def)
  qed
qed

lemma preserve_admitted_executable:
  assumes v: "validate_snapshot uuid5 j s = Inr ()" and wf: "wf_tasks s" and "s_current_epoch s = None"
    and "t \<in> set (s_admitted_task_ids s)"
  shows "executable s t \<or> finished_upgrade s t"
proof -
  have "validate_admitted_task s t = Inr ()"
    using v assms(4) by (auto simp: validate_snapshot_def validate_admitted_def)
  then obtain task where task: "dget (s_tasks s) t = Some task"
    by (cases "dget (s_tasks s) t") (simp_all add: validate_admitted_task_def)
  show ?thesis
  proof (cases "at_status task \<in> {COMPLETED, FAILED}")
    case True
    then show ?thesis using task assms(3,4) by (simp add: finished_upgrade_def)
  next
    case False
    then show ?thesis using admitted_executable [OF v wf assms(4) task] by blast
  qed
qed

interpretation upgraded: result_loop "preserve_admitted uuid5 s n" "all_executable s"
  "\<lambda>t. executable s t \<or> finished_upgrade s t" for uuid5 s n
  by unfold_locales (auto simp: preserve_admitted_def all_executable_def Let_def)

interpretation preserved: result_loop "preserve_assignment s" "all_executable s"
  "\<lambda>i. \<forall>a task. dget (s_assignments s) i = Some a \<longrightarrow> dget (s_tasks s) (da_task_id a) = Some task \<longrightarrow>
     at_status task \<notin> {COMPLETED, FAILED} \<longrightarrow> executable s (da_task_id a)" for s
  by unfold_locales
    (auto simp: preserve_assignment_def keep_assignment_def all_executable_def dlookup_Some split: if_splits)

lemma preserve_executable:
  assumes v: "validate_snapshot uuid5 j s = Inr ()" and wf: "wf_tasks s"
    and "preserve_committed uuid5 s rem = Inr ps"
  shows "all_executable s ps"
proof (cases "s_current_epoch s")
  case None
  let ?start = "\<lparr>ps_remaining = rem, ps_assignments = [], ps_reservations = [], ps_admitted = [], ps_events = [],
      ps_carried = [], ps_protected = {}, ps_waiting = {}, ps_released = {}\<rparr>"
  have "rfold (preserve_admitted uuid5 s (s_epoch_sequence s + 1)) (s_admitted_task_ids s) ?start = Inr ps"
    using assms(3) None by (simp add: preserve_committed_def Let_def)
  from upgraded.loop_inv [OF _ this] show ?thesis
    using preserve_admitted_executable [OF v wf None] by (simp add: all_executable_def)
next
  case (Some e)
  let ?start = "\<lparr>ps_remaining = rem, ps_assignments = [], ps_reservations = [], ps_admitted = [], ps_events = [],
      ps_carried = [], ps_protected = {}, ps_waiting = {}, ps_released = {}\<rparr>"
  have run: "rfold (preserve_assignment s) (ep_assignment_ids e) ?start = Inr ps"
    using assms(3) Some by (simp add: preserve_committed_def Let_def)
  have "executable s (da_task_id a)" if "i \<in> set (ep_assignment_ids e)" "dget (s_assignments s) i = Some a"
    "dget (s_tasks s) (da_task_id a) = Some task" "at_status task \<notin> {COMPLETED, FAILED}" for i a task
    using admitted_executable [OF v wf epoch_assignment_tasks [OF v Some that(1,2)] that(3,4)] .
  then show ?thesis using preserved.loop_inv [OF _ run] by (simp add: all_executable_def)
qed

text \<open>C29. Every plan hands out runnable work only: each admitted task is queued with all dependencies
  completed, or is the running focus task. The one exception is the first epoch of a scheduler that had
  admitted work under reservations only: it carries its admission set over as it is, finished tasks
  included. For every preemption that stays pending, the target is left out while each of its victims still
  holds an assignment. The scheduler has tasks that are values of their constructor and no provisional
  plan.\<close>

theorem plan_admits_runnable_work:
  assumes "wf_tasks s" and "s_pending_epoch_plan s = None"
    and "plan_scheduling_epoch uuid5 intent_json s = (Inr plan, s')"
  shows "(\<forall>t\<in>set (pl_admitted_task_ids plan). executable s t \<or> finished_upgrade s t) \<and>
    (\<forall>p\<in>set (pl_pending_preemptions plan). pp_target_task_id p \<notin> set (pl_admitted_task_ids plan) \<and>
       set (pp_victim_task_ids p) \<subseteq> set (pl_admitted_task_ids plan))"
proof -
  let ?en = "execution_resources True s"
  from plan_scheduling_epoch_cases(1) [OF assms(3,2)] obtain observation ps where
    v: "validate_snapshot uuid5 intent_json s = Inr ()" "planning_observation s = Inr observation"
      "plan_body uuid5 s observation = Inr ps" "build_plan uuid5 intent_json s observation ps = Inr plan"
    by (rule compute_plan_parts)
  let ?allow = "case observation of None \<Rightarrow> True | Some ob \<Rightarrow> ob_healthy ob"
  from v(3) obtain rem ps0 ps1 where ps0: "preserve_committed uuid5 s rem = Inr ps0"
    and ps1: "rfold (resolve_intent uuid5 s ?allow (resources_by_class ?en)) (pending_preemptions s) ps0 = Inr ps1"
    and ps: "rfold (consider_candidate uuid5 s (resources_by_class ?en) (set (ps_admitted ps0)))
       (if ?allow then planning_candidates s ps1 else []) ps1 = Inr ps"
    unfolding plan_body_def Let_def by auto
  have "all_executable s ps0" by (rule preserve_executable [OF v(1) assms(1) ps0])
  then have "all_executable s ps1"
    by (rule executable_intents.loop_inv [OF _ ps1]) (use pending_target_executable [OF v(1)] in blast)
  then have "wf_tasks s \<and> all_executable s ps"
    by (intro executable_candidates.loop_inv [OF _ ps]) (use assms(1) candidates_executable [OF v(1) assms(1)] in auto)
  then have ex: "\<forall>t\<in>set (pl_admitted_task_ids plan). executable s t \<or> finished_upgrade s t"
    using build_plan_result(2) [OF v(4)] by (simp add: all_executable_def)
  from v(4) obtain p0 where "validate_complete_plan intent_json p0 = Inr plan"
    by (auto simp: build_plan_def Let_def)
  note vr = validate_complete_plan_result [OF this]
  have "pp_target_task_id p \<notin> set (pl_admitted_task_ids plan) \<and> set (pp_victim_task_ids p) \<subseteq> set (pl_admitted_task_ids plan)"
    if "p \<in> set (pl_pending_preemptions plan)" for p
  proof -
    have "p \<in> set (pl_pending_preemptions p0)" using that vr(1) by simp
    with vr(7,3) show ?thesis by (auto simp: vr(1))
  qed
  with ex show ?thesis by blast
qed

section \<open>Sample runs\<close>

text \<open>A task that may only yield at checkpoints holds two of the four units; an urgent task needs three.\<close>

definition sample_waiting :: scheduler where
  "sample_waiting =
     snd (submit sample_uuid5 (sample_work 2000 2 USER_BLOCKING PREEMPTIBLE 3)
       (plan_and_commit
         (snd (submit sample_uuid5 (sample_work 1000 1 OPPORTUNISTIC CHECKPOINT_ONLY 2) sample_pools))))"

definition plan_pending :: "scheduler \<Rightarrow> (uuid \<times> uuid list) list option" where
  "plan_pending s =
     (case plan_scheduling_epoch sample_uuid5 (\<lambda>_. []) s of
        (Inr plan, _) \<Rightarrow> Some (map (\<lambda>p. (pp_target_task_id p, pp_victim_task_ids p)) (pl_pending_preemptions plan))
      | (Inl _, _) \<Rightarrow> None)"

definition commits :: "scheduler \<Rightarrow> bool" where
  "commits s =
     (case plan_scheduling_epoch sample_uuid5 (\<lambda>_. []) s of
        (Inr plan, s1) \<Rightarrow>
          (case commit_pending_epoch sample_uuid5 (\<lambda>_. []) (ep_epoch_id (pl_epoch plan)) s1 of
             (Inr _, _) \<Rightarrow> True | (Inl _, _) \<Rightarrow> False)
      | (Inl _, _) \<Rightarrow> False)"

definition check_waiting :: "scheduler \<Rightarrow> bool" where
  "check_waiting s \<longleftrightarrow> settled s \<and> plan_admits s = Some [1000] \<and> plan_pending s = Some [(2000, [1000])] \<and>
     commits s \<and> s_current_epoch s \<noteq> None"

lemma sample_waiting_checked: "check_waiting sample_waiting"
  by code_simp

theorem plan_admits_runnable_work_witness:
  "\<exists>plan s'. plan_scheduling_epoch sample_uuid5 (\<lambda>_. []) sample_waiting = (Inr plan, s') \<and>
     pl_admitted_task_ids plan = [1000] \<and> map pp_target_task_id (pl_pending_preemptions plan) = [2000] \<and>
     executable sample_waiting 1000"
proof -
  note ok = sample_waiting_checked [unfolded check_waiting_def]
  then have st: "settled sample_waiting" by blast
  from ok obtain plan s' where p: "plan_scheduling_epoch sample_uuid5 (\<lambda>_. []) sample_waiting = (Inr plan, s')"
    and pend: "map (\<lambda>p. (pp_target_task_id p, pp_victim_task_ids p)) (pl_pending_preemptions plan) = [(2000, [1000])]"
    by (auto simp: plan_pending_def split: prod.splits sum.splits)
  from ok p have adm: "pl_admitted_task_ids plan = [1000]" by (simp add: plan_admits_def)
  have "executable sample_waiting 1000"
    using plan_admits_runnable_work [OF settledD(2,4) [OF st] p] ok adm by (auto simp: finished_upgrade_def)
  then show ?thesis using p adm pend by (intro exI [of _ plan] exI [of _ s']) auto
qed

theorem commit_publishes_plan_witness:
  "\<exists>plan s1 s2. plan_scheduling_epoch sample_uuid5 (\<lambda>_. []) sample_waiting = (Inr plan, s1) \<and>
     commit_pending_epoch sample_uuid5 (\<lambda>_. []) (ep_epoch_id (pl_epoch plan)) s1 = (Inr (), s2) \<and>
     worker_visible_assignments s2 = Inr (pl_assignments plan) \<and>
     s_epoch_sequence s2 = s_epoch_sequence sample_waiting + 1"
proof -
  note ok = sample_waiting_checked [unfolded check_waiting_def]
  then have st: "settled sample_waiting" by blast
  from ok obtain plan s1 where p: "plan_scheduling_epoch sample_uuid5 (\<lambda>_. []) sample_waiting = (Inr plan, s1)"
    by (auto simp: plan_pending_def split: prod.splits sum.splits)
  obtain r s2 where "commit_pending_epoch sample_uuid5 (\<lambda>_. []) (ep_epoch_id (pl_epoch plan)) s1 = (r, s2)"
    by fastforce
  then have c: "commit_pending_epoch sample_uuid5 (\<lambda>_. []) (ep_epoch_id (pl_epoch plan)) s1 = (Inr (), s2)"
    using ok p by (simp add: commits_def split: sum.splits)
  show ?thesis using commit_publishes_plan [OF settledD(4) [OF st] p c] p c by blast
qed

end
