(* ===== verification/Stalls.thy ===== *)
theory Stalls
  imports Contention
begin

text \<open>
  Two situations in which the scheduler stops planning. Completing the task that owns focus through
  \<^verbatim>\<open>complete_task\<close> in epoch mode leaves the focus pointer behind, and no public call can repair it. In a
  sample run, a pending preemption one of whose victims finishes makes the next plan raise instead of
  dropping or executing the intent.
\<close>

section \<open>Completing the focus task in epoch mode\<close>

lemma focus_methods_fail:
  assumes "s_current_epoch s \<noteq> None"
  shows "\<not> succeeds (fst (complete_active uuid5 st s))" and "snd (complete_active uuid5 st s) = s"
    and "\<not> succeeds (fst (fail_active uuid5 st s))" and "snd (fail_active uuid5 st s) = s"
  using assms by (simp_all add: complete_active_def fail_active_def finish_active_def require_legacy_focus_mode_def
      sbind_def succeeds_iff)

lemma complete_task_running:
  assumes inv: "focus_inv s" and active: "s_active_task_id s = Some k"
  obtains t s' where "complete_task uuid5 k st s = (Inr t, s')" and "wf_tasks s'"
    and "s_active_task_id s' = Some k"
    and "\<And>j x. dget (s_tasks s') j = Some x \<Longrightarrow> at_status x \<noteq> RUNNING"
    and "s_pending_epoch_plan s' = None" and "s_current_epoch s' = s_current_epoch s"
    and "s_preemption_policy_version s' = s_preemption_policy_version s"
    and "s_resource_safety_policy_version s' = s_resource_safety_policy_version s"
    and "s_preemption_events s' = s_preemption_events s"
proof -
  from inv active obtain t where t: "dget (s_tasks s) k = Some t" "at_status t = RUNNING"
    by (rule active_running)
  obtain r s1 where s1: "store_resumable_state k st s = (r, s1)" by fastforce
  have r: "r = Inr ()" and same: "s_active_task_id s1 = Some k"
    "s_preemption_policy_version s1 = s_preemption_policy_version s" "s_current_epoch s1 = s_current_epoch s"
    "s_resource_safety_policy_version s1 = s_resource_safety_policy_version s"
    "s_preemption_events s1 = s_preemption_events s"
    "\<exists>t1. dget (s_tasks s1) k = Some t1 \<and> at_status t1 = RUNNING"
    using s1 t active by (auto simp: store_resumable_state_def replace_task_eq split: option.splits)
  then obtain t1 where t1: "dget (s_tasks s1) k = Some t1" by blast
  have inv1: "focus_inv s1" using store_resumable_focus [OF inv, of k st] s1 by simp
  have only: "at_status x \<noteq> RUNNING" if "dget (s_tasks s1) j = Some x" "j \<noteq> k" for j x
    using inv1 same(1) that by (auto simp: focus_inv_def exclusive_focus_def)
  let ?t = "t1\<lparr>at_status := COMPLETED, at_revision := at_revision t1 + 1\<rparr>"
  let ?s = "(invalidate_scheduling_plan s1)\<lparr>s_transitions := s_transitions s1 @
      [transition_record uuid5 t1 COMPLETED ''all durable worker steps completed'' (s_cycle s1)],
    s_tasks := dset k ?t (s_tasks s1)\<rparr>"
  have "complete_task uuid5 k st s = (Inr ?t, ?s)"
    using r s1 t t1 by (simp add: complete_task_def transition_eq [OF focus_wf [OF inv1] t1] dlookup_Some)
  moreover have "wf_tasks ?s"
    by (rule wf_tasks_update [OF focus_wf [OF inv1] t1, of ?t])
      (use wf_tasksD(1,2) [OF focus_wf [OF inv1] t1] in \<open>simp_all add: wf_task_def\<close>)
  ultimately show thesis
    by (rule that) (use same only in \<open>auto split: if_splits\<close>)
qed

text \<open>The state it leaves behind: the focus pointer names a task, no task is running, and the epoch mode
  keeps the focus methods out. No public call leads out of it, whatever its arguments.\<close>

definition stalled :: "uuid \<Rightarrow> scheduler \<Rightarrow> bool" where
  "stalled k s \<longleftrightarrow> s_active_task_id s = Some k \<and> s_current_epoch s \<noteq> None \<and> s_pending_epoch_plan s = None \<and>
     version_inv s \<and> (\<forall>t\<in>set (dvalues (s_tasks s)). at_status t \<noteq> RUNNING)"

named_theorems stall_keeps \<open>methods keep a stalled scheduler stalled\<close>

lemma stalled_frame:
  assumes "stalled k s" and "s_active_task_id s' = s_active_task_id s" and "s_current_epoch s' = s_current_epoch s"
    and "s_pending_epoch_plan s' = None" and "s_preemption_policy_version s' = s_preemption_policy_version s"
    and "py_strip (s_resource_safety_policy_version s') \<noteq> []"
    and "distinct (map pv_event_id (s_preemption_events s'))"
    and "s_tasks s' = s_tasks s"
  shows "stalled k s'"
  using assms by (simp add: stalled_def version_inv_def)

lemma stalled_update [simp]:
  "stalled k (s\<lparr>s_transitions := xs\<rparr>) = stalled k s"
  "stalled k (s\<lparr>s_pending_preemptions := d, s_preemption_state_revision := n\<rparr>) = stalled k s"
  by (simp_all add: stalled_def version_inv_def)

lemma stalledD:
  assumes "stalled k s"
  shows "s_pending_epoch_plan s = None" and "py_strip (s_resource_safety_policy_version s) \<noteq> []"
    and "distinct (map pv_event_id (s_preemption_events s))" and "s_current_epoch s \<noteq> None"
  using assms by (simp_all add: stalled_def version_inv_def)

lemma stalled_raises:
  assumes "stalled k s"
  shows "validate_focus s = Inl (ValueError ''Snapshot active_task_id does not match exactly one RUNNING task'')"
proof -
  have "filter (\<lambda>t. at_status t = RUNNING) (dvalues (s_tasks s)) = []"
    using assms unfolding stalled_def filter_empty_conv by blast
  then show ?thesis using assms by (simp add: validate_focus_def Let_def stalled_def version_inv_def)
qed

lemma stalled_sbind:
  assumes "stalled k (snd (m s))" and "\<And>x s'. stalled k s' \<Longrightarrow> stalled k (snd (f x s'))"
  shows "stalled k (snd (sbind m f s))"
  using assms by (auto simp: sbind_def split: prod.splits sum.splits)

lemma stalled_invalidate [stall_keeps]: "stalled k s \<Longrightarrow> stalled k (invalidate_scheduling_plan s)"
  by (rule stalled_frame [of k s]) (auto simp: stalledD)

lemma stalled_task:
  assumes "stalled k s" and "at_status t \<noteq> RUNNING"
  shows "stalled k (s\<lparr>s_tasks := dset j t (s_tasks s)\<rparr>)"
  using assms set_dset_subset [of j t "s_tasks s"] by (fastforce simp: stalled_def version_inv_def)

lemma stalled_lookup: "stalled k s \<Longrightarrow> dget (s_tasks s) j = Some t \<Longrightarrow> at_status t \<noteq> RUNNING"
  using dget_Some_in [of "s_tasks s" j t] by (auto simp: stalled_def)

lemma stalled_replace [stall_keeps]:
  assumes "stalled k s" and "\<And>t. at_status (f t) = at_status t"
  shows "stalled k (snd (replace_task j f s))"
proof (cases "dget (s_tasks s) j")
  case None
  then show ?thesis using assms(1) by (simp add: replace_task_def stalled_invalidate)
next
  case (Some t)
  then show ?thesis
    using stalled_task [OF stalled_invalidate [OF assms(1)], of "f t" j] stalled_lookup [OF assms(1) Some] assms(2)
    by (simp add: replace_task_eq)
qed

lemma stalled_transition [stall_keeps]:
  assumes "stalled k s" and "to \<noteq> RUNNING"
  shows "stalled k (snd (transition uuid5 j to reason s))"
proof (cases "dget (s_tasks s) j")
  case None
  then show ?thesis using assms(1) by (simp add: transition_def stalled_invalidate)
next
  case (Some t)
  have "stalled k ((invalidate_scheduling_plan s)\<lparr>s_transitions := xs\<rparr>)" for xs
    by (simp add: stalled_invalidate [OF assms(1)])
  from stalled_task [OF this, where t = "t\<lparr>at_status := to, at_revision := at_revision t + 1\<rparr>" and j = j] show ?thesis
    using Some assms by (simp add: transition_def Let_def stalled_invalidate)
qed

lemma stalled_submit [stall_keeps]: "stalled k s \<Longrightarrow> stalled k (snd (submit uuid5 t s))"
  unfolding submit_def
  by (auto simp: get_task_def intro!: stalled_sbind stalled_transition stalled_replace stalled_task)

lemma stalled_store [stall_keeps]: "stalled k s \<Longrightarrow> stalled k (snd (store_resumable_state j st s))"
  by (auto simp: store_resumable_state_def stalled_replace split: option.split)

lemma stalled_complete_task [stall_keeps]: "stalled k s \<Longrightarrow> stalled k (snd (complete_task uuid5 j st s))"
  unfolding complete_task_def
  by (auto simp: get_task_def split: option.split intro!: stalled_sbind stalled_transition stalled_store)

lemma stalled_set_resumable [stall_keeps]: "stalled k s \<Longrightarrow> stalled k (snd (set_resumable_state j st s))"
  unfolding set_resumable_state_def by (auto simp: get_task_def intro!: stalled_sbind stalled_replace)

lemma stalled_settings [stall_keeps]:
  "stalled k s \<Longrightarrow> stalled k (snd (advance_cycle n s))"
  "stalled k s \<Longrightarrow> stalled k (snd (configure_execution_resource r s))"
  "stalled k s \<Longrightarrow> stalled k (snd (enable_resource_safety v s))"
  "stalled k s \<Longrightarrow> stalled k (snd (attach_resource_observation ob now s))"
  "stalled k s \<Longrightarrow> stalled k (snd (reconcile_resource_admission uuid5 s))"
  "stalled k s \<Longrightarrow> stalled k (snd (mark_transitions_persisted m s))"
  "stalled k s \<Longrightarrow> stalled k (snd (mark_preemption_state_persisted n s))"
  by (rule stalled_frame [of k s], assumption; auto simp: advance_cycle_def configure_execution_resource_def enable_resource_safety_def
      attach_resource_observation_def reconcile_resource_admission_def mark_transitions_persisted_def
      mark_preemption_state_persisted_def Let_def stalledD split: option.split sum.split)+

lemma stalled_append_event [stall_keeps]: "stalled k s \<Longrightarrow> stalled k (snd (append_preemption_event v s))"
  by (rule stalled_frame [of k s], assumption)
    (auto simp: append_preemption_event_def find_None_iff stalledD split: option.split)

lemma stalled_refused [stall_keeps]:
  assumes "stalled k s"
  shows "snd (reconcile_focus uuid5 s) = s" and "snd (checkpoint_active uuid5 s) = s"
    and "snd (finish_active uuid5 to reason st s) = s" and "snd (plan_scheduling_epoch uuid5 intent_json s) = s"
    and "snd (commit_pending_epoch uuid5 intent_json i s) = s"
proof -
  obtain e where e: "require_legacy_focus_mode s = (Inl e, s)"
    using not_legacy [of s] stalledD(4) [OF assms] by (auto simp: legacy_mode_def)
  then show "snd (reconcile_focus uuid5 s) = s" and "snd (checkpoint_active uuid5 s) = s"
    and "snd (finish_active uuid5 to reason st s) = s"
    by (simp_all add: reconcile_focus_def checkpoint_active_def finish_active_def sbind_def)
  show "snd (plan_scheduling_epoch uuid5 intent_json s) = s" and "snd (commit_pending_epoch uuid5 intent_json i s) = s"
    using stalledD(1) [OF assms] stalled_raises [OF assms]
    by (simp_all add: plan_scheduling_epoch_def commit_pending_epoch_def compute_plan_def validate_snapshot_def)
qed

lemma stalled_assess_tasks:
  "stalled k s \<Longrightarrow> \<forall>t\<in>set ts. at_status t \<noteq> RUNNING \<Longrightarrow> stalled k (snd (assess_tasks policy ts acc s))"
proof (induction ts arbitrary: acc s)
  case (Cons t ts)
  then show ?case by (auto simp: slift_def sbind_def split: sum.split intro!: Cons.IH stalled_task)
qed simp

lemma stalled_assess [stall_keeps]: "stalled k s \<Longrightarrow> stalled k (snd (assess_unestimated_processes policy s))"
  unfolding assess_unestimated_processes_def
  by (auto intro!: stalled_sbind stalled_assess_tasks stalled_invalidate simp del: set_map) (auto simp: stalled_def)

lemma stalled_checkpoint_pending [stall_keeps]:
  assumes "stalled k s"
  shows "stalled k (snd (checkpoint_pending_preemption uuid5 intent_json v st s))"
proof -
  have upd: "stalled k ((invalidate_scheduling_plan s)\<lparr>s_tasks := dset v (t\<lparr>at_resumable_state := j\<rparr>) (s_tasks s)\<rparr>)"
    if "dget (s_tasks s) v = Some t" for t j
    using stalled_task [OF stalled_invalidate [OF assms], of "t\<lparr>at_resumable_state := j\<rparr>" v] stalled_lookup [OF assms that]
    by simp
  show ?thesis
    unfolding checkpoint_pending_preemption_def Let_def
    by (auto split: list.split option.split intro!: stalled_sbind assms stalled_invalidate upd stalled_append_event)
qed

lemma stalled_refresh [stall_keeps]:
  assumes "stalled k s"
  shows "stalled k (snd (refresh uuid5 dump lc now probe s))"
proof -
  have configured: "stalled k (snd (sfold configure_discovered rs s))" if "stalled k s" for rs s
    by (rule sfold_keeps [where P = "stalled k"])
      (use that in \<open>simp_all add: configure_discovered_snd stalled_settings\<close>)
  show ?thesis
    using assms stalled_assess [OF assms]
    by (cases "obs_as_utc now") (auto simp: refresh_def intro!: stalled_sbind stalled_settings configured)
qed

lemma stalled_call: "stalled k s \<Longrightarrow> stalled k (run_call uuid5 intent_json dump c s)"
  by (cases c) (simp_all add: stall_keeps complete_active_def fail_active_def)

lemma stalled_calls: "stalled k s \<Longrightarrow> stalled k (run_calls uuid5 intent_json dump cs s)"
  by (induction cs arbitrary: s) (simp_all add: stalled_call)

text \<open>C30. The focus task cannot be finished in epoch mode. \<^verbatim>\<open>complete_active\<close> and \<^verbatim>\<open>fail_active\<close> raise and change
  nothing; completing the task with \<^verbatim>\<open>complete_task\<close> returns normally, but from then on every plan and every
  snapshot raises because the focus pointer still names the finished task, after whatever public calls
  with whatever arguments: no public method repairs the scheduler. The scheduler was reached from the
  constructor by calls that keep to the contract of \<open>Lifecycle\<close>; the calls after the completion need not.\<close>

theorem finishing_focus_task_blocks_planning:
  assumes "init_scheduler g b v = Inr s0" and "contracts uuid5 intent_json dump cs s0"
    and "s = run_calls uuid5 intent_json dump cs s0" and "s_active_task_id s = Some k"
    and "s_current_epoch s \<noteq> None"
    and "s' = run_calls uuid5 intent_json dump ds (snd (complete_task uuid5 k st s))"
  shows "\<not> succeeds (fst (complete_active uuid5 st s)) \<and> snd (complete_active uuid5 st s) = s \<and>
    \<not> succeeds (fst (fail_active uuid5 st s)) \<and> snd (fail_active uuid5 st s) = s \<and>
    succeeds (fst (complete_task uuid5 k st s)) \<and>
    fst (plan_scheduling_epoch uuid5 intent_json s') =
      Inl (ValueError ''Snapshot active_task_id does not match exactly one RUNNING task'') \<and>
    snapshot uuid5 intent_json s' =
      Inl (ValueError ''Snapshot active_task_id does not match exactly one RUNNING task'')"
proof -
  have inv: "focus_inv s" and ver: "version_inv s"
    using constructed_inv [OF assms(1,2)] by (simp_all add: assms(3) book_inv_def)
  obtain t s1 where c: "complete_task uuid5 k st s = (Inr t, s1)" and wf: "wf_tasks s1"
    and act: "s_active_task_id s1 = Some k"
    and none: "\<And>j x. dget (s_tasks s1) j = Some x \<Longrightarrow> at_status x \<noteq> RUNNING"
    and plan: "s_pending_epoch_plan s1 = None" "s_current_epoch s1 = s_current_epoch s"
    and eqs: "s_preemption_policy_version s1 = s_preemption_policy_version s"
      "s_resource_safety_policy_version s1 = s_resource_safety_policy_version s"
      "s_preemption_events s1 = s_preemption_events s"
    by (rule complete_task_running [OF inv assms(4)], rule that)
  have "stalled k s1"
    using act plan assms(5) ver none wf_tasksD(3) [OF wf] by (auto simp: stalled_def version_inv_def eqs)
  then have "stalled k s'" by (simp add: assms(6) c stalled_calls)
  then have "validate_focus s' = Inl (ValueError ''Snapshot active_task_id does not match exactly one RUNNING task'')"
    "s_pending_epoch_plan s' = None" by (rule stalled_raises stalledD)+
  then show ?thesis
    using focus_methods_fail [OF assms(5)] c
    by (simp add: plan_scheduling_epoch_def compute_plan_def snapshot_def validate_snapshot_def)
qed

text \<open>A background task takes focus, then the first epoch is planned and committed.\<close>

definition sample_focus_calls :: "call list" where
  "sample_focus_calls = [Submit sample_background, ReconcileFocus, PlanSchedulingEpoch]"

definition sample_epoch_focus :: "call list \<Rightarrow> scheduler" where
  "sample_epoch_focus cs = run_calls sample_uuid5 (\<lambda>_. []) (\<lambda>_. []) cs sample_idle"

definition sample_commit :: call where
  "sample_commit = CommitPendingEpoch (case s_pending_epoch_plan (sample_epoch_focus sample_focus_calls) of
     None \<Rightarrow> 0 | Some plan \<Rightarrow> ep_epoch_id (pl_epoch plan))"

lemma sample_epoch_focus_checked:
  "s_active_task_id (sample_epoch_focus (sample_focus_calls @ [sample_commit])) = Some 1 \<and>
   s_current_epoch (sample_epoch_focus (sample_focus_calls @ [sample_commit])) \<noteq> None"
  by code_simp

lemma sample_focus_contracts:
  "contracts sample_uuid5 (\<lambda>_. []) (\<lambda>_. []) (sample_focus_calls @ [sample_commit]) sample_idle"
  by (simp add: sample_focus_calls_def sample_commit_def sample_wf)

theorem finishing_focus_task_blocks_planning_witness:
  "\<not> succeeds (fst (plan_scheduling_epoch sample_uuid5 (\<lambda>_. [])
     (run_calls sample_uuid5 (\<lambda>_. []) (\<lambda>_. []) [Submit sample_urgent, ReconcileFocus, CompleteTask 1 None]
       (snd (complete_task sample_uuid5 1 None (sample_epoch_focus (sample_focus_calls @ [sample_commit])))))))"
  using finishing_focus_task_blocks_planning [OF sample_idle_init sample_focus_contracts sample_epoch_focus_def
      conjunct1 [OF sample_epoch_focus_checked] conjunct2 [OF sample_epoch_focus_checked] refl,
      where st = None and ds = "[Submit sample_urgent, ReconcileFocus, CompleteTask 1 None]"]
  by (simp add: succeeds_iff)

section \<open>A victim finishes before the preemption is executed\<close>

text \<open>Two tasks that yield only at checkpoints hold all four units; an urgent task needs three, so a
  preemption of both is requested and committed. Then the first of them completes.\<close>

definition sample_two_victims :: scheduler where
  "sample_two_victims =
     plan_and_commit (snd (submit sample_uuid5 (sample_work 9000 3 USER_BLOCKING PREEMPTIBLE 3)
       (plan_and_commit
         (snd (submit sample_uuid5 (sample_work 5000 2 OPPORTUNISTIC CHECKPOINT_ONLY 2)
           (snd (submit sample_uuid5 (sample_work 1000 1 OPPORTUNISTIC CHECKPOINT_ONLY 2) sample_pools)))))))"

definition sample_half_finished :: scheduler where
  "sample_half_finished = snd (complete_task sample_uuid5 1000 None sample_two_victims)"

text \<open>The observations below are made on one evaluation of the state each.\<close>

definition check_half_finished :: "scheduler \<Rightarrow> bool" where
  "check_half_finished s \<longleftrightarrow>
     map pp_victim_task_ids (pending_preemptions s) = [[5000, 1000]] \<and>
     validate_snapshot sample_uuid5 (\<lambda>_. []) s = Inr () \<and>
     fst (plan_scheduling_epoch sample_uuid5 (\<lambda>_. []) s) =
       Inl (ValueError ''Pending preemption victims must remain admitted'')"

lemma half_finished_checked: "check_half_finished sample_half_finished"
  by code_simp

lemma half_acknowledged_checked:
  "fst (plan_scheduling_epoch sample_uuid5 (\<lambda>_. [])
     (snd (checkpoint_pending_preemption sample_uuid5 (\<lambda>_. []) 5000 None sample_half_finished))) =
     Inl (ValueError ''Pending preemption victims must remain admitted'')"
  by code_simp

text \<open>The run of this sample: two checkpoint-only victims are asked to make room, one of them completes in
  the ordinary way, and the next plan raises although the state is valid; it also raises after the other
  victim has acknowledged its checkpoint.\<close>

lemma finished_victim_blocks_planning:
  "map pp_victim_task_ids (pending_preemptions sample_half_finished) = [[5000, 1000]] \<and>
   validate_snapshot sample_uuid5 (\<lambda>_. []) sample_half_finished = Inr () \<and>
   fst (plan_scheduling_epoch sample_uuid5 (\<lambda>_. []) sample_half_finished) =
     Inl (ValueError ''Pending preemption victims must remain admitted'') \<and>
   fst (plan_scheduling_epoch sample_uuid5 (\<lambda>_. [])
     (snd (checkpoint_pending_preemption sample_uuid5 (\<lambda>_. []) 5000 None sample_half_finished))) =
     Inl (ValueError ''Pending preemption victims must remain admitted'')"
  using half_finished_checked half_acknowledged_checked by (simp add: check_half_finished_def)

end
