(* ===== verification/Ordering.thy ===== *)
theory Ordering
  imports Prelude
begin

text \<open>
  Dependency ordering of bounded work sets (\<^verbatim>\<open>attention_ordering.py\<close>). The theorems show that the
  returned order is a permutation of the work set in which dependencies come first and every choice
  is the runnable item of least priority key, that it does not depend on the input order, and that
  it fails exactly when no such order exists.
\<close>

section \<open>Data and operations\<close>

definition MAX_ATTENTION_WORK_PRIORITY :: int where
  "MAX_ATTENTION_WORK_PRIORITY = 10000"

record attention_work_item =
  wi_item_id :: string
  wi_priority :: int
  wi_dependency_ids :: "string list"

definition normalize_item_id :: "string \<Rightarrow> string res" where
  "normalize_item_id value =
     raise_if (py_strip value = []) (ValueError ''attention work item_id must not be empty'')
       (Inr (py_strip value))"

definition normalize_dependency_ids :: "string list \<Rightarrow> string list res" where
  "normalize_dependency_ids values =
     (let normalized = map py_strip values
      in raise_if (list_ex (\<lambda>v. v = []) normalized)
           (ValueError ''attention work dependencies must not be empty'')
        (raise_if (\<not> distinct normalized)
           (ValueError ''attention work dependencies must not contain duplicates'')
        (Inr normalized)))"

definition mk_AttentionWorkItem :: "string \<Rightarrow> int \<Rightarrow> string list \<Rightarrow> attention_work_item res" where
  "mk_AttentionWorkItem item_id priority dependency_ids =
     raise_if (item_id = []) (ValueError ''item_id: min_length'')
    (rbind (normalize_item_id item_id) (\<lambda>i.
     raise_if (priority < 0 \<or> priority > MAX_ATTENTION_WORK_PRIORITY)
       (ValueError ''priority: ge 0, le 10000'')
    (rbind (normalize_dependency_ids dependency_ids) (\<lambda>ds.
     raise_if (i \<in> set ds) (ValueError ''attention work item must not depend on itself'')
       (Inr \<lparr>wi_item_id = i, wi_priority = priority, wi_dependency_ids = ds\<rparr>)))))"

text \<open>The keys of the loop are always keys of the dictionary, so the two lookups below never take
  their \<open>None\<close> branch.\<close>

definition deps_of :: "(string, attention_work_item) dict \<Rightarrow> string \<Rightarrow> string list" where
  "deps_of by_id i = (case dget by_id i of None \<Rightarrow> [] | Some x \<Rightarrow> wi_dependency_ids x)"

definition order_key :: "(string, attention_work_item) dict \<Rightarrow> string \<Rightarrow> int \<times> string" where
  "order_key by_id i = (case dget by_id i of None \<Rightarrow> 0 | Some x \<Rightarrow> wi_priority x, i)"

definition ready_items :: "(string, attention_work_item) dict \<Rightarrow> string list \<Rightarrow> string list" where
  "ready_items by_id remaining =
     filter (\<lambda>i. set (deps_of by_id i) \<inter> set remaining = {}) remaining"

function dependency_loop ::
  "(string, attention_work_item) dict \<Rightarrow> string list \<Rightarrow> string list res" where
  "dependency_loop by_id remaining =
     (if remaining = [] then Inr []
      else let ready = ready_items by_id remaining
        in if ready = [] then Inl (ValueError ''attention work dependencies contain a cycle'')
           else let next_item = arg_min_list (order_key by_id) ready
             in rbind (dependency_loop by_id (remove1 next_item remaining))
                  (\<lambda>ordered. Inr (next_item # ordered)))"
  by pat_completeness auto
termination
proof (relation "measure (\<lambda>(d, rem). length rem)")
  fix d rem x y
  assume "rem \<noteq> []" "x = ready_items d rem" "x \<noteq> []" "y = arg_min_list (order_key d) x"
  then have "y \<in> set rem" using arg_min_list_in [of x "order_key d"] by (auto simp: ready_items_def)
  then show "((d, remove1 y rem), (d, rem)) \<in> measure (\<lambda>(d, rem). length rem)"
    by (cases rem) (auto simp: length_remove1 dest: length_pos_if_in_set)
qed simp

declare dependency_loop.simps [simp del]

definition deterministic_dependency_order :: "attention_work_item list \<Rightarrow> string list res" where
  "deterministic_dependency_order items =
     (let by_id = dict_of wi_item_id items
      in raise_if (length by_id \<noteq> length items)
           (ValueError ''attention work set must not contain duplicate item ids'')
        (raise_if (\<not> (\<forall>x\<in>set (dvalues by_id). set (wi_dependency_ids x) \<subseteq> set (dkeys by_id)))
           (ValueError ''attention work item has missing dependencies'')
        (dependency_loop by_id (dkeys by_id))))"

section \<open>What an order must satisfy\<close>

text \<open>\<open>deps_first\<close>: the dependencies of every item come before it. \<open>least_first\<close>: every item has the
  least key among the items that were runnable at its position.\<close>

fun deps_first :: "(string \<Rightarrow> string list) \<Rightarrow> string list \<Rightarrow> bool" where
  "deps_first deps [] \<longleftrightarrow> True"
| "deps_first deps (i # later) \<longleftrightarrow> set (deps i) \<inter> set (i # later) = {} \<and> deps_first deps later"

fun least_first :: "(string \<Rightarrow> string list) \<Rightarrow> (string \<Rightarrow> int \<times> string) \<Rightarrow> string list \<Rightarrow> bool" where
  "least_first deps key [] \<longleftrightarrow> True"
| "least_first deps key (i # later) \<longleftrightarrow>
     (\<forall>j\<in>set (i # later). set (deps j) \<inter> set (i # later) = {} \<longrightarrow> key i \<le> key j) \<and>
     least_first deps key later"

lemma deps_first_remove1: "deps_first deps ord \<Longrightarrow> deps_first deps (remove1 x ord)"
proof (induction ord)
  case (Cons i ys)
  then show ?case using set_remove1_subset [of x ys] by auto
qed simp

lemma ready_next:
  assumes "ready_items d rem \<noteq> []"
  shows "arg_min_list (order_key d) (ready_items d rem) \<in> set (ready_items d rem)"
    and "\<forall>j\<in>set (ready_items d rem).
      order_key d (arg_min_list (order_key d) (ready_items d rem)) \<le> order_key d j"
  using assms by (simp_all add: arg_min_list_in f_arg_min_list_f)

lemma dependency_loop_sound:
  assumes "dependency_loop d rem = Inr ord" and "distinct rem"
  shows "mset ord = mset rem \<and> deps_first (deps_of d) ord \<and> least_first (deps_of d) (order_key d) ord"
  using assms
proof (induction d rem arbitrary: ord rule: dependency_loop.induct)
  case (1 d rem)
  show ?case
  proof (cases "rem = []")
    case True
    with "1.prems" show ?thesis
      by (simp add: dependency_loop.simps)
  next
    case False
    let ?n = "arg_min_list (order_key d) (ready_items d rem)"
    from False "1.prems" have ne: "ready_items d rem \<noteq> []"
      by (auto simp: dependency_loop.simps [of d rem] Let_def)
    with False "1.prems" obtain rest where
      rest: "dependency_loop d (remove1 ?n rem) = Inr rest" and ord: "ord = ?n # rest"
      by (auto simp: dependency_loop.simps [of d rem] Let_def)
    have IH: "mset rest = mset (remove1 ?n rem) \<and> deps_first (deps_of d) rest \<and>
        least_first (deps_of d) (order_key d) rest"
      by (rule "1.IH" [OF False refl ne refl rest]) (use "1.prems" in simp)
    have n: "?n \<in> set rem" "set (deps_of d ?n) \<inter> set rem = {}"
      using ready_next(1) [OF ne] by (auto simp: ready_items_def)
    with IH ord have m: "mset ord = mset rem" by simp
    then have "set (?n # rest) = set rem" using ord by (metis set_mset_mset)
    with IH n ready_next(2) [OF ne] m ord show ?thesis
      by (auto simp: ready_items_def)
  qed
qed

lemma dependency_loop_complete:
  assumes "deps_first (deps_of d) ord" and "mset ord = mset rem"
  shows "succeeds (dependency_loop d rem)"
  using assms
proof (induction d rem arbitrary: ord rule: dependency_loop.induct)
  case (1 d rem)
  show ?case
  proof (cases "rem = []")
    case True
    then show ?thesis by (simp add: dependency_loop.simps)
  next
    case False
    let ?n = "arg_min_list (order_key d) (ready_items d rem)"
    have eq: "set ord = set rem" using "1.prems"(2) by (metis set_mset_mset)
    from False "1.prems" obtain i ys where ord: "ord = i # ys" by (cases ord) auto
    then have "i \<in> set (ready_items d rem)"
      using "1.prems"(1) eq by (auto simp: ready_items_def)
    then have ne: "ready_items d rem \<noteq> []" by auto
    have "succeeds (dependency_loop d (remove1 ?n rem))"
      by (rule "1.IH" [OF False refl ne refl deps_first_remove1 [OF "1.prems"(1), of ?n]])
        (simp add: "1.prems"(2))
    with False ne show ?thesis
      by (auto simp: dependency_loop.simps [of d rem] Let_def succeeds_iff)
  qed
qed

lemma arg_min_list_cong:
  assumes "set xs = set ys" and "xs \<noteq> []" and "inj_on f (set xs)"
  shows "arg_min_list f xs = arg_min_list f ys"
proof -
  from assms(1,2) have "ys \<noteq> []" by auto
  with assms have "f (arg_min_list f xs) = f (arg_min_list f ys)" by (simp add: f_arg_min_list_f)
  with assms arg_min_list_in [of xs f] arg_min_list_in [of ys f] \<open>ys \<noteq> []\<close> show ?thesis
    by (auto dest: inj_onD)
qed

lemma inj_order_key: "inj_on (order_key d) A"
  by (auto simp: inj_on_def order_key_def)

lemma dependency_loop_cong:
  assumes "dget d = dget d'" and "set rem = set rem'" and "distinct rem" and "distinct rem'"
  shows "dependency_loop d rem = dependency_loop d' rem'"
  using assms
proof (induction d rem arbitrary: rem' rule: dependency_loop.induct)
  case (1 d rem)
  have keys: "deps_of d = deps_of d'" "order_key d = order_key d'"
    using "1.prems"(1) by (simp_all add: deps_of_def order_key_def fun_eq_iff)
  then have ready: "set (ready_items d rem) = set (ready_items d' rem')"
    using "1.prems"(2) by (auto simp: ready_items_def)
  show ?case
  proof (cases "rem = [] \<or> ready_items d rem = []")
    case True
    with ready "1.prems"(2) show ?thesis
      by (auto simp: dependency_loop.simps [of d rem] dependency_loop.simps [of d' rem'] Let_def)
  next
    case False
    let ?n = "arg_min_list (order_key d) (ready_items d rem)"
    have n: "arg_min_list (order_key d') (ready_items d' rem') = ?n"
      using arg_min_list_cong [OF ready _ inj_order_key] False by (simp add: keys)
    have "dependency_loop d (remove1 ?n rem) = dependency_loop d' (remove1 ?n rem')"
      by (rule "1.IH") (use False "1.prems" in auto)
    with False ready n "1.prems"(2) show ?thesis
      by (auto simp: dependency_loop.simps [of d rem] dependency_loop.simps [of d' rem'] Let_def)
  qed
qed

section \<open>The work order\<close>

definition item_deps :: "attention_work_item list \<Rightarrow> string \<Rightarrow> string list" where
  "item_deps items = deps_of (dict_of wi_item_id items)"

lemma length_dict_of: "length (dict_of key xs) = length xs \<longleftrightarrow> distinct (map key xs)"
proof
  have keys: "set (dkeys (fold (\<lambda>x. dset (key x) x) xs d)) = set (dkeys d) \<union> key ` set xs" for d
  proof (induction xs arbitrary: d)
    case (Cons x xs)
    have "set (dkeys (dset (key x) x d)) = insert (key x) (set (dkeys d))"
      by (subst alist_keys_update) auto
    with Cons show ?case by auto
  qed simp
  have dist: "distinct (dkeys d) \<Longrightarrow> distinct (dkeys (fold (\<lambda>x. dset (key x) x) xs d))" for d
    by (induction xs arbitrary: d) auto
  assume "length (dict_of key xs) = length xs"
  then have "card (key ` set xs) = length xs"
    using keys [of "[]"] dist [of "[]"] distinct_card [of "dkeys (dict_of key xs)"]
    by (simp add: dict_of_def)
  then show "distinct (map key xs)" by (metis card_distinct length_map list.set_map)
qed (simp add: dict_of_distinct)

lemma item_deps_in:
  "distinct (map wi_item_id items) \<Longrightarrow> x \<in> set items \<Longrightarrow>
     item_deps items (wi_item_id x) = wi_dependency_ids x"
proof -
  assume d: "distinct (map wi_item_id items)" and x: "x \<in> set items"
  have "dget (map (\<lambda>x. (wi_item_id x, x)) items) (wi_item_id x) = Some x"
    by (rule map_of_is_SomeI) (use d x in \<open>simp_all add: o_def\<close>)
  with d show ?thesis by (simp add: item_deps_def deps_of_def dict_of_distinct)
qed

lemma dependency_order_eq:
  "deterministic_dependency_order items =
     (if distinct (map wi_item_id items)
      then raise_if (\<not> (\<forall>x\<in>set items. set (wi_dependency_ids x) \<subseteq> wi_item_id ` set items))
        (ValueError ''attention work item has missing dependencies'')
        (dependency_loop (dict_of wi_item_id items) (map wi_item_id items))
      else Inl (ValueError ''attention work set must not contain duplicate item ids''))"
proof (cases "distinct (map wi_item_id items)")
  case True
  then have "dkeys (dict_of wi_item_id items) = map wi_item_id items"
    "dvalues (dict_of wi_item_id items) = items"
    by (simp_all add: dict_of_distinct o_def)
  with True show ?thesis
    unfolding deterministic_dependency_order_def Let_def by (simp add: length_dict_of del: map_map)
qed (simp add: deterministic_dependency_order_def Let_def length_dict_of)

lemma work_order_sound:
  assumes "deterministic_dependency_order items = Inr ord"
  shows "mset ord = mset (map wi_item_id items) \<and> deps_first (item_deps items) ord \<and>
     least_first (item_deps items) (order_key (dict_of wi_item_id items)) ord \<and>
     (\<forall>x\<in>set items. item_deps items (wi_item_id x) = wi_dependency_ids x \<and>
        set (wi_dependency_ids x) \<subseteq> set ord)"
proof -
  from assms have d: "distinct (map wi_item_id items)"
    and known: "\<forall>x\<in>set items. set (wi_dependency_ids x) \<subseteq> set (map wi_item_id items)"
    and loop: "dependency_loop (dict_of wi_item_id items) (map wi_item_id items) = Inr ord"
    by (auto simp: dependency_order_eq split: if_splits)
  note sound = dependency_loop_sound [OF loop d]
  then have "set ord = set (map wi_item_id items)" by (metis set_mset_mset)
  with sound known item_deps_in [OF d] show ?thesis by (auto simp: item_deps_def)
qed

lemma work_order_complete:
  "succeeds (deterministic_dependency_order items) \<longleftrightarrow>
     distinct (map wi_item_id items) \<and>
     (\<forall>x\<in>set items. set (wi_dependency_ids x) \<subseteq> wi_item_id ` set items) \<and>
     (\<exists>ord. mset ord = mset (map wi_item_id items) \<and> deps_first (item_deps items) ord)" (is "?L \<longleftrightarrow> ?R")
proof
  assume ?L
  then obtain ord where ord: "deterministic_dependency_order items = Inr ord"
    by (auto simp: succeeds_iff)
  then have d: "distinct (map wi_item_id items)"
    and known: "\<forall>x\<in>set items. set (wi_dependency_ids x) \<subseteq> wi_item_id ` set items"
    and loop: "dependency_loop (dict_of wi_item_id items) (map wi_item_id items) = Inr ord"
    by (auto simp: dependency_order_eq split: if_splits)
  with dependency_loop_sound [OF loop d] show ?R by (auto simp: item_deps_def)
next
  assume R: ?R
  then obtain ord where "mset ord = mset (map wi_item_id items)" "deps_first (item_deps items) ord"
    by blast
  then have "succeeds (dependency_loop (dict_of wi_item_id items) (map wi_item_id items))"
    by (intro dependency_loop_complete) (simp_all add: item_deps_def)
  with R show ?L
    by (simp add: dependency_order_eq)
qed

text \<open>C38. The work order is a topological priority order: whenever \<^verbatim>\<open>deterministic_dependency_order\<close>
  returns, the result lists every item exactly once, all dependencies of an item come before it,
  and at each position the chosen item has the least (priority, id) among the items whose
  dependencies are already placed.\<close>

theorem dependency_order_sound:
  assumes "deterministic_dependency_order items = Inr ord"
  shows "mset ord = mset (map wi_item_id items) \<and> deps_first (item_deps items) ord \<and>
     least_first (item_deps items) (order_key (dict_of wi_item_id items)) ord \<and>
     (\<forall>x\<in>set items. item_deps items (wi_item_id x) = wi_dependency_ids x \<and>
        set (wi_dependency_ids x) \<subseteq> set ord)"
  by (rule work_order_sound [OF assms])

text \<open>C39. It fails exactly when it must: it returns an order if and only if the item ids are
  distinct, every dependency is in the set, and some arrangement of the items has all dependencies
  first (the dependencies are acyclic). In particular the loop always terminates.\<close>

theorem dependency_order_complete:
  "succeeds (deterministic_dependency_order items) \<longleftrightarrow>
     distinct (map wi_item_id items) \<and>
     (\<forall>x\<in>set items. set (wi_dependency_ids x) \<subseteq> wi_item_id ` set items) \<and>
     (\<exists>ord. mset ord = mset (map wi_item_id items) \<and> deps_first (item_deps items) ord)"
  by (rule work_order_complete)

text \<open>Input order has no effect: two listings of the same work set give the same result, the
  same order or the same error.\<close>

theorem dependency_order_input_independent:
  assumes "mset items = mset items'"
  shows "deterministic_dependency_order items = deterministic_dependency_order items'"
proof (cases "distinct (map wi_item_id items)")
  case True
  have s: "set items = set items'" using assms by (metis set_mset_mset)
  have "mset (map wi_item_id items) = mset (map wi_item_id items')" using assms by simp
  then have True': "distinct (map wi_item_id items')"
    using True by (metis mset_eq_imp_distinct_iff)
  have "dget (dict_of wi_item_id items) = dget (dict_of wi_item_id items')"
    using True True' s
    by (intro map_of_inject_set [THEN iffD2]) (simp_all add: dict_of_distinct o_def)
  then have "dependency_loop (dict_of wi_item_id items) (map wi_item_id items) =
      dependency_loop (dict_of wi_item_id items') (map wi_item_id items')"
    by (rule dependency_loop_cong) (use True True' s in auto)
  with True True' s show ?thesis
    by (simp add: dependency_order_eq)
next
  case False
  have "mset (map wi_item_id items) = mset (map wi_item_id items')" using assms by simp
  then have "\<not> distinct (map wi_item_id items')"
    using False by (metis mset_eq_imp_distinct_iff)
  with False show ?thesis by (simp add: dependency_order_eq)
qed

definition sample_items :: "attention_work_item list" where
  "sample_items =
     [\<lparr>wi_item_id = ''b'', wi_priority = 1, wi_dependency_ids = [''a'']\<rparr>,
      \<lparr>wi_item_id = ''c'', wi_priority = 5, wi_dependency_ids = []\<rparr>,
      \<lparr>wi_item_id = ''a'', wi_priority = 9, wi_dependency_ids = [''c'']\<rparr>]"

lemma sample_items_order: "deterministic_dependency_order sample_items = Inr [''c'', ''a'', ''b'']"
  by code_simp

theorem dependency_order_sound_witness:
  "deps_first (item_deps sample_items) [''c'', ''a'', ''b''] \<and>
   least_first (item_deps sample_items) (order_key (dict_of wi_item_id sample_items)) [''c'', ''a'', ''b'']"
  using dependency_order_sound [OF sample_items_order] by blast

theorem dependency_order_complete_witness:
  "\<exists>ord. mset ord = mset (map wi_item_id sample_items) \<and> deps_first (item_deps sample_items) ord"
  using dependency_order_complete [of sample_items] by (simp add: sample_items_order succeeds_def)

theorem dependency_order_input_independent_witness:
  "deterministic_dependency_order (rev sample_items) = Inr [''c'', ''a'', ''b'']"
  using dependency_order_input_independent [of "rev sample_items" sample_items] sample_items_order
  by simp

end
