(* ===== verification/WorkerProtocol.thy ===== *)
theory WorkerProtocol
  imports Assignments
begin

text \<open>
  The worker protocol (\<^verbatim>\<open>worker_protocol.py\<close>): worker steps, time-bounded claims, checkpoints,
  results, the resource observation a claim decision consumed, the envelope handed to a worker, their
  validated constructors and their deterministic identifiers. \<^verbatim>\<open>uuid5\<close> and the canonical JSON text of
  an observation (\<open>dump\<close>, \<open>dump_claim\<close>) are arguments. The payloads of checkpoints and results are JSON
  values by type, so the check of \<^verbatim>\<open>_require_json_object\<close> that a value is one has no counterpart. The values
  are null, booleans, integers, texts, lists and objects: payloads with floating-point numbers are left out.
\<close>

section \<open>JSON payloads\<close>

text \<open>Python compares dictionaries without regard to the order of their keys, and \<^verbatim>\<open>True == 1\<close>:
  two payloads are equal when their canonical forms are.\<close>

primrec json_canon :: "json \<Rightarrow> json" where
  "json_canon JNull = JNull"
| "json_canon (JBool b) = JInt (if b then 1 else 0)"
| "json_canon (JInt i) = JInt i"
| "json_canon (JStr s) = JStr s"
| "json_canon (JList xs) = JList (map json_canon xs)"
| "json_canon (JObj kvs) = JObj (sort_key fst (map (\<lambda>kv. map_prod id json_canon kv) kvs))"

definition same_payload :: "json_object \<Rightarrow> json_object \<Rightarrow> bool" where
  "same_payload a b \<longleftrightarrow> json_canon (JObj a) = json_canon (JObj b)"

section \<open>Data\<close>

definition WORKER_PROTOCOL_VERSION :: string where
  "WORKER_PROTOCOL_VERSION = ''v0.7-f-worker-v1''"

definition WORKER_CLAIM_POLICY_VERSION :: string where
  "WORKER_CLAIM_POLICY_VERSION = ''v0.7-f-guarded-claim-v1''"

definition WORKER_STEP_NAMESPACE :: uuid where
  "WORKER_STEP_NAMESPACE = 0x28f0ad6cdd5c4a7e9e557f6de9231599"

definition WORKER_OBSERVATION_NAMESPACE :: uuid where
  "WORKER_OBSERVATION_NAMESPACE = 0x0dccacfa95f6455c9d186bbdfbd5102b"

datatype worker_effect_policy = NO_EXTERNAL_EFFECT | IDEMPOTENT_WITH_KEY | AT_MOST_ONCE

definition abandoned_retry_is_safe :: "worker_effect_policy \<Rightarrow> bool" where
  "abandoned_retry_is_safe p \<longleftrightarrow> p \<in> {NO_EXTERNAL_EFFECT, IDEMPOTENT_WITH_KEY}"

datatype worker_claim_status = ACTIVE | CHECKPOINTED | CLAIM_COMPLETED | ABANDONED | RELEASED

datatype worker_claim_decision = GRANTED | DENIED

record worker_step =
  ws_protocol_version :: string
  ws_step_id :: uuid
  ws_assignment_id :: uuid
  ws_task_id :: uuid
  ws_task_revision :: int
  ws_created_epoch_sequence :: int
  ws_step_key :: string
  ws_capability :: string
  ws_reservation_ids :: "uuid list"
  ws_input_refs :: "string list"
  ws_idempotency_key :: string
  ws_effect_policy :: worker_effect_policy

record worker_claim =
  wc_claim_id :: uuid
  wc_step_id :: uuid
  wc_assignment_id :: uuid
  wc_task_id :: uuid
  wc_worker_id :: string
  wc_attempt :: int
  wc_checkpoint_revision :: int
  wc_observation_id :: uuid
  wc_claimed_at :: datetime
  wc_lease_expires_at :: datetime
  wc_last_heartbeat_at :: datetime
  wc_status :: worker_claim_status

record worker_checkpoint =
  wk_checkpoint_id :: uuid
  wk_step_id :: uuid
  wk_claim_id :: uuid
  wk_revision :: int
  wk_state :: json_object
  wk_output_refs :: "string list"
  wk_created_at :: datetime

record worker_result =
  wr_result_id :: uuid
  wr_step_id :: uuid
  wr_claim_id :: uuid
  wr_checkpoint_revision :: int
  wr_idempotency_key :: string
  wr_output :: json_object
  wr_output_refs :: "string list"
  wr_completed_at :: datetime

record claim_observation =
  wo_observation_id :: uuid
  wo_step_id :: uuid
  wo_assignment_id :: uuid
  wo_captured_at :: datetime
  wo_evaluated_at :: datetime
  wo_valid_until :: datetime
  wo_claim_policy_version :: string
  wo_resource_safety_policy_version :: string
  wo_decision :: worker_claim_decision
  wo_reason :: string
  wo_active_claim_ids :: "uuid list"
  wo_target_reservation_ids :: "uuid list"
  wo_resource_snapshot :: resource_observation

record claim_envelope =
  we_step :: worker_step
  we_claim :: worker_claim
  we_checkpoint :: "worker_checkpoint option"

record claim_attempt =
  wa_observation :: claim_observation
  wa_envelope :: "claim_envelope option"

section \<open>Identifiers and time\<close>

definition deterministic_worker_step_id ::
  "(uuid \<Rightarrow> string \<Rightarrow> uuid) \<Rightarrow> uuid \<Rightarrow> string \<Rightarrow> uuid res" where
  "deterministic_worker_step_id uuid5 assignment_id step_key =
     raise_if (py_strip step_key = []) (ValueError ''step_key must not be empty'')
       (Inr (uuid5 WORKER_STEP_NAMESPACE
          (uuid_str assignment_id @ '':prometheist-worker-step:'' @ py_strip step_key)))"

definition deterministic_worker_idempotency_key :: "uuid \<Rightarrow> string" where
  "deterministic_worker_idempotency_key step_id =
     ''prometheist:'' @ WORKER_PROTOCOL_VERSION @ '':'' @ uuid_str step_id"

definition deterministic_worker_claim_id ::
  "(uuid \<Rightarrow> string \<Rightarrow> uuid) \<Rightarrow> uuid \<Rightarrow> int \<Rightarrow> uuid res" where
  "deterministic_worker_claim_id uuid5 step_id attempt =
     raise_if (attempt < 1) (ValueError ''attempt must be >= 1'')
       (Inr (uuid5 step_id (''prometheist-worker-claim:'' @ int_str attempt)))"

definition deterministic_worker_checkpoint_id ::
  "(uuid \<Rightarrow> string \<Rightarrow> uuid) \<Rightarrow> uuid \<Rightarrow> int \<Rightarrow> uuid res" where
  "deterministic_worker_checkpoint_id uuid5 step_id revision =
     raise_if (revision < 1) (ValueError ''checkpoint revision must be >= 1'')
       (Inr (uuid5 step_id (''prometheist-worker-checkpoint:'' @ int_str revision)))"

definition deterministic_worker_result_id :: "(uuid \<Rightarrow> string \<Rightarrow> uuid) \<Rightarrow> uuid \<Rightarrow> uuid" where
  "deterministic_worker_result_id uuid5 step_id = uuid5 step_id ''prometheist-worker-result''"

definition deterministic_worker_claim_observation_id ::
  "(uuid \<Rightarrow> string \<Rightarrow> uuid) \<Rightarrow> (claim_observation \<Rightarrow> string) \<Rightarrow> claim_observation \<Rightarrow> uuid" where
  "deterministic_worker_claim_observation_id uuid5 dump_claim o1 =
     uuid5 WORKER_OBSERVATION_NAMESPACE (dump_claim (o1\<lparr>wo_observation_id := 0\<rparr>))"

definition worker_as_utc :: "datetime \<Rightarrow> datetime res" where
  "worker_as_utc value =
     (case value of
        Naive _ \<Rightarrow> Inl (ValueError ''worker protocol timestamps must be timezone-aware'')
      | Aware _ _ \<Rightarrow> Inr (Aware (dt_instant value) 0))"

section \<open>Validated constructors\<close>

definition normalize_nonempty_text :: "string \<Rightarrow> string res" where
  "normalize_nonempty_text value =
     raise_if (py_strip value = []) (ValueError ''worker-step text fields must not be empty'')
       (Inr (py_strip value))"

definition normalize_refs :: "string \<Rightarrow> string list \<Rightarrow> string list res" where
  "normalize_refs field values =
     (let normalized = map py_strip values
      in raise_if ([] \<in> set normalized) (ValueError (field @ '' must not contain empty values''))
        (raise_if (\<not> distinct normalized) (ValueError (field @ '' must not contain duplicates''))
        (Inr normalized)))"

definition validate_worker_step ::
  "(uuid \<Rightarrow> string \<Rightarrow> uuid) \<Rightarrow> worker_step \<Rightarrow> worker_step res" where
  "validate_worker_step uuid5 st =
     raise_if (ws_task_revision st < 0) (ValueError ''task_revision: ge 0'')
    (raise_if (ws_created_epoch_sequence st < 1) (ValueError ''created_epoch_sequence: ge 1'')
    (rbind (normalize_nonempty_text (ws_step_key st)) (\<lambda>step_key.
     rbind (normalize_nonempty_text (ws_capability st)) (\<lambda>capability.
     rbind (normalize_nonempty_text (ws_idempotency_key st)) (\<lambda>idempotency_key.
     rbind (normalize_refs ''input_refs'' (ws_input_refs st)) (\<lambda>input_refs.
     raise_if (ws_protocol_version st \<noteq> WORKER_PROTOCOL_VERSION)
       (ValueError ''worker step protocol version is unsupported'')
    (raise_if (\<not> distinct (ws_reservation_ids st))
       (ValueError ''reservation_ids must not contain duplicates'')
    (rbind (deterministic_worker_step_id uuid5 (ws_assignment_id st) step_key) (\<lambda>step_id.
     raise_if (ws_step_id st \<noteq> step_id) (ValueError ''worker step id is not deterministic'')
    (raise_if (idempotency_key \<noteq> deterministic_worker_idempotency_key (ws_step_id st))
       (ValueError ''worker idempotency key is not deterministic'')
    (Inr (st\<lparr>ws_step_key := step_key, ws_capability := capability,
             ws_input_refs := input_refs, ws_idempotency_key := idempotency_key\<rparr>))))))))))))"

definition validate_claim :: "(uuid \<Rightarrow> string \<Rightarrow> uuid) \<Rightarrow> worker_claim \<Rightarrow> worker_claim res" where
  "validate_claim uuid5 c =
     raise_if (wc_attempt c < 1) (ValueError ''attempt: ge 1'')
    (raise_if (wc_checkpoint_revision c < 0) (ValueError ''checkpoint_revision: ge 0'')
    (raise_if (py_strip (wc_worker_id c) = []) (ValueError ''worker_id must not be empty'')
    (rbind (worker_as_utc (wc_claimed_at c)) (\<lambda>claimed_at.
     rbind (worker_as_utc (wc_lease_expires_at c)) (\<lambda>lease_expires_at.
     rbind (worker_as_utc (wc_last_heartbeat_at c)) (\<lambda>last_heartbeat_at.
     raise_if (dt_instant lease_expires_at \<le> dt_instant claimed_at)
       (ValueError ''worker lease must have a positive lifetime'')
    (raise_if (\<not> (dt_instant claimed_at \<le> dt_instant last_heartbeat_at \<and>
                  dt_instant last_heartbeat_at < dt_instant lease_expires_at))
       (ValueError ''worker heartbeat must fall inside the lease'')
    (rbind (deterministic_worker_claim_id uuid5 (wc_step_id c) (wc_attempt c)) (\<lambda>claim_id.
     raise_if (wc_claim_id c \<noteq> claim_id) (ValueError ''worker claim id is not deterministic'')
    (Inr (c\<lparr>wc_worker_id := py_strip (wc_worker_id c), wc_claimed_at := claimed_at,
            wc_lease_expires_at := lease_expires_at,
            wc_last_heartbeat_at := last_heartbeat_at\<rparr>)))))))))))"

definition validate_checkpoint ::
  "(uuid \<Rightarrow> string \<Rightarrow> uuid) \<Rightarrow> worker_checkpoint \<Rightarrow> worker_checkpoint res" where
  "validate_checkpoint uuid5 k =
     raise_if (wk_revision k < 1) (ValueError ''revision: ge 1'')
    (rbind (normalize_refs ''output_refs'' (wk_output_refs k)) (\<lambda>output_refs.
     rbind (worker_as_utc (wk_created_at k)) (\<lambda>created_at.
     rbind (deterministic_worker_checkpoint_id uuid5 (wk_step_id k) (wk_revision k)) (\<lambda>checkpoint_id.
     raise_if (wk_checkpoint_id k \<noteq> checkpoint_id)
       (ValueError ''worker checkpoint id is not deterministic'')
    (Inr (k\<lparr>wk_output_refs := output_refs, wk_created_at := created_at\<rparr>))))))"

definition validate_result ::
  "(uuid \<Rightarrow> string \<Rightarrow> uuid) \<Rightarrow> worker_result \<Rightarrow> worker_result res" where
  "validate_result uuid5 r =
     raise_if (wr_checkpoint_revision r < 0) (ValueError ''checkpoint_revision: ge 0'')
    (raise_if (py_strip (wr_idempotency_key r) = []) (ValueError ''idempotency_key must not be empty'')
    (rbind (normalize_refs ''output_refs'' (wr_output_refs r)) (\<lambda>output_refs.
     rbind (worker_as_utc (wr_completed_at r)) (\<lambda>completed_at.
     raise_if (wr_result_id r \<noteq> deterministic_worker_result_id uuid5 (wr_step_id r))
       (ValueError ''worker result id is not deterministic'')
    (raise_if (py_strip (wr_idempotency_key r) \<noteq> deterministic_worker_idempotency_key (wr_step_id r))
       (ValueError ''worker result uses the wrong idempotency key'')
    (Inr (r\<lparr>wr_idempotency_key := py_strip (wr_idempotency_key r), wr_output_refs := output_refs,
            wr_completed_at := completed_at\<rparr>)))))))"

definition validate_claim_observation ::
  "(uuid \<Rightarrow> string \<Rightarrow> uuid) \<Rightarrow> (resource_observation \<Rightarrow> string) \<Rightarrow> (claim_observation \<Rightarrow> string) \<Rightarrow>
     claim_observation \<Rightarrow> claim_observation res" where
  "validate_claim_observation uuid5 dump dump_claim o1 =
     raise_if (wo_resource_safety_policy_version o1 = [])
       (ValueError ''resource_safety_policy_version: min_length'')
    (raise_if (py_strip (wo_reason o1) = []) (ValueError ''claim observation reason must not be empty'')
    (rbind (validate_observation uuid5 dump (wo_resource_snapshot o1)) (\<lambda>snapshot.
     raise_if (wo_claim_policy_version o1 \<noteq> WORKER_CLAIM_POLICY_VERSION)
       (ValueError ''worker claim policy version is unsupported'')
    (rbind (worker_as_utc (wo_captured_at o1)) (\<lambda>captured_at.
     rbind (worker_as_utc (wo_evaluated_at o1)) (\<lambda>evaluated_at.
     rbind (worker_as_utc (wo_valid_until o1)) (\<lambda>valid_until.
     raise_if (dt_instant valid_until \<le> dt_instant captured_at)
       (ValueError ''claim observation must have a positive lifetime'')
    (raise_if (dt_instant (ob_captured_at snapshot) \<noteq> dt_instant captured_at \<or>
               dt_instant (ob_valid_until snapshot) \<noteq> dt_instant valid_until \<or>
               ob_safety_policy_version snapshot \<noteq> wo_resource_safety_policy_version o1)
       (ValueError ''claim observation must bind its exact resource snapshot'')
    (raise_if (wo_decision o1 = GRANTED \<and>
        \<not> (dt_instant captured_at \<le> dt_instant evaluated_at \<and>
           dt_instant evaluated_at \<le> dt_instant valid_until))
       (ValueError ''a granted claim observation must be fresh'')
    (raise_if (\<not> distinct (wo_active_claim_ids o1))
       (ValueError ''active_claim_ids must not contain duplicates'')
    (raise_if (\<not> distinct (wo_target_reservation_ids o1))
       (ValueError ''target_reservation_ids must not contain duplicates'')
    (let o2 = o1\<lparr>wo_reason := py_strip (wo_reason o1), wo_resource_snapshot := snapshot,
                 wo_captured_at := captured_at, wo_evaluated_at := evaluated_at,
                 wo_valid_until := valid_until\<rparr>
     in raise_if (wo_observation_id o2 \<noteq> deterministic_worker_claim_observation_id uuid5 dump_claim o2)
          (ValueError ''worker claim observation id is not deterministic'')
          (Inr o2)))))))))))))"

definition claim_assert_fresh :: "claim_observation \<Rightarrow> datetime \<Rightarrow> unit res" where
  "claim_assert_fresh o1 now =
     rbind (worker_as_utc now) (\<lambda>evaluated_at.
     raise_if (dt_instant evaluated_at < dt_instant (wo_captured_at o1) \<or>
               dt_instant evaluated_at > dt_instant (wo_valid_until o1))
       (ValueError ''worker claim resource observation is stale'') (Inr ()))"

definition validate_envelope :: "claim_envelope \<Rightarrow> claim_envelope res" where
  "validate_envelope e =
     raise_if (wc_step_id (we_claim e) \<noteq> ws_step_id (we_step e) \<or>
               wc_assignment_id (we_claim e) \<noteq> ws_assignment_id (we_step e) \<or>
               wc_task_id (we_claim e) \<noteq> ws_task_id (we_step e))
       (ValueError ''worker claim does not match its step'')
    (case we_checkpoint e of
       None \<Rightarrow>
         raise_if (wc_checkpoint_revision (we_claim e) \<noteq> 0)
           (ValueError ''claim references a missing checkpoint'') (Inr e)
     | Some k \<Rightarrow>
         raise_if (wk_step_id k \<noteq> ws_step_id (we_step e) \<or>
                   wk_revision k \<noteq> wc_checkpoint_revision (we_claim e))
           (ValueError ''claim does not reference the latest checkpoint'') (Inr e))"

definition validate_attempt :: "claim_attempt \<Rightarrow> claim_attempt res" where
  "validate_attempt a =
     raise_if ((wo_decision (wa_observation a) = GRANTED) \<noteq> (wa_envelope a \<noteq> None))
       (ValueError ''only a granted observation may carry a worker lease'')
    (raise_if (case wa_envelope a of
        None \<Rightarrow> False
      | Some e \<Rightarrow>
          ws_step_id (we_step e) \<noteq> wo_step_id (wa_observation a) \<or>
          ws_assignment_id (we_step e) \<noteq> wo_assignment_id (wa_observation a) \<or>
          wc_observation_id (we_claim e) \<noteq> wo_observation_id (wa_observation a))
       (ValueError ''claim envelope does not match its observation'')
    (Inr a))"

section \<open>Validated values are stable\<close>

text \<open>A value that a constructor has accepted is accepted again, unchanged: what the store reads back is
  what was written.\<close>

lemma normalize_refs_Inr:
  "normalize_refs f xs = Inr ys \<longleftrightarrow> ys = map py_strip xs \<and> [] \<notin> py_strip ` set xs \<and> distinct (map py_strip xs)"
  by (auto simp: normalize_refs_def Let_def)

lemma worker_as_utc_Inr:
  "worker_as_utc t = Inr u \<longleftrightarrow> (\<exists>w off. t = Aware w off) \<and> u = Aware (dt_instant t) 0"
  by (cases t) (auto simp: worker_as_utc_def)

lemma normalize_nonempty_text_Inr:
  "normalize_nonempty_text x = Inr y \<longleftrightarrow> y = py_strip x \<and> py_strip x \<noteq> []"
  by (auto simp: normalize_nonempty_text_def)

lemmas validated_simps = normalize_refs_Inr worker_as_utc_Inr normalize_nonempty_text_Inr

lemma strip_stable: "py_strip a = b \<Longrightarrow> py_strip b = b"
  by auto

lemma map_strip_idem [simp]: "py_strip \<circ> py_strip = py_strip"
  by (simp add: fun_eq_iff)

lemma image_strip_idem [simp]: "py_strip ` py_strip ` A = py_strip ` A"
  by (simp add: image_image)

lemma validate_worker_step_stable:
  assumes "validate_worker_step uuid5 x = Inr y"
  shows "validate_worker_step uuid5 y = Inr y \<and>
     ws_step_id y = ws_step_id x \<and> ws_assignment_id y = ws_assignment_id x \<and> ws_task_id y = ws_task_id x \<and>
     ws_reservation_ids y = ws_reservation_ids x \<and> ws_effect_policy y = ws_effect_policy x \<and>
     ws_task_revision y = ws_task_revision x"
proof -
  let ?y = "x\<lparr>ws_step_key := py_strip (ws_step_key x), ws_capability := py_strip (ws_capability x),
     ws_input_refs := map py_strip (ws_input_refs x), ws_idempotency_key := py_strip (ws_idempotency_key x)\<rparr>"
  have "y = ?y" using assms by (auto simp: validate_worker_step_def validated_simps)
  have "py_strip (ws_idempotency_key x) = deterministic_worker_idempotency_key (ws_step_id x)"
    using assms by (auto simp: validate_worker_step_def validated_simps)
  then have "py_strip (deterministic_worker_idempotency_key (ws_step_id x)) = deterministic_worker_idempotency_key (ws_step_id x)"
    by (rule strip_stable)
  then have "validate_worker_step uuid5 ?y = Inr ?y"
    using assms unfolding validate_worker_step_def by (auto simp: validated_simps)
  with \<open>y = ?y\<close> show ?thesis by simp
qed

lemma validate_claim_stable:
  "validate_claim uuid5 x = Inr y \<Longrightarrow> validate_claim uuid5 y = Inr y \<and>
     wc_step_id y = wc_step_id x \<and> wc_assignment_id y = wc_assignment_id x \<and> wc_task_id y = wc_task_id x \<and>
     wc_status y = wc_status x \<and> wc_attempt y = wc_attempt x \<and> wc_claim_id y = wc_claim_id x \<and>
     wc_checkpoint_revision y = wc_checkpoint_revision x \<and> wc_observation_id y = wc_observation_id x"
  by (auto simp: validate_claim_def validated_simps)

lemma validate_checkpoint_stable:
  "validate_checkpoint uuid5 x = Inr y \<Longrightarrow> validate_checkpoint uuid5 y = Inr y \<and>
     wk_step_id y = wk_step_id x \<and> wk_claim_id y = wk_claim_id x \<and> wk_revision y = wk_revision x \<and>
     wk_checkpoint_id y = wk_checkpoint_id x \<and> wk_state y = wk_state x"
  by (auto simp: validate_checkpoint_def validated_simps)

lemma validate_result_stable:
  assumes "validate_result uuid5 x = Inr y"
  shows "validate_result uuid5 y = Inr y \<and>
     wr_step_id y = wr_step_id x \<and> wr_claim_id y = wr_claim_id x \<and> wr_result_id y = wr_result_id x \<and>
     wr_checkpoint_revision y = wr_checkpoint_revision x \<and> wr_output y = wr_output x"
proof -
  let ?y = "x\<lparr>wr_idempotency_key := py_strip (wr_idempotency_key x), wr_output_refs := map py_strip (wr_output_refs x),
     wr_completed_at := Aware (dt_instant (wr_completed_at x)) 0\<rparr>"
  have "y = ?y" using assms by (auto simp: validate_result_def validated_simps)
  have "py_strip (wr_idempotency_key x) = deterministic_worker_idempotency_key (wr_step_id x)"
    using assms by (auto simp: validate_result_def validated_simps)
  then have "py_strip (deterministic_worker_idempotency_key (wr_step_id x)) = deterministic_worker_idempotency_key (wr_step_id x)"
    by (rule strip_stable)
  then have "validate_result uuid5 ?y = Inr ?y"
    using assms unfolding validate_result_def by (auto simp: validated_simps)
  with \<open>y = ?y\<close> show ?thesis by simp
qed

end
