(* ===== verification/Database.thy ===== *)
theory Database
  imports Tasks WorkerProtocol
begin

text \<open>
  The tables of \<^verbatim>\<open>schema.sql\<close> that the attention and worker stores read and write, as lists of rows in
  insertion order. A row carries the scheduler key under which it was written; its remaining columns are
  the fields of the value it stores, less the bookkeeping columns \<^verbatim>\<open>created_at\<close> and \<^verbatim>\<open>updated_at\<close>, which
  no modelled statement reads. A transaction either commits the tables its statements produced or raises
  and leaves the tables as they were. Statements of concurrent transactions that touch the same rows are
  serialised by the row locks the code takes (\<^verbatim>\<open>FOR UPDATE\<close>), so a run of the system is a sequence of
  transactions.
\<close>

section \<open>Tables\<close>

type_synonym 'r table = "(string \<times> 'r) list"

definition rows :: "string \<Rightarrow> 'r table \<Rightarrow> 'r list" where
  "rows key t = map snd (filter (\<lambda>r. fst r = key) t)"

definition insert_row :: "string \<Rightarrow> 'r \<Rightarrow> 'r table \<Rightarrow> 'r table" where
  "insert_row key r t = t @ [(key, r)]"

definition update_rows :: "(string \<Rightarrow> 'r \<Rightarrow> bool) \<Rightarrow> ('r \<Rightarrow> 'r) \<Rightarrow> 'r table \<Rightarrow> 'r table" where
  "update_rows P f t = map (\<lambda>r. (fst r, if P (fst r) (snd r) then f (snd r) else snd r)) t"

definition delete_key :: "string \<Rightarrow> 'r table \<Rightarrow> 'r table" where
  "delete_key key t = filter (\<lambda>r. fst r \<noteq> key) t"

text \<open>\<^verbatim>\<open>ORDER BY f DESC LIMIT 1\<close>.\<close>

definition latest_by :: "('r \<Rightarrow> int) \<Rightarrow> 'r list \<Rightarrow> 'r option" where
  "latest_by f rs = (case rev (sort_key f rs) of [] \<Rightarrow> None | r # _ \<Rightarrow> Some r)"

record scheduler_state_row =
  st_cycle :: int
  st_active_task_id :: "uuid option"
  st_pending_preemption_task_id :: "uuid option"
  st_admission_policy_version :: string
  st_admitted_task_ids :: "uuid list"
  st_epoch_sequence :: int
  st_current_epoch_id :: "uuid option"
  st_assignment_policy_version :: string
  st_preemption_policy_version :: string
  st_preemption_state_revision :: int
  st_pending_preemptions :: "pending_preemption list"
  st_resource_safety_required :: bool
  st_resource_safety_policy_version :: string
  st_current_resource_observation_id :: "uuid option"

record database =
  db_state :: "(string, scheduler_state_row) dict"
  db_resources :: "execution_resource list"
  db_tasks :: "attention_task table"
  db_transitions :: "task_transition table"
  db_observations :: "resource_observation table"
  db_assignments :: "durable_assignment table"
  db_epochs :: "scheduling_epoch table"
  db_events :: "preemption_event table"
  db_reservations :: "resource_reservation table"
  db_steps :: "worker_step table"
  db_claim_observations :: "claim_observation table"
  db_claims :: "worker_claim table"
  db_checkpoints :: "worker_checkpoint table"
  db_results :: "worker_result table"

definition empty_database :: database where
  "empty_database =
     \<lparr>db_state = [], db_resources = [], db_tasks = [], db_transitions = [], db_observations = [],
      db_assignments = [], db_epochs = [], db_events = [], db_reservations = [], db_steps = [],
      db_claim_observations = [], db_claims = [], db_checkpoints = [], db_results = []\<rparr>"

text \<open>\<^verbatim>\<open>try: ... conn.commit() except Exception: conn.rollback(); raise\<close>.\<close>

definition transaction :: "('d \<Rightarrow> ('a \<times> 'd) res) \<Rightarrow> ('d, 'a) op" where
  "transaction body d = (case body d of Inl e \<Rightarrow> (Inl e, d) | Inr (x, d') \<Rightarrow> (Inr x, d'))"

section \<open>Lemmas\<close>

lemma rows_Nil [simp]: "rows key [] = []"
  by (simp add: rows_def)

lemma rows_insert [simp]:
  "rows key (insert_row key' r t) = (if key' = key then rows key t @ [r] else rows key t)"
  by (simp add: rows_def insert_row_def)

lemma rows_update [simp]:
  "rows key (update_rows P f t) = map (\<lambda>r. if P key r then f r else r) (rows key t)"
  by (simp add: rows_def update_rows_def filter_map o_def)

lemma rows_delete [simp]: "rows key (delete_key key' t) = (if key' = key then [] else rows key t)"
  by (auto simp: rows_def delete_key_def intro!: arg_cong [where f = "map snd"] filter_cong)

lemma set_rows: "r \<in> set (rows key t) \<longleftrightarrow> (key, r) \<in> set t"
  by (force simp: rows_def)

lemma set_insert_row [simp]: "set (insert_row key r t) = insert (key, r) (set t)"
  by (simp add: insert_row_def)

lemma set_update_rows:
  "(key, r') \<in> set (update_rows P f t) \<longleftrightarrow> (\<exists>r. (key, r) \<in> set t \<and> r' = (if P key r then f r else r))"
  by (force simp: update_rows_def)

lemma update_rows_False: "(\<And>k r. (k, r) \<in> set t \<Longrightarrow> \<not> P k r) \<Longrightarrow> update_rows P f t = t"
  unfolding update_rows_def by (rule map_idI) auto

lemma latest_by_Nil [simp]: "latest_by f [] = None"
  by (simp add: latest_by_def)

lemma latest_by_None [simp]: "latest_by f rs = None \<longleftrightarrow> rs = []"
  by (auto simp: latest_by_def split: list.split dest: arg_cong [where f = length])

text \<open>When the rows were inserted in increasing order, the latest row is the last one.\<close>

lemma latest_by_sorted:
  assumes "sorted (map f rs)" and "rs \<noteq> []"
  shows "latest_by f rs = Some (last rs)"
  using assms by (cases rs rule: rev_cases) (simp_all add: latest_by_def sort_key_id_if_sorted)

lemma option_raise_eq_Inr [simp]:
  "(case m of None \<Rightarrow> Inl e | Some x \<Rightarrow> f x) = Inr y \<longleftrightarrow> (\<exists>x. m = Some x \<and> f x = Inr y)"
  by (cases m) auto

lemma transaction_Inl [simp]: "body d = Inl e \<Longrightarrow> transaction body d = (Inl e, d)"
  and transaction_Inr [simp]: "body d = Inr (x, d') \<Longrightarrow> transaction body d = (Inr x, d')"
  by (simp_all add: transaction_def)

lemma transaction_returns: "transaction body d = (Inr x, d') \<longleftrightarrow> body d = Inr (x, d')"
  by (auto simp: transaction_def split: sum.splits)

lemma transaction_state: "snd (transaction body d) = (case body d of Inl _ \<Rightarrow> d | Inr (_, d') \<Rightarrow> d')"
  by (simp add: transaction_def split: sum.split prod.split)

lemma keeps_transaction:
  "(\<And>d x d'. P d \<Longrightarrow> body d = Inr (x, d') \<Longrightarrow> P d') \<Longrightarrow> keeps P (transaction body)"
  by (auto simp: keeps_def transaction_state split: sum.split prod.split)

end
