(* ===== verification/WorkerStore.thy ===== *)
theory WorkerStore
  imports Database
begin

text \<open>
  Durable, guarded leasing of worker steps (\<^verbatim>\<open>worker_store.py\<close>): registering a step of a committed
  assignment, claiming it after a fresh resource observation, extending the lease, checkpointing,
  completing and releasing it. Every operation is one transaction on the tables of \<open>Database\<close>; the
  constraints of \<^verbatim>\<open>schema.sql\<close> that a statement can violate raise \<open>IntegrityError\<close>. The host probe is an
  argument: a sample or the text of the error it raised. So are the readings of the clock. The denial
  texts quote a resource id between single quotes, which is Python's \<^verbatim>\<open>repr\<close> for ids without quotes,
  backslashes and control characters.
\<close>

section \<open>Loading rows\<close>

definition MAX_WORKER_LEASE_SECONDS :: int where
  "MAX_WORKER_LEASE_SECONDS = 3600"

definition store_as_utc :: "datetime \<Rightarrow> datetime res" where
  "store_as_utc value =
     (case value of
        Naive _ \<Rightarrow> Inl (ValueError ''worker-store timestamps must be timezone-aware'')
      | Aware _ _ \<Rightarrow> Inr (Aware (dt_instant value) 0))"

definition validate_lease_seconds :: "int \<Rightarrow> unit res" where
  "validate_lease_seconds value =
     raise_if (value < 1 \<or> value > MAX_WORKER_LEASE_SECONDS)
       (ValueError ''lease_seconds must be between 1 and 3600'') (Inr ())"

definition require_worker :: "worker_claim \<Rightarrow> string \<Rightarrow> unit res" where
  "require_worker c worker_id =
     raise_if (wc_worker_id c \<noteq> py_strip worker_id)
       (PermissionError ''worker id does not own this claim'') (Inr ())"

definition lock_scheduler_state :: "string \<Rightarrow> database \<Rightarrow> scheduler_state_row res" where
  "lock_scheduler_state key d =
     (case dget (db_state d) key of
        None \<Rightarrow> Inl (WorkerProtocolError ''worker protocol requires durable scheduler state'')
      | Some st \<Rightarrow> Inr st)"

definition lock_claim :: "(uuid \<Rightarrow> string \<Rightarrow> uuid) \<Rightarrow> string \<Rightarrow> uuid \<Rightarrow> database \<Rightarrow> worker_claim res" where
  "lock_claim uuid5 key claim_id d =
     (case find (\<lambda>c. wc_claim_id c = claim_id) (rows key (db_claims d)) of
        None \<Rightarrow> Inl KeyError | Some c \<Rightarrow> validate_claim uuid5 c)"

definition load_step :: "(uuid \<Rightarrow> string \<Rightarrow> uuid) \<Rightarrow> string \<Rightarrow> uuid \<Rightarrow> database \<Rightarrow> worker_step res" where
  "load_step uuid5 key step_id d =
     (case find (\<lambda>s. ws_step_id s = step_id) (rows key (db_steps d)) of
        None \<Rightarrow> Inl KeyError | Some s \<Rightarrow> validate_worker_step uuid5 s)"

definition load_optional :: "('r \<Rightarrow> 'a res) \<Rightarrow> 'r option \<Rightarrow> 'a option res" where
  "load_optional f row = (case row of None \<Rightarrow> Inr None | Some r \<Rightarrow> rbind (f r) (\<lambda>x. Inr (Some x)))"

definition step_claims :: "string \<Rightarrow> uuid \<Rightarrow> database \<Rightarrow> worker_claim list" where
  "step_claims key step_id d = filter (\<lambda>c. wc_step_id c = step_id) (rows key (db_claims d))"

definition step_checkpoints :: "string \<Rightarrow> uuid \<Rightarrow> database \<Rightarrow> worker_checkpoint list" where
  "step_checkpoints key step_id d = filter (\<lambda>k. wk_step_id k = step_id) (rows key (db_checkpoints d))"

definition step_results :: "string \<Rightarrow> uuid \<Rightarrow> database \<Rightarrow> worker_result list" where
  "step_results key step_id d = filter (\<lambda>r. wr_step_id r = step_id) (rows key (db_results d))"

definition load_latest_claim ::
  "(uuid \<Rightarrow> string \<Rightarrow> uuid) \<Rightarrow> string \<Rightarrow> uuid \<Rightarrow> database \<Rightarrow> worker_claim option res" where
  "load_latest_claim uuid5 key step_id d =
     load_optional (validate_claim uuid5) (latest_by wc_attempt (step_claims key step_id d))"

definition load_latest_checkpoint ::
  "(uuid \<Rightarrow> string \<Rightarrow> uuid) \<Rightarrow> string \<Rightarrow> uuid \<Rightarrow> database \<Rightarrow> worker_checkpoint option res" where
  "load_latest_checkpoint uuid5 key step_id d =
     load_optional (validate_checkpoint uuid5) (latest_by wk_revision (step_checkpoints key step_id d))"

definition load_checkpoint_for_claim ::
  "(uuid \<Rightarrow> string \<Rightarrow> uuid) \<Rightarrow> string \<Rightarrow> uuid \<Rightarrow> database \<Rightarrow> worker_checkpoint option res" where
  "load_checkpoint_for_claim uuid5 key claim_id d =
     load_optional (validate_checkpoint uuid5)
       (find (\<lambda>k. wk_claim_id k = claim_id) (rows key (db_checkpoints d)))"

definition load_result_row ::
  "(uuid \<Rightarrow> string \<Rightarrow> uuid) \<Rightarrow> string \<Rightarrow> uuid \<Rightarrow> database \<Rightarrow> worker_result option res" where
  "load_result_row uuid5 key step_id d =
     load_optional (validate_result uuid5)
       (find (\<lambda>r. wr_step_id r = step_id) (rows key (db_results d)))"

definition load_current_resource_observation ::
  "(uuid \<Rightarrow> string \<Rightarrow> uuid) \<Rightarrow> (resource_observation \<Rightarrow> string) \<Rightarrow> string \<Rightarrow> uuid option \<Rightarrow> database \<Rightarrow>
     resource_observation option res" where
  "load_current_resource_observation uuid5 dump key observation_id d =
     (case observation_id of
        None \<Rightarrow> Inr None
      | Some i \<Rightarrow> load_optional (validate_observation uuid5 dump)
          (find (\<lambda>o1. ob_observation_id o1 = i) (rows key (db_observations d))))"

definition row_to_resource :: "execution_resource \<Rightarrow> execution_resource res" where
  "row_to_resource r =
     mk_ExecutionResource (er_resource_id r) (er_resource_class r) (er_capacity r)
       (er_system_headroom r) (er_enabled r) (er_metadata r)"

definition row_to_reservation :: "resource_reservation \<Rightarrow> resource_reservation res" where
  "row_to_reservation r =
     mk_ResourceReservation (rr_reservation_id r) (rr_task_id r) (rr_resource_id r)
       (rr_resource_class r) (rr_units r)"

definition live_claim :: "datetime \<Rightarrow> worker_claim \<Rightarrow> bool" where
  "live_claim now c \<longleftrightarrow> wc_status c = ACTIVE \<and> dt_instant (wc_lease_expires_at c) > dt_instant now"

text \<open>The join of the live claims with their steps: claim id and reservation ids, in claim order.\<close>

definition load_active_claim_rows :: "datetime \<Rightarrow> database \<Rightarrow> (uuid \<times> uuid list) list" where
  "load_active_claim_rows captured_at d =
     sort_key fst (concat (map (\<lambda>kc. if live_claim captured_at (snd kc)
       then map (\<lambda>s. (wc_claim_id (snd kc), ws_reservation_ids s))
              (filter (\<lambda>s. ws_step_id s = wc_step_id (snd kc)) (rows (fst kc) (db_steps d)))
       else []) (db_claims d)))"

definition reservation_key :: "resource_reservation \<Rightarrow> string \<times> uuid" where
  "reservation_key r = (rr_resource_id r, rr_reservation_id r)"

definition load_claim_reservations ::
  "(uuid \<times> uuid list) list \<Rightarrow> database \<Rightarrow> resource_reservation list res" where
  "load_claim_reservations active_claims d =
     (let reservation_ids = set (concat (map snd active_claims))
      in if reservation_ids = {} then Inr []
         else let found = sort_key reservation_key
                  (filter (\<lambda>r. rr_reservation_id r \<in> reservation_ids) (map snd (db_reservations d)))
              in raise_if (set (map rr_reservation_id found) \<noteq> reservation_ids)
                   (WorkerProtocolError ''an active worker claim references a released reservation'')
                   (rmap row_to_reservation found))"

definition load_target_reservations ::
  "string \<Rightarrow> worker_step \<Rightarrow> database \<Rightarrow> resource_reservation list res" where
  "load_target_reservations key st d =
     (let found = sort_key reservation_key
          (filter (\<lambda>r. rr_reservation_id r \<in> set (ws_reservation_ids st)) (rows key (db_reservations d)))
      in raise_if (set (map rr_reservation_id found) \<noteq> set (ws_reservation_ids st))
           (WorkerProtocolError ''worker step does not retain its complete current reservation set'')
        (rbind (rmap row_to_reservation found) (\<lambda>reservations.
         raise_if (\<not> (\<forall>r\<in>set reservations. rr_task_id r = ws_task_id st))
           (WorkerProtocolError ''worker step reservation belongs to another task'')
           (Inr reservations))))"

section \<open>Writing rows\<close>

definition task_exists :: "uuid \<Rightarrow> database \<Rightarrow> bool" where
  "task_exists t d \<longleftrightarrow> t \<in> at_task_id ` snd ` set (db_tasks d)"

definition step_exists :: "string \<Rightarrow> uuid \<Rightarrow> database \<Rightarrow> bool" where
  "step_exists key i d \<longleftrightarrow> i \<in> ws_step_id ` set (rows key (db_steps d))"

definition assignment_exists :: "string \<Rightarrow> uuid \<Rightarrow> database \<Rightarrow> bool" where
  "assignment_exists key i d \<longleftrightarrow> i \<in> da_assignment_id ` set (rows key (db_assignments d))"

definition claim_exists :: "string \<Rightarrow> uuid \<Rightarrow> database \<Rightarrow> bool" where
  "claim_exists key i d \<longleftrightarrow> i \<in> wc_claim_id ` set (rows key (db_claims d))"

definition insert_immutable_step ::
  "(uuid \<Rightarrow> string \<Rightarrow> uuid) \<Rightarrow> string \<Rightarrow> worker_step \<Rightarrow> database \<Rightarrow> database res" where
  "insert_immutable_step uuid5 key st d =
     rbind (if (\<exists>(k, s)\<in>set (db_steps d).
                  k = key \<and> (ws_step_id s = ws_step_id st \<or>
                    ws_assignment_id s = ws_assignment_id st \<and> ws_step_key s = ws_step_key st) \<or>
                  ws_idempotency_key s = ws_idempotency_key st)
            then Inr d
            else raise_if (\<not> task_exists (ws_task_id st) d \<or> \<not> assignment_exists key (ws_assignment_id st) d)
                   (IntegrityError ''attention_worker_steps foreign key'')
                   (Inr (d\<lparr>db_steps := insert_row key st (db_steps d)\<rparr>))) (\<lambda>d1.
     rbind (load_step uuid5 key (ws_step_id st) d1) (\<lambda>stored.
     raise_if (stored \<noteq> st) (WorkerProtocolError ''conflicting immutable worker step'') (Inr d1)))"

definition insert_immutable_claim_observation ::
  "(uuid \<Rightarrow> string \<Rightarrow> uuid) \<Rightarrow> (resource_observation \<Rightarrow> string) \<Rightarrow> (claim_observation \<Rightarrow> string) \<Rightarrow>
     string \<Rightarrow> claim_observation \<Rightarrow> database \<Rightarrow> database res" where
  "insert_immutable_claim_observation uuid5 dump dump_claim key o1 d =
     rbind (if wo_observation_id o1 \<in> wo_observation_id ` set (rows key (db_claim_observations d))
            then Inr d
            else raise_if (\<not> step_exists key (wo_step_id o1) d \<or>
                     \<not> assignment_exists key (wo_assignment_id o1) d)
                   (IntegrityError ''attention_worker_claim_observations foreign key'')
                   (Inr (d\<lparr>db_claim_observations := insert_row key o1 (db_claim_observations d)\<rparr>))) (\<lambda>d1.
     (case find (\<lambda>x. wo_observation_id x = wo_observation_id o1) (rows key (db_claim_observations d1)) of
        None \<Rightarrow> Inl (WorkerProtocolError ''claim observation insert produced no row'')
      | Some row \<Rightarrow>
          rbind (validate_claim_observation uuid5 dump dump_claim row) (\<lambda>stored.
          raise_if (stored \<noteq> o1) (WorkerProtocolError ''conflicting immutable claim observation'')
            (Inr d1))))"

definition insert_claim :: "string \<Rightarrow> worker_claim \<Rightarrow> database \<Rightarrow> database res" where
  "insert_claim key c d =
     (let existing = rows key (db_claims d)
      in raise_if (wc_claim_id c \<in> wc_claim_id ` set existing)
           (IntegrityError ''attention_worker_claims_pkey'')
        (raise_if (\<exists>x\<in>set existing. wc_step_id x = wc_step_id c \<and> wc_attempt x = wc_attempt c)
           (IntegrityError ''attention_worker_claims step attempt'')
        (raise_if (wc_status c = ACTIVE \<and>
             (\<exists>x\<in>set existing. wc_status x = ACTIVE \<and> wc_step_id x = wc_step_id c))
           (IntegrityError ''idx_attention_worker_one_active_step'')
        (raise_if (wc_status c = ACTIVE \<and>
             (\<exists>x\<in>set existing. wc_status x = ACTIVE \<and> wc_assignment_id x = wc_assignment_id c))
           (IntegrityError ''idx_attention_worker_one_active_assignment'')
        (raise_if (\<not> task_exists (wc_task_id c) d \<or> \<not> step_exists key (wc_step_id c) d \<or>
             wc_observation_id c \<notin> wo_observation_id ` set (rows key (db_claim_observations d)))
           (IntegrityError ''attention_worker_claims foreign key'')
        (Inr (d\<lparr>db_claims := insert_row key c (db_claims d)\<rparr>)))))))"

definition insert_immutable_checkpoint ::
  "(uuid \<Rightarrow> string \<Rightarrow> uuid) \<Rightarrow> string \<Rightarrow> worker_checkpoint \<Rightarrow> database \<Rightarrow> database res" where
  "insert_immutable_checkpoint uuid5 key k d =
     rbind (if (\<exists>x\<in>set (rows key (db_checkpoints d)).
                  wk_checkpoint_id x = wk_checkpoint_id k \<or>
                  wk_step_id x = wk_step_id k \<and> wk_revision x = wk_revision k)
            then Inr d
            else raise_if (\<not> step_exists key (wk_step_id k) d \<or> \<not> claim_exists key (wk_claim_id k) d)
                   (IntegrityError ''attention_worker_checkpoints foreign key'')
                   (Inr (d\<lparr>db_checkpoints := insert_row key k (db_checkpoints d)\<rparr>))) (\<lambda>d1.
     (case find (\<lambda>x. wk_checkpoint_id x = wk_checkpoint_id k) (rows key (db_checkpoints d1)) of
        None \<Rightarrow> Inl TypeError
      | Some row \<Rightarrow>
          rbind (validate_checkpoint uuid5 row) (\<lambda>stored.
          raise_if (\<not> (stored\<lparr>wk_state := wk_state k\<rparr> = k \<and> same_payload (wk_state stored) (wk_state k)))
            (WorkerProtocolError ''conflicting immutable worker checkpoint'') (Inr d1))))"

definition insert_immutable_result ::
  "(uuid \<Rightarrow> string \<Rightarrow> uuid) \<Rightarrow> string \<Rightarrow> worker_result \<Rightarrow> database \<Rightarrow> database res" where
  "insert_immutable_result uuid5 key r d =
     rbind (if (\<exists>(k, x)\<in>set (db_results d).
                  k = key \<and> (wr_result_id x = wr_result_id r \<or> wr_step_id x = wr_step_id r) \<or>
                  wr_idempotency_key x = wr_idempotency_key r)
            then Inr d
            else raise_if (\<not> step_exists key (wr_step_id r) d \<or> \<not> claim_exists key (wr_claim_id r) d)
                   (IntegrityError ''attention_worker_results foreign key'')
                   (Inr (d\<lparr>db_results := insert_row key r (db_results d)\<rparr>))) (\<lambda>d1.
     rbind (load_result_row uuid5 key (wr_step_id r) d1) (\<lambda>row.
     (case row of
        None \<Rightarrow> Inl (WorkerProtocolError ''conflicting immutable worker result'')
      | Some stored \<Rightarrow>
          raise_if (\<not> (stored\<lparr>wr_output := wr_output r\<rparr> = r \<and> same_payload (wr_output stored) (wr_output r)))
            (WorkerProtocolError ''conflicting immutable worker result'') (Inr d1))))"

definition set_claim_status ::
  "string \<Rightarrow> uuid \<Rightarrow> worker_claim_status \<Rightarrow> database \<Rightarrow> database res" where
  "set_claim_status key claim_id status d =
     raise_if (\<not> claim_exists key claim_id d)
       (WorkerProtocolError ''worker claim status update affected no row'')
       (Inr (d\<lparr>db_claims := update_rows (\<lambda>k c. k = key \<and> wc_claim_id c = claim_id)
                 (\<lambda>c. c\<lparr>wc_status := status\<rparr>) (db_claims d)\<rparr>))"

text \<open>\<^verbatim>\<open>UPDATE attention_worker_claims SET status = 'ABANDONED'\<close> for the leases that have run out.\<close>

definition abandon_expired_claims :: "datetime \<Rightarrow> database \<Rightarrow> database" where
  "abandon_expired_claims now d =
     d\<lparr>db_claims := update_rows
        (\<lambda>_ c. wc_status c = ACTIVE \<and> dt_instant (wc_lease_expires_at c) \<le> dt_instant now)
        (\<lambda>c. c\<lparr>wc_status := ABANDONED\<rparr>) (db_claims d)\<rparr>"

section \<open>Registering a step\<close>

definition register_body ::
  "(uuid \<Rightarrow> string \<Rightarrow> uuid) \<Rightarrow> string \<Rightarrow> uuid \<Rightarrow> string \<Rightarrow> string \<Rightarrow> string list \<Rightarrow> worker_effect_policy \<Rightarrow>
     database \<Rightarrow> (worker_step \<times> database) res" where
  "register_body uuid5 key assignment_id step_key capability input_refs effect_policy d =
     rbind (lock_scheduler_state key d) (\<lambda>state.
     (case st_current_epoch_id state of
        None \<Rightarrow> Inl (WorkerProtocolError ''worker steps require a committed scheduling epoch'')
      | Some epoch_id \<Rightarrow>
     (case find (\<lambda>e. ep_epoch_id e = epoch_id) (rows key (db_epochs d)) of
        None \<Rightarrow> Inl (WorkerProtocolError ''scheduler state references a missing current epoch'')
      | Some epoch \<Rightarrow>
     raise_if (assignment_id \<notin> set (ep_assignment_ids epoch))
       (WorkerProtocolError ''worker step assignment is not in the current committed epoch'')
     (case find (\<lambda>a. da_assignment_id a = assignment_id) (rows key (db_assignments d)) of
        None \<Rightarrow> Inl KeyError
      | Some row \<Rightarrow>
     rbind (validate_assignment row) (\<lambda>a.
     raise_if (da_status a \<noteq> READY) (WorkerProtocolError ''worker step assignment is not READY'')
     (case find (\<lambda>t. at_task_id t = da_task_id a) (map snd (db_tasks d)) of
        None \<Rightarrow> Inl (WorkerProtocolError ''worker assignment references a missing task'')
      | Some task \<Rightarrow>
     raise_if (at_revision task \<noteq> da_task_revision a)
       (WorkerProtocolError ''worker assignment uses a stale task revision'')
    (raise_if (capability \<notin> set (sm_required_capabilities (at_metadata task)))
       (WorkerProtocolError ''worker capability is not declared by the durable task'')
    (rbind (deterministic_worker_step_id uuid5 assignment_id step_key) (\<lambda>step_id.
     rbind (validate_worker_step uuid5
         \<lparr>ws_protocol_version = WORKER_PROTOCOL_VERSION, ws_step_id = step_id,
          ws_assignment_id = assignment_id, ws_task_id = da_task_id a,
          ws_task_revision = da_task_revision a,
          ws_created_epoch_sequence = da_created_epoch_sequence a, ws_step_key = step_key,
          ws_capability = capability, ws_reservation_ids = da_reservation_ids a,
          ws_input_refs = input_refs,
          ws_idempotency_key = deterministic_worker_idempotency_key step_id,
          ws_effect_policy = effect_policy\<rparr>) (\<lambda>st.
     rbind (insert_immutable_step uuid5 key st d) (\<lambda>d1. Inr (st, d1))))))))))))"

definition register_worker_step ::
  "(uuid \<Rightarrow> string \<Rightarrow> uuid) \<Rightarrow> string \<Rightarrow> uuid \<Rightarrow> string \<Rightarrow> string \<Rightarrow> string list \<Rightarrow> worker_effect_policy \<Rightarrow>
     (database, worker_step) op" where
  "register_worker_step uuid5 key assignment_id step_key capability input_refs effect_policy =
     sbind (slift (raise_if (py_strip step_key = []) (ValueError ''step_key must not be empty'')
       (raise_if (py_strip capability = []) (ValueError ''capability must not be empty'') (Inr ())))) (\<lambda>_.
     transaction (register_body uuid5 key assignment_id (py_strip step_key) (py_strip capability)
       input_refs effect_policy))"

section \<open>The guarded claim\<close>

text \<open>\<^verbatim>\<open>_structural_claim_denial\<close>: the first reason that applies.\<close>

definition latest_claim_denial :: "worker_step \<Rightarrow> datetime \<Rightarrow> worker_claim option \<Rightarrow> string option" where
  "latest_claim_denial st captured_at latest =
     (case latest of
        None \<Rightarrow> None
      | Some c \<Rightarrow>
          if live_claim captured_at c then Some ''worker step already has a live claim''
          else if wc_status c = ABANDONED \<and> \<not> abandoned_retry_is_safe (ws_effect_policy st)
          then Some ''abandoned at-most-once effect requires explicit reconciliation''
          else None)"

definition work_denial ::
  "string \<Rightarrow> worker_step \<Rightarrow> worker_claim option \<Rightarrow> worker_result option \<Rightarrow> datetime \<Rightarrow> database \<Rightarrow> string option" where
  "work_denial key st latest existing_result captured_at d =
     (if (case find (\<lambda>t. at_task_id t = ws_task_id st) (map snd (db_tasks d)) of
            None \<Rightarrow> True | Some t \<Rightarrow> at_revision t \<noteq> ws_task_revision st)
      then Some ''worker step uses a stale task revision''
      else if existing_result \<noteq> None then Some ''worker step already has a terminal result''
      else case latest_claim_denial st captured_at latest of
             Some reason \<Rightarrow> Some reason
           | None \<Rightarrow>
               if (\<exists>c\<in>set (rows key (db_claims d)).
                     wc_assignment_id c = ws_assignment_id st \<and> live_claim captured_at c)
               then Some ''worker assignment already has a live claim'' else None)"

definition structural_claim_denial ::
  "string \<Rightarrow> scheduler_state_row \<Rightarrow> worker_step \<Rightarrow> worker_claim option \<Rightarrow> worker_result option \<Rightarrow> datetime \<Rightarrow>
     resource_safety_policy \<Rightarrow> resource_safety_policy option \<Rightarrow> resource_observation option \<Rightarrow> database \<Rightarrow>
     string option" where
  "structural_claim_denial key state st latest existing_result captured_at resource_policy expected_policy
       committed d =
     (if \<not> st_resource_safety_required state then Some ''worker launch requires host resource safety''
      else if st_resource_safety_policy_version state \<noteq> sp_policy_version resource_policy
      then Some ''claim resource policy does not match the committed scheduler policy''
      else case committed of
        None \<Rightarrow> Some ''worker launch requires a committed resource safety policy''
      | Some observation \<Rightarrow>
          if Some (ob_observation_id observation) \<noteq> st_current_resource_observation_id state
          then Some ''scheduler resource policy observation is inconsistent''
          else if expected_policy \<noteq> None \<and> expected_policy \<noteq> Some (ob_policy observation)
          then Some ''claim resource policy does not match the exact committed policy''
          else case st_current_epoch_id state of
            None \<Rightarrow> Some ''worker assignment is not part of a committed epoch''
          | Some epoch_id \<Rightarrow>
              (case find (\<lambda>e. ep_epoch_id e = epoch_id) (rows key (db_epochs d)) of
                 None \<Rightarrow> Some ''scheduler current epoch is missing''
               | Some epoch \<Rightarrow>
                   if ep_resource_observation_id epoch \<noteq> Some (ob_observation_id observation) \<or>
                      ep_resource_safety_policy_version epoch \<noteq> Some (ob_safety_policy_version observation)
                   then Some ''worker assignment epoch does not bind the committed resource policy''
                   else if ws_assignment_id st \<notin> set (ep_assignment_ids epoch)
                   then Some ''worker assignment is no longer current''
                   else work_denial key st latest existing_result captured_at d))"

definition py_quote :: "string \<Rightarrow> string" where
  "py_quote s = [CHR 0x27] @ s @ [CHR 0x27]"

fun capacity_denial ::
  "(string, observed_resource_capacity) dict \<Rightarrow> resource_reservation list \<Rightarrow> string option" where
  "capacity_denial capacity_by_id [] = None"
| "capacity_denial capacity_by_id (r # rs) =
     (case dget capacity_by_id (rr_resource_id r) of
        None \<Rightarrow> Some (''claim resource '' @ py_quote (rr_resource_id r) @ '' is unobserved'')
      | Some c \<Rightarrow>
          if available_for_new_work c < rr_units r
          then Some (''claim resource '' @ py_quote (rr_resource_id r) @ '' lacks safe capacity ('' @
                 int_str (available_for_new_work c) @ '' < '' @ int_str (rr_units r) @ '')'')
          else capacity_denial capacity_by_id rs)"

definition resource_claim_denial ::
  "resource_observation \<Rightarrow> resource_reservation list \<Rightarrow> string option" where
  "resource_claim_denial snapshot target_reservations =
     (if \<not> ob_healthy snapshot then Some ''claim-time host resource probe failed closed''
      else capacity_denial (capacity_by_resource_id snapshot) target_reservations)"

definition make_claim_observation ::
  "(uuid \<Rightarrow> string \<Rightarrow> uuid) \<Rightarrow> (resource_observation \<Rightarrow> string) \<Rightarrow> (claim_observation \<Rightarrow> string) \<Rightarrow>
     worker_step \<Rightarrow> resource_observation \<Rightarrow> datetime \<Rightarrow> worker_claim_decision \<Rightarrow> string \<Rightarrow> uuid list \<Rightarrow>
     claim_observation res" where
  "make_claim_observation uuid5 dump dump_claim st snapshot evaluated_at decision reason active_claim_ids =
     (let provisional =
        \<lparr>wo_observation_id = 0, wo_step_id = ws_step_id st, wo_assignment_id = ws_assignment_id st,
         wo_captured_at = ob_captured_at snapshot, wo_evaluated_at = evaluated_at,
         wo_valid_until = ob_valid_until snapshot,
         wo_claim_policy_version = WORKER_CLAIM_POLICY_VERSION,
         wo_resource_safety_policy_version = ob_safety_policy_version snapshot,
         wo_decision = decision, wo_reason = reason, wo_active_claim_ids = active_claim_ids,
         wo_target_reservation_ids = ws_reservation_ids st, wo_resource_snapshot = snapshot\<rparr>
      in validate_claim_observation uuid5 dump dump_claim
           (provisional\<lparr>wo_observation_id :=
              deterministic_worker_claim_observation_id uuid5 dump_claim provisional\<rparr>))"

text \<open>The denial reason after the structural check, the resource gate and the second clock reading.\<close>

definition gate_reason ::
  "string \<Rightarrow> worker_step \<Rightarrow> resource_observation \<Rightarrow> string option \<Rightarrow> database \<Rightarrow> string option res" where
  "gate_reason key st snapshot reason d =
     (case reason of
        Some r \<Rightarrow> Inr (Some r)
      | None \<Rightarrow> rbind (load_target_reservations key st d) (\<lambda>target.
          Inr (resource_claim_denial snapshot target)))"

definition publication_reason ::
  "resource_observation \<Rightarrow> datetime \<Rightarrow> string option \<Rightarrow> string option" where
  "publication_reason snapshot evaluated_at reason =
     (if dt_instant evaluated_at < dt_instant (ob_captured_at snapshot)
      then Some ''claim-time clock moved backward before publication''
      else if dt_instant evaluated_at > dt_instant (ob_valid_until snapshot)
      then Some ''claim-time resource observation expired before publication''
      else reason)"

definition latest_attempt :: "string \<Rightarrow> uuid \<Rightarrow> database \<Rightarrow> int" where
  "latest_attempt key step_id d = fold max (map wc_attempt (step_claims key step_id d)) 0"

definition grant_claim ::
  "(uuid \<Rightarrow> string \<Rightarrow> uuid) \<Rightarrow> string \<Rightarrow> worker_step \<Rightarrow> string \<Rightarrow> worker_checkpoint option \<Rightarrow> claim_observation \<Rightarrow>
     datetime \<Rightarrow> int \<Rightarrow> database \<Rightarrow> (claim_attempt \<times> database) res" where
  "grant_claim uuid5 key st worker_id checkpoint observation evaluated_at lease_seconds d =
     (let attempt_number = latest_attempt key (ws_step_id st) d + 1
      in rbind (deterministic_worker_claim_id uuid5 (ws_step_id st) attempt_number) (\<lambda>claim_id.
         rbind (validate_claim uuid5
           \<lparr>wc_claim_id = claim_id, wc_step_id = ws_step_id st, wc_assignment_id = ws_assignment_id st,
            wc_task_id = ws_task_id st, wc_worker_id = worker_id, wc_attempt = attempt_number,
            wc_checkpoint_revision = (case checkpoint of None \<Rightarrow> 0 | Some k \<Rightarrow> wk_revision k),
            wc_observation_id = wo_observation_id observation, wc_claimed_at = evaluated_at,
            wc_lease_expires_at = Aware (dt_instant evaluated_at + lease_seconds * 1000000) 0,
            wc_last_heartbeat_at = evaluated_at, wc_status = ACTIVE\<rparr>) (\<lambda>c.
         rbind (insert_claim key c d) (\<lambda>d1.
         rbind (validate_envelope \<lparr>we_step = st, we_claim = c, we_checkpoint = checkpoint\<rparr>) (\<lambda>envelope.
         rbind (validate_attempt \<lparr>wa_observation = observation, wa_envelope = Some envelope\<rparr>) (\<lambda>attempt.
         Inr (attempt, d1)))))))"

definition guarded_claim_body ::
  "(uuid \<Rightarrow> string \<Rightarrow> uuid) \<Rightarrow> (resource_observation \<Rightarrow> string) \<Rightarrow> (claim_observation \<Rightarrow> string) \<Rightarrow>
     string \<Rightarrow> uuid \<Rightarrow> string \<Rightarrow> string + host_resource_metrics \<Rightarrow> resource_safety_policy option \<Rightarrow>
     datetime \<Rightarrow> datetime \<Rightarrow> int \<Rightarrow> database \<Rightarrow> (claim_attempt \<times> database) res" where
  "guarded_claim_body uuid5 dump dump_claim key step_id worker_id probe expected_policy captured_at
       publication_time lease_seconds d =
     rbind (lock_scheduler_state key d) (\<lambda>state.
     rbind (load_current_resource_observation uuid5 dump key
         (st_current_resource_observation_id state) d) (\<lambda>committed.
     (let resource_policy = (case committed of
            Some observation \<Rightarrow> ob_policy observation
          | None \<Rightarrow> (case expected_policy of Some p \<Rightarrow> p | None \<Rightarrow> default_resource_safety_policy));
          metrics = (case probe of Inl _ \<Rightarrow> None | Inr m \<Rightarrow> Some m);
          errors = (case probe of Inl msg \<Rightarrow> [msg] | Inr _ \<Rightarrow> [])
      in
     rbind (load_step uuid5 key step_id d) (\<lambda>st.
     rbind (rmap row_to_resource (sort_key er_resource_id (db_resources d))) (\<lambda>resources.
     (let d1 = abandon_expired_claims captured_at d
      in
     rbind (load_latest_checkpoint uuid5 key (ws_step_id st) d1) (\<lambda>checkpoint.
     rbind (load_result_row uuid5 key (ws_step_id st) d1) (\<lambda>existing_result.
     rbind (load_latest_claim uuid5 key (ws_step_id st) d1) (\<lambda>latest.
     (let active_claims = load_active_claim_rows captured_at d1
      in
     rbind (load_claim_reservations active_claims d1) (\<lambda>active_reservations.
     rbind (build_resource_observation uuid5 dump (max 1 (st_cycle state)) captured_at resources
         active_reservations resource_policy metrics errors (''worker-claim:'' @ key)) (\<lambda>snapshot.
     rbind (gate_reason key st snapshot
         (structural_claim_denial key state st latest existing_result captured_at resource_policy
           expected_policy committed d1) d1) (\<lambda>gated.
     rbind (store_as_utc publication_time) (\<lambda>evaluated_at.
     (let reason = publication_reason snapshot evaluated_at gated;
          decision = (if reason = None then GRANTED else DENIED)
      in
     rbind (make_claim_observation uuid5 dump dump_claim st snapshot evaluated_at decision
         (case reason of None \<Rightarrow> ''fresh resource gate admitted the worker step'' | Some r \<Rightarrow> r)
         (map fst active_claims)) (\<lambda>observation.
     rbind (if decision = GRANTED then claim_assert_fresh observation evaluated_at else Inr ()) (\<lambda>_.
     rbind (insert_immutable_claim_observation uuid5 dump dump_claim key observation d1) (\<lambda>d2.
     if decision = DENIED
     then rbind (validate_attempt \<lparr>wa_observation = observation, wa_envelope = None\<rparr>) (\<lambda>attempt.
            Inr (attempt, d2))
     else grant_claim uuid5 key st worker_id checkpoint observation evaluated_at lease_seconds d2))))))))))))))))))"

definition guarded_claim_worker_step ::
  "(uuid \<Rightarrow> string \<Rightarrow> uuid) \<Rightarrow> (resource_observation \<Rightarrow> string) \<Rightarrow> (claim_observation \<Rightarrow> string) \<Rightarrow>
     string \<Rightarrow> uuid \<Rightarrow> string \<Rightarrow> string + host_resource_metrics \<Rightarrow> resource_safety_policy option \<Rightarrow>
     datetime \<Rightarrow> datetime \<Rightarrow> int \<Rightarrow> (database, claim_attempt) op" where
  "guarded_claim_worker_step uuid5 dump dump_claim key step_id worker_id probe expected_policy now
       publication_time lease_seconds =
     sbind (slift (raise_if (py_strip worker_id = []) (ValueError ''worker_id must not be empty'')
       (validate_lease_seconds lease_seconds))) (\<lambda>_.
     sbind (slift (store_as_utc now)) (\<lambda>captured_at.
     transaction (guarded_claim_body uuid5 dump dump_claim key step_id (py_strip worker_id) probe
       expected_policy captured_at publication_time lease_seconds)))"

section \<open>Operations of the claim holder\<close>

definition extend_lease :: "datetime \<Rightarrow> int \<Rightarrow> worker_claim \<Rightarrow> worker_claim" where
  "extend_lease now lease_seconds c =
     c\<lparr>wc_last_heartbeat_at := now,
       wc_lease_expires_at := Aware (dt_instant now + lease_seconds * 1000000) 0\<rparr>"

definition heartbeat_body ::
  "(uuid \<Rightarrow> string \<Rightarrow> uuid) \<Rightarrow> string \<Rightarrow> uuid \<Rightarrow> string \<Rightarrow> int \<Rightarrow> datetime \<Rightarrow> database \<Rightarrow>
     (worker_claim option \<times> database) res" where
  "heartbeat_body uuid5 key claim_id worker_id lease_seconds now d =
     rbind (lock_claim uuid5 key claim_id d) (\<lambda>c.
     rbind (require_worker c worker_id) (\<lambda>_.
     raise_if (wc_status c \<noteq> ACTIVE) (WorkerProtocolError ''only an ACTIVE worker claim may heartbeat'')
    (if dt_instant now \<ge> dt_instant (wc_lease_expires_at c)
     then rbind (set_claim_status key claim_id ABANDONED d) (\<lambda>d1. Inr (None, d1))
     else raise_if (dt_instant now < dt_instant (wc_claimed_at c))
            (IntegrityError ''attention_worker_claims heartbeat check'')
         (let d1 = d\<lparr>db_claims := update_rows (\<lambda>k x. k = key \<and> wc_claim_id x = claim_id)
                     (extend_lease now lease_seconds) (db_claims d)\<rparr>
          in rbind (lock_claim uuid5 key claim_id d1) (\<lambda>updated. Inr (Some updated, d1))))))"

definition expired_error :: "'a option \<Rightarrow> 'a res" where
  "expired_error r =
     (case r of None \<Rightarrow> Inl (WorkerProtocolError ''worker claim lease has expired'') | Some x \<Rightarrow> Inr x)"

definition heartbeat_worker_claim ::
  "(uuid \<Rightarrow> string \<Rightarrow> uuid) \<Rightarrow> string \<Rightarrow> uuid \<Rightarrow> string \<Rightarrow> int \<Rightarrow> datetime \<Rightarrow> (database, worker_claim) op" where
  "heartbeat_worker_claim uuid5 key claim_id worker_id lease_seconds clock =
     sbind (slift (validate_lease_seconds lease_seconds)) (\<lambda>_.
     sbind (slift (store_as_utc clock)) (\<lambda>now.
     sbind (transaction (heartbeat_body uuid5 key claim_id worker_id lease_seconds now)) (\<lambda>r.
     slift (expired_error r))))"

definition checkpoint_body ::
  "(uuid \<Rightarrow> string \<Rightarrow> uuid) \<Rightarrow> string \<Rightarrow> uuid \<Rightarrow> string \<Rightarrow> json_object \<Rightarrow> string list \<Rightarrow> datetime \<Rightarrow> database \<Rightarrow>
     (worker_checkpoint option \<times> database) res" where
  "checkpoint_body uuid5 key claim_id worker_id state output_refs now d =
     rbind (lock_claim uuid5 key claim_id d) (\<lambda>c.
     rbind (require_worker c worker_id) (\<lambda>_.
     if wc_status c = CHECKPOINTED
     then rbind (load_checkpoint_for_claim uuid5 key claim_id d) (\<lambda>row.
            (case row of
               None \<Rightarrow> Inl (WorkerProtocolError ''checkpointed claim has no durable checkpoint'')
             | Some k \<Rightarrow>
                 raise_if (\<not> (same_payload state (wk_state k) \<and> output_refs = wk_output_refs k))
                   (WorkerProtocolError ''conflicting idempotent checkpoint retry'') (Inr (Some k, d))))
     else raise_if (wc_status c \<noteq> ACTIVE)
            (WorkerProtocolError ''only an ACTIVE worker claim may checkpoint'')
         (if dt_instant now \<ge> dt_instant (wc_lease_expires_at c)
          then rbind (set_claim_status key claim_id ABANDONED d) (\<lambda>d1. Inr (None, d1))
          else let revision = wc_checkpoint_revision c + 1
               in rbind (deterministic_worker_checkpoint_id uuid5 (wc_step_id c) revision) (\<lambda>checkpoint_id.
                  rbind (validate_checkpoint uuid5
                    \<lparr>wk_checkpoint_id = checkpoint_id, wk_step_id = wc_step_id c, wk_claim_id = wc_claim_id c,
                     wk_revision = revision, wk_state = state, wk_output_refs = output_refs,
                     wk_created_at = now\<rparr>) (\<lambda>k.
                  rbind (insert_immutable_checkpoint uuid5 key k d) (\<lambda>d1.
                  rbind (set_claim_status key claim_id CHECKPOINTED d1) (\<lambda>d2. Inr (Some k, d2))))))))"

definition checkpoint_worker_claim ::
  "(uuid \<Rightarrow> string \<Rightarrow> uuid) \<Rightarrow> string \<Rightarrow> uuid \<Rightarrow> string \<Rightarrow> json_object \<Rightarrow> string list \<Rightarrow> datetime \<Rightarrow>
     (database, worker_checkpoint) op" where
  "checkpoint_worker_claim uuid5 key claim_id worker_id state output_refs clock =
     sbind (slift (store_as_utc clock)) (\<lambda>now.
     sbind (transaction (checkpoint_body uuid5 key claim_id worker_id state output_refs now)) (\<lambda>r.
     slift (expired_error r)))"

definition complete_body ::
  "(uuid \<Rightarrow> string \<Rightarrow> uuid) \<Rightarrow> string \<Rightarrow> uuid \<Rightarrow> string \<Rightarrow> json_object \<Rightarrow> string list \<Rightarrow> datetime \<Rightarrow> database \<Rightarrow>
     (worker_result option \<times> database) res" where
  "complete_body uuid5 key claim_id worker_id output output_refs now d =
     rbind (lock_claim uuid5 key claim_id d) (\<lambda>c.
     rbind (require_worker c worker_id) (\<lambda>_.
     rbind (load_step uuid5 key (wc_step_id c) d) (\<lambda>st.
     rbind (load_result_row uuid5 key (wc_step_id c) d) (\<lambda>existing.
     (case existing of
        Some r \<Rightarrow>
          raise_if (wr_claim_id r \<noteq> wc_claim_id c \<or> \<not> same_payload (wr_output r) output \<or>
                    wr_output_refs r \<noteq> output_refs)
            (WorkerProtocolError ''conflicting worker result retry'') (Inr (Some r, d))
      | None \<Rightarrow>
     raise_if (wc_status c \<noteq> ACTIVE) (WorkerProtocolError ''only an ACTIVE worker claim may complete'')
    (if dt_instant now \<ge> dt_instant (wc_lease_expires_at c)
     then rbind (set_claim_status key claim_id ABANDONED d) (\<lambda>d1. Inr (None, d1))
     else rbind (validate_result uuid5
            \<lparr>wr_result_id = deterministic_worker_result_id uuid5 (ws_step_id st),
             wr_step_id = ws_step_id st, wr_claim_id = wc_claim_id c,
             wr_checkpoint_revision = wc_checkpoint_revision c,
             wr_idempotency_key = ws_idempotency_key st, wr_output = output,
             wr_output_refs = output_refs, wr_completed_at = now\<rparr>) (\<lambda>r.
          rbind (insert_immutable_result uuid5 key r d) (\<lambda>d1.
          rbind (set_claim_status key claim_id CLAIM_COMPLETED d1) (\<lambda>d2. Inr (Some r, d2))))))))))"

definition complete_worker_claim ::
  "(uuid \<Rightarrow> string \<Rightarrow> uuid) \<Rightarrow> string \<Rightarrow> uuid \<Rightarrow> string \<Rightarrow> json_object \<Rightarrow> string list \<Rightarrow> datetime \<Rightarrow>
     (database, worker_result) op" where
  "complete_worker_claim uuid5 key claim_id worker_id output output_refs clock =
     sbind (slift (store_as_utc clock)) (\<lambda>now.
     sbind (transaction (complete_body uuid5 key claim_id worker_id output output_refs now)) (\<lambda>r.
     slift (expired_error r)))"

definition release_body ::
  "(uuid \<Rightarrow> string \<Rightarrow> uuid) \<Rightarrow> string \<Rightarrow> uuid \<Rightarrow> string \<Rightarrow> database \<Rightarrow> (worker_claim \<times> database) res" where
  "release_body uuid5 key claim_id worker_id d =
     rbind (lock_claim uuid5 key claim_id d) (\<lambda>c.
     rbind (require_worker c worker_id) (\<lambda>_.
     if wc_status c = RELEASED then Inr (c, d)
     else raise_if (wc_status c \<noteq> ACTIVE)
            (WorkerProtocolError ''only an ACTIVE worker claim may be released'')
         (rbind (set_claim_status key claim_id RELEASED d) (\<lambda>d1.
          rbind (lock_claim uuid5 key claim_id d1) (\<lambda>released. Inr (released, d1))))))"

definition release_worker_claim ::
  "(uuid \<Rightarrow> string \<Rightarrow> uuid) \<Rightarrow> string \<Rightarrow> uuid \<Rightarrow> string \<Rightarrow> datetime \<Rightarrow> (database, worker_claim) op" where
  "release_worker_claim uuid5 key claim_id worker_id clock =
     sbind (slift (store_as_utc clock)) (\<lambda>_.
     transaction (release_body uuid5 key claim_id worker_id))"

section \<open>Queries\<close>

definition load_worker_step :: "(uuid \<Rightarrow> string \<Rightarrow> uuid) \<Rightarrow> string \<Rightarrow> uuid \<Rightarrow> database \<Rightarrow> worker_step res" where
  "load_worker_step uuid5 key step_id d = load_step uuid5 key step_id d"

definition load_worker_claim :: "(uuid \<Rightarrow> string \<Rightarrow> uuid) \<Rightarrow> string \<Rightarrow> uuid \<Rightarrow> database \<Rightarrow> worker_claim res" where
  "load_worker_claim uuid5 key claim_id d =
     (case find (\<lambda>c. wc_claim_id c = claim_id) (rows key (db_claims d)) of
        None \<Rightarrow> Inl KeyError | Some c \<Rightarrow> validate_claim uuid5 c)"

definition load_worker_result ::
  "(uuid \<Rightarrow> string \<Rightarrow> uuid) \<Rightarrow> string \<Rightarrow> uuid \<Rightarrow> database \<Rightarrow> worker_result option res" where
  "load_worker_result uuid5 key step_id d = load_result_row uuid5 key step_id d"

definition load_worker_claim_envelope ::
  "(uuid \<Rightarrow> string \<Rightarrow> uuid) \<Rightarrow> string \<Rightarrow> uuid \<Rightarrow> string \<Rightarrow> datetime \<Rightarrow> database \<Rightarrow> claim_envelope res" where
  "load_worker_claim_envelope uuid5 key claim_id worker_id clock d =
     rbind (store_as_utc clock) (\<lambda>now.
     rbind (lock_claim uuid5 key claim_id d) (\<lambda>c.
     rbind (require_worker c worker_id) (\<lambda>_.
     raise_if (wc_status c \<noteq> ACTIVE) (WorkerProtocolError ''worker claim is not ACTIVE'')
    (raise_if (dt_instant now \<ge> dt_instant (wc_lease_expires_at c))
       (WorkerProtocolError ''worker claim lease has expired'')
    (rbind (load_step uuid5 key (wc_step_id c) d) (\<lambda>st.
     rbind (load_latest_checkpoint uuid5 key (wc_step_id c) d) (\<lambda>checkpoint.
     validate_envelope \<lparr>we_step = st, we_claim = c, we_checkpoint = checkpoint\<rparr>)))))))"

definition load_claim_observations ::
  "(uuid \<Rightarrow> string \<Rightarrow> uuid) \<Rightarrow> (resource_observation \<Rightarrow> string) \<Rightarrow> (claim_observation \<Rightarrow> string) \<Rightarrow>
     string \<Rightarrow> uuid \<Rightarrow> database \<Rightarrow> claim_observation list res" where
  "load_claim_observations uuid5 dump dump_claim key step_id d =
     rmap (validate_claim_observation uuid5 dump dump_claim)
       (sort_key (\<lambda>o1. (dt_instant (wo_captured_at o1), dt_instant (wo_evaluated_at o1), wo_observation_id o1))
          (filter (\<lambda>o1. wo_step_id o1 = step_id) (rows key (db_claim_observations d))))"

end
