(* ===== verification/Leases.thy ===== *)
theory Leases
  imports WorkerStore
begin

text \<open>
  The lease protocol that \<^verbatim>\<open>worker_store.py\<close> implements. The ledger of a worker step is the list of its
  claims with its checkpoints and results, in the order they were written. The specification is a
  transition relation on ledgers: a claim is granted only when no other is open, and for an
  at-most-once step only when none was abandoned; the open claim is extended, checkpointed, completed,
  released or abandoned. Every operation of the store moves every ledger along this relation, whatever
  the clocks of the callers say, and whether it returns or raises. The invariant of the ledgers then
  gives mutual exclusion, a single terminal result, at-most-once execution and gap-free checkpoints.
\<close>

section \<open>The specification\<close>

type_synonym ledger = "worker_claim list \<times> worker_checkpoint list \<times> worker_result list"

definition with_status :: "worker_claim_status \<Rightarrow> worker_claim list \<Rightarrow> worker_claim list" where
  "with_status x cs = filter (\<lambda>c. wc_status c = x) cs"

definition may_claim :: "worker_effect_policy \<Rightarrow> worker_claim list \<Rightarrow> bool" where
  "may_claim p cs \<longleftrightarrow> cs = [] \<or> wc_status (last cs) \<in> {CHECKPOINTED, RELEASED} \<or>
     wc_status (last cs) = ABANDONED \<and> abandoned_retry_is_safe p"

definition claim_of :: "worker_step \<Rightarrow> worker_claim \<Rightarrow> bool" where
  "claim_of st c \<longleftrightarrow> wc_step_id c = ws_step_id st \<and> wc_assignment_id c = ws_assignment_id st \<and>
     wc_task_id c = ws_task_id st"

inductive ledger_step :: "(uuid \<Rightarrow> string \<Rightarrow> uuid) \<Rightarrow> worker_step \<Rightarrow> ledger \<Rightarrow> ledger \<Rightarrow> bool"
  for uuid5 st where
  grant: "may_claim (ws_effect_policy st) cs \<Longrightarrow> rs = [] \<Longrightarrow> claim_of st c \<Longrightarrow> wc_status c = ACTIVE \<Longrightarrow>
    validate_claim uuid5 c = Inr c \<Longrightarrow> wc_attempt c = int (length cs) + 1 \<Longrightarrow>
    wc_checkpoint_revision c = int (length ks) \<Longrightarrow> ledger_step uuid5 st (cs, ks, rs) (cs @ [c], ks, rs)"
| extend: "wc_status c = ACTIVE \<Longrightarrow> validate_claim uuid5 (extend_lease now n c) = Inr (extend_lease now n c) \<Longrightarrow>
    ledger_step uuid5 st (cs @ [c], ks, rs) (cs @ [extend_lease now n c], ks, rs)"
| close: "wc_status c = ACTIVE \<Longrightarrow> x \<in> {ABANDONED, RELEASED} \<Longrightarrow>
    ledger_step uuid5 st (cs @ [c], ks, rs) (cs @ [c\<lparr>wc_status := x\<rparr>], ks, rs)"
| checkpoint: "wc_status c = ACTIVE \<Longrightarrow> wk_claim_id k = wc_claim_id c \<Longrightarrow>
    wk_step_id k = ws_step_id st \<Longrightarrow> wk_revision k = int (length ks) + 1 \<Longrightarrow> validate_checkpoint uuid5 k = Inr k \<Longrightarrow>
    ledger_step uuid5 st (cs @ [c], ks, rs) (cs @ [c\<lparr>wc_status := CHECKPOINTED\<rparr>], ks @ [k], rs)"
| complete: "wc_status c = ACTIVE \<Longrightarrow> wr_claim_id r = wc_claim_id c \<Longrightarrow> wr_step_id r = ws_step_id st \<Longrightarrow>
    wr_checkpoint_revision r = int (length ks) \<Longrightarrow> validate_result uuid5 r = Inr r \<Longrightarrow>
    ledger_step uuid5 st (cs @ [c], ks, rs) (cs @ [c\<lparr>wc_status := CLAIM_COMPLETED\<rparr>], ks, rs @ [r])"

inductive_cases ledger_stepE: "ledger_step uuid5 st l l'"

abbreviation ledger_run ::
  "(uuid \<Rightarrow> string \<Rightarrow> uuid) \<Rightarrow> worker_step \<Rightarrow> ledger \<Rightarrow> ledger \<Rightarrow> bool" where
  "ledger_run uuid5 st \<equiv> (ledger_step uuid5 st)\<^sup>*\<^sup>*"

section \<open>The invariant of a ledger\<close>

definition closed_for :: "worker_effect_policy \<Rightarrow> worker_claim \<Rightarrow> bool" where
  "closed_for p c \<longleftrightarrow> wc_status c \<in> {CHECKPOINTED, RELEASED} \<or>
     wc_status c = ABANDONED \<and> abandoned_retry_is_safe p"

fun ledger_ok :: "(uuid \<Rightarrow> string \<Rightarrow> uuid) \<Rightarrow> worker_step \<Rightarrow> ledger \<Rightarrow> bool" where
  "ledger_ok uuid5 st (cs, ks, rs) \<longleftrightarrow>
     map wc_attempt cs = [1..int (length cs)] \<and>
     (\<forall>c\<in>set cs. claim_of st c \<and> validate_claim uuid5 c = Inr c) \<and>
     (\<forall>c\<in>set (butlast cs). closed_for (ws_effect_policy st) c) \<and>
     map wk_revision ks = [1..int (length ks)] \<and>
     (\<forall>k\<in>set ks. wk_step_id k = ws_step_id st \<and> validate_checkpoint uuid5 k = Inr k) \<and>
     map wk_claim_id ks = map wc_claim_id (with_status CHECKPOINTED cs) \<and>
     (\<forall>i<length cs. wc_checkpoint_revision (cs ! i) = int (length (with_status CHECKPOINTED (take i cs)))) \<and>
     (\<forall>r\<in>set rs. wr_step_id r = ws_step_id st \<and> wr_checkpoint_revision r = int (length ks) \<and>
        validate_result uuid5 r = Inr r) \<and>
     map wr_claim_id rs = map wc_claim_id (with_status CLAIM_COMPLETED cs)"

lemma with_status_simps [simp]:
  "with_status x [] = []"
  "with_status x (cs @ ds) = with_status x cs @ with_status x ds"
  "with_status x [c] = (if wc_status c = x then [c] else [])"
  by (simp_all add: with_status_def)

lemma upto_snoc: "[1..int n + 1] = [1..int n] @ [int n + 1]"
  using upto_rec2 [of 1 "int n + 1"] by simp

lemma closed_simps [simp]:
  "closed_for p c \<Longrightarrow> wc_status c \<noteq> ACTIVE" "closed_for p c \<Longrightarrow> wc_status c \<noteq> CLAIM_COMPLETED"
  by (auto simp: closed_for_def)

lemma validate_claim_status:
  "validate_claim uuid5 c = Inr c \<Longrightarrow>
     validate_claim uuid5 (c\<lparr>wc_status := x\<rparr>) = Inr (c\<lparr>wc_status := x\<rparr>)"
  by (cases c) (auto simp: validate_claim_def)

lemma claim_of_update [simp]:
  "claim_of st (c\<lparr>wc_status := x\<rparr>) = claim_of st c" "claim_of st (extend_lease now n c) = claim_of st c"
  by (simp_all add: claim_of_def extend_lease_def)

lemma extend_lease_simps [simp]:
  "wc_status (extend_lease now n c) = wc_status c" "wc_attempt (extend_lease now n c) = wc_attempt c"
  "wc_claim_id (extend_lease now n c) = wc_claim_id c"
  "wc_step_id (extend_lease now n c) = wc_step_id c"
  "wc_assignment_id (extend_lease now n c) = wc_assignment_id c"
  "wc_checkpoint_revision (extend_lease now n c) = wc_checkpoint_revision c"
  by (simp_all add: extend_lease_def)

lemma nth_snoc_all:
  "(\<forall>i<length (cs @ [c]). P i ((cs @ [c]) ! i)) \<longleftrightarrow> (\<forall>i<length cs. P i (cs ! i)) \<and> P (length cs) c"
  by (auto simp: nth_append less_Suc_eq)

lemma take_revisions:
  "(\<forall>i<length cs. wc_checkpoint_revision ((cs @ [c]) ! i) = int (length (with_status CHECKPOINTED (take i (cs @ [c]))))) \<longleftrightarrow>
   (\<forall>i<length cs. wc_checkpoint_revision (cs ! i) = int (length (with_status CHECKPOINTED (take i cs))))"
  by (auto simp: nth_append)

lemma revisions_snoc:
  "(\<forall>i<length (cs @ [c]). wc_checkpoint_revision ((cs @ [c]) ! i) =
       int (length (with_status CHECKPOINTED (take i (cs @ [c]))))) \<longleftrightarrow>
   (\<forall>i<length cs. wc_checkpoint_revision (cs ! i) = int (length (with_status CHECKPOINTED (take i cs)))) \<and>
   wc_checkpoint_revision c = int (length (with_status CHECKPOINTED cs))"
  by (auto simp: nth_append less_Suc_eq)

lemma checkpoint_count:
  assumes "map wk_claim_id ks = map wc_claim_id (with_status CHECKPOINTED cs)"
  shows "length (with_status CHECKPOINTED cs) = length ks"
  using arg_cong [OF assms, of length] by simp

text \<open>The invariant in the form of the last claim, which is how the transitions change it.\<close>

lemma ledger_ok_snoc:
  "ledger_ok uuid5 st (cs @ [c], ks, rs) \<longleftrightarrow>
     map wc_attempt cs = [1..int (length cs)] \<and> wc_attempt c = int (length cs) + 1 \<and>
     (\<forall>x\<in>set cs. claim_of st x \<and> validate_claim uuid5 x = Inr x \<and> closed_for (ws_effect_policy st) x) \<and>
     claim_of st c \<and> validate_claim uuid5 c = Inr c \<and>
     map wk_revision ks = [1..int (length ks)] \<and>
     (\<forall>k\<in>set ks. wk_step_id k = ws_step_id st \<and> validate_checkpoint uuid5 k = Inr k) \<and>
     map wk_claim_id ks = map wc_claim_id (with_status CHECKPOINTED (cs @ [c])) \<and>
     (\<forall>i<length cs. wc_checkpoint_revision (cs ! i) = int (length (with_status CHECKPOINTED (take i cs)))) \<and>
     wc_checkpoint_revision c = int (length (with_status CHECKPOINTED cs)) \<and>
     (\<forall>r\<in>set rs. wr_step_id r = ws_step_id st \<and> wr_checkpoint_revision r = int (length ks) \<and>
        validate_result uuid5 r = Inr r) \<and>
     map wr_claim_id rs = map wc_claim_id (with_status CLAIM_COMPLETED (cs @ [c]))"
  unfolding ledger_ok.simps revisions_snoc using upto_snoc [of "length cs"] by (auto simp: add.commute)

lemma no_completed:
  assumes "\<forall>x\<in>set cs. closed_for p x"
  shows "with_status CLAIM_COMPLETED cs = []"
  using assms by (auto simp: with_status_def filter_empty_conv)

lemma may_claim_snoc [simp]: "may_claim p (cs @ [c]) = closed_for p c"
  by (auto simp: may_claim_def closed_for_def)

lemma may_claim_closed:
  assumes "may_claim p cs" and "\<forall>x\<in>set (butlast cs). closed_for p x" and "c \<in> set cs"
  shows "closed_for p c"
  using assms by (cases cs rule: rev_cases) auto

text \<open>Every transition of the specification keeps the invariant.\<close>

lemma ledger_step_ok:
  assumes "ledger_step uuid5 st l l'" and "ledger_ok uuid5 st l"
  shows "ledger_ok uuid5 st l'"
  using assms
proof (cases rule: ledger_step.cases)
  case (grant cs rs c ks)
  then have "\<forall>x\<in>set cs. closed_for (ws_effect_policy st) x" using assms(2) by (auto intro: may_claim_closed)
  then show ?thesis using grant assms(2) checkpoint_count [of ks cs]
    unfolding grant(1,2) ledger_ok_snoc by (auto simp: no_completed)
next
  case (extend c now n cs ks rs)
  then show ?thesis using assms(2) by (auto simp: ledger_ok_snoc simp del: ledger_ok.simps)
next
  case (close c x cs ks rs)
  then show ?thesis using assms(2) validate_claim_status [of uuid5 c x]
    by (auto simp: ledger_ok_snoc simp del: ledger_ok.simps)
next
  case (checkpoint c k ks cs rs)
  then have "with_status CLAIM_COMPLETED cs = []"
    using assms(2) no_completed [of cs "ws_effect_policy st"] by (simp add: ledger_ok_snoc del: ledger_ok.simps)
  then show ?thesis using checkpoint assms(2) validate_claim_status [of uuid5 c CHECKPOINTED] upto_snoc [of "length ks"]
    by (auto simp: ledger_ok_snoc add.commute simp del: ledger_ok.simps)
next
  case (complete c r ks cs rs)
  then show ?thesis using assms(2) validate_claim_status [of uuid5 c CLAIM_COMPLETED]
    by (auto simp: ledger_ok_snoc simp del: ledger_ok.simps)
qed

lemma ledger_run_ok:
  assumes "ledger_run uuid5 st l l'" and "ledger_ok uuid5 st l"
  shows "ledger_ok uuid5 st l'"
  using assms by (induction rule: rtranclp_induct) (auto intro: ledger_step_ok)

section \<open>The ledgers of a database\<close>

definition step_ledger :: "string \<Rightarrow> uuid \<Rightarrow> database \<Rightarrow> ledger" where
  "step_ledger key i d = (step_claims key i d, step_checkpoints key i d, step_results key i d)"

definition lease_inv :: "(uuid \<Rightarrow> string \<Rightarrow> uuid) \<Rightarrow> database \<Rightarrow> bool" where
  "lease_inv uuid5 d \<longleftrightarrow>
     (\<forall>key. distinct (map ws_step_id (rows key (db_steps d)))) \<and>
     (\<forall>key st. (key, st) \<in> set (db_steps d) \<longrightarrow>
        validate_worker_step uuid5 st = Inr st \<and> ledger_ok uuid5 st (step_ledger key (ws_step_id st) d)) \<and>
     (\<forall>key i. \<not> step_exists key i d \<longrightarrow> step_ledger key i d = ([], [], [])) \<and>
     (\<forall>key. distinct (map wc_claim_id (rows key (db_claims d)))) \<and>
     (\<forall>key. \<forall>b\<in>set (rows key (db_claims d)). \<forall>c\<in>set (rows key (db_claims d)).
        wc_status b = ACTIVE \<and> wc_status c = ACTIVE \<and> wc_assignment_id b = wc_assignment_id c \<longrightarrow> b = c)"

text \<open>The refinement relation: steps are never lost and their ledgers follow the specification.\<close>

definition evolves :: "(uuid \<Rightarrow> string \<Rightarrow> uuid) \<Rightarrow> database \<Rightarrow> database \<Rightarrow> bool" where
  "evolves uuid5 d d' \<longleftrightarrow> (\<forall>key st. (key, st) \<in> set (db_steps d) \<longrightarrow>
     (key, st) \<in> set (db_steps d') \<and>
     ledger_run uuid5 st (step_ledger key (ws_step_id st) d) (step_ledger key (ws_step_id st) d'))"

definition good_step :: "(uuid \<Rightarrow> string \<Rightarrow> uuid) \<Rightarrow> database \<Rightarrow> database \<Rightarrow> bool" where
  "good_step uuid5 d d' \<longleftrightarrow> lease_inv uuid5 d' \<and> evolves uuid5 d d'"

lemma evolves_refl [simp]: "evolves uuid5 d d"
  by (simp add: evolves_def)

lemma evolves_trans: "evolves uuid5 d d' \<Longrightarrow> evolves uuid5 d' d'' \<Longrightarrow> evolves uuid5 d d''"
  unfolding evolves_def by (meson rtranclp_trans)

lemma good_step_refl: "lease_inv uuid5 d \<Longrightarrow> good_step uuid5 d d"
  by (simp add: good_step_def)

lemma good_step_trans: "good_step uuid5 d d' \<Longrightarrow> good_step uuid5 d' d'' \<Longrightarrow> good_step uuid5 d d''"
  unfolding good_step_def using evolves_trans by blast

lemma lease_invD:
  assumes "lease_inv uuid5 d"
  shows "distinct (map ws_step_id (rows key (db_steps d)))"
    and "(key, st) \<in> set (db_steps d) \<Longrightarrow> validate_worker_step uuid5 st = Inr st"
    and "(key, st) \<in> set (db_steps d) \<Longrightarrow> ledger_ok uuid5 st (step_ledger key (ws_step_id st) d)"
    and "\<not> step_exists key i d \<Longrightarrow> step_ledger key i d = ([], [], [])"
    and "distinct (map wc_claim_id (rows key (db_claims d)))"
    and "b \<in> set (rows key (db_claims d)) \<Longrightarrow> c \<in> set (rows key (db_claims d)) \<Longrightarrow> wc_status b = ACTIVE \<Longrightarrow>
      wc_status c = ACTIVE \<Longrightarrow> wc_assignment_id b = wc_assignment_id c \<Longrightarrow> b = c"
  using assms unfolding lease_inv_def by blast+

lemma step_existsI: "(key, st) \<in> set (db_steps d) \<Longrightarrow> step_exists key (ws_step_id st) d"
  by (simp add: step_exists_def set_rows)

lemma find_unique:
  assumes "distinct (map f xs)" and "x \<in> set xs"
  shows "find (\<lambda>y. f y = f x) xs = Some x"
  using assms by (induction xs) force+

lemma find_SomeD: "find P xs = Some x \<Longrightarrow> x \<in> set xs \<and> P x"
  by (induction xs) (auto split: if_splits)

lemma find_filter_hd: "find P xs = (case filter P xs of [] \<Rightarrow> None | x # _ \<Rightarrow> Some x)"
  by (induction xs) auto

text \<open>A claim of the table: its step exists, and an open claim is the last of its ledger.\<close>

lemma claim_ledger:
  assumes "lease_inv uuid5 d" and "(key, c) \<in> set (db_claims d)"
  obtains st where "(key, st) \<in> set (db_steps d)" and "ws_step_id st = wc_step_id c"
    and "c \<in> set (step_claims key (wc_step_id c) d)" and "claim_of st c" and "validate_claim uuid5 c = Inr c"
    and "ledger_ok uuid5 st (step_ledger key (wc_step_id c) d)"
proof -
  have c: "c \<in> set (step_claims key (wc_step_id c) d)"
    using assms(2) by (simp add: step_claims_def set_rows)
  then have "step_exists key (wc_step_id c) d"
    using lease_invD(4) [OF assms(1), of key "wc_step_id c"] by (force simp: step_ledger_def)
  then obtain st where st: "(key, st) \<in> set (db_steps d)" "ws_step_id st = wc_step_id c"
    by (auto simp: step_exists_def set_rows)
  then have ok: "ledger_ok uuid5 st (step_ledger key (wc_step_id c) d)" using lease_invD(3) [OF assms(1) st(1)] by simp
  then show thesis using that [OF st c _ _ ok] c by (auto simp: step_ledger_def)
qed

lemma active_last:
  assumes "ledger_ok uuid5 st (cs, ks, rs)" and "c \<in> set cs" and "wc_status c = ACTIVE"
  obtains bs where "cs = bs @ [c]"
proof (cases cs rule: rev_cases)
  case (snoc bs b)
  then have "c = b" using assms by (auto simp: ledger_ok_snoc closed_for_def simp del: ledger_ok.simps)
  then show thesis using that snoc by simp
qed (use assms(2) in simp)

lemma claim_unique:
  assumes "lease_inv uuid5 d" and "(key, b) \<in> set (db_claims d)" and "(key, c) \<in> set (db_claims d)"
    and "wc_claim_id b = wc_claim_id c"
  shows "b = c"
  using lease_invD(5) [OF assms(1), of key] assms(2-) by (metis distinct_map inj_onD set_rows)

lemma loaded_claim:
  assumes "lease_inv uuid5 d" and "lock_claim uuid5 key claim_id d = Inr c"
  shows "(key, c) \<in> set (db_claims d)" and "wc_claim_id c = claim_id"
proof -
  obtain c0 where f: "find (\<lambda>c. wc_claim_id c = claim_id) (rows key (db_claims d)) = Some c0"
    and v: "validate_claim uuid5 c0 = Inr c" using assms(2) by (auto simp: lock_claim_def split: option.splits)
  have c0: "(key, c0) \<in> set (db_claims d)" "wc_claim_id c0 = claim_id"
    using find_SomeD [OF f] by (simp_all add: set_rows)
  have "c = c0" by (rule claim_ledger [OF assms(1) c0(1)]) (use v in simp)
  then show "(key, c) \<in> set (db_claims d)" and "wc_claim_id c = claim_id" using c0 by simp_all
qed

lemma lock_claim_present:
  assumes "lease_inv uuid5 d" and "(key, c) \<in> set (db_claims d)"
  shows "lock_claim uuid5 key (wc_claim_id c) d = Inr c"
proof -
  have "find (\<lambda>x. wc_claim_id x = wc_claim_id c) (rows key (db_claims d)) = Some c"
    by (rule find_unique [OF lease_invD(5) [OF assms(1)]]) (use assms(2) in \<open>simp add: set_rows\<close>)
  moreover have "validate_claim uuid5 c = Inr c" by (rule claim_ledger [OF assms])
  ultimately show ?thesis by (simp add: lock_claim_def)
qed

lemma loaded_step:
  assumes "lease_inv uuid5 d" and "load_step uuid5 key i d = Inr st"
  shows "(key, st) \<in> set (db_steps d)" and "ws_step_id st = i"
proof -
  obtain s where f: "find (\<lambda>s. ws_step_id s = i) (rows key (db_steps d)) = Some s"
    and v: "validate_worker_step uuid5 s = Inr st" using assms(2) by (auto simp: load_step_def split: option.splits)
  have s: "(key, s) \<in> set (db_steps d)" "ws_step_id s = i" using find_SomeD [OF f] by (simp_all add: set_rows)
  moreover have "st = s" using lease_invD(2) [OF assms(1) s(1)] v by simp
  ultimately show "(key, st) \<in> set (db_steps d)" and "ws_step_id st = i" by simp_all
qed

lemma load_step_present:
  assumes "lease_inv uuid5 d" and "(key, st) \<in> set (db_steps d)"
  shows "load_step uuid5 key (ws_step_id st) d = Inr st"
proof -
  have "find (\<lambda>x. ws_step_id x = ws_step_id st) (rows key (db_steps d)) = Some st"
    by (rule find_unique [OF lease_invD(1) [OF assms(1)]]) (use assms(2) in \<open>simp add: set_rows\<close>)
  then show ?thesis using lease_invD(2) [OF assms] by (simp add: load_step_def)
qed

section \<open>Updates of the claim table\<close>

lemma step_claims_update:
  assumes "\<And>c. wc_step_id (f c) = wc_step_id c"
  shows "step_claims key i (d\<lparr>db_claims := update_rows P f (db_claims d)\<rparr>) =
    map (\<lambda>c. if P key c then f c else c) (step_claims key i d)"
  using assms by (simp add: step_claims_def filter_map o_def if_distrib cong: if_cong)

lemma ledger_update:
  assumes "\<And>c. wc_step_id (f c) = wc_step_id c"
  shows "step_ledger key i (d\<lparr>db_claims := update_rows P f (db_claims d)\<rparr>) =
    (map (\<lambda>c. if P key c then f c else c) (step_claims key i d), step_checkpoints key i d, step_results key i d)"
  using step_claims_update [OF assms] by (simp add: step_ledger_def step_checkpoints_def step_results_def)

text \<open>Only the last claim of a ledger can be open, so an update of open claims changes at most it.\<close>

lemma map_active:
  assumes "ledger_ok uuid5 st (cs, ks, rs)" and "\<And>c. c \<in> set cs \<Longrightarrow> P c \<Longrightarrow> wc_status c = ACTIVE"
  obtains "map (\<lambda>c. if P c then f c else c) cs = cs"
  | bs c where "cs = bs @ [c]" and "P c" and "wc_status c = ACTIVE"
      and "map (\<lambda>c. if P c then f c else c) cs = bs @ [f c]"
proof (cases "\<exists>c\<in>set cs. P c")
  case True
  then obtain c where c: "c \<in> set cs" "P c" by blast
  then have act: "wc_status c = ACTIVE" using assms(2) by blast
  obtain bs where bs: "cs = bs @ [c]" by (rule active_last [OF assms(1) c(1) act])
  have "\<not> P b" if "b \<in> set bs" for b
  proof
    assume "P b"
    then have "wc_status b = ACTIVE" using assms(2) that bs by simp
    then show False using assms(1) bs that by (auto simp: ledger_ok_snoc closed_for_def simp del: ledger_ok.simps)
  qed
  then have "map (\<lambda>c. if P c then f c else c) bs = bs" by (simp add: map_idI)
  then show thesis using that(2) [OF bs c(2) act] c bs by simp
next
  case False
  then have "map (\<lambda>c. if P c then f c else c) cs = cs" by (intro map_idI) auto
  then show thesis by (rule that(1))
qed

text \<open>An update that moves every ledger along the specification, keeps claim ids and opens no claim
  keeps the invariant of the database.\<close>

lemma good_step_update:
  assumes inv: "lease_inv uuid5 d" and steps: "db_steps d' = db_steps d"
    and ids: "\<And>key. map wc_claim_id (rows key (db_claims d')) = map wc_claim_id (rows key (db_claims d))"
    and opens: "\<And>key c'. c' \<in> set (rows key (db_claims d')) \<Longrightarrow> wc_status c' = ACTIVE \<Longrightarrow>
       \<exists>c\<in>set (rows key (db_claims d)). wc_status c = ACTIVE \<and> wc_claim_id c = wc_claim_id c' \<and>
         wc_assignment_id c = wc_assignment_id c'"
    and empty: "\<And>key i. \<not> step_exists key i d \<Longrightarrow> step_ledger key i d' = ([], [], [])"
    and run: "\<And>key st. (key, st) \<in> set (db_steps d) \<Longrightarrow>
       ledger_run uuid5 st (step_ledger key (ws_step_id st) d) (step_ledger key (ws_step_id st) d')"
  shows "good_step uuid5 d d'"
proof -
  have "evolves uuid5 d d'" using run steps by (simp add: evolves_def)
  moreover have "lease_inv uuid5 d'"
    unfolding lease_inv_def
  proof (intro conjI allI impI ballI)
    fix key b c
    assume b: "b \<in> set (rows key (db_claims d'))" and c: "c \<in> set (rows key (db_claims d'))"
      and a: "wc_status b = ACTIVE \<and> wc_status c = ACTIVE \<and> wc_assignment_id b = wc_assignment_id c"
    obtain b0 c0 where "b0 \<in> set (rows key (db_claims d))" "wc_status b0 = ACTIVE" "wc_claim_id b0 = wc_claim_id b"
      "wc_assignment_id b0 = wc_assignment_id b" "c0 \<in> set (rows key (db_claims d))" "wc_status c0 = ACTIVE"
      "wc_claim_id c0 = wc_claim_id c" "wc_assignment_id c0 = wc_assignment_id c"
      using opens [OF b] opens [OF c] a by blast
    then have "wc_claim_id b = wc_claim_id c" using lease_invD(6) [OF inv, of b0 key c0] a by simp
    then show "b = c" using lease_invD(5) [OF inv, of key] ids [of key] b c
      by (metis distinct_map inj_onD)
  qed (use lease_invD [OF inv] ledger_run_ok [OF run] steps ids empty in \<open>auto simp: step_exists_def\<close>)
  ultimately show ?thesis by (simp add: good_step_def)
qed

lemma ledger_other:
  assumes "lease_inv uuid5 d" and "\<not> step_exists key i d"
  shows "step_claims key i d = []" and "step_checkpoints key i d = []" and "step_results key i d = []"
  using lease_invD(4) [OF assms] by (simp_all add: step_ledger_def)

text \<open>Updates of open claims that the specification allows: closing them, or extending the lease.\<close>

lemma good_update:
  assumes inv: "lease_inv uuid5 d"
    and fields: "\<And>c. wc_step_id (f c) = wc_step_id c" "\<And>c. wc_claim_id (f c) = wc_claim_id c"
      "\<And>c. wc_assignment_id (f c) = wc_assignment_id c"
    and active: "\<And>key c. (key, c) \<in> set (db_claims d) \<Longrightarrow> P key c \<Longrightarrow> wc_status c = ACTIVE"
    and step: "\<And>key st cs c ks rs. (key, c) \<in> set (db_claims d) \<Longrightarrow> P key c \<Longrightarrow> claim_of st c \<Longrightarrow>
       ledger_step uuid5 st (cs @ [c], ks, rs) (cs @ [f c], ks, rs)"
  shows "good_step uuid5 d (d\<lparr>db_claims := update_rows P f (db_claims d)\<rparr>)"
proof (rule good_step_update [OF inv])
  fix key st
  assume st: "(key, st) \<in> set (db_steps d)"
  have ok: "ledger_ok uuid5 st (step_claims key (ws_step_id st) d, step_checkpoints key (ws_step_id st) d,
      step_results key (ws_step_id st) d)" using lease_invD(3) [OF inv st] by (simp add: step_ledger_def)
  have mem: "(key, c) \<in> set (db_claims d)" if "c \<in> set (step_claims key (ws_step_id st) d)" for c
    using that by (simp add: step_claims_def set_rows)
  have of: "claim_of st c" if "c \<in> set (step_claims key (ws_step_id st) d)" for c
    using ok that by simp
  show "ledger_run uuid5 st (step_ledger key (ws_step_id st) d)
      (step_ledger key (ws_step_id st) (d\<lparr>db_claims := update_rows P f (db_claims d)\<rparr>))"
    unfolding ledger_update [OF fields(1)] unfolding step_ledger_def
  proof (rule map_active [OF ok, of "P key" f])
    fix bs c
    assume a: "step_claims key (ws_step_id st) d = bs @ [c]" "P key c" "wc_status c = ACTIVE"
      and b: "map (\<lambda>c. if P key c then f c else c) (step_claims key (ws_step_id st) d) = bs @ [f c]"
    have "c \<in> set (step_claims key (ws_step_id st) d)" using a by simp
    then have "ledger_step uuid5 st (bs @ [c], step_checkpoints key (ws_step_id st) d, step_results key (ws_step_id st) d)
        (bs @ [f c], step_checkpoints key (ws_step_id st) d, step_results key (ws_step_id st) d)"
      using step [OF mem a(2) of] by blast
    then show "ledger_run uuid5 st (step_claims key (ws_step_id st) d, step_checkpoints key (ws_step_id st) d,
        step_results key (ws_step_id st) d) (map (\<lambda>c. if P key c then f c else c) (step_claims key (ws_step_id st) d),
        step_checkpoints key (ws_step_id st) d, step_results key (ws_step_id st) d)"
      unfolding b unfolding a(1) by blast
  qed (use active mem in auto)
next
  fix key c'
  assume "c' \<in> set (rows key (db_claims (d\<lparr>db_claims := update_rows P f (db_claims d)\<rparr>)))"
    and act: "wc_status c' = ACTIVE"
  then obtain c where c: "c \<in> set (rows key (db_claims d))" "c' = (if P key c then f c else c)" by auto
  then have "wc_status c = ACTIVE" using act active [of key c] by (auto simp: set_rows split: if_splits)
  then show "\<exists>c\<in>set (rows key (db_claims d)). wc_status c = ACTIVE \<and> wc_claim_id c = wc_claim_id c' \<and>
      wc_assignment_id c = wc_assignment_id c'" using c fields by (intro bexI [of _ c]) auto
next
  fix key i
  assume "\<not> step_exists key i d"
  then show "step_ledger key i (d\<lparr>db_claims := update_rows P f (db_claims d)\<rparr>) = ([], [], [])"
    using ledger_other [OF inv] by (simp add: ledger_update [OF fields(1)])
qed (use fields in \<open>auto simp: o_def intro!: map_cong\<close>)

lemma good_close:
  assumes "lease_inv uuid5 d" and "x \<in> {ABANDONED, RELEASED}"
    and "\<And>key c. (key, c) \<in> set (db_claims d) \<Longrightarrow> P key c \<Longrightarrow> wc_status c = ACTIVE"
  shows "good_step uuid5 d (d\<lparr>db_claims := update_rows P (\<lambda>c. c\<lparr>wc_status := x\<rparr>) (db_claims d)\<rparr>)"
  by (rule good_update [OF assms(1)]) (use assms(2,3) in \<open>auto intro: ledger_step.close\<close>)

lemma good_abandon: "lease_inv uuid5 d \<Longrightarrow> good_step uuid5 d (abandon_expired_claims now d)"
  unfolding abandon_expired_claims_def by (rule good_close) auto

lemma good_set_closed:
  assumes inv: "lease_inv uuid5 d" and c: "(key, c) \<in> set (db_claims d)" "wc_status c = ACTIVE"
    and "x \<in> {ABANDONED, RELEASED}" and "set_claim_status key (wc_claim_id c) x d = Inr d'"
  shows "good_step uuid5 d d'"
proof -
  have "wc_status b = ACTIVE" if "(k, b) \<in> set (db_claims d)" "k = key \<and> wc_claim_id b = wc_claim_id c" for k b
    using claim_unique [OF inv, of key b c] that c by auto
  then show ?thesis using good_close [OF inv assms(4), of "\<lambda>k b. k = key \<and> wc_claim_id b = wc_claim_id c"] assms(5)
    by (auto simp: set_claim_status_def)
qed

section \<open>The operations of the claim holder\<close>

lemma extend_valid:
  assumes "validate_claim uuid5 c = Inr c" and "now = Aware i 0" and "0 < n"
    and "dt_instant (wc_claimed_at c) \<le> i"
  shows "validate_claim uuid5 (extend_lease now n c) = Inr (extend_lease now n c)"
  using assms by (cases c) (auto simp: validate_claim_def extend_lease_def worker_as_utc_def split: datetime.splits)

lemma good_heartbeat:
  assumes inv: "lease_inv uuid5 d" and "heartbeat_body uuid5 key claim_id w n (Aware i 0) d = Inr (r, d')"
    and "0 < n"
  shows "good_step uuid5 d d'"
proof -
  obtain c where lock: "lock_claim uuid5 key claim_id d = Inr c" and act: "wc_status c = ACTIVE"
    and cases: "set_claim_status key claim_id ABANDONED d = Inr d' \<or> dt_instant (wc_claimed_at c) \<le> i \<and>
      d' = d\<lparr>db_claims := update_rows (\<lambda>k x. k = key \<and> wc_claim_id x = claim_id)
                     (extend_lease (Aware i 0) n) (db_claims d)\<rparr>"
    using assms(2) by (auto simp: heartbeat_body_def Let_def split: if_splits)
  note c = loaded_claim [OF inv lock]
  have only: "b = c" if "(key, b) \<in> set (db_claims d)" "wc_claim_id b = claim_id" for b
    using claim_unique [OF inv that(1) c(1)] that c by simp
  have valid: "validate_claim uuid5 c = Inr c" by (rule claim_ledger [OF inv c(1)])
  from cases show ?thesis
  proof
    assume "set_claim_status key claim_id ABANDONED d = Inr d'"
    then show ?thesis using good_set_closed [OF inv c(1) act, of ABANDONED] c(2) by simp
  next
    assume a: "dt_instant (wc_claimed_at c) \<le> i \<and>
      d' = d\<lparr>db_claims := update_rows (\<lambda>k x. k = key \<and> wc_claim_id x = claim_id)
                     (extend_lease (Aware i 0) n) (db_claims d)\<rparr>"
    show ?thesis unfolding conjunct2 [OF a]
    proof (rule good_update [OF inv])
      fix k b st cs ks rs
      assume "(k, b) \<in> set (db_claims d)" "k = key \<and> wc_claim_id b = claim_id"
      then have "b = c" using only by blast
      then show "ledger_step uuid5 st (cs @ [b], ks, rs) (cs @ [extend_lease (Aware i 0) n b], ks, rs)"
        using ledger_step.extend [OF act extend_valid [OF valid refl assms(3)]] a by simp
    qed (use only act in auto)
  qed
qed

lemma good_release:
  assumes inv: "lease_inv uuid5 d" and "release_body uuid5 key claim_id w d = Inr (r, d')"
  shows "good_step uuid5 d d'"
proof -
  obtain c where lock: "lock_claim uuid5 key claim_id d = Inr c"
    and cases: "d' = d \<or> wc_status c = ACTIVE \<and> set_claim_status key claim_id RELEASED d = Inr d'"
    using assms(2) by (auto simp: release_body_def split: if_splits)
  note c = loaded_claim [OF inv lock]
  from cases show ?thesis
    using good_step_refl [OF inv] good_set_closed [OF inv c(1), of RELEASED] c(2) by auto
qed

text \<open>Closing a claim together with the checkpoint or the result it writes.\<close>

definition close_with ::
  "string \<Rightarrow> uuid \<Rightarrow> worker_claim_status \<Rightarrow> worker_checkpoint table \<Rightarrow> worker_result table \<Rightarrow> database \<Rightarrow> database" where
  "close_with key claim_id x kt rt d =
     d\<lparr>db_checkpoints := kt, db_results := rt,
       db_claims := update_rows (\<lambda>k c. k = key \<and> wc_claim_id c = claim_id)
         (\<lambda>c. c\<lparr>wc_status := x\<rparr>) (db_claims d)\<rparr>"

lemma step_claims_close_with:
  "step_claims k i (close_with key claim_id x kt rt d) =
     map (\<lambda>c. if k = key \<and> wc_claim_id c = claim_id then c\<lparr>wc_status := x\<rparr> else c) (step_claims k i d)"
  by (simp add: close_with_def step_claims_def filter_map o_def if_distrib cong: if_cong)

lemma good_close_with:
  assumes inv: "lease_inv uuid5 d" and c: "(key, c) \<in> set (db_claims d)" "wc_status c = ACTIVE"
    and x: "x \<noteq> ACTIVE"
    and kt: "\<And>k i. (k, i) \<noteq> (key, wc_step_id c) \<Longrightarrow>
        filter (\<lambda>y. wk_step_id y = i) (rows k kt) = step_checkpoints k i d"
    and rt: "\<And>k i. (k, i) \<noteq> (key, wc_step_id c) \<Longrightarrow> filter (\<lambda>y. wr_step_id y = i) (rows k rt) = step_results k i d"
    and step: "\<And>st cs. (key, st) \<in> set (db_steps d) \<Longrightarrow> ws_step_id st = wc_step_id c \<Longrightarrow>
        step_claims key (wc_step_id c) d = cs @ [c] \<Longrightarrow> ledger_step uuid5 st
          (cs @ [c], step_checkpoints key (wc_step_id c) d, step_results key (wc_step_id c) d)
          (cs @ [c\<lparr>wc_status := x\<rparr>], filter (\<lambda>y. wk_step_id y = wc_step_id c) (rows key kt),
            filter (\<lambda>y. wr_step_id y = wc_step_id c) (rows key rt))"
  shows "good_step uuid5 d (close_with key (wc_claim_id c) x kt rt d)" (is "good_step _ _ ?d'")
proof (rule good_step_update [OF inv])
  have only: "b = c" if "(key, b) \<in> set (db_claims d)" "wc_claim_id b = wc_claim_id c" for b
    using claim_unique [OF inv that(1) c(1)] that by simp
  have claims: "step_claims k i ?d' = step_claims k i d" if "(k, i) \<noteq> (key, wc_step_id c)" for k i
    unfolding step_claims_close_with using that only
    by (intro map_idI) (auto simp: step_claims_def set_rows)
  have other: "step_ledger k i ?d' = step_ledger k i d" if "(k, i) \<noteq> (key, wc_step_id c)" for k i
    using claims [OF that] kt [OF that] rt [OF that]
    by (simp add: step_ledger_def) (simp add: close_with_def step_checkpoints_def step_results_def)
  obtain st0 where st0: "(key, st0) \<in> set (db_steps d)" "ws_step_id st0 = wc_step_id c"
    and cin: "c \<in> set (step_claims key (wc_step_id c) d)"
    and ok: "ledger_ok uuid5 st0 (step_ledger key (wc_step_id c) d)" by (rule claim_ledger [OF inv c(1)])
  obtain cs where cs: "step_claims key (wc_step_id c) d = cs @ [c]"
    by (rule active_last [OF ok [unfolded step_ledger_def] cin c(2)])
  have "distinct (map wc_claim_id (step_claims key (wc_step_id c) d))"
    using lease_invD(5) [OF inv, of key] by (simp add: step_claims_def distinct_map_filter)
  then have "map (\<lambda>b. if wc_claim_id b = wc_claim_id c then b\<lparr>wc_status := x\<rparr> else b) cs = cs"
    unfolding cs by (intro map_idI) (auto simp: rev_image_eqI)
  then have claims': "step_claims key (wc_step_id c) ?d' = cs @ [c\<lparr>wc_status := x\<rparr>]"
    unfolding step_claims_close_with cs by simp
  have same: "step_ledger key (wc_step_id c) ?d' = (cs @ [c\<lparr>wc_status := x\<rparr>],
      filter (\<lambda>y. wk_step_id y = wc_step_id c) (rows key kt), filter (\<lambda>y. wr_step_id y = wc_step_id c) (rows key rt))"
    using claims' by (simp add: step_ledger_def) (simp add: close_with_def step_checkpoints_def step_results_def)
  fix k st
  assume st: "(k, st) \<in> set (db_steps d)"
  show "ledger_run uuid5 st (step_ledger k (ws_step_id st) d) (step_ledger k (ws_step_id st) ?d')"
  proof (cases "(k, ws_step_id st) = (key, wc_step_id c)")
    case True
    then show ?thesis using step [OF _ _ cs, of st] st same cs by (auto simp: step_ledger_def)
  qed (use other [of k "ws_step_id st"] in simp)
next
  fix k i
  assume none: "\<not> step_exists k i d"
  have "(k, i) \<noteq> (key, wc_step_id c)"
    by (rule claim_ledger [OF inv c(1)]) (use none step_existsI [of key _ d] in fastforce)
  then show "step_ledger k i ?d' = ([], [], [])"
    using kt rt ledger_other [OF inv none] step_claims_close_with [of k i key "wc_claim_id c" x kt rt d]
    by (simp add: step_ledger_def) (simp add: close_with_def step_checkpoints_def step_results_def)
next
  fix k c'
  assume "c' \<in> set (rows k (db_claims ?d'))" and "wc_status c' = ACTIVE"
  then show "\<exists>c\<in>set (rows k (db_claims d)). wc_status c = ACTIVE \<and> wc_claim_id c = wc_claim_id c' \<and>
      wc_assignment_id c = wc_assignment_id c'" using x by (auto simp: close_with_def)
qed (simp_all add: close_with_def o_def if_distrib cong: if_cong)

lemma ledger_open:
  assumes "lease_inv uuid5 d" and "(key, c) \<in> set (db_claims d)" and "wc_status c = ACTIVE"
    and "(key, st) \<in> set (db_steps d)" and "ws_step_id st = wc_step_id c"
    and "step_claims key (wc_step_id c) d = cs @ [c]"
  shows "ledger_ok uuid5 st (cs @ [c], step_checkpoints key (wc_step_id c) d, step_results key (wc_step_id c) d)"
    and "step_results key (wc_step_id c) d = []"
    and "wc_checkpoint_revision c = int (length (step_checkpoints key (wc_step_id c) d))"
proof -
  show ok: "ledger_ok uuid5 st (cs @ [c], step_checkpoints key (wc_step_id c) d, step_results key (wc_step_id c) d)"
    using lease_invD(3) [OF assms(1,4)] assms(5,6) by (simp add: step_ledger_def del: ledger_ok.simps)
  have none: "with_status CLAIM_COMPLETED cs = []"
    using no_completed [of cs "ws_effect_policy st"] ok by (simp add: ledger_ok_snoc del: ledger_ok.simps)
  then show "step_results key (wc_step_id c) d = []"
    using ok assms(3) by (simp add: ledger_ok_snoc del: ledger_ok.simps)
  have "map wk_claim_id (step_checkpoints key (wc_step_id c) d) = map wc_claim_id (with_status CHECKPOINTED cs)"
    using ok assms(3) by (simp add: ledger_ok_snoc del: ledger_ok.simps)
  then show "wc_checkpoint_revision c = int (length (step_checkpoints key (wc_step_id c) d))"
    using ok checkpoint_count by (simp add: ledger_ok_snoc del: ledger_ok.simps)
qed

lemma rows_insert_filter:
  "filter P (rows k (insert_row key x t)) = filter P (rows k t) @ (if key = k \<and> P x then [x] else [])"
  by simp

lemma good_checkpoint:
  assumes inv: "lease_inv uuid5 d"
    and body: "checkpoint_body uuid5 key claim_id w state refs now d = Inr (r, d')"
  shows "good_step uuid5 d d'"
proof -
  obtain c where lock: "lock_claim uuid5 key claim_id d = Inr c"
    and cases: "d' = d \<or> wc_status c = ACTIVE \<and> (set_claim_status key claim_id ABANDONED d = Inr d' \<or>
      (\<exists>i k d1. validate_checkpoint uuid5 \<lparr>wk_checkpoint_id = i, wk_step_id = wc_step_id c,
         wk_claim_id = wc_claim_id c, wk_revision = wc_checkpoint_revision c + 1, wk_state = state,
         wk_output_refs = refs, wk_created_at = now\<rparr> = Inr k \<and>
       insert_immutable_checkpoint uuid5 key k d = Inr d1 \<and> set_claim_status key claim_id CHECKPOINTED d1 = Inr d'))"
    using body by (auto simp: checkpoint_body_def Let_def split: if_splits option.splits)
  note c = loaded_claim [OF inv lock]
  consider "d' = d" | "wc_status c = ACTIVE" "set_claim_status key claim_id ABANDONED d = Inr d'"
    | i k d1 where "wc_status c = ACTIVE" "validate_checkpoint uuid5 \<lparr>wk_checkpoint_id = i, wk_step_id = wc_step_id c,
         wk_claim_id = wc_claim_id c, wk_revision = wc_checkpoint_revision c + 1, wk_state = state,
         wk_output_refs = refs, wk_created_at = now\<rparr> = Inr k"
       "insert_immutable_checkpoint uuid5 key k d = Inr d1" "set_claim_status key claim_id CHECKPOINTED d1 = Inr d'"
    using cases by blast
  then show ?thesis
  proof cases
    case 1
    then show ?thesis using good_step_refl [OF inv] by simp
  next
    case 2
    then show ?thesis using good_set_closed [OF inv c(1) 2(1), of ABANDONED] c(2) by simp
  next
    case 3
    note k = validate_checkpoint_stable [OF 3(2), simplified]
    obtain st where st: "(key, st) \<in> set (db_steps d)" "ws_step_id st = wc_step_id c"
      and cin: "c \<in> set (step_claims key (wc_step_id c) d)"
      and ok: "ledger_ok uuid5 st (step_ledger key (wc_step_id c) d)" by (rule claim_ledger [OF inv c(1)])
    obtain cs where cs: "step_claims key (wc_step_id c) d = cs @ [c]"
      by (rule active_last [OF ok [unfolded step_ledger_def] cin 3(1)])
    note ledger = ledger_open [OF inv c(1) 3(1) st cs]
    have fresh: "\<not> (wk_step_id x = wc_step_id c \<and> wk_revision x = wc_checkpoint_revision c + 1)"
      if "x \<in> set (rows key (db_checkpoints d))" for x
    proof
      assume "wk_step_id x = wc_step_id c \<and> wk_revision x = wc_checkpoint_revision c + 1"
      then have "wc_checkpoint_revision c + 1 \<in> set (map wk_revision (step_checkpoints key (wc_step_id c) d))"
        using that by (force simp: step_checkpoints_def)
      moreover have "map wk_revision (step_checkpoints key (wc_step_id c) d) =
          [1..int (length (step_checkpoints key (wc_step_id c) d))]" using ledger(1) by simp
      ultimately show False using ledger(3) by simp
    qed
    have stored: "wk_step_id x = wc_step_id c \<and> wk_revision x = wc_checkpoint_revision c + 1"
      if "validate_checkpoint uuid5 x = Inr y" "y\<lparr>wk_state := wk_state k\<rparr> = k" for x y
      using validate_checkpoint_stable [OF that(1)] arg_cong [OF that(2), of wk_step_id]
        arg_cong [OF that(2), of wk_revision] k by simp
    have d1: "d1 = d\<lparr>db_checkpoints := insert_row key k (db_checkpoints d)\<rparr>"
      using 3(3) fresh stored unfolding insert_immutable_checkpoint_def
      by (auto split: if_splits option.splits dest!: find_SomeD)
    have "d' = close_with key (wc_claim_id c) CHECKPOINTED (insert_row key k (db_checkpoints d)) (db_results d) d"
      using 3(4) c(2) unfolding d1 by (auto simp: set_claim_status_def close_with_def)
    moreover have "good_step uuid5 d (close_with key (wc_claim_id c) CHECKPOINTED
        (insert_row key k (db_checkpoints d)) (db_results d) d)"
      by (rule good_close_with [OF inv c(1) 3(1)])
        (use k ledger(3) 3(1) in \<open>auto simp: rows_insert_filter step_checkpoints_def step_results_def
          simp del: rows_insert intro!: ledger_step.checkpoint\<close>)
    ultimately show ?thesis by simp
  qed
qed

lemma result_row_None:
  assumes "lease_inv uuid5 d" and "(key, st) \<in> set (db_steps d)"
    and "load_result_row uuid5 key (ws_step_id st) d = Inr None"
  shows "step_results key (ws_step_id st) d = []"
  using assms(3) by (auto simp: load_result_row_def load_optional_def step_results_def find_None_iff filter_empty_conv
      split: option.splits)

lemma good_complete:
  assumes inv: "lease_inv uuid5 d"
    and body: "complete_body uuid5 key claim_id w out refs now d = Inr (r, d')"
  shows "good_step uuid5 d d'"
proof -
  obtain c st where lock: "lock_claim uuid5 key claim_id d = Inr c"
    and step: "load_step uuid5 key (wc_step_id c) d = Inr st"
    and cases: "d' = d \<or> load_result_row uuid5 key (wc_step_id c) d = Inr None \<and> wc_status c = ACTIVE \<and>
      (set_claim_status key claim_id ABANDONED d = Inr d' \<or>
      (\<exists>i res d1. validate_result uuid5 \<lparr>wr_result_id = i,
             wr_step_id = ws_step_id st, wr_claim_id = wc_claim_id c,
             wr_checkpoint_revision = wc_checkpoint_revision c,
             wr_idempotency_key = ws_idempotency_key st, wr_output = out,
             wr_output_refs = refs, wr_completed_at = now\<rparr> = Inr res \<and>
       insert_immutable_result uuid5 key res d = Inr d1 \<and> set_claim_status key claim_id CLAIM_COMPLETED d1 = Inr d'))"
  proof -
    obtain c st ex where l: "lock_claim uuid5 key claim_id d = Inr c" "load_step uuid5 key (wc_step_id c) d = Inr st"
      "load_result_row uuid5 key (wc_step_id c) d = Inr ex"
      using body by (auto simp: complete_body_def)
    show thesis by (rule that [OF l(1,2)], cases ex)
      (use l body in \<open>auto simp: complete_body_def split: if_splits\<close>)
  qed
  note c = loaded_claim [OF inv lock]
  note st = loaded_step [OF inv step]
  consider "d' = d" | "wc_status c = ACTIVE" "set_claim_status key claim_id ABANDONED d = Inr d'"
    | i res d1 where "load_result_row uuid5 key (wc_step_id c) d = Inr None" "wc_status c = ACTIVE"
      "validate_result uuid5 \<lparr>wr_result_id = i, wr_step_id = ws_step_id st, wr_claim_id = wc_claim_id c,
             wr_checkpoint_revision = wc_checkpoint_revision c,
             wr_idempotency_key = ws_idempotency_key st, wr_output = out,
             wr_output_refs = refs, wr_completed_at = now\<rparr> = Inr res"
      "insert_immutable_result uuid5 key res d = Inr d1" "set_claim_status key claim_id CLAIM_COMPLETED d1 = Inr d'"
    using cases by blast
  then show ?thesis
  proof cases
    case 1
    then show ?thesis using good_step_refl [OF inv] by simp
  next
    case 2
    then show ?thesis using good_set_closed [OF inv c(1) 2(1), of ABANDONED] c(2) by simp
  next
    case 3
    note res = validate_result_stable [OF 3(3), simplified]
    have d1: "d1 = d\<lparr>db_results := insert_row key res (db_results d)\<rparr>"
      using 3(1,4) res st(2) unfolding insert_immutable_result_def by (auto split: if_splits option.splits)
    have "d' = close_with key (wc_claim_id c) CLAIM_COMPLETED (db_checkpoints d) (insert_row key res (db_results d)) d"
      using 3(5) c(2) unfolding d1 by (auto simp: set_claim_status_def close_with_def)
    moreover have "good_step uuid5 d (close_with key (wc_claim_id c) CLAIM_COMPLETED
        (db_checkpoints d) (insert_row key res (db_results d)) d)"
    proof (rule good_close_with [OF inv c(1) 3(2)])
      fix st' cs
      assume a: "(key, st') \<in> set (db_steps d)" "ws_step_id st' = wc_step_id c" "step_claims key (wc_step_id c) d = cs @ [c]"
      note ledger = ledger_open [OF inv c(1) 3(2) a]
      show "ledger_step uuid5 st' (cs @ [c], step_checkpoints key (wc_step_id c) d, step_results key (wc_step_id c) d)
        (cs @ [c\<lparr>wc_status := CLAIM_COMPLETED\<rparr>], filter (\<lambda>y. wk_step_id y = wc_step_id c) (rows key (db_checkpoints d)),
         filter (\<lambda>y. wr_step_id y = wc_step_id c) (rows key (insert_row key res (db_results d))))"
        using res st(2) a(2) 3(2) ledger(3)
          ledger_step.complete [of c res st' "step_checkpoints key (wc_step_id c) d" uuid5 cs "step_results key (wc_step_id c) d"]
        by (simp add: step_checkpoints_def step_results_def)
    qed (use res st(2) in \<open>auto simp: rows_insert_filter step_checkpoints_def step_results_def simp del: rows_insert\<close>)
    ultimately show ?thesis by simp
  qed
qed

section \<open>Registration\<close>

lemma insert_stepE:
  assumes "insert_immutable_step uuid5 key st d = Inr d'"
  obtains "d' = d"
    | "\<not> step_exists key (ws_step_id st) d" and "d' = d\<lparr>db_steps := insert_row key st (db_steps d)\<rparr>"
proof (cases "\<exists>(k, s)\<in>set (db_steps d). k = key \<and> (ws_step_id s = ws_step_id st \<or>
    ws_assignment_id s = ws_assignment_id st \<and> ws_step_key s = ws_step_key st) \<or>
    ws_idempotency_key s = ws_idempotency_key st")
  case True
  then have "d' = d" using assms unfolding insert_immutable_step_def if_P [OF True] by simp
  then show thesis by (rule that(1))
next
  case False
  then have "\<not> step_exists key (ws_step_id st) d" by (force simp: step_exists_def set_rows)
  then show thesis using assms unfolding insert_immutable_step_def if_not_P [OF False] by (auto intro: that(2))
qed

lemma good_insert_step:
  assumes inv: "lease_inv uuid5 d" and valid: "validate_worker_step uuid5 st = Inr st"
    and ins: "insert_immutable_step uuid5 key st d = Inr d'"
  shows "good_step uuid5 d d'"
proof -
  consider "d' = d"
    | "\<not> step_exists key (ws_step_id st) d" "d' = d\<lparr>db_steps := insert_row key st (db_steps d)\<rparr>"
    by (rule insert_stepE [OF ins])
  then show ?thesis
  proof cases
    case 1
    then show ?thesis using good_step_refl [OF inv] by simp
  next
    case 2
    have same: "step_ledger k i d' = step_ledger k i d" for k i
      unfolding 2(2) by (simp add: step_ledger_def step_claims_def step_checkpoints_def step_results_def)
    have new: "step_ledger key (ws_step_id st) d = ([], [], [])" using lease_invD(4) [OF inv 2(1)] .
    have "lease_inv uuid5 d'"
      unfolding lease_inv_def same
    proof (intro conjI allI impI)
      fix k
      show "distinct (map ws_step_id (rows k (db_steps d')))"
        using lease_invD(1) [OF inv, of k] 2 by (auto simp: step_exists_def)
    next
      fix k s
      assume "(k, s) \<in> set (db_steps d')"
      then show "validate_worker_step uuid5 s = Inr s" and "ledger_ok uuid5 s (step_ledger k (ws_step_id s) d)"
        using lease_invD(2,3) [OF inv] valid new 2 by auto
    next
      fix k i
      assume "\<not> step_exists k i d'"
      then have "\<not> step_exists k i d" using 2(2) by (auto simp: step_exists_def)
      then show "step_ledger k i d = ([], [], [])" using lease_invD(4) [OF inv] by blast
    qed (use lease_invD(5,6) [OF inv] 2 in auto)
    moreover have "evolves uuid5 d d'" using same 2(2) by (auto simp: evolves_def)
    ultimately show ?thesis by (simp add: good_step_def)
  qed
qed

lemma good_register:
  assumes "lease_inv uuid5 d" and "register_body uuid5 key a sk cap refs p d = Inr (st, d')"
  shows "good_step uuid5 d d'"
proof -
  obtain x where "validate_worker_step uuid5 x = Inr st" "insert_immutable_step uuid5 key st d = Inr d'"
    using assms(2) by (auto simp: register_body_def)
  then show ?thesis using good_insert_step [OF assms(1)] validate_worker_step_stable by blast
qed

section \<open>The guarded claim\<close>

text \<open>What a guarded claim that returns has established on the way.\<close>

lemma guarded_claim_bodyE:
  assumes "guarded_claim_body uuid5 dump dump_claim key step_id w probe expected captured pub lease d = Inr (a, d')"
  obtains state committed policy st resources checkpoint existing latest active reserved snapshot gated now o1 d1 d2 where
    "lock_scheduler_state key d = Inr state"
    "load_current_resource_observation uuid5 dump key (st_current_resource_observation_id state) d = Inr committed"
    "policy = (case committed of Some observation \<Rightarrow> ob_policy observation
       | None \<Rightarrow> (case expected of Some p \<Rightarrow> p | None \<Rightarrow> default_resource_safety_policy))"
    "load_step uuid5 key step_id d = Inr st"
    "rmap row_to_resource (sort_key er_resource_id (db_resources d)) = Inr resources"
    "d1 = abandon_expired_claims captured d"
    "load_latest_checkpoint uuid5 key (ws_step_id st) d1 = Inr checkpoint"
    "load_result_row uuid5 key (ws_step_id st) d1 = Inr existing"
    "load_latest_claim uuid5 key (ws_step_id st) d1 = Inr latest"
    "active = load_active_claim_rows captured d1"
    "load_claim_reservations active d1 = Inr reserved"
    "build_resource_observation uuid5 dump (max 1 (st_cycle state)) captured resources reserved policy
       (case probe of Inl _ \<Rightarrow> None | Inr m \<Rightarrow> Some m) (case probe of Inl msg \<Rightarrow> [msg] | Inr _ \<Rightarrow> [])
       (''worker-claim:'' @ key) = Inr snapshot"
    "gate_reason key st snapshot (structural_claim_denial key state st latest existing captured policy expected
       committed d1) d1 = Inr gated"
    "store_as_utc pub = Inr now"
    "insert_immutable_claim_observation uuid5 dump dump_claim key o1 d1 = Inr d2"
    "make_claim_observation uuid5 dump dump_claim st snapshot now
       (if publication_reason snapshot now gated = None then GRANTED else DENIED)
       (case publication_reason snapshot now gated of
          None \<Rightarrow> ''fresh resource gate admitted the worker step'' | Some r \<Rightarrow> r) (map fst active) = Inr o1"
    "publication_reason snapshot now gated \<noteq> None \<and> a = \<lparr>wa_observation = o1, wa_envelope = None\<rparr> \<and> d' = d2 \<or>
     publication_reason snapshot now gated = None \<and> grant_claim uuid5 key st w checkpoint o1 now lease d2 = Inr (a, d')"
  using assms unfolding guarded_claim_body_def Let_def rbind_eq_Inr
  by (elim exE conjE)
    (rule that, (assumption | rule refl)+, auto simp: validate_attempt_def split: if_splits)

lemma observation_insert_frame:
  assumes "insert_immutable_claim_observation uuid5 dump dump_claim key o1 d = Inr d'"
  shows "d' = d\<lparr>db_claim_observations := db_claim_observations d'\<rparr>"
  using assms unfolding insert_immutable_claim_observation_def by (auto split: if_splits)

lemma good_frame:
  assumes "lease_inv uuid5 d" and "db_steps d' = db_steps d" "db_claims d' = db_claims d"
    "db_checkpoints d' = db_checkpoints d" "db_results d' = db_results d"
  shows "good_step uuid5 d d'"
proof -
  have "step_ledger k i d' = step_ledger k i d" for k i
    using assms by (simp add: step_ledger_def step_claims_def step_checkpoints_def step_results_def)
  then show ?thesis using assms by (simp add: good_step_def lease_inv_def evolves_def step_exists_def)
qed

lemma latest_claim_last:
  assumes "lease_inv uuid5 d" and "(key, st) \<in> set (db_steps d)"
    and "load_latest_claim uuid5 key (ws_step_id st) d = Inr latest"
  shows "latest = (if step_claims key (ws_step_id st) d = [] then None else Some (last (step_claims key (ws_step_id st) d)))"
proof -
  let ?cs = "step_claims key (ws_step_id st) d"
  have ok: "map wc_attempt ?cs = [1..int (length ?cs)]" "\<forall>c\<in>set ?cs. validate_claim uuid5 c = Inr c"
    using lease_invD(3) [OF assms(1,2)] by (simp_all add: step_ledger_def)
  then have "?cs \<noteq> [] \<Longrightarrow> latest_by wc_attempt ?cs = Some (last ?cs)" by (intro latest_by_sorted) simp_all
  then show ?thesis using assms(3) ok(2) by (auto simp: load_latest_claim_def load_optional_def)
qed

lemma latest_checkpoint_last:
  assumes "lease_inv uuid5 d" and "(key, st) \<in> set (db_steps d)"
    and "load_latest_checkpoint uuid5 key (ws_step_id st) d = Inr k"
  shows "(case k of None \<Rightarrow> 0 | Some x \<Rightarrow> wk_revision x) = int (length (step_checkpoints key (ws_step_id st) d))"
proof -
  let ?ks = "step_checkpoints key (ws_step_id st) d"
  have ok: "map wk_revision ?ks = [1..int (length ?ks)]" "\<forall>c\<in>set ?ks. validate_checkpoint uuid5 c = Inr c"
    using lease_invD(3) [OF assms(1,2)] by (simp_all add: step_ledger_def)
  show ?thesis
  proof (cases ?ks rule: rev_cases)
    case Nil
    then show ?thesis using assms(3) by (simp add: load_latest_checkpoint_def load_optional_def)
  next
    case (snoc ks x)
    then have "latest_by wk_revision ?ks = Some x" using ok(1) latest_by_sorted [of wk_revision ?ks] by simp
    then have "k = Some x"
      using assms(3) ok(2) unfolding load_latest_checkpoint_def load_optional_def by (simp add: snoc)
    moreover have "wk_revision x = int (length ?ks)"
      using ok(1) unfolding snoc using upto_snoc [of "length ks"] by (simp add: add.commute)
    ultimately show ?thesis by simp
  qed
qed

lemma fold_max_upto: "fold max [1..int n] (0::int) = int n"
proof (induction n)
  case (Suc n)
  then show ?case using upto_snoc [of n] by (simp add: add.commute)
qed simp

lemma latest_attempt_length:
  assumes "lease_inv uuid5 d" and "(key, st) \<in> set (db_steps d)"
  shows "latest_attempt key (ws_step_id st) d = int (length (step_claims key (ws_step_id st) d))"
  using lease_invD(3) [OF assms] fold_max_upto by (simp add: latest_attempt_def step_ledger_def)

text \<open>A claim is granted only on a ledger that allows it.\<close>

lemma structural_None:
  assumes inv: "lease_inv uuid5 d" and st: "(key, st) \<in> set (db_steps d)"
    and latest: "load_latest_claim uuid5 key (ws_step_id st) d = Inr latest"
    and existing: "load_result_row uuid5 key (ws_step_id st) d = Inr existing"
    and expired: "\<And>k c. (k, c) \<in> set (db_claims d) \<Longrightarrow> wc_status c = ACTIVE \<Longrightarrow>
       dt_instant (wc_lease_expires_at c) > dt_instant now"
    and none: "structural_claim_denial key state st latest existing now policy expected committed d = None"
  shows "may_claim (ws_effect_policy st) (step_claims key (ws_step_id st) d)"
    and "step_results key (ws_step_id st) d = []"
proof -
  have n: "work_denial key st latest existing now d = None"
    using none by (simp add: structural_claim_denial_def split: if_splits option.splits)
  then have "existing = None" by (auto simp: work_denial_def split: if_splits)
  then show rs: "step_results key (ws_step_id st) d = []" using result_row_None [OF inv st] existing by simp
  show "may_claim (ws_effect_policy st) (step_claims key (ws_step_id st) d)"
  proof (cases "step_claims key (ws_step_id st) d" rule: rev_cases)
    case (snoc cs c)
    have l: "latest = Some c" using latest_claim_last [OF inv st latest] snoc by simp
    have "c \<in> set (step_claims key (ws_step_id st) d)" using snoc by simp
    then have "(key, c) \<in> set (db_claims d)" by (simp add: step_claims_def set_rows)
    then have "wc_status c \<noteq> ACTIVE" using n l expired
      by (auto simp: work_denial_def latest_claim_denial_def live_claim_def split: if_splits)
    moreover have "wc_status c \<noteq> CLAIM_COMPLETED"
      using lease_invD(3) [OF inv st] rs snoc by (auto simp: step_ledger_def ledger_ok_snoc simp del: ledger_ok.simps)
    moreover have "wc_status c = ABANDONED \<Longrightarrow> abandoned_retry_is_safe (ws_effect_policy st)"
      using n l by (auto simp: work_denial_def latest_claim_denial_def split: if_splits)
    ultimately have "closed_for (ws_effect_policy st) c" by (cases "wc_status c") (simp_all add: closed_for_def)
    then show ?thesis using snoc by simp
  qed (simp add: may_claim_def)
qed

lemma insert_claimE:
  assumes "insert_claim key c d = Inr d'"
  obtains "d' = d\<lparr>db_claims := insert_row key c (db_claims d)\<rparr>"
    and "wc_claim_id c \<notin> wc_claim_id ` set (rows key (db_claims d))"
    and "wc_status c = ACTIVE \<Longrightarrow> \<forall>x\<in>set (rows key (db_claims d)). wc_status x = ACTIVE \<longrightarrow>
       wc_step_id x \<noteq> wc_step_id c \<and> wc_assignment_id x \<noteq> wc_assignment_id c"
    and "step_exists key (wc_step_id c) d"
  using assms by (auto simp: insert_claim_def Let_def)

text \<open>The grant itself, on the tables in which expired leases are already abandoned.\<close>

lemma good_grant:
  assumes inv: "lease_inv uuid5 d" and st: "(key, st) \<in> set (db_steps d)"
    and may: "may_claim (ws_effect_policy st) (step_claims key (ws_step_id st) d)"
    and rs: "step_results key (ws_step_id st) d = []"
    and checkpoint: "load_latest_checkpoint uuid5 key (ws_step_id st) d = Inr k"
    and grant: "grant_claim uuid5 key st w k o1 now lease d = Inr (a, d')"
  shows "good_step uuid5 d d'"
proof -
  let ?cs = "step_claims key (ws_step_id st) d" and ?ks = "step_checkpoints key (ws_step_id st) d"
  obtain c0 c where valid: "validate_claim uuid5 c0 = Inr c" and ins: "insert_claim key c d = Inr d'"
    and c0: "claim_of st c0" "wc_status c0 = ACTIVE" "wc_attempt c0 = latest_attempt key (ws_step_id st) d + 1"
      "wc_checkpoint_revision c0 = (case k of None \<Rightarrow> 0 | Some x \<Rightarrow> wk_revision x)"
    using grant by (auto simp: grant_claim_def Let_def claim_of_def)
  note c = validate_claim_stable [OF valid]
  have step: "ledger_step uuid5 st (?cs, ?ks, []) (?cs @ [c], ?ks, [])"
    by (rule ledger_step.grant [OF may])
      (use c c0 latest_attempt_length [OF inv st] latest_checkpoint_last [OF inv st checkpoint] in \<open>simp_all add: claim_of_def\<close>)
  from ins show ?thesis
  proof (rule insert_claimE)
    assume d': "d' = d\<lparr>db_claims := insert_row key c (db_claims d)\<rparr>"
      and fresh: "wc_claim_id c \<notin> wc_claim_id ` set (rows key (db_claims d))"
      and alone: "wc_status c = ACTIVE \<Longrightarrow> \<forall>x\<in>set (rows key (db_claims d)). wc_status x = ACTIVE \<longrightarrow>
         wc_step_id x \<noteq> wc_step_id c \<and> wc_assignment_id x \<noteq> wc_assignment_id c"
    have cs': "step_claims k' i d' = step_claims k' i d @ (if k' = key \<and> i = ws_step_id st then [c] else [])" for k' i
      using c c0 unfolding d' by (auto simp: step_claims_def claim_of_def)
    have led: "step_ledger k' i d' = (step_claims k' i d @ (if k' = key \<and> i = ws_step_id st then [c] else []),
        step_checkpoints k' i d, step_results k' i d)" for k' i
      unfolding step_ledger_def cs' unfolding d' by (simp add: step_checkpoints_def step_results_def)
    have steps: "db_steps d' = db_steps d" unfolding d' by simp
    have run: "ledger_run uuid5 s (step_ledger k' (ws_step_id s) d) (step_ledger k' (ws_step_id s) d')"
      if s: "(k', s) \<in> set (db_steps d)" for k' s
    proof (cases "k' = key \<and> ws_step_id s = ws_step_id st")
      case True
      then have "s = st" using lease_invD(1) [OF inv, of key] s st by (metis distinct_map inj_onD set_rows)
      then show ?thesis using step True rs unfolding led unfolding step_ledger_def by auto
    next
      case False
      then show ?thesis unfolding led unfolding step_ledger_def by auto
    qed
    have "lease_inv uuid5 d'"
      unfolding lease_inv_def
    proof (intro conjI allI impI)
      fix k' i
      assume "\<not> step_exists k' i d'"
      then have "\<not> step_exists k' i d" using steps by (simp add: step_exists_def)
      then show "step_ledger k' i d' = ([], [], [])"
        unfolding led using ledger_other [OF inv] step_existsI [OF st] by auto
    next
      fix k' s
      assume "(k', s) \<in> set (db_steps d')"
      then have s: "(k', s) \<in> set (db_steps d)" using steps by simp
      then show "validate_worker_step uuid5 s = Inr s" and "ledger_ok uuid5 s (step_ledger k' (ws_step_id s) d')"
        using lease_invD(2,3) [OF inv s] ledger_run_ok [OF run [OF s]] by simp_all
    next
      fix k'
      show "distinct (map wc_claim_id (rows k' (db_claims d')))"
        using lease_invD(5) [OF inv] fresh d' by auto
      show "\<forall>b\<in>set (rows k' (db_claims d')). \<forall>c\<in>set (rows k' (db_claims d')).
        wc_status b = ACTIVE \<and> wc_status c = ACTIVE \<and> wc_assignment_id b = wc_assignment_id c \<longrightarrow> b = c"
        using lease_invD(6) [OF inv] alone d' c c0(2) by auto
    qed (use lease_invD(1) [OF inv] steps in simp)
    then show ?thesis using run steps by (simp add: good_step_def evolves_def)
  qed
qed

lemma abandoned_open:
  assumes "(k, c) \<in> set (db_claims (abandon_expired_claims now d))" and "wc_status c = ACTIVE"
  shows "dt_instant (wc_lease_expires_at c) > dt_instant now"
proof -
  obtain r where r: "c = (if wc_status r = ACTIVE \<and> dt_instant (wc_lease_expires_at r) \<le> dt_instant now
      then r\<lparr>wc_status := ABANDONED\<rparr> else r)"
    using assms(1) by (auto simp: abandon_expired_claims_def set_update_rows)
  then show ?thesis
  proof (cases "wc_status r = ACTIVE \<and> dt_instant (wc_lease_expires_at r) \<le> dt_instant now")
    case True
    then have "c = r\<lparr>wc_status := ABANDONED\<rparr>" using r by simp
    then show ?thesis using assms(2) by simp
  qed (use assms(2) in auto)
qed

lemma good_guarded_claim:
  assumes inv: "lease_inv uuid5 d"
    and body: "guarded_claim_body uuid5 dump dump_claim key step_id w probe expected captured pub lease d = Inr (a, d')"
  shows "good_step uuid5 d d'"
  using body
proof (rule guarded_claim_bodyE)
  fix state committed policy st resources checkpoint existing latest active reserved snapshot gated now o1 d1 d2
  assume step: "load_step uuid5 key step_id d = Inr st" and d1: "d1 = abandon_expired_claims captured d"
    and cp: "load_latest_checkpoint uuid5 key (ws_step_id st) d1 = Inr checkpoint"
    and ex: "load_result_row uuid5 key (ws_step_id st) d1 = Inr existing"
    and la: "load_latest_claim uuid5 key (ws_step_id st) d1 = Inr latest"
    and gate: "gate_reason key st snapshot (structural_claim_denial key state st latest existing captured policy expected
       committed d1) d1 = Inr gated"
    and ob: "insert_immutable_claim_observation uuid5 dump dump_claim key o1 d1 = Inr d2"
    and fin: "publication_reason snapshot now gated \<noteq> None \<and> a = \<lparr>wa_observation = o1, wa_envelope = None\<rparr> \<and> d' = d2 \<or>
     publication_reason snapshot now gated = None \<and> grant_claim uuid5 key st w checkpoint o1 now lease d2 = Inr (a, d')"
  have g1: "good_step uuid5 d d1" unfolding d1 by (rule good_abandon [OF inv])
  then have inv1: "lease_inv uuid5 d1" by (simp add: good_step_def)
  have st: "(key, st) \<in> set (db_steps d1)"
    using loaded_step(1) [OF inv step] unfolding d1 by (simp add: abandon_expired_claims_def)
  note frame = observation_insert_frame [OF ob]
  have g2: "good_step uuid5 d1 d2" by (rule good_frame [OF inv1]) (subst frame, simp)+
  then have inv2: "lease_inv uuid5 d2" by (simp add: good_step_def)
  have same: "step_claims k i d2 = step_claims k i d1" "step_results k i d2 = step_results k i d1"
      "load_latest_checkpoint uuid5 k i d2 = load_latest_checkpoint uuid5 k i d1" "db_steps d2 = db_steps d1" for k i
    by (subst frame, simp add: step_claims_def step_results_def load_latest_checkpoint_def step_checkpoints_def)+
  from fin show ?thesis
  proof
    assume "publication_reason snapshot now gated = None \<and> grant_claim uuid5 key st w checkpoint o1 now lease d2 = Inr (a, d')"
    then have gr: "grant_claim uuid5 key st w checkpoint o1 now lease d2 = Inr (a, d')" and "gated = None"
      by (auto simp: publication_reason_def split: if_splits)
    then have none: "structural_claim_denial key state st latest existing captured policy expected committed d1 = None"
      using gate by (auto simp: gate_reason_def split: option.splits)
    note may = structural_None [OF inv1 st la ex abandoned_open [where now = captured and d = d] none, folded d1]
    have "good_step uuid5 d2 d'"
      by (rule good_grant [OF inv2 _ _ _ _ gr]) (use st may same cp in simp_all)
    then show ?thesis using good_step_trans [OF good_step_trans [OF g1 g2]] by blast
  qed (use good_step_trans [OF g1 g2] in blast)
qed

end
