(* ===== verification/AttentionStore.thy ===== *)
theory AttentionStore
  imports Planning WorkerStore
begin

text \<open>
  The durability adapter of the scheduler (\<^verbatim>\<open>attention_store.py\<close>): \<^verbatim>\<open>save_scheduler\<close> publishes a
  scheduler and its pending epoch in one transaction on the tables of \<open>Database\<close>, guarded against stale
  writers, conflicting history and overbooked pools; \<^verbatim>\<open>load_scheduler\<close> rebuilds a scheduler from the
  tables. The clock of the database server (\<^verbatim>\<open>now()\<close>) is an argument. Text columns are sorted by code
  points, and the session's time zone is UTC, so a timestamp is read back as its UTC instant.
\<close>

section \<open>What a save publishes\<close>

record publication =
  pb_epoch :: "scheduling_epoch option"
  pb_assignments :: "durable_assignment list"
  pb_cycle :: int
  pb_epoch_sequence :: int
  pb_admitted_task_ids :: "uuid list"
  pb_reservations :: "resource_reservation list"
  pb_pending_preemptions :: "pending_preemption list"
  pb_preemption_policy_version :: string
  pb_preemption_state_revision :: int
  pb_observation :: "resource_observation option"
  pb_events :: "preemption_event list"

definition committed_publication :: "scheduler \<Rightarrow> scheduler_snapshot \<Rightarrow> publication" where
  "committed_publication s x =
     \<lparr>pb_epoch = sn_current_epoch x, pb_assignments = sn_assignments x, pb_cycle = sn_cycle x,
      pb_epoch_sequence = sn_epoch_sequence x, pb_admitted_task_ids = sn_admitted_task_ids x,
      pb_reservations = sn_resource_reservations x,
      pb_pending_preemptions = sn_pending_preemptions x,
      pb_preemption_policy_version = sn_preemption_policy_version x,
      pb_preemption_state_revision = sn_preemption_state_revision x,
      pb_observation = sn_current_resource_observation x, pb_events = s_preemption_events s\<rparr>"

definition pending_publication ::
  "scheduler \<Rightarrow> scheduler_snapshot \<Rightarrow> scheduling_epoch_plan \<Rightarrow> publication" where
  "pending_publication s x plan =
    (let e = (pl_epoch plan)\<lparr>ep_status := COMMITTED\<rparr>
     in \<lparr>pb_epoch = Some e, pb_assignments = pl_assignments plan, pb_cycle = ep_scheduler_cycle e,
         pb_epoch_sequence = ep_sequence e, pb_admitted_task_ids = pl_admitted_task_ids plan,
         pb_reservations = ep_reservations e,
         pb_pending_preemptions = pl_pending_preemptions plan,
         pb_preemption_policy_version = (case ep_preemption_policy_version e of
            Some v \<Rightarrow> if v = [] then sn_preemption_policy_version x else v
          | None \<Rightarrow> sn_preemption_policy_version x),
         pb_preemption_state_revision = sn_preemption_state_revision x + 1,
         pb_observation = pl_resource_observation plan,
         pb_events = s_preemption_events s @
           filter (\<lambda>v. pv_event_id v \<notin> pv_event_id ` set (s_preemption_events s)) (pl_preemption_events plan)\<rparr>)"

definition publication_snapshot ::
  "scheduler_snapshot \<Rightarrow> scheduling_epoch \<Rightarrow> publication \<Rightarrow> scheduler_snapshot" where
  "publication_snapshot x e pb =
     x\<lparr>sn_cycle := pb_cycle pb, sn_admission_policy_version := ep_admission_policy_version e,
       sn_admitted_task_ids := pb_admitted_task_ids pb, sn_resource_reservations := pb_reservations pb,
       sn_epoch_sequence := pb_epoch_sequence pb,
       sn_assignment_policy_version := ep_assignment_policy_version e,
       sn_preemption_policy_version := pb_preemption_policy_version pb,
       sn_preemption_state_revision := pb_preemption_state_revision pb,
       sn_pending_preemptions := pb_pending_preemptions pb, sn_current_epoch := Some e,
       sn_assignments := pb_assignments pb, sn_current_resource_observation := pb_observation pb\<rparr>"

text \<open>The first half of \<^verbatim>\<open>save_scheduler\<close>: what is published, after a dry run of its restoration.\<close>

definition prepare_publication ::
  "(uuid \<Rightarrow> string \<Rightarrow> uuid) \<Rightarrow> (pending_preemption \<Rightarrow> string) \<Rightarrow> scheduler \<Rightarrow> scheduler_snapshot \<Rightarrow> publication res" where
  "prepare_publication uuid5 intent_json s x =
     (case s_pending_epoch_plan s of
        None \<Rightarrow> Inr (committed_publication s x)
      | Some plan \<Rightarrow>
          (let pb = pending_publication s x plan; e = (pl_epoch plan)\<lparr>ep_status := COMMITTED\<rparr>
           in rbind (mk_SchedulerSnapshot (publication_snapshot x e pb)) (\<lambda>px.
              rbind (from_snapshot uuid5 intent_json
                (Some (map (\<lambda>c. (c, s_service_guarantees s c)) all_service_classes)) px) (\<lambda>_.
              Inr pb))))"

section \<open>Guards\<close>

definition lock_scheduler_generation ::
  "string \<Rightarrow> int \<Rightarrow> uuid option \<Rightarrow> scheduling_epoch option \<Rightarrow> int \<Rightarrow> int \<Rightarrow> pending_preemption list \<Rightarrow>
     database \<Rightarrow> unit res" where
  "lock_scheduler_generation key epoch_sequence epoch_id target_epoch base_revision target_revision
       target_pending d =
     raise_if (target_revision < base_revision)
       (ValueError ''Target preemption revision cannot move backward'')
     (case dget (db_state d) key of
        None \<Rightarrow>
          raise_if ((epoch_sequence, epoch_id) \<noteq> (0, None) \<or> base_revision \<noteq> 0)
            (RuntimeError ''Cannot persist an existing epoch into missing scheduler state'') (Inr ())
      | Some st \<Rightarrow>
          raise_if ((st_epoch_sequence st, st_current_epoch_id st) \<noteq> (epoch_sequence, epoch_id) \<and>
              (case target_epoch of None \<Rightarrow> True
               | Some e \<Rightarrow> (st_epoch_sequence st, st_current_epoch_id st) \<noteq> (ep_sequence e, Some (ep_epoch_id e))))
            (RuntimeError ''Stale scheduler generation cannot overwrite current epoch'')
         (if st_preemption_state_revision st = base_revision then Inr ()
          else raise_if (st_preemption_state_revision st \<noteq> target_revision)
                 (RuntimeError ''Stale preemption state cannot overwrite checkpoint progress'')
              (rbind (rmap validate_intent (st_pending_preemptions st)) (\<lambda>stored.
               raise_if (stored \<noteq> target_pending)
                 (RuntimeError ''Conflicting preemption state at the same revision'') (Inr ())))))"

section \<open>Immutable history\<close>

definition insert_immutable_resource_observation ::
  "(uuid \<Rightarrow> string \<Rightarrow> uuid) \<Rightarrow> (resource_observation \<Rightarrow> string) \<Rightarrow> string \<Rightarrow> resource_observation \<Rightarrow>
     database \<Rightarrow> database res" where
  "insert_immutable_resource_observation uuid5 dump key o1 d =
    (let d1 = (if ob_observation_id o1 \<in> ob_observation_id ` set (rows key (db_observations d)) then d
               else d\<lparr>db_observations := insert_row key o1 (db_observations d)\<rparr>)
     in case find (\<lambda>x. ob_observation_id x = ob_observation_id o1) (rows key (db_observations d1)) of
          None \<Rightarrow> Inl (RuntimeError ''Resource observation insert did not produce a row'')
        | Some row \<Rightarrow> rbind (validate_observation uuid5 dump row) (\<lambda>stored.
            raise_if (stored \<noteq> o1) (RuntimeError ''Conflicting immutable resource observation'') (Inr d1)))"

definition insert_immutable_assignment :: "string \<Rightarrow> durable_assignment \<Rightarrow> database \<Rightarrow> database res" where
  "insert_immutable_assignment key a d =
     rbind (if da_assignment_id a \<in> da_assignment_id ` set (rows key (db_assignments d)) then Inr d
            else raise_if (\<not> task_exists (da_task_id a) d)
                   (IntegrityError ''attention_assignments_task_id_fkey'')
                   (Inr (d\<lparr>db_assignments := insert_row key a (db_assignments d)\<rparr>))) (\<lambda>d1.
     (case find (\<lambda>x. da_assignment_id x = da_assignment_id a) (rows key (db_assignments d1)) of
        None \<Rightarrow> Inl (RuntimeError ''Durable assignment insert did not produce a row'')
      | Some row \<Rightarrow> rbind (validate_assignment row) (\<lambda>stored.
          raise_if (stored \<noteq> a) (RuntimeError ''Conflicting immutable durable assignment'') (Inr d1))))"

definition insert_immutable_epoch :: "string \<Rightarrow> scheduling_epoch \<Rightarrow> database \<Rightarrow> database res" where
  "insert_immutable_epoch key e d =
     raise_if (ep_status e \<noteq> COMMITTED) (ValueError ''Only committed scheduling epochs may be persisted'')
    (rbind (if (\<exists>x\<in>set (rows key (db_epochs d)).
                  ep_epoch_id x = ep_epoch_id e \<or> ep_sequence x = ep_sequence e) then Inr d
            else raise_if
                (case ep_previous_epoch_id e of None \<Rightarrow> False
                 | Some p \<Rightarrow> p \<notin> ep_epoch_id ` set (rows key (db_epochs d)) \<and> p \<noteq> ep_epoch_id e)
                (IntegrityError ''attention_scheduling_epochs_previous_fk'')
             (raise_if
                (case ep_resource_observation_id e of None \<Rightarrow> False
                 | Some i \<Rightarrow> i \<notin> ob_observation_id ` set (rows key (db_observations d)))
                (IntegrityError ''attention_scheduling_epochs_observation_fk'')
                (Inr (d\<lparr>db_epochs := insert_row key e (db_epochs d)\<rparr>)))) (\<lambda>d1.
     (case find (\<lambda>x. ep_sequence x = ep_sequence e) (rows key (db_epochs d1)) of
        None \<Rightarrow> Inl (RuntimeError ''Scheduling epoch insert did not produce a row'')
      | Some row \<Rightarrow> rbind (normalize_complete_set row) (\<lambda>stored.
          raise_if (stored \<noteq> e) (RuntimeError ''Conflicting immutable scheduling epoch'') (Inr d1)))))"

definition insert_immutable_preemption_event :: "string \<Rightarrow> preemption_event \<Rightarrow> database \<Rightarrow> database res" where
  "insert_immutable_preemption_event key v d =
     rbind (if pv_event_id v \<in> pv_event_id ` set (rows key (db_events d)) then Inr d
            else raise_if (\<not> task_exists (pv_target_task_id v) d \<or>
                   (case pv_checkpoint_task_id v of None \<Rightarrow> False | Some t \<Rightarrow> \<not> task_exists t d))
                   (IntegrityError ''attention_preemption_events foreign key'')
                   (Inr (d\<lparr>db_events := insert_row key v (db_events d)\<rparr>))) (\<lambda>d1.
     (case find (\<lambda>x. pv_event_id x = pv_event_id v) (rows key (db_events d1)) of
        None \<Rightarrow> Inl (RuntimeError ''Preemption event insert did not produce a row'')
      | Some row \<Rightarrow> rbind (validate_event row) (\<lambda>stored.
          raise_if (stored \<noteq> v) (RuntimeError ''Conflicting immutable preemption event'') (Inr d1))))"

section \<open>Current state\<close>

definition upsert_execution_resource :: "execution_resource \<Rightarrow> database \<Rightarrow> database res" where
  "upsert_execution_resource r d =
     (if er_resource_id r \<in> er_resource_id ` set (db_resources d)
      then Inr (d\<lparr>db_resources := map (\<lambda>x. if er_resource_id x = er_resource_id r then r else x) (db_resources d)\<rparr>)
      else Inr (d\<lparr>db_resources := db_resources d @ [r]\<rparr>))"

definition created_elsewhere :: "attention_task \<Rightarrow> database \<Rightarrow> bool" where
  "created_elsewhere t d \<longleftrightarrow>
     (\<exists>x\<in>snd ` set (db_tasks d). at_task_id x \<noteq> at_task_id t \<and> at_created_seq x = at_created_seq t)"

definition upsert_task :: "string \<Rightarrow> attention_task \<Rightarrow> database \<Rightarrow> database res" where
  "upsert_task key t d =
     raise_if (\<exists>(k, x)\<in>set (db_tasks d). at_task_id x = at_task_id t \<and> k \<noteq> key)
       (ValueError ''Task already belongs to another scheduler namespace'')
    (raise_if (created_elsewhere t d) (IntegrityError ''attention_tasks_created_seq_key'')
    (raise_if (case at_parent_task_id t of None \<Rightarrow> False
               | Some p \<Rightarrow> \<not> task_exists p d \<and> p \<noteq> at_task_id t)
       (IntegrityError ''attention_tasks_parent_task_id_fkey'')
    (Inr (d\<lparr>db_tasks := (if task_exists (at_task_id t) d
        then update_rows (\<lambda>_ x. at_task_id x = at_task_id t) (\<lambda>_. t) (db_tasks d)
        else insert_row key t (db_tasks d))\<rparr>))))"

definition insert_transition :: "string \<Rightarrow> task_transition \<Rightarrow> database \<Rightarrow> database res" where
  "insert_transition key x d =
     (if tt_transition_id x \<in> tt_transition_id ` snd ` set (db_transitions d) then Inr d
      else raise_if (\<exists>y\<in>snd ` set (db_transitions d). tt_task_id y = tt_task_id x \<and> tt_revision y = tt_revision x)
             (IntegrityError ''attention_task_transitions_task_id_revision_key'')
          (raise_if (\<not> task_exists (tt_task_id x) d)
             (IntegrityError ''attention_task_transitions_task_id_fkey'')
             (Inr (d\<lparr>db_transitions := insert_row key x (db_transitions d)\<rparr>))))"

definition upsert_scheduler_state ::
  "string \<Rightarrow> scheduler_snapshot \<Rightarrow> publication \<Rightarrow> database \<Rightarrow> database res" where
  "upsert_scheduler_state key x pb d =
     raise_if (case pb_epoch pb of None \<Rightarrow> pb_epoch_sequence pb \<noteq> 0 | Some _ \<Rightarrow> pb_epoch_sequence pb < 1)
       (IntegrityError ''attention_scheduler_epoch_pointer_check'')
       (Inr (d\<lparr>db_state := dset key
          \<lparr>st_cycle = pb_cycle pb, st_active_task_id = sn_active_task_id x,
           st_pending_preemption_task_id = sn_pending_preemption_task_id x,
           st_admission_policy_version = (case pb_epoch pb of
              Some e \<Rightarrow> ep_admission_policy_version e | None \<Rightarrow> sn_admission_policy_version x),
           st_admitted_task_ids = pb_admitted_task_ids pb, st_epoch_sequence = pb_epoch_sequence pb,
           st_current_epoch_id = map_option ep_epoch_id (pb_epoch pb),
           st_assignment_policy_version = (case pb_epoch pb of
              Some e \<Rightarrow> ep_assignment_policy_version e | None \<Rightarrow> sn_assignment_policy_version x),
           st_preemption_policy_version = pb_preemption_policy_version pb,
           st_preemption_state_revision = pb_preemption_state_revision pb,
           st_pending_preemptions = pb_pending_preemptions pb,
           st_resource_safety_required = sn_resource_safety_required x,
           st_resource_safety_policy_version = sn_resource_safety_policy_version x,
           st_current_resource_observation_id = map_option ob_observation_id (pb_observation pb)\<rparr>
          (db_state d)\<rparr>))"

section \<open>The reservation set\<close>

text \<open>The claims of a scheduler that are still open, joined with their steps.\<close>

definition held_claims :: "string \<Rightarrow> database \<Rightarrow> (uuid \<times> uuid list) list" where
  "held_claims key d =
     concat (map (\<lambda>c. map (\<lambda>s. (wc_assignment_id c, ws_reservation_ids s))
        (filter (\<lambda>s. ws_step_id s = wc_step_id c) (rows key (db_steps d))))
       (sort_key wc_claim_id (filter (\<lambda>c. wc_status c = ACTIVE) (rows key (db_claims d)))))"

definition abandon_expired_claims_of :: "string \<Rightarrow> datetime \<Rightarrow> database \<Rightarrow> database" where
  "abandon_expired_claims_of key now d =
     d\<lparr>db_claims := update_rows
        (\<lambda>k c. k = key \<and> wc_status c = ACTIVE \<and> dt_instant (wc_lease_expires_at c) \<le> dt_instant now)
        (\<lambda>c. c\<lparr>wc_status := ABANDONED\<rparr>) (db_claims d)\<rparr>"

definition check_held_claim ::
  "(uuid, resource_reservation) dict \<Rightarrow> (uuid, resource_reservation) dict \<Rightarrow> (uuid, durable_assignment) dict \<Rightarrow>
     uuid \<times> uuid list \<Rightarrow> unit res" where
  "check_held_claim current target_reservations target_assignments held =
     raise_if (case dget target_assignments (fst held) of None \<Rightarrow> True
               | Some a \<Rightarrow> set (da_reservation_ids a) \<noteq> set (snd held))
       (RuntimeError ''Cannot replace an assignment held by an active worker claim'')
    (rcheck (\<lambda>i. raise_if (dget current i = None \<or> dget target_reservations i = None \<or>
                dget current i \<noteq> dget target_reservations i)
              (RuntimeError ''Cannot alter a reservation held by an active worker claim'') (Inr ()))
       (snd held))"

definition units_by_resource :: "resource_reservation list \<Rightarrow> (string, int) dict" where
  "units_by_resource rs =
     fold (\<lambda>r u. dset (rr_resource_id r) (dval u (rr_resource_id r) + rr_units r) u) rs []"

definition check_pool ::
  "(string, int) dict option \<Rightarrow> resource_reservation list \<Rightarrow> execution_resource list \<Rightarrow> string \<times> int \<Rightarrow> unit res" where
  "check_pool limits others resources usage =
     (case find (\<lambda>r. er_resource_id r = fst usage) resources of
        None \<Rightarrow> Inl KeyError
      | Some r \<Rightarrow>
     raise_if (case limits of None \<Rightarrow> False | Some l \<Rightarrow> fst usage \<notin> set (dkeys l))
       (RuntimeError ''Observed admission limits are incomplete'')
    (let admissible = (case limits of
           None \<Rightarrow> admissible_capacity r
         | Some l \<Rightarrow> min (admissible_capacity r) (dval l (fst usage)))
     in raise_if (dval (units_by_resource others) (fst usage) + snd usage > admissible)
          (RuntimeError (''Global reservation capacity exceeded for '' @ py_quote (fst usage))) (Inr ())))"

definition insert_reservation :: "string \<Rightarrow> resource_reservation \<Rightarrow> database \<Rightarrow> database res" where
  "insert_reservation key r d =
     raise_if (rr_reservation_id r \<in> rr_reservation_id ` snd ` set (db_reservations d))
       (IntegrityError ''attention_resource_reservations_pkey'')
    (raise_if (\<exists>x\<in>set (rows key (db_reservations d)).
         rr_task_id x = rr_task_id r \<and> rr_resource_id x = rr_resource_id r)
       (IntegrityError ''attention_resource_reservations task resource'')
    (raise_if (\<not> task_exists (rr_task_id r) d \<or> rr_resource_id r \<notin> er_resource_id ` set (db_resources d))
       (IntegrityError ''attention_resource_reservations foreign key'')
    (Inr (d\<lparr>db_reservations := insert_row key r (db_reservations d)\<rparr>))))"

definition replace_resource_reservations ::
  "string \<Rightarrow> datetime \<Rightarrow> resource_reservation list \<Rightarrow> durable_assignment list \<Rightarrow> (string, int) dict option \<Rightarrow>
     database \<Rightarrow> database res" where
  "replace_resource_reservations key now reservations assignments limits d =
    (let d1 = abandon_expired_claims_of key now d;
         held = held_claims key d1;
         held_ids = set (concat (map snd held));
         usage = units_by_resource reservations
     in
     rbind (rmap row_to_reservation
         (filter (\<lambda>r. rr_reservation_id r \<in> held_ids) (rows key (db_reservations d1)))) (\<lambda>current.
     rbind (rcheck (check_held_claim (dict_of rr_reservation_id current)
         (dict_of rr_reservation_id reservations) (dict_of da_assignment_id assignments)) held) (\<lambda>_.
     raise_if (\<not> set (dkeys usage) \<subseteq> er_resource_id ` set (db_resources d1))
       (RuntimeError ''Reservation references an unknown resource pool'')
    (let d2 = d1\<lparr>db_reservations := delete_key key (db_reservations d1)\<rparr>
     in
     rbind (rcheck (check_pool limits (map snd (db_reservations d2)) (db_resources d2)) usage) (\<lambda>_.
     rfold (insert_reservation key) reservations d2)))))"

section \<open>Saving\<close>

definition observed_admission_limits :: "resource_observation \<Rightarrow> (string, int) dict" where
  "observed_admission_limits o1 =
     fold (\<lambda>c. dset (oc_resource_id c) (oc_admission_capacity c)) (ob_capacities o1) []"

definition save_body ::
  "(uuid \<Rightarrow> string \<Rightarrow> uuid) \<Rightarrow> (resource_observation \<Rightarrow> string) \<Rightarrow> string \<Rightarrow> datetime \<Rightarrow> scheduler \<Rightarrow>
     scheduler_snapshot \<Rightarrow> task_transition list \<Rightarrow> publication \<Rightarrow> database \<Rightarrow> (unit \<times> database) res" where
  "save_body uuid5 dump key now s x transitions pb d =
     rbind (lock_scheduler_generation key (sn_epoch_sequence x)
         (map_option ep_epoch_id (sn_current_epoch x))
         (if s_pending_epoch_plan s \<noteq> None then pb_epoch pb else None)
         (s_persisted_preemption_state_revision s) (pb_preemption_state_revision pb)
         (pb_pending_preemptions pb) d) (\<lambda>_.
     rbind (rfold upsert_execution_resource (sn_execution_resources x) d) (\<lambda>d1.
     rbind (rfold (upsert_task key) (sn_tasks x) d1) (\<lambda>d2.
     rbind (rfold (insert_transition key) transitions d2) (\<lambda>d3.
     rbind (case pb_observation pb of None \<Rightarrow> Inr d3
            | Some o1 \<Rightarrow> insert_immutable_resource_observation uuid5 dump key o1 d3) (\<lambda>d4.
     rbind (case pb_epoch pb of None \<Rightarrow> Inr d4
            | Some e \<Rightarrow> rbind (rfold (insert_immutable_assignment key) (pb_assignments pb) d4)
                          (insert_immutable_epoch key e)) (\<lambda>d5.
     rbind (upsert_scheduler_state key x pb d5) (\<lambda>d6.
     rbind (rfold (insert_immutable_preemption_event key) (pb_events pb) d6) (\<lambda>d7.
     rbind (replace_resource_reservations key now (pb_reservations pb) (pb_assignments pb)
         (map_option observed_admission_limits (pb_observation pb)) d7) (\<lambda>d8.
     Inr ((), d8))))))))))"

text \<open>After the commit the in-memory scheduler is brought up to date.\<close>

definition publish_in_memory ::
  "(uuid \<Rightarrow> string \<Rightarrow> uuid) \<Rightarrow> (pending_preemption \<Rightarrow> string) \<Rightarrow> int \<Rightarrow> unit sched_op" where
  "publish_in_memory uuid5 intent_json revision s =
     sbind (case s_pending_epoch_plan s of
         None \<Rightarrow> slift (Inr ())
       | Some plan \<Rightarrow> commit_pending_epoch uuid5 intent_json (ep_epoch_id (pl_epoch plan))) (\<lambda>_.
     sbind (mark_transitions_persisted (length (s_transitions s))) (\<lambda>_.
     mark_preemption_state_persisted revision)) s"

definition save_scheduler ::
  "(uuid \<Rightarrow> string \<Rightarrow> uuid) \<Rightarrow> (pending_preemption \<Rightarrow> string) \<Rightarrow> (resource_observation \<Rightarrow> string) \<Rightarrow> string \<Rightarrow>
     datetime \<Rightarrow> (scheduler \<times> database, unit) op" where
  "save_scheduler uuid5 intent_json dump key now sd =
     (case rbind (snapshot uuid5 intent_json (fst sd)) (\<lambda>x.
           rbind (pending_transitions_for_persistence (fst sd)) (\<lambda>transitions.
           rbind (prepare_publication uuid5 intent_json (fst sd) x) (\<lambda>pb. Inr (x, transitions, pb)))) of
        Inl e \<Rightarrow> (Inl e, sd)
      | Inr (x, transitions, pb) \<Rightarrow>
          (case transaction (save_body uuid5 dump key now (fst sd) x transitions pb) (snd sd) of
             (Inl e, d') \<Rightarrow> (Inl e, (fst sd, d'))
           | (Inr _, d') \<Rightarrow>
               (case publish_in_memory uuid5 intent_json (pb_preemption_state_revision pb) (fst sd) of
                  (r, s') \<Rightarrow> (r, (s', d')))))"

section \<open>Loading\<close>

fun execution_resource_class_value :: "execution_resource_class \<Rightarrow> string" where
  "execution_resource_class_value CPU_GENERAL = ''CPU_GENERAL''"
| "execution_resource_class_value MEMORY_RAM = ''MEMORY_RAM''"
| "execution_resource_class_value LLM_INFERENCE = ''LLM_INFERENCE''"
| "execution_resource_class_value DATABASE = ''DATABASE''"
| "execution_resource_class_value FILESYSTEM_IO = ''FILESYSTEM_IO''"
| "execution_resource_class_value NETWORK_IO = ''NETWORK_IO''"

definition read_timestamp :: "datetime \<Rightarrow> datetime" where
  "read_timestamp t = Aware (dt_instant t) 0"

definition row_to_metadata :: "scheduling_metadata \<Rightarrow> scheduling_metadata res" where
  "row_to_metadata md =
     rbind (rmap (\<lambda>q. mk_ResourceRequirement (rq_resource_class q) (rq_units q)) (sm_resource_requirements md)) (\<lambda>qs.
     rbind (case sm_process_resource_estimate md of
         None \<Rightarrow> Inr None
       | Some e \<Rightarrow> rbind (mk_ProcessResourceEstimate (pe_cpu_units e) (pe_memory_mib e) (pe_llm_slots e)
             (pe_source e) (pe_basis e)) (\<lambda>e'. Inr (Some e'))) (\<lambda>estimate.
     normalize_resource_contract
       (md\<lparr>sm_deadline := map_option read_timestamp (sm_deadline md), sm_resource_requirements := qs,
           sm_process_resource_estimate := estimate\<rparr>)))"

definition row_to_task :: "attention_task \<Rightarrow> attention_task res" where
  "row_to_task t =
     rbind (row_to_metadata (at_metadata t)) (\<lambda>md.
     raise_if (at_task_key t = []) (ValueError ''task_key: min_length'')
    (raise_if (at_created_seq t < 1) (ValueError ''created_seq: ge 1'')
    (raise_if (at_enqueued_cycle t < 0) (ValueError ''enqueued_cycle: ge 0'')
    (raise_if (at_revision t < 0) (ValueError ''revision: ge 0'')
    (Inr (t\<lparr>at_metadata := md\<rparr>))))))"

definition load_epoch ::
  "string \<Rightarrow> scheduler_state_row \<Rightarrow> database \<Rightarrow> scheduling_epoch option res" where
  "load_epoch key st d =
     (case st_current_epoch_id st of
        None \<Rightarrow> Inr None
      | Some i \<Rightarrow>
          (case find (\<lambda>e. ep_epoch_id e = i) (rows key (db_epochs d)) of
             None \<Rightarrow> Inl (ValueError ''Scheduler state references a missing scheduling epoch'')
           | Some row \<Rightarrow> rbind (normalize_complete_set row) (\<lambda>e. Inr (Some e))))"

definition load_observation ::
  "(uuid \<Rightarrow> string \<Rightarrow> uuid) \<Rightarrow> (resource_observation \<Rightarrow> string) \<Rightarrow> string \<Rightarrow> scheduler_state_row \<Rightarrow>
     database \<Rightarrow> resource_observation option res" where
  "load_observation uuid5 dump key st d =
     (case st_current_resource_observation_id st of
        None \<Rightarrow> Inr None
      | Some i \<Rightarrow>
          (case find (\<lambda>o1. ob_observation_id o1 = i) (rows key (db_observations d)) of
             None \<Rightarrow> Inl (ValueError ''Scheduler state references a missing resource observation'')
           | Some row \<Rightarrow> rbind (validate_observation uuid5 dump row) (\<lambda>o1. Inr (Some o1))))"

definition load_epoch_assignments ::
  "string \<Rightarrow> scheduling_epoch option \<Rightarrow> database \<Rightarrow> durable_assignment list res" where
  "load_epoch_assignments key epoch d =
     (case epoch of
        None \<Rightarrow> Inr []
      | Some e \<Rightarrow>
          rbind (rmap validate_assignment (rows key (db_assignments d))) (\<lambda>all.
          rmap (\<lambda>i. case dget (dict_of da_assignment_id all) i of
               None \<Rightarrow> Inl (ValueError ''Scheduling epoch references a missing durable assignment'')
             | Some a \<Rightarrow> Inr a) (ep_assignment_ids e)))"

definition load_snapshot ::
  "(uuid \<Rightarrow> string \<Rightarrow> uuid) \<Rightarrow> (resource_observation \<Rightarrow> string) \<Rightarrow> string \<Rightarrow> scheduler_state_row \<Rightarrow>
     execution_resource list \<Rightarrow> database \<Rightarrow> scheduler_snapshot res" where
  "load_snapshot uuid5 dump key st resources d =
     rbind (rmap row_to_task (sort_key task_creation_key (rows key (db_tasks d)))) (\<lambda>tasks.
     rbind (rmap row_to_reservation
         (sort_key (\<lambda>r. (execution_resource_class_value (rr_resource_class r), rr_resource_id r, rr_task_id r))
            (rows key (db_reservations d)))) (\<lambda>reservations.
     rbind (load_epoch key st d) (\<lambda>epoch.
     rbind (load_observation uuid5 dump key st d) (\<lambda>observation.
     rbind (load_epoch_assignments key epoch d) (\<lambda>assignments.
     rbind (rmap validate_intent (st_pending_preemptions st)) (\<lambda>pending.
     mk_SchedulerSnapshot
       \<lparr>sn_cycle = st_cycle st, sn_active_task_id = st_active_task_id st,
        sn_pending_preemption_task_id = st_pending_preemption_task_id st, sn_tasks = tasks,
        sn_execution_resources = resources,
        sn_admission_policy_version = st_admission_policy_version st,
        sn_admitted_task_ids = st_admitted_task_ids st, sn_resource_reservations = reservations,
        sn_epoch_sequence = st_epoch_sequence st,
        sn_assignment_policy_version = st_assignment_policy_version st,
        sn_preemption_policy_version = st_preemption_policy_version st,
        sn_preemption_state_revision = st_preemption_state_revision st,
        sn_pending_preemptions = pending, sn_current_epoch = epoch, sn_assignments = assignments,
        sn_resource_safety_required = st_resource_safety_required st,
        sn_resource_safety_policy_version = st_resource_safety_policy_version st,
        sn_current_resource_observation = observation\<rparr>))))))"

definition empty_snapshot :: "execution_resource list \<Rightarrow> scheduler_snapshot" where
  "empty_snapshot resources =
     \<lparr>sn_cycle = 0, sn_active_task_id = None, sn_pending_preemption_task_id = None, sn_tasks = [],
      sn_execution_resources = resources,
      sn_admission_policy_version = RESOURCE_ADMISSION_POLICY_VERSION, sn_admitted_task_ids = [],
      sn_resource_reservations = [], sn_epoch_sequence = 0,
      sn_assignment_policy_version = ASSIGNMENT_POLICY_VERSION,
      sn_preemption_policy_version = PREEMPTION_POLICY_VERSION, sn_preemption_state_revision = 0,
      sn_pending_preemptions = [], sn_current_epoch = None, sn_assignments = [],
      sn_resource_safety_required = False,
      sn_resource_safety_policy_version = RESOURCE_SAFETY_POLICY_VERSION,
      sn_current_resource_observation = None\<rparr>"

definition load_scheduler ::
  "(uuid \<Rightarrow> string \<Rightarrow> uuid) \<Rightarrow> (pending_preemption \<Rightarrow> string) \<Rightarrow> (resource_observation \<Rightarrow> string) \<Rightarrow> string \<Rightarrow>
     database \<Rightarrow> scheduler res" where
  "load_scheduler uuid5 intent_json dump key d =
     rbind (rmap row_to_resource
         (sort_key (\<lambda>r. (execution_resource_class_value (er_resource_class r), er_resource_id r)) (db_resources d)))
       (\<lambda>resources.
     (case dget (db_state d) key of
        None \<Rightarrow> rbind (mk_SchedulerSnapshot (empty_snapshot resources)) (from_snapshot uuid5 intent_json None)
      | Some st \<Rightarrow> rbind (load_snapshot uuid5 dump key st resources d) (from_snapshot uuid5 intent_json None)))"

definition load_worker_visible_assignments ::
  "(uuid \<Rightarrow> string \<Rightarrow> uuid) \<Rightarrow> (pending_preemption \<Rightarrow> string) \<Rightarrow> (resource_observation \<Rightarrow> string) \<Rightarrow> string \<Rightarrow>
     database \<Rightarrow> durable_assignment list res" where
  "load_worker_visible_assignments uuid5 intent_json dump key d =
     rbind (load_scheduler uuid5 intent_json dump key d) worker_visible_assignments"

definition load_transition_count :: "string \<Rightarrow> uuid option \<Rightarrow> database \<Rightarrow> nat" where
  "load_transition_count key task_id d =
     length (filter (\<lambda>x. case task_id of None \<Rightarrow> True | Some t \<Rightarrow> tt_task_id x = t) (rows key (db_transitions d)))"

definition load_preemption_event_count :: "uuid option \<Rightarrow> database \<Rightarrow> nat" where
  "load_preemption_event_count preemption_id d =
     length (filter (\<lambda>x. case preemption_id of None \<Rightarrow> True | Some i \<Rightarrow> pv_preemption_id (snd x) = i) (db_events d))"

section \<open>Clearing a namespace\<close>

text \<open>\<^verbatim>\<open>reset_chat_execution_state\<close> (\<^verbatim>\<open>chat_startup.py\<close>): the rows of one scheduler key are deleted from
  every table of replaceable execution state; the result is the number of rows per table. Rows of other
  keys that refer to a deleted task follow the foreign keys of \<^verbatim>\<open>schema.sql\<close>: transitions and
  reservations are deleted with the task (\<^verbatim>\<open>ON DELETE CASCADE\<close>), any other reference makes the deletion
  fail. The table of interactions, which nothing else in this model reads, is left out.\<close>

definition foreign_task_references :: "string \<Rightarrow> database \<Rightarrow> uuid set" where
  "foreign_task_references key d =
     set (List.map_filter (\<lambda>x. st_active_task_id (snd x)) (delete_key key (db_state d))) \<union>
     set (List.map_filter (\<lambda>x. st_pending_preemption_task_id (snd x)) (delete_key key (db_state d))) \<union>
     da_task_id ` snd ` set (delete_key key (db_assignments d)) \<union>
     pv_target_task_id ` snd ` set (delete_key key (db_events d)) \<union>
     set (List.map_filter (\<lambda>x. pv_checkpoint_task_id (snd x)) (delete_key key (db_events d))) \<union>
     ws_task_id ` snd ` set (delete_key key (db_steps d)) \<union>
     wc_task_id ` snd ` set (delete_key key (db_claims d)) \<union>
     set (List.map_filter (\<lambda>x. at_parent_task_id (snd x)) (delete_key key (db_tasks d)))"

definition delete_cascade :: "('r \<Rightarrow> uuid) \<Rightarrow> uuid set \<Rightarrow> 'r table \<Rightarrow> 'r table" where
  "delete_cascade task_id tasks t = filter (\<lambda>x. task_id (snd x) \<notin> tasks) t"

definition reset_body :: "string \<Rightarrow> database \<Rightarrow> (nat list \<times> database) res" where
  "reset_body key d =
    (let tasks = at_task_id ` set (rows key (db_tasks d))
     in raise_if (\<exists>t\<in>tasks. t \<in> foreign_task_references key d)
       (IntegrityError ''attention_tasks foreign key'')
    (Inr ([length (rows key (db_results d)), length (rows key (db_checkpoints d)),
           length (rows key (db_claims d)), length (rows key (db_claim_observations d)),
           length (rows key (db_steps d)), length (rows key (db_events d)),
           length (rows key (db_reservations d)), (if dget (db_state d) key = None then 0 else 1),
           length (rows key (db_epochs d)), length (rows key (db_assignments d)),
           length (rows key (db_observations d)), length (rows key (db_transitions d)),
           length (rows key (db_tasks d))],
      d\<lparr>db_results := delete_key key (db_results d), db_checkpoints := delete_key key (db_checkpoints d),
        db_claims := delete_key key (db_claims d),
        db_claim_observations := delete_key key (db_claim_observations d),
        db_steps := delete_key key (db_steps d), db_events := delete_key key (db_events d),
        db_reservations := delete_cascade rr_task_id tasks (delete_key key (db_reservations d)),
        db_state := delete_key key (db_state d), db_epochs := delete_key key (db_epochs d),
        db_assignments := delete_key key (db_assignments d),
        db_observations := delete_key key (db_observations d),
        db_transitions := delete_cascade tt_task_id tasks (delete_key key (db_transitions d)),
        db_tasks := delete_key key (db_tasks d)\<rparr>)))"

definition reset_chat_execution_state :: "string \<Rightarrow> (database, nat list) op" where
  "reset_chat_execution_state key = transaction (reset_body key)"

end
