(* ===== verification/Fabric.thy ===== *)
theory Fabric
  imports Leases AttentionStore
begin

text \<open>
  The durable fabric: the worker store, the attention store and the chat reset as one system of
  transactions on the same tables. A step of the system is one call of one of their operations, by any
  caller, with any clock, returning or raising. The invariants of the reachable databases connect the
  two stores: the ledgers of worker steps follow the lease protocol, and the reservations of every open
  claim stay in place until the claim is closed.
\<close>

section \<open>The system\<close>

inductive fabric_step ::
  "(uuid \<Rightarrow> string \<Rightarrow> uuid) \<Rightarrow> (pending_preemption \<Rightarrow> string) \<Rightarrow> (resource_observation \<Rightarrow> string) \<Rightarrow>
     (claim_observation \<Rightarrow> string) \<Rightarrow> database \<Rightarrow> database \<Rightarrow> bool"
  for uuid5 intent_json dump dump_claim where
  register: "fabric_step uuid5 intent_json dump dump_claim d
     (snd (register_worker_step uuid5 key assignment_id step_key capability input_refs effect_policy d))"
| claim: "fabric_step uuid5 intent_json dump dump_claim d
     (snd (guarded_claim_worker_step uuid5 dump dump_claim key step_id worker_id probe expected_policy now
        publication_time lease_seconds d))"
| heartbeat: "fabric_step uuid5 intent_json dump dump_claim d
     (snd (heartbeat_worker_claim uuid5 key claim_id worker_id lease_seconds clock d))"
| checkpoint: "fabric_step uuid5 intent_json dump dump_claim d
     (snd (checkpoint_worker_claim uuid5 key claim_id worker_id state output_refs clock d))"
| complete: "fabric_step uuid5 intent_json dump dump_claim d
     (snd (complete_worker_claim uuid5 key claim_id worker_id output output_refs clock d))"
| release: "fabric_step uuid5 intent_json dump dump_claim d
     (snd (release_worker_claim uuid5 key claim_id worker_id clock d))"
| save: "fabric_step uuid5 intent_json dump dump_claim d
     (snd (snd (save_scheduler uuid5 intent_json dump key now (s, d))))"

text \<open>A run of the fabric may also clear a namespace at the start of an interactive session.\<close>

inductive fabric_reachable ::
  "(uuid \<Rightarrow> string \<Rightarrow> uuid) \<Rightarrow> (pending_preemption \<Rightarrow> string) \<Rightarrow> (resource_observation \<Rightarrow> string) \<Rightarrow>
     (claim_observation \<Rightarrow> string) \<Rightarrow> database \<Rightarrow> bool"
  for uuid5 intent_json dump dump_claim where
  init: "fabric_reachable uuid5 intent_json dump dump_claim empty_database"
| step: "fabric_reachable uuid5 intent_json dump dump_claim d \<Longrightarrow> fabric_step uuid5 intent_json dump dump_claim d d' \<Longrightarrow>
    fabric_reachable uuid5 intent_json dump dump_claim d'"
| reset: "fabric_reachable uuid5 intent_json dump dump_claim d \<Longrightarrow>
    fabric_reachable uuid5 intent_json dump dump_claim (snd (reset_chat_execution_state key d))"

section \<open>A step is one committed transaction, or nothing\<close>

lemma sbind_slift_state:
  "(\<And>x. r = Inr x \<Longrightarrow> P (snd (f x d))) \<Longrightarrow> P d \<Longrightarrow> P (snd (sbind (slift r) f d))"
  by (cases r) (simp_all add: sbind_def)

lemma sbind_result_state: "snd (sbind m (\<lambda>x. slift (g x)) d) = snd (m d)"
  by (simp add: sbind_def split: prod.split sum.split)

lemma transaction_cases: "snd (transaction body d) = d \<or> (\<exists>x. body d = Inr (x, snd (transaction body d)))"
  by (auto simp: transaction_state split: sum.split prod.split)

lemma store_as_utc_Inr: "store_as_utc t = Inr u \<Longrightarrow> u = Aware (dt_instant t) 0"
  by (cases t) (auto simp: store_as_utc_def)

lemma register_state:
  "snd (register_worker_step uuid5 key a sk cap refs p d) = d \<or>
   (\<exists>x. register_body uuid5 key a (py_strip sk) (py_strip cap) refs p d =
      Inr (x, snd (register_worker_step uuid5 key a sk cap refs p d)))"
  unfolding register_worker_step_def by (rule sbind_slift_state) (rule transaction_cases, simp)

lemma claim_state:
  "snd (guarded_claim_worker_step uuid5 dump dump_claim key i w probe e now pub n d) = d \<or>
   (\<exists>x t. guarded_claim_body uuid5 dump dump_claim key i (py_strip w) probe e t pub n d =
      Inr (x, snd (guarded_claim_worker_step uuid5 dump dump_claim key i w probe e now pub n d)))"
  unfolding guarded_claim_worker_step_def
  by (intro sbind_slift_state [where P = "\<lambda>d'. d' = d \<or> (\<exists>x t. guarded_claim_body uuid5 dump dump_claim key i (py_strip w)
        probe e t pub n d = Inr (x, d'))"] disjI1 [OF refl])
    (use transaction_cases [of "guarded_claim_body uuid5 dump dump_claim key i (py_strip w) probe e _ pub n" d] in blast)

lemma heartbeat_state:
  "snd (heartbeat_worker_claim uuid5 key c w n clock d) = d \<or>
   (\<exists>x. heartbeat_body uuid5 key c w n (Aware (dt_instant clock) 0) d =
      Inr (x, snd (heartbeat_worker_claim uuid5 key c w n clock d)) \<and> 0 < n)"
  unfolding heartbeat_worker_claim_def
proof (intro sbind_slift_state [where P = "\<lambda>d'. d' = d \<or> (\<exists>x. heartbeat_body uuid5 key c w n
    (Aware (dt_instant clock) 0) d = Inr (x, d') \<and> 0 < n)"])
  fix u now
  assume n: "validate_lease_seconds n = Inr u" and now: "store_as_utc clock = Inr now"
  then have "0 < n" by (auto simp: validate_lease_seconds_def)
  then show "snd (sbind (transaction (heartbeat_body uuid5 key c w n now)) (\<lambda>r. slift (expired_error r)) d) = d \<or>
      (\<exists>x. heartbeat_body uuid5 key c w n (Aware (dt_instant clock) 0) d = Inr (x,
        snd (sbind (transaction (heartbeat_body uuid5 key c w n now)) (\<lambda>r. slift (expired_error r)) d)) \<and> 0 < n)"
    unfolding sbind_result_state store_as_utc_Inr [OF now]
    using transaction_cases [of "heartbeat_body uuid5 key c w n (Aware (dt_instant clock) 0)" d] by blast
qed simp_all

lemma checkpoint_state:
  "snd (checkpoint_worker_claim uuid5 key c w state outs clock d) = d \<or>
   (\<exists>x t. checkpoint_body uuid5 key c w state outs t d =
      Inr (x, snd (checkpoint_worker_claim uuid5 key c w state outs clock d)))"
  unfolding checkpoint_worker_claim_def
  by (rule sbind_slift_state, unfold sbind_result_state)
    (use transaction_cases [of "checkpoint_body uuid5 key c w state outs _" d] in blast)+

lemma complete_state:
  "snd (complete_worker_claim uuid5 key c w out outs clock d) = d \<or>
   (\<exists>x t. complete_body uuid5 key c w out outs t d =
      Inr (x, snd (complete_worker_claim uuid5 key c w out outs clock d)))"
  unfolding complete_worker_claim_def
  by (rule sbind_slift_state, unfold sbind_result_state)
    (use transaction_cases [of "complete_body uuid5 key c w out outs _" d] in blast)+

lemma release_state:
  "snd (release_worker_claim uuid5 key c w clock d) = d \<or>
   (\<exists>x. release_body uuid5 key c w d = Inr (x, snd (release_worker_claim uuid5 key c w clock d)))"
  unfolding release_worker_claim_def by (rule sbind_slift_state) (rule transaction_cases, simp)

lemma save_state:
  "snd (snd (save_scheduler uuid5 intent_json dump key now (s, d))) = d \<or>
   (\<exists>x ts pb. save_body uuid5 dump key now s x ts pb d =
      Inr ((), snd (snd (save_scheduler uuid5 intent_json dump key now (s, d)))))"
  by (auto simp: save_scheduler_def transaction_def split: sum.splits prod.splits)

lemma fabric_stepE:
  assumes "fabric_step uuid5 intent_json dump dump_claim d d'"
  obtains "d' = d"
  | key a sk cap refs p x where "register_body uuid5 key a sk cap refs p d = Inr (x, d')"
  | key i w probe e t pub n x where "guarded_claim_body uuid5 dump dump_claim key i w probe e t pub n d = Inr (x, d')"
  | key c w n t x where "heartbeat_body uuid5 key c w n (Aware t 0) d = Inr (x, d')" and "0 < n"
  | key c w state outs t x where "checkpoint_body uuid5 key c w state outs t d = Inr (x, d')"
  | key c w out outs t x where "complete_body uuid5 key c w out outs t d = Inr (x, d')"
  | key c w x where "release_body uuid5 key c w d = Inr (x, d')"
  | key now s x ts pb where "save_body uuid5 dump key now s x ts pb d = Inr ((), d')"
  using assms
proof cases
  case (register key a sk cap refs p)
  then show ?thesis using that(1,2) register_state by metis
next
  case (claim key i w probe e now pub n)
  then show ?thesis using that(1,3) claim_state [of uuid5 dump dump_claim key i w probe e now pub n d] by auto
next
  case (heartbeat key c w n t)
  then show ?thesis using that(1,4) heartbeat_state [of uuid5 key c w n t d] by auto
next
  case (checkpoint key c w state outs t)
  then show ?thesis using that(1,5) checkpoint_state [of uuid5 key c w state outs t d] by auto
next
  case (complete key c w out outs t)
  then show ?thesis using that(1,6) complete_state [of uuid5 key c w out outs t d] by auto
next
  case (release key c w t)
  then show ?thesis using that(1,7) release_state [of uuid5 key c w t d] by auto
next
  case (save key now s)
  then show ?thesis using that(1,8) save_state [of uuid5 intent_json dump key now s d] by auto
qed

section \<open>Saving a scheduler\<close>

text \<open>The part of a save that precedes the reservations leaves the worker tables and the reservations
  alone; the reservations are replaced at the end.\<close>

definition same_workers :: "database \<Rightarrow> database \<Rightarrow> bool" where
  "same_workers d d' \<longleftrightarrow> db_steps d' = db_steps d \<and> db_claims d' = db_claims d \<and>
     db_checkpoints d' = db_checkpoints d \<and> db_results d' = db_results d \<and>
     db_claim_observations d' = db_claim_observations d \<and> db_reservations d' = db_reservations d"

lemma same_workers_refl [simp]: "same_workers d d"
  by (simp add: same_workers_def)

lemma same_workers_trans [trans]: "same_workers d d' \<Longrightarrow> same_workers d' d'' \<Longrightarrow> same_workers d d''"
  by (simp add: same_workers_def)

lemma rfold_same_workers:
  assumes "rfold f xs d = Inr d'" and "\<And>x d d'. f x d = Inr d' \<Longrightarrow> same_workers d d'"
  shows "same_workers d d'"
  using assms(1)
proof (induction xs arbitrary: d)
  case (Cons x xs)
  then obtain d1 where "f x d = Inr d1" "rfold f xs d1 = Inr d'" by auto
  with Cons.IH assms(2) show ?case by (blast intro: same_workers_trans)
qed simp

lemma state_writes_same_workers:
  "upsert_execution_resource r d = Inr d' \<Longrightarrow> same_workers d d'"
  "upsert_task key t d = Inr d' \<Longrightarrow> same_workers d d'"
  "insert_transition key x d = Inr d' \<Longrightarrow> same_workers d d'"
  "insert_immutable_resource_observation uuid5 dump key o1 d = Inr d' \<Longrightarrow> same_workers d d'"
  "insert_immutable_assignment key a d = Inr d' \<Longrightarrow> same_workers d d'"
  "insert_immutable_epoch key e d = Inr d' \<Longrightarrow> same_workers d d'"
  "upsert_scheduler_state key y pb d = Inr d' \<Longrightarrow> same_workers d d'"
  "insert_immutable_preemption_event key v d = Inr d' \<Longrightarrow> same_workers d d'"
  by (auto simp: same_workers_def upsert_execution_resource_def upsert_task_def insert_transition_def
      insert_immutable_resource_observation_def insert_immutable_assignment_def insert_immutable_epoch_def
      upsert_scheduler_state_def insert_immutable_preemption_event_def Let_def split: if_splits)

lemma save_bodyE:
  assumes "save_body uuid5 dump key now s x ts pb d = Inr (u, d')"
  obtains d7 where "same_workers d d7"
    and "replace_resource_reservations key now (pb_reservations pb) (pb_assignments pb)
       (map_option observed_admission_limits (pb_observation pb)) d7 = Inr d'"
proof -
  obtain d1 d2 d3 d4 d5 d6 d7 where
    "rfold upsert_execution_resource (sn_execution_resources x) d = Inr d1"
    "rfold (upsert_task key) (sn_tasks x) d1 = Inr d2" "rfold (insert_transition key) ts d2 = Inr d3"
    "(case pb_observation pb of None \<Rightarrow> Inr d3
       | Some o1 \<Rightarrow> insert_immutable_resource_observation uuid5 dump key o1 d3) = Inr d4"
    "(case pb_epoch pb of None \<Rightarrow> Inr d4
       | Some e \<Rightarrow> rbind (rfold (insert_immutable_assignment key) (pb_assignments pb) d4)
                     (insert_immutable_epoch key e)) = Inr d5"
    "upsert_scheduler_state key x pb d5 = Inr d6"
    "rfold (insert_immutable_preemption_event key) (pb_events pb) d6 = Inr d7"
    and r: "replace_resource_reservations key now (pb_reservations pb) (pb_assignments pb)
       (map_option observed_admission_limits (pb_observation pb)) d7 = Inr d'"
    using assms unfolding save_body_def by auto
  note ops = this
  have "same_workers d d1" by (rule rfold_same_workers [OF ops(1)]) (rule state_writes_same_workers)
  also have "same_workers d1 d2" by (rule rfold_same_workers [OF ops(2)]) (rule state_writes_same_workers)
  also have "same_workers d2 d3" by (rule rfold_same_workers [OF ops(3)]) (rule state_writes_same_workers)
  also have "same_workers d3 d4" using ops(4) by (auto split: option.splits intro: state_writes_same_workers(4))
  also have "same_workers d4 d5"
  proof (cases "pb_epoch pb")
    case (Some e)
    then obtain d0 where "rfold (insert_immutable_assignment key) (pb_assignments pb) d4 = Inr d0"
      "insert_immutable_epoch key e d0 = Inr d5" using ops(5) by auto
    then show ?thesis
      using rfold_same_workers state_writes_same_workers(5,6) same_workers_trans by metis
  qed (use ops(5) in simp)
  also have "same_workers d5 d6" by (rule state_writes_same_workers(7) [OF ops(6)])
  also have "same_workers d6 d7" by (rule rfold_same_workers [OF ops(7)]) (rule state_writes_same_workers)
  finally show thesis using r by (rule that)
qed

text \<open>The reservation table: globally unique ids, and one reservation of a task on a pool.\<close>

definition reservation_inv :: "database \<Rightarrow> bool" where
  "reservation_inv d \<longleftrightarrow> distinct (map (rr_reservation_id \<circ> snd) (db_reservations d)) \<and>
     distinct (map (\<lambda>(k, r). (k, rr_task_id r, rr_resource_id r)) (db_reservations d))"

lemma insert_reservations:
  assumes "rfold (insert_reservation key) rs d = Inr d'" and "reservation_inv d"
  shows "d' = d\<lparr>db_reservations := db_reservations d @ map (Pair key) rs\<rparr> \<and> reservation_inv d'"
  using assms
proof (induction rs arbitrary: d)
  case (Cons r rs)
  then obtain d1 where step: "insert_reservation key r d = Inr d1" and rest: "rfold (insert_reservation key) rs d1 = Inr d'"
    by auto
  have d1: "d1 = d\<lparr>db_reservations := insert_row key r (db_reservations d)\<rparr>"
    and fresh: "rr_reservation_id r \<notin> rr_reservation_id ` snd ` set (db_reservations d)"
      "\<forall>x\<in>set (rows key (db_reservations d)). \<not> (rr_task_id x = rr_task_id r \<and> rr_resource_id x = rr_resource_id r)"
    using step by (auto simp: insert_reservation_def)
  have "reservation_inv d1"
    using Cons.prems(2) fresh unfolding d1 reservation_inv_def
    by (auto simp: insert_row_def set_rows image_image)
  from Cons.IH [OF rest this] show ?case unfolding d1 by (auto simp: insert_row_def)
qed simp

lemma replaceE:
  assumes "replace_resource_reservations key now rs as limits d = Inr d'" and "reservation_inv d"
  obtains current where
    "d' = (abandon_expired_claims_of key now d)\<lparr>db_reservations := delete_key key (db_reservations d) @ map (Pair key) rs\<rparr>"
    and "reservation_inv d'"
    and "rmap row_to_reservation (filter (\<lambda>r. rr_reservation_id r \<in>
        set (concat (map snd (held_claims key (abandon_expired_claims_of key now d))))) (rows key (db_reservations d))) = Inr current"
    and "\<forall>h\<in>set (held_claims key (abandon_expired_claims_of key now d)).
       check_held_claim (dict_of rr_reservation_id current) (dict_of rr_reservation_id rs) (dict_of da_assignment_id as) h = Inr ()"
    and "\<forall>u\<in>set (units_by_resource rs).
       check_pool limits (map snd (delete_key key (db_reservations d))) (db_resources d) u = Inr ()"
proof -
  have same: "db_reservations (abandon_expired_claims_of key now d) = db_reservations d"
    "db_resources (abandon_expired_claims_of key now d) = db_resources d"
    by (simp_all add: abandon_expired_claims_of_def)
  obtain current where
    ins: "rfold (insert_reservation key) rs ((abandon_expired_claims_of key now d)
       \<lparr>db_reservations := delete_key key (db_reservations d)\<rparr>) = Inr d'"
    and rest: "rmap row_to_reservation (filter (\<lambda>r. rr_reservation_id r \<in>
        set (concat (map snd (held_claims key (abandon_expired_claims_of key now d))))) (rows key (db_reservations d))) = Inr current"
      "\<forall>h\<in>set (held_claims key (abandon_expired_claims_of key now d)).
       check_held_claim (dict_of rr_reservation_id current) (dict_of rr_reservation_id rs) (dict_of da_assignment_id as) h = Inr ()"
      "\<forall>u\<in>set (units_by_resource rs).
       check_pool limits (map snd (delete_key key (db_reservations d))) (db_resources d) u = Inr ()"
    using assms(1) unfolding replace_resource_reservations_def Let_def by (auto simp: same)
  have "reservation_inv ((abandon_expired_claims_of key now d)\<lparr>db_reservations := delete_key key (db_reservations d)\<rparr>)"
    using assms(2) by (auto simp: reservation_inv_def delete_key_def distinct_map_filter o_def)
  from insert_reservations [OF ins this] have *: "d' = (abandon_expired_claims_of key now d)
      \<lparr>db_reservations := delete_key key (db_reservations d) @ map (Pair key) rs\<rparr>" "reservation_inv d'" by auto
  show thesis by (rule that [OF * rest])
qed

lemma good_abandon_of: "lease_inv uuid5 d \<Longrightarrow> good_step uuid5 d (abandon_expired_claims_of key now d)"
  unfolding abandon_expired_claims_of_def by (rule good_close) auto

section \<open>Open claims keep their reservations\<close>

definition step_reserved :: "string \<Rightarrow> worker_step \<Rightarrow> database \<Rightarrow> bool" where
  "step_reserved key st d \<longleftrightarrow> (\<forall>i\<in>set (ws_reservation_ids st). \<exists>r.
     (key, r) \<in> set (db_reservations d) \<and> rr_reservation_id r = i \<and> rr_task_id r = ws_task_id st)"

definition held_inv :: "database \<Rightarrow> bool" where
  "held_inv d \<longleftrightarrow> (\<forall>key c st. (key, c) \<in> set (db_claims d) \<and> wc_status c = ACTIVE \<and>
     (key, st) \<in> set (db_steps d) \<and> ws_step_id st = wc_step_id c \<longrightarrow> step_reserved key st d)"

lemma step_reserved_cong: "db_reservations d' = db_reservations d \<Longrightarrow> step_reserved key st d' = step_reserved key st d"
  by (simp add: step_reserved_def)

definition fabric_inv :: "(uuid \<Rightarrow> string \<Rightarrow> uuid) \<Rightarrow> database \<Rightarrow> bool" where
  "fabric_inv uuid5 d \<longleftrightarrow> lease_inv uuid5 d \<and> reservation_inv d \<and> held_inv d"

lemma same_workers_inv:
  "same_workers d d' \<Longrightarrow> held_inv d' = held_inv d" "same_workers d d' \<Longrightarrow> reservation_inv d' = reservation_inv d"
  by (simp_all add: held_inv_def reservation_inv_def same_workers_def step_reserved_def)

lemma held_claims_mem:
  assumes "(key, c) \<in> set (db_claims d)" and "wc_status c = ACTIVE" and "(key, st) \<in> set (db_steps d)"
    and "ws_step_id st = wc_step_id c"
  shows "(wc_assignment_id c, ws_reservation_ids st) \<in> set (held_claims key d)"
  using assms by (force simp: held_claims_def set_rows)

lemma check_held_claimD:
  assumes "check_held_claim current target as (a, ids) = Inr ()" and "i \<in> set ids"
  shows "dget target i \<noteq> None" and "dget current i = dget target i"
  using assms by (auto simp: check_held_claim_def)

lemma dict_of_Some:
  assumes "dget (dict_of key xs) k = Some x"
  shows "x \<in> set xs \<and> key x = k"
proof -
  have "dget (fold (\<lambda>x. dset (key x) x) xs d) k = Some x \<Longrightarrow> dget d k = Some x \<or> x \<in> set xs \<and> key x = k" for d
    by (induction xs arbitrary: d) (fastforce simp: update_conv split: if_splits)+
  from this [of "[]"] assms show ?thesis by (simp add: dict_of_def)
qed

lemma rmap_source: "rmap f xs = Inr ys \<Longrightarrow> x \<in> set xs \<Longrightarrow> \<exists>y\<in>set ys. f x = Inr y"
  and rmap_target: "rmap f xs = Inr ys \<Longrightarrow> y \<in> set ys \<Longrightarrow> \<exists>x\<in>set xs. f x = Inr y"
  by (auto simp: rmap_eq_Inr in_set_conv_nth [of _ ys] in_set_conv_nth [of _ xs] list_all2_conv_all_nth Bex_def)

lemma current_row:
  assumes "rmap row_to_reservation (filter P (rows key t)) = Inr current" and "r \<in> set current \<and> rr_reservation_id r = i"
  shows "\<exists>r0. (key, r0) \<in> set t \<and> rr_reservation_id r0 = i \<and> rr_task_id r0 = rr_task_id r"
proof -
  obtain r0 where "r0 \<in> set (rows key t)" "row_to_reservation r0 = Inr r"
    using rmap_target [OF assms(1), of r] assms(2) by auto
  then show ?thesis using assms(2) by (auto simp: row_to_reservation_def mk_ResourceReservation_def set_rows split: if_splits)
qed

lemma reservation_unique:
  assumes "reservation_inv d" and "(k, r) \<in> set (db_reservations d)" and "(k, r') \<in> set (db_reservations d)"
    and "rr_reservation_id r = rr_reservation_id r'"
  shows "r = r'"
  using assms unfolding reservation_inv_def distinct_map inj_on_def by (metis comp_apply prod.inject snd_conv)

lemma save_keeps:
  assumes inv: "fabric_inv uuid5 d" and save: "save_body uuid5 dump key now s x ts pb d = Inr (u, d')"
  shows "fabric_inv uuid5 d'" and "evolves uuid5 d d'"
proof -
  from save obtain d7 where same: "same_workers d d7"
    and rep: "replace_resource_reservations key now (pb_reservations pb) (pb_assignments pb)
       (map_option observed_admission_limits (pb_observation pb)) d7 = Inr d'" by (rule save_bodyE)
  have inv7: "lease_inv uuid5 d7" "reservation_inv d7" "held_inv d7" and g7: "good_step uuid5 d d7"
    using inv same good_frame [of uuid5 d d7]
    by (simp_all add: fabric_inv_def same_workers_inv [OF same] same_workers_def good_step_def)
  let ?a = "abandon_expired_claims_of key now d7"
  from rep inv7(2) obtain current where d': "d' = ?a\<lparr>db_reservations := delete_key key (db_reservations d7) @
      map (Pair key) (pb_reservations pb)\<rparr>" and rinv: "reservation_inv d'"
    and loaded: "rmap row_to_reservation (filter (\<lambda>r. rr_reservation_id r \<in>
        set (concat (map snd (held_claims key ?a)))) (rows key (db_reservations d7))) = Inr current"
    and checks: "\<forall>h\<in>set (held_claims key ?a). check_held_claim (dict_of rr_reservation_id current)
       (dict_of rr_reservation_id (pb_reservations pb)) (dict_of da_assignment_id (pb_assignments pb)) h = Inr ()"
    by (rule replaceE)
  have ga: "good_step uuid5 d7 ?a" by (rule good_abandon_of [OF inv7(1)])
  then have inva: "lease_inv uuid5 ?a" by (simp add: good_step_def)
  have gd: "good_step uuid5 ?a d'" by (rule good_frame [OF inva]) (simp_all add: d')
  have good: "good_step uuid5 d d'" using good_step_trans [OF good_step_trans [OF g7 ga] gd] .
  have "held_inv d'"
    unfolding held_inv_def
  proof (intro allI impI, elim conjE)
    fix k c st
    assume c: "(k, c) \<in> set (db_claims d')" "wc_status c = ACTIVE" and st: "(k, st) \<in> set (db_steps d')" "ws_step_id st = wc_step_id c"
    have "\<exists>c0. (k, c0) \<in> set (db_claims d7) \<and> wc_status c0 = ACTIVE \<and> wc_step_id c0 = wc_step_id c"
      using c unfolding d' abandon_expired_claims_of_def by (auto simp: set_update_rows split: if_splits)
    moreover have "(k, st) \<in> set (db_steps d7)" using st(1) unfolding d' abandon_expired_claims_of_def by simp
    ultimately have before: "step_reserved k st d7" using inv7(3) st(2) unfolding held_inv_def by metis
    show "step_reserved k st d'"
    proof (cases "k = key")
      case True
      have held: "(wc_assignment_id c, ws_reservation_ids st) \<in> set (held_claims key ?a)"
        by (rule held_claims_mem) (use c st True d' in simp_all)
      show ?thesis unfolding step_reserved_def
      proof
        fix i assume i: "i \<in> set (ws_reservation_ids st)"
        note agree = check_held_claimD [OF bspec [OF checks held] i]
        then obtain r where r: "dget (dict_of rr_reservation_id current) i = Some r"
          "dget (dict_of rr_reservation_id (pb_reservations pb)) i = Some r" by auto
        obtain r0 where r0: "(key, r0) \<in> set (db_reservations d7)" "rr_reservation_id r0 = i" "rr_task_id r0 = rr_task_id r"
          using current_row [OF loaded] dict_of_Some [OF r(1)] by blast
        have "rr_task_id r0 = ws_task_id st"
          using before i True r0 reservation_unique [OF inv7(2)] unfolding step_reserved_def by metis
        then show "\<exists>r. (k, r) \<in> set (db_reservations d') \<and> rr_reservation_id r = i \<and> rr_task_id r = ws_task_id st"
          using dict_of_Some [OF r(2)] r0(3) True unfolding d' by auto
      qed
    next
      case False
      then show ?thesis using before unfolding d' step_reserved_def by (auto simp: delete_key_def)
    qed
  qed
  then show "fabric_inv uuid5 d'" using good rinv by (simp add: fabric_inv_def good_step_def)
  show "evolves uuid5 d d'" using good by (simp add: good_step_def)
qed

text \<open>The worker operations: registration and the claim holder open no claim; a grant has checked that the
  reservations of its step are there.\<close>

lemma held_frame:
  assumes "held_inv d" and "db_reservations d' = db_reservations d"
    and "\<And>key c. (key, c) \<in> set (db_claims d') \<Longrightarrow> wc_status c = ACTIVE \<Longrightarrow>
       \<exists>b. (key, b) \<in> set (db_claims d) \<and> wc_status b = ACTIVE \<and> wc_step_id b = wc_step_id c"
    and "\<And>key c st. (key, c) \<in> set (db_claims d') \<Longrightarrow> wc_status c = ACTIVE \<Longrightarrow> (key, st) \<in> set (db_steps d') \<Longrightarrow>
       ws_step_id st = wc_step_id c \<Longrightarrow> (key, st) \<in> set (db_steps d)"
  shows "held_inv d'"
  unfolding held_inv_def
proof (intro allI impI, elim conjE)
  fix key c st
  assume c: "(key, c) \<in> set (db_claims d')" "wc_status c = ACTIVE" "(key, st) \<in> set (db_steps d')"
    "ws_step_id st = wc_step_id c"
  obtain b where "(key, b) \<in> set (db_claims d)" "wc_status b = ACTIVE" "wc_step_id b = wc_step_id c"
    using assms(3) [OF c(1,2)] by blast
  moreover have "(key, st) \<in> set (db_steps d)" by (rule assms(4) [OF c])
  ultimately show "step_reserved key st d'"
    using assms(1) c(4) step_reserved_cong [OF assms(2)] unfolding held_inv_def by metis
qed

lemma abandon_status:
  assumes "(key, c) \<in> set (update_rows P (\<lambda>c. c\<lparr>wc_status := x\<rparr>) t)" and "wc_status c = ACTIVE" and "x \<noteq> ACTIVE"
  shows "(key, c) \<in> set t"
proof -
  obtain r where r: "(key, r) \<in> set t" "c = (if P key r then r\<lparr>wc_status := x\<rparr> else r)"
    using assms(1) by (auto simp: set_update_rows)
  then have "\<not> P key r"
  proof (rule_tac notI)
    assume "P key r"
    then have "c = r\<lparr>wc_status := x\<rparr>" using r by simp
    then show False using assms(2,3) by simp
  qed
  then show ?thesis using r by simp
qed

lemma held_close:
  assumes "held_inv d" and "x \<noteq> ACTIVE" and "db_reservations d' = db_reservations d" and "db_steps d' = db_steps d"
    and "db_claims d' = update_rows P (\<lambda>c. c\<lparr>wc_status := x\<rparr>) (db_claims d)"
  shows "held_inv d'"
proof (rule held_frame [OF assms(1,3)])
  fix key c
  assume "(key, c) \<in> set (db_claims d')" and "wc_status c = ACTIVE"
  then show "\<exists>b. (key, b) \<in> set (db_claims d) \<and> wc_status b = ACTIVE \<and> wc_step_id b = wc_step_id c"
    using abandon_status [of key c P x] assms(2,5) by auto
qed (use assms(4) in simp)

lemma set_status_frame:
  assumes "set_claim_status key i x d = Inr d'"
  shows "d' = d\<lparr>db_claims := update_rows (\<lambda>k c. k = key \<and> wc_claim_id c = i) (\<lambda>c. c\<lparr>wc_status := x\<rparr>) (db_claims d)\<rparr>"
  using assms by (auto simp: set_claim_status_def)

lemma held_set_status:
  assumes "held_inv d" and "set_claim_status key i x d = Inr d'" and "x \<noteq> ACTIVE"
  shows "held_inv d'"
  by (rule held_close [OF assms(1,3)]) (simp_all add: set_status_frame [OF assms(2)])

definition same_leases :: "database \<Rightarrow> database \<Rightarrow> bool" where
  "same_leases d d' \<longleftrightarrow> db_steps d' = db_steps d \<and> db_claims d' = db_claims d \<and>
     db_reservations d' = db_reservations d"

lemma held_same_leases: "held_inv d \<Longrightarrow> same_leases d d' \<Longrightarrow> held_inv d'"
  by (rule held_frame) (auto simp: same_leases_def)

lemma insert_rows_same_leases:
  "insert_immutable_checkpoint uuid5 key k d = Inr d' \<Longrightarrow> same_leases d d'"
  "insert_immutable_result uuid5 key r d = Inr d' \<Longrightarrow> same_leases d d'"
  "insert_immutable_claim_observation uuid5 dump dump_claim key o1 d = Inr d' \<Longrightarrow> same_leases d d'"
  by (auto simp: same_leases_def insert_immutable_checkpoint_def insert_immutable_result_def
      insert_immutable_claim_observation_def split: if_splits)

lemma held_heartbeat:
  assumes inv: "held_inv d" and "heartbeat_body uuid5 key i w n now d = Inr (r, d')"
  shows "held_inv d' \<and> db_reservations d' = db_reservations d"
proof -
  consider "set_claim_status key i ABANDONED d = Inr d'"
    | "d' = d\<lparr>db_claims := update_rows (\<lambda>k x. k = key \<and> wc_claim_id x = i) (extend_lease now n) (db_claims d)\<rparr>"
    using assms(2) by (auto simp: heartbeat_body_def Let_def split: if_splits)
  then show ?thesis
  proof cases
    case 1
    then show ?thesis using held_set_status [OF inv 1] set_status_frame [OF 1] by simp
  next
    case 2
    have "held_inv d'"
      by (rule held_frame [OF inv]) (auto simp: 2 set_update_rows split: if_splits)
    then show ?thesis by (simp add: 2)
  qed
qed

lemma held_release:
  assumes inv: "held_inv d" and "release_body uuid5 key i w d = Inr (r, d')"
  shows "held_inv d' \<and> db_reservations d' = db_reservations d"
  using assms held_set_status [OF inv, of key i RELEASED d'] set_status_frame [of key i RELEASED d d']
  by (auto simp: release_body_def split: if_splits)

lemma held_checkpoint:
  assumes inv: "held_inv d" and "checkpoint_body uuid5 key i w state refs now d = Inr (r, d')"
  shows "held_inv d' \<and> db_reservations d' = db_reservations d"
proof -
  consider "d' = d" | "set_claim_status key i ABANDONED d = Inr d'"
    | k d1 where "insert_immutable_checkpoint uuid5 key k d = Inr d1" "set_claim_status key i CHECKPOINTED d1 = Inr d'"
    using assms(2) by (auto simp: checkpoint_body_def Let_def split: if_splits)
  then show ?thesis
  proof cases
    case 2
    then show ?thesis using held_set_status [OF inv 2] set_status_frame [OF 2] by simp
  next
    case 3
    note same = insert_rows_same_leases(1) [OF 3(1)]
    show ?thesis using held_set_status [OF held_same_leases [OF inv same] 3(2)] set_status_frame [OF 3(2)] same
      by (simp add: same_leases_def)
  qed (use inv in simp)
qed

lemma held_complete:
  assumes inv: "held_inv d" and "complete_body uuid5 key i w out refs now d = Inr (r, d')"
  shows "held_inv d' \<and> db_reservations d' = db_reservations d"
proof -
  consider "d' = d" | "set_claim_status key i ABANDONED d = Inr d'"
    | res d1 where "insert_immutable_result uuid5 key res d = Inr d1" "set_claim_status key i CLAIM_COMPLETED d1 = Inr d'"
    using assms(2) by (auto simp: complete_body_def split: if_splits option.splits)
  then show ?thesis
  proof cases
    case 2
    then show ?thesis using held_set_status [OF inv 2] set_status_frame [OF 2] by simp
  next
    case 3
    note same = insert_rows_same_leases(2) [OF 3(1)]
    show ?thesis using held_set_status [OF held_same_leases [OF inv same] 3(2)] set_status_frame [OF 3(2)] same
      by (simp add: same_leases_def)
  qed (use inv in simp)
qed


lemma held_register:
  assumes inv: "lease_inv uuid5 d" "held_inv d" and "register_body uuid5 key a sk cap refs p d = Inr (st, d')"
  shows "held_inv d' \<and> db_reservations d' = db_reservations d"
proof -
  obtain x where ins: "insert_immutable_step uuid5 key x d = Inr d'" using assms(3) by (auto simp: register_body_def)
  consider "d' = d" | "\<not> step_exists key (ws_step_id x) d" "d' = d\<lparr>db_steps := insert_row key x (db_steps d)\<rparr>"
    by (rule insert_stepE [OF ins])
  then show ?thesis
  proof cases
    case 2
    have "held_inv d'"
    proof (rule held_frame [OF inv(2)])
      fix k c s
      assume c: "(k, c) \<in> set (db_claims d')" and s: "(k, s) \<in> set (db_steps d')" "ws_step_id s = wc_step_id c"
      have "(k, c) \<in> set (db_claims d)" using c 2 by simp
      then obtain s0 where "(k, s0) \<in> set (db_steps d)" "ws_step_id s0 = wc_step_id c" by (rule claim_ledger [OF inv(1)])
      then have "step_exists k (ws_step_id s) d" using s(2) step_existsI by metis
      then show "(k, s) \<in> set (db_steps d)" using s(1) 2 by auto
    qed (use 2 in auto)
    then show ?thesis using 2 by simp
  qed (use inv in simp)
qed

lemma target_reservationsD:
  assumes "load_target_reservations key st d = Inr rs"
  shows "set (ws_reservation_ids st) \<subseteq> rr_reservation_id ` set (rows key (db_reservations d))"
  using assms by (auto simp: load_target_reservations_def Let_def)

lemma target_step_reserved:
  assumes "load_target_reservations key st d = Inr rs"
  shows "step_reserved key st d"
  unfolding step_reserved_def
proof
  fix i assume i: "i \<in> set (ws_reservation_ids st)"
  let ?found = "sort_key reservation_key
     (filter (\<lambda>r. rr_reservation_id r \<in> set (ws_reservation_ids st)) (rows key (db_reservations d)))"
  obtain r where r: "r \<in> set (rows key (db_reservations d))" "rr_reservation_id r = i"
    using target_reservationsD [OF assms] i by auto
  have load: "rmap row_to_reservation ?found = Inr rs" and own: "\<forall>r\<in>set rs. rr_task_id r = ws_task_id st"
    using assms by (simp_all add: load_target_reservations_def Let_def)
  have "r \<in> set ?found" using r i by simp
  then obtain r' where "r' \<in> set rs" "row_to_reservation r = Inr r'" using rmap_source [OF load] by blast
  then have "rr_task_id r = ws_task_id st"
    using own by (auto simp: row_to_reservation_def mk_ResourceReservation_def split: if_splits)
  then show "\<exists>r. (key, r) \<in> set (db_reservations d) \<and> rr_reservation_id r = i \<and> rr_task_id r = ws_task_id st"
    using r by (intro exI [of _ r]) (simp add: set_rows)
qed

lemma held_guarded_claim:
  assumes inv: "lease_inv uuid5 d" "held_inv d"
    and body: "guarded_claim_body uuid5 dump dump_claim key step_id w probe expected captured pub lease d = Inr (a, d')"
  shows "held_inv d' \<and> db_reservations d' = db_reservations d"
  using body
proof (rule guarded_claim_bodyE)
  fix state committed policy st resources checkpoint existing latest active reserved snapshot gated now o1 d1 d2
  assume step: "load_step uuid5 key step_id d = Inr st" and d1: "d1 = abandon_expired_claims captured d"
    and gate: "gate_reason key st snapshot (structural_claim_denial key state st latest existing captured policy expected
       committed d1) d1 = Inr gated"
    and ob: "insert_immutable_claim_observation uuid5 dump dump_claim key o1 d1 = Inr d2"
    and fin: "publication_reason snapshot now gated \<noteq> None \<and> a = \<lparr>wa_observation = o1, wa_envelope = None\<rparr> \<and> d' = d2 \<or>
     publication_reason snapshot now gated = None \<and> grant_claim uuid5 key st w checkpoint o1 now lease d2 = Inr (a, d')"
  have held1: "held_inv d1" unfolding d1 abandon_expired_claims_def
    by (rule held_close [OF inv(2), of ABANDONED]) simp_all
  note same = insert_rows_same_leases(3) [OF ob]
  have held2: "held_inv d2" by (rule held_same_leases [OF held1 same])
  have res: "db_reservations d2 = db_reservations d" "db_reservations d1 = db_reservations d" "db_steps d2 = db_steps d"
    using same unfolding same_leases_def d1 by (simp_all add: abandon_expired_claims_def)
  note st = loaded_step [OF inv(1) step]
  from fin show ?thesis
  proof
    assume "publication_reason snapshot now gated = None \<and> grant_claim uuid5 key st w checkpoint o1 now lease d2 = Inr (a, d')"
    then have gr: "grant_claim uuid5 key st w checkpoint o1 now lease d2 = Inr (a, d')" and "gated = None"
      by (auto simp: publication_reason_def split: if_splits)
    then obtain target where "load_target_reservations key st d1 = Inr target"
      using gate by (auto simp: gate_reason_def split: option.splits)
    then have ids: "step_reserved key st d2"
      using target_step_reserved step_reserved_cong [of d2 d1] res(1,2) by metis
    obtain c0 c where valid: "validate_claim uuid5 c0 = Inr c" and c0: "wc_step_id c0 = ws_step_id st"
      and ins: "insert_claim key c d2 = Inr d'"
      using gr by (auto simp: grant_claim_def Let_def)
    have c: "wc_step_id c = ws_step_id st" using validate_claim_stable [OF valid] c0 by simp
    have d': "d' = d2\<lparr>db_claims := insert_row key c (db_claims d2)\<rparr>" using ins by (rule insert_claimE)
    have "held_inv d'"
      unfolding held_inv_def
    proof (intro allI impI, elim conjE)
      fix k b s
      assume b: "(k, b) \<in> set (db_claims d')" "wc_status b = ACTIVE" and s: "(k, s) \<in> set (db_steps d')" "ws_step_id s = wc_step_id b"
      have cong: "step_reserved k s d' = step_reserved k s d2" by (rule step_reserved_cong) (simp add: d')
      show "step_reserved k s d'"
      proof (cases "(k, b) \<in> set (db_claims d2)")
        case True
        then show ?thesis using held2 b(2) s unfolding cong held_inv_def by (auto simp: d')
      next
        case False
        then have "k = key" "b = c" using b(1) unfolding d' by auto
        moreover have "s = st" using lease_invD(1) [OF inv(1), of key] s st(1) c res(3) \<open>k = key\<close> \<open>b = c\<close>
          unfolding d' by (auto simp: set_rows distinct_map dest: inj_onD)
        ultimately show ?thesis using ids cong by simp
      qed
    qed
    then show ?thesis using res(1) d' by simp
  qed (use held2 res in simp)
qed


section \<open>The invariant of the reachable databases\<close>

lemma fabric_step_inv:
  assumes inv: "fabric_inv uuid5 d" and step: "fabric_step uuid5 intent_json dump dump_claim d d'"
  shows "fabric_inv uuid5 d' \<and> evolves uuid5 d d'"
proof -
  have l: "lease_inv uuid5 d" and h: "held_inv d" and r: "reservation_inv d" using inv by (simp_all add: fabric_inv_def)
  have worker: ?thesis if "good_step uuid5 d d'" "held_inv d' \<and> db_reservations d' = db_reservations d"
    using that r by (simp add: fabric_inv_def good_step_def reservation_inv_def)
  from step show ?thesis
  proof (cases rule: fabric_stepE)
    case 1
    then show ?thesis using inv by simp
  next
    case 2
    then show ?thesis using worker good_register [OF l] held_register [OF l h] by blast
  next
    case 3
    then show ?thesis using worker [OF good_guarded_claim [OF l 3] held_guarded_claim [OF l h 3]] by simp
  next
    case 4
    then show ?thesis using worker good_heartbeat [OF l] held_heartbeat [OF h] by blast
  next
    case 5
    then show ?thesis using worker good_checkpoint [OF l] held_checkpoint [OF h] by blast
  next
    case 6
    then show ?thesis using worker good_complete [OF l] held_complete [OF h] by blast
  next
    case 7
    then show ?thesis using worker good_release [OF l] held_release [OF h] by blast
  next
    case 8
    then show ?thesis using save_keeps [OF inv] by blast
  qed
qed

text \<open>Clearing a namespace deletes its ledgers as a whole and leaves the others.\<close>

lemma rows_delete_other: "k \<noteq> key \<Longrightarrow> rows k (delete_key key t) = rows k t"
  by simp

lemma set_delete_key: "(k, r) \<in> set (delete_key key t) \<longleftrightarrow> k \<noteq> key \<and> (k, r) \<in> set t"
  by (auto simp: delete_key_def)

lemma reset_frame:
  assumes "reset_body key d = Inr (n, d')"
  shows "db_steps d' = delete_key key (db_steps d)" "db_claims d' = delete_key key (db_claims d)"
    "db_reservations d' = delete_cascade rr_task_id (at_task_id ` set (rows key (db_tasks d)))
       (delete_key key (db_reservations d))"
    "at_task_id ` set (rows key (db_tasks d)) \<inter> foreign_task_references key d = {}"
    "step_ledger k i d' = (if k = key then ([], [], []) else step_ledger k i d)"
    "step_exists k i d' \<longleftrightarrow> k \<noteq> key \<and> step_exists k i d"
proof -
  have *: "db_steps d' = delete_key key (db_steps d)" "db_claims d' = delete_key key (db_claims d)"
    "db_reservations d' = delete_cascade rr_task_id (at_task_id ` set (rows key (db_tasks d)))
       (delete_key key (db_reservations d))"
    "db_checkpoints d' = delete_key key (db_checkpoints d)"
    "db_results d' = delete_key key (db_results d)"
    "at_task_id ` set (rows key (db_tasks d)) \<inter> foreign_task_references key d = {}"
    using assms unfolding reset_body_def Let_def by auto
  show "db_steps d' = delete_key key (db_steps d)" "db_claims d' = delete_key key (db_claims d)"
    "db_reservations d' = delete_cascade rr_task_id (at_task_id ` set (rows key (db_tasks d)))
       (delete_key key (db_reservations d))"
    "at_task_id ` set (rows key (db_tasks d)) \<inter> foreign_task_references key d = {}" by (rule *)+
  show "step_ledger k i d' = (if k = key then ([], [], []) else step_ledger k i d)"
    "step_exists k i d' \<longleftrightarrow> k \<noteq> key \<and> step_exists k i d"
    by (simp_all add: * step_ledger_def step_claims_def step_checkpoints_def step_results_def step_exists_def)
qed

text \<open>A reservation that a cascade deletes belongs to no step: the step's own reference to the task would
  have stopped the deletion.\<close>

lemma reset_step_reserved:
  assumes "reset_body key d = Inr (n, d')" and "k \<noteq> key" and "(k, st) \<in> set (db_steps d)" and "step_reserved k st d"
  shows "step_reserved k st d'"
proof -
  have "(k, st) \<in> set (delete_key key (db_steps d))" using assms(2,3) by (simp add: delete_key_def)
  then have "ws_task_id st \<in> ws_task_id ` snd ` set (delete_key key (db_steps d))" by force
  then have "ws_task_id st \<in> foreign_task_references key d" unfolding foreign_task_references_def by blast
  then have "ws_task_id st \<notin> at_task_id ` set (rows key (db_tasks d))" using reset_frame(4) [OF assms(1)] by blast
  then have "(k, r) \<in> set (db_reservations d')" if "(k, r) \<in> set (db_reservations d)" "rr_task_id r = ws_task_id st" for r
    using that assms(2) by (simp add: reset_frame(3) [OF assms(1)] delete_cascade_def delete_key_def)
  then show ?thesis using assms(4) unfolding step_reserved_def by blast
qed

lemma reset_keeps:
  assumes inv: "fabric_inv uuid5 d" and reset: "reset_body key d = Inr (n, d')"
  shows "fabric_inv uuid5 d'"
proof -
  note frame = reset_frame [OF reset]
  have l: "lease_inv uuid5 d" using inv by (simp add: fabric_inv_def)
  have "lease_inv uuid5 d'"
    unfolding lease_inv_def frame
    by (intro conjI allI impI)
      (use lease_invD [OF l] in \<open>auto simp: set_delete_key set_rows split: if_splits simp del: ledger_ok.simps\<close>)
  moreover have "reservation_inv d'"
    using inv by (simp add: fabric_inv_def reservation_inv_def frame delete_key_def delete_cascade_def distinct_map_filter o_def)
  moreover have "held_inv d'"
    unfolding held_inv_def frame(1,2) set_delete_key
    using inv reset_step_reserved [OF reset] unfolding fabric_inv_def held_inv_def by blast
  ultimately show ?thesis by (simp add: fabric_inv_def)
qed

lemma fabric_reachable_inv:
  "fabric_reachable uuid5 intent_json dump dump_claim d \<Longrightarrow> fabric_inv uuid5 d"
proof (induction rule: fabric_reachable.induct)
  case init
  show ?case by (simp add: fabric_inv_def lease_inv_def reservation_inv_def held_inv_def empty_database_def
      step_ledger_def step_claims_def step_checkpoints_def step_results_def)
next
  case (step d d')
  then show ?case using fabric_step_inv by blast
next
  case (reset d key)
  then show ?case using reset_keeps transaction_cases [of "reset_body key" d]
    unfolding reset_chat_execution_state_def by metis
qed

end
