(* ===== verification/Custody.thy ===== *)
theory Custody
  imports Fabric
begin

text \<open>
  What the lease protocol gives the workers, in every database that any sequence of transactions and resets
  can produce: the refinement of the protocol, exclusive leases, at-most-once effects, final
  results, gap-free checkpoints, and the envelope and the retries of a claim holder.
\<close>

section \<open>Runs of the fabric\<close>

locale monitored_system =
  fixes step :: "'s \<Rightarrow> 's \<Rightarrow> bool" and inv :: "'s \<Rightarrow> bool" and rel :: "'s \<Rightarrow> 's \<Rightarrow> bool"
  assumes step_inv: "inv s \<Longrightarrow> step s s' \<Longrightarrow> inv s' \<and> rel s s'"
    and rel_refl: "rel s s"
    and rel_trans: "rel s s' \<Longrightarrow> rel s' s'' \<Longrightarrow> rel s s''"
begin

lemma run_inv:
  assumes "step\<^sup>*\<^sup>* s s'" and "inv s"
  shows "inv s' \<and> rel s s'"
  using assms by (induction rule: rtranclp_induct) (auto intro: rel_refl dest: step_inv rel_trans)

end

interpretation fabric: monitored_system "fabric_step uuid5 intent_json dump dump_claim" "fabric_inv uuid5" "evolves uuid5"
  for uuid5 intent_json dump dump_claim
proof unfold_locales
  show "fabric_inv uuid5 d \<Longrightarrow> fabric_step uuid5 intent_json dump dump_claim d d' \<Longrightarrow>
    fabric_inv uuid5 d' \<and> evolves uuid5 d d'" for d d' by (rule fabric_step_inv)
qed (use evolves_trans in auto)

text \<open>What one namespace sees: the transactions of the two stores under any key, and the resets of the other
  namespaces. Its own reset is the only operation left out; it deletes the steps of the namespace with
  their whole ledgers.\<close>

inductive namespace_step ::
  "(uuid \<Rightarrow> string \<Rightarrow> uuid) \<Rightarrow> (pending_preemption \<Rightarrow> string) \<Rightarrow> (resource_observation \<Rightarrow> string) \<Rightarrow>
     (claim_observation \<Rightarrow> string) \<Rightarrow> string \<Rightarrow> database \<Rightarrow> database \<Rightarrow> bool"
  for uuid5 intent_json dump dump_claim key where
  call: "fabric_step uuid5 intent_json dump dump_claim d d' \<Longrightarrow>
    namespace_step uuid5 intent_json dump dump_claim key d d'"
| reset_other: "other \<noteq> key \<Longrightarrow>
    namespace_step uuid5 intent_json dump dump_claim key d (snd (reset_chat_execution_state other d))"

definition namespace_evolves :: "(uuid \<Rightarrow> string \<Rightarrow> uuid) \<Rightarrow> string \<Rightarrow> database \<Rightarrow> database \<Rightarrow> bool" where
  "namespace_evolves uuid5 key d d' \<longleftrightarrow> (\<forall>st. (key, st) \<in> set (db_steps d) \<longrightarrow>
     (key, st) \<in> set (db_steps d') \<and>
     ledger_run uuid5 st (step_ledger key (ws_step_id st) d) (step_ledger key (ws_step_id st) d'))"

lemma reset_other_evolves:
  assumes "fabric_inv uuid5 d" and "other \<noteq> key"
  shows "fabric_inv uuid5 (snd (reset_chat_execution_state other d)) \<and>
    namespace_evolves uuid5 key d (snd (reset_chat_execution_state other d))"
proof -
  let ?d = "snd (reset_chat_execution_state other d)"
  consider "?d = d" | n where "reset_body other d = Inr (n, ?d)"
    using transaction_cases [of "reset_body other" d] unfolding reset_chat_execution_state_def by blast
  then show ?thesis
  proof cases
    case 2
    then show ?thesis using reset_keeps [OF assms(1) 2] reset_frame(1,5) [OF 2] assms(2)
      by (auto simp: namespace_evolves_def set_delete_key)
  qed (use assms(1) in \<open>simp add: namespace_evolves_def\<close>)
qed

interpretation namespace: monitored_system "namespace_step uuid5 intent_json dump dump_claim key" "fabric_inv uuid5"
    "namespace_evolves uuid5 key"
  for uuid5 intent_json dump dump_claim key
proof unfold_locales
  fix d d' assume inv: "fabric_inv uuid5 d" and "namespace_step uuid5 intent_json dump dump_claim key d d'"
  from this(2) show "fabric_inv uuid5 d' \<and> namespace_evolves uuid5 key d d'"
  proof cases
    case call
    then show ?thesis using fabric_step_inv [OF inv] by (simp add: evolves_def namespace_evolves_def)
  next
    case (reset_other other)
    then show ?thesis using reset_other_evolves [OF inv] by simp
  qed
qed (auto simp: namespace_evolves_def intro: rtranclp_trans)

lemma reachable_lease: "fabric_reachable uuid5 intent_json dump dump_claim d \<Longrightarrow> lease_inv uuid5 d"
  using fabric_reachable_inv by (auto simp: fabric_inv_def)

lemma namespace_run_ledger:
  assumes "fabric_reachable uuid5 intent_json dump dump_claim d"
    and "(namespace_step uuid5 intent_json dump dump_claim key)\<^sup>*\<^sup>* d d'" and "(key, st) \<in> set (db_steps d)"
  shows "ledger_run uuid5 st (step_ledger key (ws_step_id st) d) (step_ledger key (ws_step_id st) d')"
    and "(key, st) \<in> set (db_steps d')"
  using namespace.run_inv [OF assms(2) fabric_reachable_inv [OF assms(1)]] assms(3)
  by (simp_all add: namespace_evolves_def)

text \<open>C2. Every call of the fabric, by any caller and with any clock, returning or raising, moves the ledger
  of every registered worker step along the lease protocol, and loses no step.\<close>

theorem fabric_refines_lease_protocol:
  assumes "fabric_reachable uuid5 intent_json dump dump_claim d"
    and "fabric_step uuid5 intent_json dump dump_claim d d'" and "(key, st) \<in> set (db_steps d)"
  shows "(key, st) \<in> set (db_steps d') \<and>
    ledger_run uuid5 st (step_ledger key (ws_step_id st) d) (step_ledger key (ws_step_id st) d')"
  using fabric_step_inv [OF fabric_reachable_inv [OF assms(1)] assms(2)] assms(3) by (simp add: evolves_def)

section \<open>Leases\<close>

text \<open>C7. At no time do two open claims of a scheduler share a worker step or an assignment.\<close>

theorem leases_exclusive:
  assumes "fabric_reachable uuid5 intent_json dump dump_claim d"
    and "(key, b) \<in> set (db_claims d)" and "(key, c) \<in> set (db_claims d)"
    and "wc_status b = ACTIVE" and "wc_status c = ACTIVE"
    and "wc_step_id b = wc_step_id c \<or> wc_assignment_id b = wc_assignment_id c"
  shows "b = c"
proof -
  note inv = reachable_lease [OF assms(1)]
  from assms(6) have "wc_assignment_id b = wc_assignment_id c"
  proof
    assume same: "wc_step_id b = wc_step_id c"
    obtain st where st: "(key, st) \<in> set (db_steps d)" "ws_step_id st = wc_step_id b" "claim_of st b"
      by (rule claim_ledger [OF inv assms(2)])
    obtain st' where st': "(key, st') \<in> set (db_steps d)" "ws_step_id st' = wc_step_id c" "claim_of st' c"
      by (rule claim_ledger [OF inv assms(3)])
    have "st = st'" using lease_invD(1) [OF inv, of key] st st' same
      by (metis distinct_map inj_onD set_rows)
    then show ?thesis using st(3) st'(3) by (simp add: claim_of_def)
  qed
  then show ?thesis using lease_invD(6) [OF inv] assms(2-5) by (metis set_rows)
qed

lemma ledger_stuck:
  assumes "ledger_run uuid5 st (cs @ [c], ks, rs) l" and "wc_status c \<noteq> ACTIVE"
    and "\<not> closed_for (ws_effect_policy st) c"
  shows "l = (cs @ [c], ks, rs)"
  using assms(1)
proof (induction rule: rtranclp_induct)
  case (step l l')
  then have "ledger_step uuid5 st (cs @ [c], ks, rs) l'" by simp
  then show ?case by (rule ledger_stepE) (use assms(2,3) in auto)
qed simp

text \<open>C5. An at-most-once step whose lease was abandoned is never started again while its namespace lives: no
  sequence of transactions of the two stores and of resets of other namespaces changes its claims,
  checkpoints and results or removes it, and all earlier claims were handed back by their workers. (A reset
  of the step's own namespace deletes the step together with this record.)\<close>

theorem abandoned_effect_is_final:
  assumes "fabric_reachable uuid5 intent_json dump dump_claim d" and "(key, st) \<in> set (db_steps d)"
    and "ws_effect_policy st = AT_MOST_ONCE" and "c \<in> set (step_claims key (ws_step_id st) d)"
    and "wc_status c = ABANDONED" and "(namespace_step uuid5 intent_json dump dump_claim key)\<^sup>*\<^sup>* d d'"
  shows "(key, st) \<in> set (db_steps d') \<and> step_ledger key (ws_step_id st) d' = step_ledger key (ws_step_id st) d \<and>
    c = last (step_claims key (ws_step_id st) d') \<and>
    (\<forall>b\<in>set (butlast (step_claims key (ws_step_id st) d')). wc_status b \<in> {CHECKPOINTED, RELEASED})"
proof -
  let ?l = "step_ledger key (ws_step_id st) d"
  have ok: "ledger_ok uuid5 st ?l" by (rule lease_invD(3) [OF reachable_lease [OF assms(1)] assms(2)])
  have unsafe: "\<not> closed_for (ws_effect_policy st) c"
    using assms(3,5) by (simp add: closed_for_def abandoned_retry_is_safe_def)
  obtain bs b where snoc: "step_claims key (ws_step_id st) d = bs @ [b]"
    using assms(4) by (cases "step_claims key (ws_step_id st) d" rule: rev_cases) auto
  have closed: "\<forall>b\<in>set bs. closed_for (ws_effect_policy st) b"
    using ok unfolding step_ledger_def snoc ledger_ok_snoc by blast
  then have "b = c" using assms(4) unsafe unfolding snoc by auto
  have "step_ledger key (ws_step_id st) d' = ?l"
    using ledger_stuck [OF namespace_run_ledger(1) [OF assms(1,6,2), unfolded step_ledger_def snoc]] unsafe assms(5) \<open>b = c\<close>
    by (simp add: step_ledger_def snoc)
  moreover have "step_claims key (ws_step_id st) d' = bs @ [c]"
    using calculation snoc \<open>b = c\<close> by (simp add: step_ledger_def)
  moreover have "\<forall>b\<in>set bs. wc_status b \<in> {CHECKPOINTED, RELEASED}"
    using closed assms(3) by (auto simp: closed_for_def abandoned_retry_is_safe_def)
  ultimately show ?thesis using namespace_run_ledger(2) [OF assms(1,6,2)] by simp
qed

text \<open>C6. A result is final while its namespace lives: it is the only one of its step, it was written by the
  last claim of the step, and no sequence of transactions of the two stores and of resets of other
  namespaces changes it, makes it unreadable or starts the step again. (A reset of the step's own
  namespace deletes the step and its result.)\<close>

theorem result_is_final:
  assumes "fabric_reachable uuid5 intent_json dump dump_claim d" and "(key, st) \<in> set (db_steps d)"
    and "r \<in> set (step_results key (ws_step_id st) d)"
    and "(namespace_step uuid5 intent_json dump dump_claim key)\<^sup>*\<^sup>* d d'"
  shows "(key, st) \<in> set (db_steps d') \<and> step_ledger key (ws_step_id st) d' = step_ledger key (ws_step_id st) d \<and>
    load_result_row uuid5 key (ws_step_id st) d' = Inr (Some r) \<and> step_results key (ws_step_id st) d' = [r] \<and>
    wr_claim_id r = wc_claim_id (last (step_claims key (ws_step_id st) d')) \<and>
    wc_status (last (step_claims key (ws_step_id st) d')) = CLAIM_COMPLETED"
proof -
  let ?l = "step_ledger key (ws_step_id st) d" and ?rs = "step_results key (ws_step_id st) d"
  have ok: "ledger_ok uuid5 st ?l" by (rule lease_invD(3) [OF reachable_lease [OF assms(1)] assms(2)])
  then have completed: "map wr_claim_id ?rs = map wc_claim_id (with_status CLAIM_COMPLETED (step_claims key (ws_step_id st) d))"
    by (simp add: step_ledger_def)
  obtain bs b where snoc: "step_claims key (ws_step_id st) d = bs @ [b]"
    using assms(3) completed by (cases "step_claims key (ws_step_id st) d" rule: rev_cases) auto
  have "with_status CLAIM_COMPLETED bs = []"
    using ok no_completed [of bs "ws_effect_policy st"] unfolding step_ledger_def snoc ledger_ok_snoc by blast
  then have b: "wc_status b = CLAIM_COMPLETED" and rs: "?rs = [r]" and r: "wr_claim_id r = wc_claim_id b"
    using completed assms(3) unfolding snoc by (auto split: if_splits)
  have same: "step_ledger key (ws_step_id st) d' = ?l"
    using ledger_stuck [OF namespace_run_ledger(1) [OF assms(1,4,2), unfolded step_ledger_def snoc]] b
    by (simp add: step_ledger_def snoc closed_for_def)
  then have cs': "step_claims key (ws_step_id st) d' = bs @ [b]" and rs': "step_results key (ws_step_id st) d' = [r]"
    using snoc rs by (simp_all add: step_ledger_def)
  have "validate_result uuid5 r = Inr r" using ok rs by (simp add: step_ledger_def)
  moreover have "find (\<lambda>r. wr_step_id r = ws_step_id st) (rows key (db_results d')) = Some r"
    using rs' find_filter_hd [of "\<lambda>r. wr_step_id r = ws_step_id st" "rows key (db_results d')"]
    by (simp add: step_results_def)
  ultimately show ?thesis using namespace_run_ledger(2) [OF assms(1,4,2)] same cs' rs' b r
    by (simp add: load_result_row_def load_optional_def)
qed

text \<open>C11. Attempts and checkpoint revisions are numbered without gaps; each checkpoint belongs to the claim
  that was closed by it, in order; and every claim starts from the checkpoints written before it.\<close>

theorem checkpoint_chain:
  assumes "fabric_reachable uuid5 intent_json dump dump_claim d" and "(key, st) \<in> set (db_steps d)"
    and "cs = step_claims key (ws_step_id st) d" and "ks = step_checkpoints key (ws_step_id st) d"
  shows "map wc_attempt cs = [1..int (length cs)] \<and> map wk_revision ks = [1..int (length ks)] \<and>
    map wk_claim_id ks = map wc_claim_id (filter (\<lambda>c. wc_status c = CHECKPOINTED) cs) \<and>
    (\<forall>i<length cs. wc_checkpoint_revision (cs ! i) =
       int (length (filter (\<lambda>c. wc_status c = CHECKPOINTED) (take i cs))))"
  using lease_invD(3) [OF reachable_lease [OF assms(1)] assms(2)]
  unfolding assms(3,4) by (simp add: step_ledger_def with_status_def)

section \<open>The claim holder\<close>

lemma latest_checkpoint_loads:
  assumes inv: "lease_inv uuid5 d" and st: "(key, st) \<in> set (db_steps d)"
  shows "load_latest_checkpoint uuid5 key (ws_step_id st) d =
    Inr (if step_checkpoints key (ws_step_id st) d = [] then None else Some (last (step_checkpoints key (ws_step_id st) d)))"
proof -
  let ?ks = "step_checkpoints key (ws_step_id st) d"
  have ok: "map wk_revision ?ks = [1..int (length ?ks)]" "\<forall>k\<in>set ?ks. validate_checkpoint uuid5 k = Inr k"
    using lease_invD(3) [OF inv st] by (simp_all add: step_ledger_def)
  show ?thesis
  proof (cases "?ks = []")
    case False
    then have "latest_by wk_revision ?ks = Some (last ?ks)" using ok(1) by (intro latest_by_sorted) simp_all
    then show ?thesis using False ok(2) by (simp add: load_latest_checkpoint_def load_optional_def)
  qed (simp add: load_latest_checkpoint_def load_optional_def)
qed

lemma open_claim_ledger:
  assumes inv: "lease_inv uuid5 d" and c: "(key, c) \<in> set (db_claims d)" "wc_status c = ACTIVE"
  obtains st cs where "(key, st) \<in> set (db_steps d)" "ws_step_id st = wc_step_id c" "claim_of st c"
    and "step_claims key (wc_step_id c) d = cs @ [c]"
    and "wc_checkpoint_revision c = int (length (step_checkpoints key (wc_step_id c) d))"
proof -
  obtain st where st: "(key, st) \<in> set (db_steps d)" "ws_step_id st = wc_step_id c" "claim_of st c"
    and cin: "c \<in> set (step_claims key (wc_step_id c) d)"
    and ok: "ledger_ok uuid5 st (step_ledger key (wc_step_id c) d)" by (rule claim_ledger [OF inv c(1)])
  obtain cs where cs: "step_claims key (wc_step_id c) d = cs @ [c]"
    by (rule active_last [OF ok [unfolded step_ledger_def] cin c(2)])
  show thesis by (rule that [OF st cs ledger_open(3) [OF inv c st(1,2) cs]])
qed

text \<open>C12. The holder of a live lease always gets its envelope: the step, the claim and the latest checkpoint,
  whose revision is the one the claim was granted on.\<close>

theorem live_claim_envelope:
  assumes "fabric_reachable uuid5 intent_json dump dump_claim d" and "(key, c) \<in> set (db_claims d)"
    and "live_claim clock c" and "store_as_utc clock = Inr now" and "wc_worker_id c = py_strip worker_id"
  shows "\<exists>st. (key, st) \<in> set (db_steps d) \<and>
    load_worker_claim_envelope uuid5 key (wc_claim_id c) worker_id clock d =
      Inr \<lparr>we_step = st, we_claim = c, we_checkpoint =
        (if wc_checkpoint_revision c = 0 then None else Some (last (step_checkpoints key (ws_step_id st) d)))\<rparr>"
proof -
  note inv = reachable_lease [OF assms(1)]
  have act: "wc_status c = ACTIVE" and live: "dt_instant clock < dt_instant (wc_lease_expires_at c)"
    using assms(3) by (simp_all add: live_claim_def)
  obtain st cs where st: "(key, st) \<in> set (db_steps d)" "ws_step_id st = wc_step_id c" "claim_of st c"
    and rev: "wc_checkpoint_revision c = int (length (step_checkpoints key (wc_step_id c) d))"
    by (rule open_claim_ledger [OF inv assms(2) act])
  let ?ks = "step_checkpoints key (wc_step_id c) d"
  have ks: "map wk_revision ?ks = [1..int (length ?ks)]" "\<forall>k\<in>set ?ks. wk_step_id k = ws_step_id st"
    using lease_invD(3) [OF inv st(1)] st(2) by (simp_all add: step_ledger_def)
  have last: "wk_revision (last ?ks) = int (length ?ks)" if "?ks \<noteq> []"
    using ks(1) that upto_snoc [of "length ?ks - 1"] by (cases ?ks rule: rev_cases) (simp_all add: add.commute)
  have "store_as_utc clock = Inr now" "dt_instant now = dt_instant clock"
    using assms(4) store_as_utc_Inr [OF assms(4)] by simp_all
  then have "load_worker_claim_envelope uuid5 key (wc_claim_id c) worker_id clock d =
      validate_envelope \<lparr>we_step = st, we_claim = c, we_checkpoint = (if ?ks = [] then None else Some (last ?ks))\<rparr>"
    using lock_claim_present [OF inv assms(2)] load_step_present [OF inv st(1)] act live assms(5) st(2)
      latest_checkpoint_loads [OF inv st(1)]
    by (simp add: load_worker_claim_envelope_def require_worker_def)
  also have "\<dots> = Inr \<lparr>we_step = st, we_claim = c, we_checkpoint =
        (if wc_checkpoint_revision c = 0 then None else Some (last (step_checkpoints key (ws_step_id st) d)))\<rparr>"
    using st(2,3) rev last ks(2) by (auto simp: validate_envelope_def claim_of_def)
  finally show ?thesis using st(1) by blast
qed


text \<open>What a completion that returned has done: it found the result it had written before, or it wrote it
  and closed the open claim.\<close>

lemma complete_bodyE:
  assumes inv: "lease_inv uuid5 d" and body: "complete_body uuid5 key i w out refs now d = Inr (Some r, d')"
  obtains (again) c where "lock_claim uuid5 key i d = Inr c" and "require_worker c w = Inr ()"
      and "load_result_row uuid5 key (wc_step_id c) d = Inr (Some r)" and "wr_claim_id r = wc_claim_id c"
      and "same_payload (wr_output r) out" and "wr_output_refs r = refs" and "d' = d"
  | (fresh) c where "lock_claim uuid5 key i d = Inr c" and "require_worker c w = Inr ()"
      and "load_result_row uuid5 key (wc_step_id c) d = Inr None" and "wr_claim_id r = wc_claim_id c"
      and "wr_output r = out" and "wr_output_refs r = map py_strip refs" and "validate_result uuid5 r = Inr r"
      and "wr_step_id r = wc_step_id c"
      and "d' = close_with key i CLAIM_COMPLETED (db_checkpoints d) (insert_row key r (db_results d)) d"
proof -
  obtain c st ex where l: "lock_claim uuid5 key i d = Inr c" "require_worker c w = Inr ()"
    "load_step uuid5 key (wc_step_id c) d = Inr st" "load_result_row uuid5 key (wc_step_id c) d = Inr ex"
    using body by (auto simp: complete_body_def)
  show thesis
  proof (cases ex)
    case (Some r0)
    then show thesis using l body by (intro again) (auto simp: complete_body_def)
  next
    case None
    let ?r = "\<lparr>wr_result_id = deterministic_worker_result_id uuid5 (ws_step_id st), wr_step_id = ws_step_id st,
      wr_claim_id = wc_claim_id c, wr_checkpoint_revision = wc_checkpoint_revision c,
      wr_idempotency_key = ws_idempotency_key st, wr_output = out, wr_output_refs = refs, wr_completed_at = now\<rparr>"
    obtain d1 where v: "validate_result uuid5 ?r = Inr r" and ins: "insert_immutable_result uuid5 key r d = Inr d1"
      and set: "set_claim_status key i CLAIM_COMPLETED d1 = Inr d'"
      using l body None by (auto simp: complete_body_def split: if_splits)
    note r = validate_result_stable [OF v, simplified]
    have refs: "wr_output_refs r = map py_strip refs" using v by (auto simp: validate_result_def validated_simps)
    have step: "wr_step_id r = wc_step_id c" using r loaded_step [OF inv l(3)] by simp
    have "d1 = d\<lparr>db_results := insert_row key r (db_results d)\<rparr>"
      using ins l(4) None r step unfolding insert_immutable_result_def by (auto split: if_splits option.splits)
    then have "d' = close_with key i CLAIM_COMPLETED (db_checkpoints d) (insert_row key r (db_results d)) d"
      using set by (auto simp: set_claim_status_def close_with_def)
    then show thesis using fresh [OF l(1,2)] l(4) None r refs step by simp
  qed
qed

lemma result_row_inserted:
  assumes "load_result_row uuid5 key i d = Inr None" and "wr_step_id r = i" and "validate_result uuid5 r = Inr r"
    and "db_results d' = insert_row key r (db_results d)"
  shows "load_result_row uuid5 key i d' = Inr (Some r)"
proof -
  have "filter (\<lambda>r. wr_step_id r = i) (rows key (db_results d)) = []"
    using assms(1) by (auto simp: load_result_row_def load_optional_def find_None_iff filter_empty_conv split: option.splits)
  then show ?thesis using assms(2-) by (simp add: load_result_row_def load_optional_def find_filter_hd)
qed

lemma load_step_cong: "db_steps d' = db_steps d \<Longrightarrow> load_step uuid5 key i d' = load_step uuid5 key i d"
  by (simp add: load_step_def)

text \<open>C13. A completion may be retried: repeating the call with the same arguments, at any later time, returns
  the stored result and changes nothing. The references are compared as the caller gave them with the
  normalised ones that were stored, so the same call with padded references is refused as conflicting.\<close>

theorem complete_retry:
  assumes "fabric_reachable uuid5 intent_json dump dump_claim d"
    and "complete_worker_claim uuid5 key i w out refs clock d = (Inr r, d')" and "store_as_utc later = Inr t"
  shows "complete_worker_claim uuid5 key i w out refs later d' =
    (if map py_strip refs = refs then Inr r
     else Inl (WorkerProtocolError ''conflicting worker result retry''), d')"
proof -
  note inv = reachable_lease [OF assms(1)]
  obtain now where body: "complete_body uuid5 key i w out refs now d = Inr (Some r, d')"
    using assms(2) by (auto simp: complete_worker_claim_def sbind_eq_Inr transaction_returns expired_error_def
        split: option.splits)
  have good: "lease_inv uuid5 d'" using good_complete [OF inv body] by (simp add: good_step_def)
  obtain c where lock: "lock_claim uuid5 key i d' = Inr c" and w: "require_worker c w = Inr ()"
    and row: "load_result_row uuid5 key (wc_step_id c) d' = Inr (Some r)" and mine: "wr_claim_id r = wc_claim_id c"
    and out: "same_payload (wr_output r) out" and refs: "wr_output_refs r = map py_strip refs"
  proof (cases rule: complete_bodyE [OF inv body])
    case (1 c)
    then obtain r0 where "validate_result uuid5 r0 = Inr r"
      by (auto simp: load_result_row_def load_optional_def split: option.splits)
    then have "\<exists>xs. wr_output_refs r = map py_strip xs" by (auto simp: validate_result_def validated_simps)
    then have "wr_output_refs r = map py_strip refs" using 1(6) by auto
    then show thesis using that [of c] 1 by simp
  next
    case (2 c)
    note c = loaded_claim [OF inv 2(1)]
    let ?c = "c\<lparr>wc_status := CLAIM_COMPLETED\<rparr>"
    have "(key, ?c) \<in> set (db_claims d')"
      unfolding 2(9) close_with_def using c by (auto simp: set_update_rows)
    from lock_claim_present [OF good this] have "lock_claim uuid5 key i d' = Inr ?c" using c(2) by simp
    moreover have "load_result_row uuid5 key (wc_step_id c) d' = Inr (Some r)"
      by (rule result_row_inserted [OF 2(3,8,7)]) (simp add: 2(9) close_with_def)
    ultimately show thesis using that [of ?c] 2 by (simp add: require_worker_def same_payload_def)
  qed
  obtain st where st: "(key, st) \<in> set (db_steps d')" "ws_step_id st = wc_step_id c"
    by (rule claim_ledger [OF good loaded_claim(1) [OF good lock]])
  have step: "load_step uuid5 key (wc_step_id c) d' = Inr st" using load_step_present [OF good st(1)] st(2) by simp
  have "complete_body uuid5 key i w out refs t d' = (if map py_strip refs = refs then Inr (Some r, d')
     else Inl (WorkerProtocolError ''conflicting worker result retry''))"
    using lock w step row mine out refs by (simp add: complete_body_def)
  then show ?thesis using assms(3)
    by (simp add: complete_worker_claim_def sbind_def transaction_def expired_error_def)
qed

lemma complete_frame:
  assumes "complete_worker_claim uuid5 key i w out refs clock d = (r, d')"
  shows "db_steps d' = db_steps d" and "map wc_claim_id (rows k (db_claims d')) = map wc_claim_id (rows k (db_claims d))"
proof -
  have d': "d' = snd (complete_worker_claim uuid5 key i w out refs clock d)" using assms by simp
  consider "d' = d" | x t where "complete_body uuid5 key i w out refs t d = Inr (x, d')"
    using complete_state [of uuid5 key i w out refs clock d] unfolding d' by blast
  then have "db_steps d' = db_steps d \<and> map wc_claim_id (rows k (db_claims d')) = map wc_claim_id (rows k (db_claims d))"
  proof cases
    case 2
    consider "d' = d" | "set_claim_status key i ABANDONED d = Inr d'"
      | res d1 where "insert_immutable_result uuid5 key res d = Inr d1" "set_claim_status key i CLAIM_COMPLETED d1 = Inr d'"
      using 2 by (auto simp: complete_body_def split: if_splits option.splits)
    then show ?thesis
    proof cases
      case 3
      then show ?thesis using insert_rows_same_leases(2) [OF 3(1)] set_status_frame [OF 3(2)]
        by (auto simp: same_leases_def o_def if_distrib cong: if_cong)
    qed (auto simp: o_def if_distrib cong: if_cong dest!: set_status_frame)
  qed simp
  then show "db_steps d' = db_steps d" and "map wc_claim_id (rows k (db_claims d')) = map wc_claim_id (rows k (db_claims d))"
    by simp_all
qed

section \<open>Clearing a namespace\<close>

definition namespace_cleared :: "string \<Rightarrow> database \<Rightarrow> bool" where
  "namespace_cleared key d \<longleftrightarrow> dget (db_state d) key = None \<and> rows key (db_tasks d) = [] \<and>
     rows key (db_transitions d) = [] \<and> rows key (db_observations d) = [] \<and> rows key (db_assignments d) = [] \<and>
     rows key (db_epochs d) = [] \<and> rows key (db_events d) = [] \<and> rows key (db_reservations d) = [] \<and>
     rows key (db_steps d) = [] \<and> rows key (db_claim_observations d) = [] \<and> rows key (db_claims d) = [] \<and>
     rows key (db_checkpoints d) = [] \<and> rows key (db_results d) = []"

text \<open>Everything of a namespace but its transitions and reservations, which a deletion of tasks may reach.\<close>

definition same_namespace :: "string \<Rightarrow> database \<Rightarrow> database \<Rightarrow> bool" where
  "same_namespace key d d' \<longleftrightarrow> dget (db_state d') key = dget (db_state d) key \<and>
     rows key (db_tasks d') = rows key (db_tasks d) \<and> rows key (db_observations d') = rows key (db_observations d) \<and>
     rows key (db_assignments d') = rows key (db_assignments d) \<and> rows key (db_epochs d') = rows key (db_epochs d) \<and>
     rows key (db_events d') = rows key (db_events d) \<and> rows key (db_steps d') = rows key (db_steps d) \<and>
     rows key (db_claim_observations d') = rows key (db_claim_observations d) \<and>
     rows key (db_claims d') = rows key (db_claims d) \<and> rows key (db_checkpoints d') = rows key (db_checkpoints d) \<and>
     rows key (db_results d') = rows key (db_results d)"

definition step_reservations :: "string \<Rightarrow> worker_step \<Rightarrow> database \<Rightarrow> resource_reservation list" where
  "step_reservations key st d =
     filter (\<lambda>r. rr_reservation_id r \<in> set (ws_reservation_ids st)) (rows key (db_reservations d))"

lemma rows_delete_cascade: "rows k (delete_cascade f ts t) = filter (\<lambda>r. f r \<notin> ts) (rows k t)"
  by (auto simp: rows_def delete_cascade_def filter_map o_def intro!: arg_cong [where f = "map snd"] filter_cong)

lemma dget_delete_key: "dget (delete_key key t) k = (if k = key then None else dget t k)"
  by (induction t) (auto simp: delete_key_def)

lemma reset_tables:
  assumes "reset_body key d = Inr (n, d')"
  shows "namespace_cleared key d'" and "k \<noteq> key \<Longrightarrow> same_namespace k d d'"
proof -
  have d': "d' = snd (projr (reset_body key d))" by (simp add: assms)
  have "at_task_id ` set (rows key (db_tasks d)) \<inter> foreign_task_references key d = {}" by (rule reset_frame(4) [OF assms])
  then show "namespace_cleared key d'" and "k \<noteq> key \<Longrightarrow> same_namespace k d d'"
    unfolding d' namespace_cleared_def same_namespace_def
    by (auto simp: reset_body_def Let_def raise_if_def rows_delete_cascade dget_delete_key)
qed

lemma reset_step_reservations:
  assumes inv: "fabric_inv uuid5 d" and reset: "reset_body key d = Inr (n, d')" and "k \<noteq> key"
    and st: "(k, st) \<in> set (db_steps d)" "step_reserved k st d"
  shows "step_reservations k st d' = step_reservations k st d"
proof -
  have "ws_task_id st \<in> ws_task_id ` snd ` set (delete_key key (db_steps d))"
    using st(1) assms(3) by (force simp: delete_key_def)
  then have free: "ws_task_id st \<notin> at_task_id ` set (rows key (db_tasks d))"
    using reset_frame(4) [OF reset] unfolding foreign_task_references_def by blast
  have "rr_task_id r = ws_task_id st"
    if rin: "r \<in> set (rows k (db_reservations d))" and rid: "rr_reservation_id r \<in> set (ws_reservation_ids st)" for r
  proof -
    obtain r' where "(k, r') \<in> set (db_reservations d)" "rr_reservation_id r' = rr_reservation_id r"
      "rr_task_id r' = ws_task_id st" using st(2) rid unfolding step_reserved_def by blast
    then show ?thesis using reservation_unique [of d k r r'] inv rin by (simp add: fabric_inv_def set_rows)
  qed
  then show ?thesis using free assms(3)
    unfolding step_reservations_def reset_frame(3) [OF reset] rows_delete_cascade
    by (auto intro!: filter_cong)
qed


end
