(* ===== verification/PoolSafety.thy ===== *)
theory PoolSafety
  imports Custody
begin

text \<open>
  Capacity is a system-wide matter: the pools of the host are shared by the reservations of all
  schedulers, and a claim lets a worker use the reservations of its step. A save keeps the reservations
  of all schedulers on the pools it uses within their capacity and leaves those of open claims as they
  are; a claim is granted only when the reservations of all live claims fit; and the reservations of live
  claims can always be read back.
\<close>

section \<open>Units on a pool\<close>

definition pool_units :: "string \<Rightarrow> database \<Rightarrow> int" where
  "pool_units i d = (\<Sum>r\<leftarrow>filter (\<lambda>r. rr_resource_id r = i) (map snd (db_reservations d)). rr_units r)"

definition live_ids :: "datetime \<Rightarrow> database \<Rightarrow> uuid set" where
  "live_ids now d = set (concat (map snd (load_active_claim_rows now d)))"

definition live_units :: "datetime \<Rightarrow> string \<Rightarrow> database \<Rightarrow> int" where
  "live_units now i d = (\<Sum>r\<leftarrow>filter (\<lambda>r. rr_resource_id r = i \<and> rr_reservation_id r \<in> live_ids now d)
     (map snd (db_reservations d)). rr_units r)"

text \<open>The stored pools and reservations are values that their validated constructors accept unchanged.\<close>

definition stored_valid :: "database \<Rightarrow> bool" where
  "stored_valid d \<longleftrightarrow> (\<forall>r\<in>set (map snd (db_reservations d)). row_to_reservation r = Inr r) \<and>
     (\<forall>p\<in>set (db_resources d). row_to_resource p = Inr p)"

lemma rmap_stable: "(\<And>x. x \<in> set xs \<Longrightarrow> f x = Inr x) \<Longrightarrow> rmap f xs = Inr xs"
  by (simp add: rmap_eq_Inr list_all2_same)

lemma stored_valid_rows:
  assumes "stored_valid d"
  shows "set rs \<subseteq> set (map snd (db_reservations d)) \<Longrightarrow> rmap row_to_reservation rs = Inr rs"
    and "r \<in> set (map snd (db_reservations d)) \<Longrightarrow> 1 \<le> rr_units r"
    and "rmap row_to_resource (sort_key f (db_resources d)) = Inr (sort_key f (db_resources d))"
proof -
  show "set rs \<subseteq> set (map snd (db_reservations d)) \<Longrightarrow> rmap row_to_reservation rs = Inr rs"
    using assms by (intro rmap_stable) (auto simp: stored_valid_def)
  show "1 \<le> rr_units r" if "r \<in> set (map snd (db_reservations d))"
  proof -
    have "row_to_reservation r = Inr r" using assms that unfolding stored_valid_def by blast
    then show ?thesis by (auto simp: row_to_reservation_def mk_ResourceReservation_def)
  qed
  show "rmap row_to_resource (sort_key f (db_resources d)) = Inr (sort_key f (db_resources d))"
    using assms by (intro rmap_stable) (auto simp: stored_valid_def)
qed

lemma units_by_resource_sum:
  "dval (units_by_resource rs) i = (\<Sum>r\<leftarrow>filter (\<lambda>r. rr_resource_id r = i) rs. rr_units r)"
  using dval_committed by (simp add: units_by_resource_def committed_by_resource_def)

lemma units_by_resource_mem:
  assumes "r \<in> set rs"
  shows "(rr_resource_id r, dval (units_by_resource rs) (rr_resource_id r)) \<in> set (units_by_resource rs)"
proof -
  have keys: "set (dkeys (fold (\<lambda>r u. dset (rr_resource_id r) (dval u (rr_resource_id r) + rr_units r) u) rs u)) =
      rr_resource_id ` set rs \<union> set (dkeys u)" for u
    by (induction rs arbitrary: u) (auto simp: dom_update dest!: arg_cong [where f = "\<lambda>s. x \<in> s" for x])
  then have "rr_resource_id r \<in> set (dkeys (units_by_resource rs))"
    using assms by (simp add: units_by_resource_def)
  then obtain v where "dget (units_by_resource rs) (rr_resource_id r) = Some v"
    by (metis domD dom_map_of_conv_image_fst image_set)
  then show ?thesis using map_of_SomeD by (fastforce simp: dval_def)
qed

section \<open>Saving\<close>

lemma save_scheduler_body:
  assumes "save_scheduler uuid5 intent_json dump key now (s, d) = (Inr u, (s', d'))"
  obtains x ts pb where "snapshot uuid5 intent_json s = Inr x" and "prepare_publication uuid5 intent_json s x = Inr pb"
    and "save_body uuid5 dump key now s x ts pb d = Inr ((), d')"
    and "publish_in_memory uuid5 intent_json (pb_preemption_state_revision pb) s = (Inr u, s')"
proof -
  obtain x ts pb where pre: "snapshot uuid5 intent_json s = Inr x" "pending_transitions_for_persistence s = Inr ts"
    "prepare_publication uuid5 intent_json s x = Inr pb"
    using assms by (auto simp: save_scheduler_def split: sum.splits)
  obtain r d0 where t: "transaction (save_body uuid5 dump key now s x ts pb) d = (r, d0)" by fastforce
  then have "r = Inr () \<and> d0 = d' \<and> publish_in_memory uuid5 intent_json (pb_preemption_state_revision pb) s = (Inr u, s')"
    using assms pre by (cases r) (auto simp: save_scheduler_def split: prod.splits)
  then show thesis using that [OF pre(1,3)] t by (simp add: transaction_returns)
qed

text \<open>C9. After a save, the reservations of all schedulers together stay within the safe capacity of every
  pool on which the saved scheduler holds a reservation.\<close>

theorem save_bounds_pools:
  assumes "fabric_reachable uuid5 intent_json dump dump_claim d"
    and "save_scheduler uuid5 intent_json dump key now (s, d) = (Inr u, (s', d'))"
    and "(key, r) \<in> set (db_reservations d')"
    and "find (\<lambda>p. er_resource_id p = rr_resource_id r) (db_resources d') = Some p"
  shows "pool_units (rr_resource_id r) d' \<le> admissible_capacity p"
proof -
  obtain x ts pb where save: "save_body uuid5 dump key now s x ts pb d = Inr ((), d')"
    using assms(2) by (rule save_scheduler_body)
  from save obtain d7 where same: "same_workers d d7"
    and rep: "replace_resource_reservations key now (pb_reservations pb) (pb_assignments pb)
       (map_option observed_admission_limits (pb_observation pb)) d7 = Inr d'" by (rule save_bodyE)
  have "reservation_inv d7"
    using fabric_reachable_inv [OF assms(1)] same_workers_inv(2) [OF same] by (simp add: fabric_inv_def)
  from rep this obtain current where
    d': "d' = (abandon_expired_claims_of key now d7)\<lparr>db_reservations := delete_key key (db_reservations d7) @ map (Pair key) (pb_reservations pb)\<rparr>"
    and pools: "\<forall>u\<in>set (units_by_resource (pb_reservations pb)).
       check_pool (map_option observed_admission_limits (pb_observation pb)) (map snd (delete_key key (db_reservations d7))) (db_resources d7) u = Inr ()"
    by (rule replaceE)
  have r: "r \<in> set (pb_reservations pb)" using assms(3) unfolding d' by (auto simp: set_delete_key)
  have p: "find (\<lambda>p. er_resource_id p = rr_resource_id r) (db_resources d7) = Some p"
    using assms(4) unfolding d' by (simp add: abandon_expired_claims_of_def)
  have "dval (units_by_resource (map snd (delete_key key (db_reservations d7)))) (rr_resource_id r) +
      dval (units_by_resource (pb_reservations pb)) (rr_resource_id r) \<le> admissible_capacity p"
    using bspec [OF pools units_by_resource_mem [OF r]] p
    by (auto simp: check_pool_def Let_def raise_if_def split: if_splits option.splits)
  then show ?thesis unfolding units_by_resource_sum pool_units_def d' by (simp add: o_def)
qed


lemma dict_of_unique:
  assumes "distinct (map key xs)"
  shows "dget (dict_of key xs) k = Some x \<longleftrightarrow> x \<in> set xs \<and> key x = k"
proof -
  have "dget (fold (\<lambda>x. dset (key x) x) xs d) k = Some x \<longleftrightarrow>
      x \<in> set xs \<and> key x = k \<or> k \<notin> key ` set xs \<and> dget d k = Some x" for d
    using assms by (induction xs arbitrary: d) (auto simp: update_conv)
  from this [of "[]"] show ?thesis by (simp add: dict_of_def)
qed

lemma reservation_ids_distinct:
  assumes "reservation_inv d"
  shows "distinct (map rr_reservation_id (rows key (db_reservations d)))"
  using assms by (simp add: reservation_inv_def rows_def distinct_map_filter)

text \<open>C8. A save never touches the reservations of a claim that it leaves open, whichever scheduler the claim
  belongs to: the rows with the reservation ids of its step are the same before and after.\<close>

theorem save_keeps_held_reservations:
  assumes "fabric_reachable uuid5 intent_json dump dump_claim d" and "stored_valid d"
    and "save_scheduler uuid5 intent_json dump key now (s, d) = (Inr u, (s', d'))"
    and "(k, c) \<in> set (db_claims d')" and "wc_status c = ACTIVE"
    and "(k, st) \<in> set (db_steps d')" and "ws_step_id st = wc_step_id c"
    and "rr_reservation_id r \<in> set (ws_reservation_ids st)"
  shows "(k, r) \<in> set (db_reservations d') \<longleftrightarrow> (k, r) \<in> set (db_reservations d)"
proof -
  obtain x ts pb where save: "save_body uuid5 dump key now s x ts pb d = Inr ((), d')"
    using assms(3) by (rule save_scheduler_body)
  from save obtain d7 where same: "same_workers d d7"
    and rep: "replace_resource_reservations key now (pb_reservations pb) (pb_assignments pb)
       (map_option observed_admission_limits (pb_observation pb)) d7 = Inr d'" by (rule save_bodyE)
  have rinv: "reservation_inv d7"
    using fabric_reachable_inv [OF assms(1)] same_workers_inv(2) [OF same] by (simp add: fabric_inv_def)
  have res: "db_reservations d7 = db_reservations d" using same by (simp add: same_workers_def)
  let ?a = "abandon_expired_claims_of key now d7"
  let ?held = "filter (\<lambda>r. rr_reservation_id r \<in> set (concat (map snd (held_claims key ?a)))) (rows key (db_reservations d7))"
  from rep rinv obtain current where
    d': "d' = ?a\<lparr>db_reservations := delete_key key (db_reservations d7) @ map (Pair key) (pb_reservations pb)\<rparr>"
    and rinv': "reservation_inv d'"
    and cur: "rmap row_to_reservation ?held = Inr current"
    and checks: "\<forall>h\<in>set (held_claims key ?a). check_held_claim (dict_of rr_reservation_id current)
       (dict_of rr_reservation_id (pb_reservations pb)) (dict_of da_assignment_id (pb_assignments pb)) h = Inr ()"
    by (rule replaceE)
  show ?thesis
  proof (cases "k = key")
    case False
    then show ?thesis unfolding d' by (auto simp: res set_delete_key)
  next
    case True
    have held: "(wc_assignment_id c, ws_reservation_ids st) \<in> set (held_claims key ?a)"
      by (rule held_claims_mem) (use assms(4-7) True d' in simp_all)
    note agree = check_held_claimD [OF bspec [OF checks held] assms(8)]
    have "current = ?held"
      using cur stored_valid_rows(1) [OF assms(2), of ?held] by (force simp: res set_rows)
    then have "dget (dict_of rr_reservation_id current) (rr_reservation_id r) = Some r \<longleftrightarrow> (key, r) \<in> set (db_reservations d)"
      using reservation_ids_distinct [OF rinv, of key] bexI [of "\<lambda>h. rr_reservation_id r \<in> set (snd h)", OF _ held] assms(8)
      by (auto simp: dict_of_unique distinct_map_filter set_rows res)
    moreover have "rows key (db_reservations d') = pb_reservations pb"
      unfolding d' by (simp add: rows_def delete_key_def filter_map o_def)
    then have "dget (dict_of rr_reservation_id (pb_reservations pb)) (rr_reservation_id r) = Some r \<longleftrightarrow>
        (key, r) \<in> set (db_reservations d')"
      using reservation_ids_distinct [OF rinv', of key] by (simp add: dict_of_unique flip: set_rows)
    ultimately show ?thesis using agree(2) True by simp
  qed
qed

section \<open>Live claims\<close>

lemma live_ids_iff:
  "i \<in> live_ids now d \<longleftrightarrow> (\<exists>k c st. (k, c) \<in> set (db_claims d) \<and> live_claim now c \<and> (k, st) \<in> set (db_steps d) \<and>
     ws_step_id st = wc_step_id c \<and> i \<in> set (ws_reservation_ids st))"
proof -
  have "i \<in> live_ids now d \<longleftrightarrow> (\<exists>kc\<in>set (db_claims d). live_claim now (snd kc) \<and> (\<exists>st\<in>set (rows (fst kc) (db_steps d)).
      ws_step_id st = wc_step_id (snd kc) \<and> i \<in> set (ws_reservation_ids st)))"
    by (auto simp: live_ids_def load_active_claim_rows_def split: if_splits)
  then show ?thesis by (force simp: set_rows)
qed

lemma live_reserved:
  assumes "held_inv d"
  shows "live_ids now d \<subseteq> rr_reservation_id ` set (map snd (db_reservations d))"
proof
  fix i assume "i \<in> live_ids now d"
  then obtain k c st where "(k, c) \<in> set (db_claims d)" "live_claim now c" "(k, st) \<in> set (db_steps d)"
    "ws_step_id st = wc_step_id c" "i \<in> set (ws_reservation_ids st)" unfolding live_ids_iff by blast
  then obtain r where "(k, r) \<in> set (db_reservations d)" "rr_reservation_id r = i"
    using assms unfolding held_inv_def live_claim_def step_reserved_def by blast
  then show "i \<in> rr_reservation_id ` set (map snd (db_reservations d))" by force
qed

lemma load_claim_reservations_eq:
  assumes "load_claim_reservations (load_active_claim_rows now d) d = Inr rs" and "stored_valid d"
  shows "rs = sort_key reservation_key (filter (\<lambda>r. rr_reservation_id r \<in> live_ids now d) (map snd (db_reservations d)))"
proof (cases "live_ids now d = {}")
  case True
  then show ?thesis using assms(1) by (simp add: load_claim_reservations_def live_ids_def)
next
  case False
  let ?rs = "sort_key reservation_key (filter (\<lambda>r. rr_reservation_id r \<in> live_ids now d) (map snd (db_reservations d)))"
  have "rmap row_to_reservation ?rs = Inr rs"
    using False assms(1) by (auto simp: load_claim_reservations_def Let_def live_ids_def raise_if_def split: if_splits)
  then show ?thesis using stored_valid_rows(1) [OF assms(2), of ?rs] by simp
qed

text \<open>C10. The reservations of the live claims can always be read: the error that an active claim references a
  released reservation is unreachable.\<close>

theorem live_reservations_load:
  assumes "fabric_reachable uuid5 intent_json dump dump_claim d" and "stored_valid d"
  shows "load_claim_reservations (load_active_claim_rows now d) d =
    Inr (sort_key reservation_key (filter (\<lambda>r. rr_reservation_id r \<in> live_ids now d) (map snd (db_reservations d))))"
proof -
  let ?rs = "sort_key reservation_key (filter (\<lambda>r. rr_reservation_id r \<in> live_ids now d) (map snd (db_reservations d)))"
  have "live_ids now d \<subseteq> rr_reservation_id ` set (map snd (db_reservations d))"
    by (rule live_reserved) (use fabric_reachable_inv [OF assms(1)] in \<open>simp add: fabric_inv_def\<close>)
  then have "set (map rr_reservation_id ?rs) = live_ids now d" by fastforce
  moreover have "rmap row_to_reservation ?rs = Inr ?rs" by (rule stored_valid_rows(1) [OF assms(2)]) auto
  ultimately have "load_claim_reservations (load_active_claim_rows now d) d = (if live_ids now d = {} then Inr [] else Inr ?rs)"
    by (simp add: load_claim_reservations_def live_ids_def Let_def)
  then show ?thesis by auto
qed


text \<open>What the fresh observation says of a pool that has room: its committed units are the ones of the live
  claims, and the pool is enabled and large enough.\<close>

lemma observed_room:
  assumes "observe_pools policy metrics healthy by_id rs budget = Inr cs" and "c \<in> set cs"
    and "oc_committed_units c < oc_admission_capacity c"
  shows "\<exists>p\<in>set rs. oc_resource_id c = py_strip (er_resource_id p) \<and> er_enabled p \<and>
    oc_committed_units c = dval by_id (er_resource_id p) \<and> oc_admission_capacity c \<le> admissible_capacity p"
  using assms(1,2)
proof (induction rs arbitrary: budget cs)
  case (Cons p rs)
  let ?n = "dval by_id (er_resource_id p)"
  obtain ms ob un adm budget' where
    step: "observe_pool policy metrics healthy ?n p budget = (ms, ob, un, adm, budget')"
    by (metis prod_cases5)
  let ?c = "\<lparr>oc_resource_id = er_resource_id p, oc_resource_class = er_resource_class p,
              oc_measurement = ms, oc_configured_capacity = er_capacity p,
              oc_configured_headroom_units = er_system_headroom p, oc_committed_units = ?n,
              oc_observed_available_units = ob, oc_uncertainty_headroom_units = un,
              oc_admission_capacity = adm\<rparr>"
  obtain c' cs' where v: "validate_capacity_envelope ?c = Inr c'"
    and rest: "observe_pools policy metrics healthy by_id rs budget' = Inr cs'" and cs: "cs = c' # cs'"
    using Cons.prems(1) step by auto
  have c': "oc_resource_id c' = py_strip (er_resource_id p)" "oc_committed_units c' = ?n" "oc_admission_capacity c' = adm"
    "adm \<le> er_capacity p - er_system_headroom p"
    using v by (auto simp: validate_capacity_envelope_def normalize_resource_id_def)
  show ?case
  proof (cases "c = c'")
    case True
    then have "er_enabled p" using assms(3) c' step by (auto simp: observe_pool_def split: if_splits)
    then show ?thesis using True c' by (auto simp: admissible_capacity_def)
  next
    case False
    then show ?thesis using Cons.IH [OF rest] Cons.prems(2) cs by auto
  qed
qed simp

lemma build_observation_capacities:
  assumes "build_resource_observation uuid5 dump n t resources rs policy metrics errs host = Inr o1"
  obtains healthy budget cs where
    "observe_pools policy metrics healthy (committed_by_resource rs) (sort_key execution_resource_sort_key resources) budget = Inr cs"
    and "set (ob_capacities o1) = set cs" and "distinct (map oc_resource_id (ob_capacities o1))"
proof -
  obtain healthy budget cs o0 where
    obs: "observe_pools policy metrics healthy (committed_by_resource rs) (sort_key execution_resource_sort_key resources) budget = Inr cs"
    and v: "validate_observation uuid5 dump o0 = Inr o1" and o0: "ob_capacities o0 = cs"
    using assms by (auto simp: build_resource_observation_def Let_def)
  have "ob_capacities o1 = sort_key observed_capacity_sort_key cs" "distinct (map oc_resource_id cs)"
    using v o0 by (auto simp: validate_observation_def Let_def)
  moreover have "distinct (map oc_resource_id (sort_key observed_capacity_sort_key cs))"
    using \<open>distinct (map oc_resource_id cs)\<close> by (metis mset_eq_imp_distinct_iff mset_map mset_sort)
  ultimately show thesis by (intro that [OF obs]) simp_all
qed

lemma capacity_denial_None:
  assumes "capacity_denial caps rs = None" and "r \<in> set rs"
  shows "\<exists>c. dget caps (rr_resource_id r) = Some c \<and> rr_units r \<le> available_for_new_work c"
  using assms by (induction rs) (auto split: option.splits if_splits)

lemma target_reservations_eq:
  assumes "load_target_reservations key st d = Inr rs" and "stored_valid d"
  shows "rs = sort_key reservation_key (filter (\<lambda>r. rr_reservation_id r \<in> set (ws_reservation_ids st)) (rows key (db_reservations d)))"
    and "\<forall>r\<in>set rs. rr_task_id r = ws_task_id st"
proof -
  let ?rs = "sort_key reservation_key (filter (\<lambda>r. rr_reservation_id r \<in> set (ws_reservation_ids st)) (rows key (db_reservations d)))"
  have "rmap row_to_reservation ?rs = Inr ?rs" by (rule stored_valid_rows(1) [OF assms(2)]) (force simp: set_rows)
  then show "rs = ?rs" and "\<forall>r\<in>set rs. rr_task_id r = ws_task_id st"
    using assms(1) by (auto simp: load_target_reservations_def Let_def)
qed

lemma sum_filter_un:
  assumes "\<And>x. x \<in> set xs \<Longrightarrow> (0::int) \<le> f x"
  shows "(\<Sum>x\<leftarrow>filter (\<lambda>x. P x \<or> Q x) xs. f x) \<le> (\<Sum>x\<leftarrow>filter P xs. f x) + (\<Sum>x\<leftarrow>filter Q xs. f x)"
  using assms by (induction xs) force+

lemma sum_filter_mono:
  assumes "\<And>x. x \<in> set xs \<Longrightarrow> (0::int) \<le> f x" and "\<And>x. P x \<Longrightarrow> Q x"
  shows "(\<Sum>x\<leftarrow>filter P xs. f x) \<le> (\<Sum>x\<leftarrow>filter Q xs. f x)"
  using assms by (induction xs) force+

lemma sum_filter_single:
  assumes "distinct (map g xs)" and "\<And>x. x \<in> set xs \<Longrightarrow> P x \<Longrightarrow> x = a" and "(0::int) \<le> f a"
  shows "(\<Sum>x\<leftarrow>filter P xs. f x) \<le> f a"
  using assms(1,2)
proof (induction xs)
  case (Cons x xs)
  show ?case
  proof (cases "P x")
    case True
    then have "x = a" using Cons.prems(2) by simp
    then have "filter P xs = []" using Cons.prems by (force simp: filter_empty_conv)
    then show ?thesis using True \<open>x = a\<close> by simp
  qed (use Cons in simp)
qed (use assms(3) in simp)

text \<open>The reservations of a step on one pool: there is only one.\<close>

lemma step_reservation_single:
  assumes inv: "reservation_inv d"
    and ids: "set (ws_reservation_ids st) \<subseteq> rr_reservation_id ` set (rows key (db_reservations d))"
    and task: "\<forall>r\<in>set (rows key (db_reservations d)). rr_reservation_id r \<in> set (ws_reservation_ids st) \<longrightarrow> rr_task_id r = ws_task_id st"
    and r: "r \<in> set (rows key (db_reservations d))" "rr_reservation_id r \<in> set (ws_reservation_ids st)"
    and x: "(k, x) \<in> set (db_reservations d)" "rr_reservation_id x \<in> set (ws_reservation_ids st)" "rr_resource_id x = rr_resource_id r"
  shows "x = r"
proof -
  obtain y where y: "(key, y) \<in> set (db_reservations d)" "rr_reservation_id y = rr_reservation_id x"
    using ids x(2) by (auto simp: set_rows)
  have "(key, y) = (k, x)"
    by (rule inj_onD [of "rr_reservation_id \<circ> snd" "set (db_reservations d)"])
      (use inv x(1) y in \<open>simp_all add: reservation_inv_def distinct_map\<close>)
  then have xin: "x \<in> set (rows key (db_reservations d))" using y(1) by (simp add: set_rows)
  then have "rr_task_id x = rr_task_id r" using task r x(2) by simp
  then have "(\<lambda>(k, r). (k, rr_task_id r, rr_resource_id r)) (key, x) = (\<lambda>(k, r). (k, rr_task_id r, rr_resource_id r)) (key, r)"
    using x(3) by simp
  then have "(key, x) = (key, r)"
    using inv xin r(1) unfolding reservation_inv_def distinct_map set_rows inj_on_def by blast
  then show ?thesis by simp
qed


text \<open>The arithmetic of a grant: when the live claims before it commit \<open>n\<close> units of the pool of one of its
  reservations, the claims after it commit at most the units of that reservation more.\<close>

lemma granted_units:
  assumes valid: "stored_valid d" and inv: "reservation_inv d"
    and ids: "set (ws_reservation_ids st) \<subseteq> rr_reservation_id ` set (rows key (db_reservations d))"
    and task: "\<forall>r\<in>set (rows key (db_reservations d)). rr_reservation_id r \<in> set (ws_reservation_ids st) \<longrightarrow> rr_task_id r = ws_task_id st"
    and r: "r \<in> set (rows key (db_reservations d))" "rr_reservation_id r \<in> set (ws_reservation_ids st)"
    and res: "db_reservations d' = db_reservations d"
    and live: "live_ids now d' \<subseteq> live_ids now d \<union> set (ws_reservation_ids st)"
  shows "live_units now (rr_resource_id r) d' \<le> live_units now (rr_resource_id r) d + rr_units r"
proof -
  let ?rs = "map snd (db_reservations d)" and ?i = "rr_resource_id r" and ?ids = "set (ws_reservation_ids st)"
  have pos: "1 \<le> rr_units x" if "x \<in> set ?rs" for x by (rule stored_valid_rows(2) [OF valid that])
  have nonneg: "0 \<le> rr_units x" if "x \<in> set ?rs" for x using pos [OF that] by simp
  have rin: "r \<in> set ?rs" using r(1) by (force simp: set_rows)
  have sub: "(\<Sum>x\<leftarrow>filter P ?rs. rr_units x) \<le> (\<Sum>x\<leftarrow>filter Q ?rs. rr_units x)" if "\<And>x. P x \<Longrightarrow> Q x" for P Q
    by (rule sum_filter_mono [OF nonneg that])
  have "live_units now ?i d' \<le> (\<Sum>x\<leftarrow>filter (\<lambda>x. (rr_resource_id x = ?i \<and> rr_reservation_id x \<in> live_ids now d) \<or>
      (rr_resource_id x = ?i \<and> rr_reservation_id x \<in> ?ids)) ?rs. rr_units x)"
    unfolding live_units_def res by (rule sub) (use live in auto)
  also have "\<dots> \<le> live_units now ?i d + (\<Sum>x\<leftarrow>filter (\<lambda>x. rr_resource_id x = ?i \<and> rr_reservation_id x \<in> ?ids) ?rs. rr_units x)"
    unfolding live_units_def by (rule sum_filter_un) (rule nonneg)
  also have "(\<Sum>x\<leftarrow>filter (\<lambda>x. rr_resource_id x = ?i \<and> rr_reservation_id x \<in> ?ids) ?rs. rr_units x) \<le> rr_units r"
    by (rule sum_filter_single [of rr_reservation_id])
      (use inv step_reservation_single [OF inv ids task r] nonneg [OF rin] in \<open>auto simp: reservation_inv_def\<close>)
  finally show ?thesis by simp
qed

lemma grant_live_ids:
  assumes inv: "lease_inv uuid5 d" and st: "(key, st) \<in> set (db_steps d)"
    and claims: "db_claims d' = insert_row key c (db_claims d)" and steps: "db_steps d' = db_steps d"
    and c: "wc_step_id c = ws_step_id st"
  shows "live_ids now d' \<subseteq> live_ids now d \<union> set (ws_reservation_ids st)"
proof
  fix i assume "i \<in> live_ids now d'"
  then obtain k b s where b: "(k, b) \<in> set (db_claims d')" "live_claim now b" and s: "(k, s) \<in> set (db_steps d)"
    "ws_step_id s = wc_step_id b" and i: "i \<in> set (ws_reservation_ids s)" unfolding live_ids_iff steps by blast
  show "i \<in> live_ids now d \<union> set (ws_reservation_ids st)"
  proof (cases "(k, b) \<in> set (db_claims d)")
    case True
    then have "i \<in> live_ids now d" unfolding live_ids_iff using b s i by blast
    then show ?thesis by blast
  next
    case False
    then have "k = key" "b = c" using b(1) unfolding claims by auto
    then have "s = st" using lease_invD(1) [OF inv, of key] s st c by (metis distinct_map inj_onD set_rows)
    then show ?thesis using i by simp
  qed
qed

text \<open>C4. Every grant fits: after a claim is granted, the reservations of all live claims of all schedulers on
  each pool that the granted step uses are within the safe capacity of that pool, which is enabled.\<close>

theorem grant_within_capacity:
  assumes reach: "fabric_reachable uuid5 intent_json dump dump_claim d" and valid: "stored_valid d"
    and claim: "guarded_claim_worker_step uuid5 dump dump_claim key i w probe expected now pub n d = (Inr a, d')"
    and env: "wa_envelope a = Some e"
    and r: "(key, r) \<in> set (db_reservations d)" "rr_reservation_id r \<in> set (ws_reservation_ids (we_step e))"
  shows "\<exists>p\<in>set (db_resources d). er_resource_id p = rr_resource_id r \<and> er_enabled p \<and>
    live_units now (rr_resource_id r) d' \<le> admissible_capacity p"
proof -
  obtain t where t: "store_as_utc now = Inr t"
    and body: "guarded_claim_body uuid5 dump dump_claim key i (py_strip w) probe expected t pub n d = Inr (a, d')"
    using claim by (auto simp: guarded_claim_worker_step_def sbind_eq_Inr transaction_returns)
  have inst: "dt_instant t = dt_instant now" using store_as_utc_Inr [OF t] by simp
  then have live_now: "live_ids now x = live_ids t x" for x
    by (simp add: live_ids_def load_active_claim_rows_def live_claim_def)
  have linv: "lease_inv uuid5 d" and rinv: "reservation_inv d" and hinv: "held_inv d"
    using fabric_reachable_inv [OF reach] by (simp_all add: fabric_inv_def)
  from body show ?thesis
  proof (rule guarded_claim_bodyE)
    fix state committed policy st resources checkpoint existing latest active reserved snapshot gated pubt o1 d1 d2
    assume step: "load_step uuid5 key i d = Inr st"
      and pools: "rmap row_to_resource (sort_key er_resource_id (db_resources d)) = Inr resources"
      and d1: "d1 = abandon_expired_claims t d" and act: "active = load_active_claim_rows t d1"
      and loaded: "load_claim_reservations active d1 = Inr reserved"
      and built: "build_resource_observation uuid5 dump (max 1 (st_cycle state)) t resources reserved policy
       (case probe of Inl _ \<Rightarrow> None | Inr m \<Rightarrow> Some m) (case probe of Inl msg \<Rightarrow> [msg] | Inr _ \<Rightarrow> [])
       (''worker-claim:'' @ key) = Inr snapshot"
      and gate: "gate_reason key st snapshot (structural_claim_denial key state st latest existing t policy expected
       committed d1) d1 = Inr gated"
      and ob: "insert_immutable_claim_observation uuid5 dump dump_claim key o1 d1 = Inr d2"
      and fin: "publication_reason snapshot pubt gated \<noteq> None \<and> a = \<lparr>wa_observation = o1, wa_envelope = None\<rparr> \<and> d' = d2 \<or>
     publication_reason snapshot pubt gated = None \<and> grant_claim uuid5 key st (py_strip w) checkpoint o1 pubt n d2 = Inr (a, d')"
    have gr: "grant_claim uuid5 key st (py_strip w) checkpoint o1 pubt n d2 = Inr (a, d')" and "gated = None"
      using fin env by (auto simp: publication_reason_def split: if_splits)
    then obtain target where target: "load_target_reservations key st d1 = Inr target"
      and room: "capacity_denial (capacity_by_resource_id snapshot) target = None"
      using gate by (auto simp: gate_reason_def resource_claim_denial_def split: option.splits if_splits)
    obtain c0 c where vc: "validate_claim uuid5 c0 = Inr c" "wc_step_id c0 = ws_step_id st" and ins: "insert_claim key c d2 = Inr d'"
      and st: "we_step e = st"
      using gr env by (auto simp: grant_claim_def Let_def validate_envelope_def validate_attempt_def raise_if_def
          split: if_splits option.splits)
    have c: "wc_step_id c = ws_step_id st" using validate_claim_stable [OF vc(1)] vc(2) by simp
    have d': "d' = d2\<lparr>db_claims := insert_row key c (db_claims d2)\<rparr>" using ins by (rule insert_claimE)
    have same: "db_reservations d1 = db_reservations d" "db_resources d1 = db_resources d" "db_steps d1 = db_steps d"
      unfolding d1 by (simp_all add: abandon_expired_claims_def)
    have same2: "db_reservations d2 = db_reservations d1" "db_steps d2 = db_steps d1" "db_claims d2 = db_claims d1"
      using insert_rows_same_leases(3) [OF ob] by (simp_all add: same_leases_def)
    have valid1: "stored_valid d1" using valid by (simp add: stored_valid_def same)
    have rinv1: "reservation_inv d1" using rinv by (simp add: reservation_inv_def same)
    have linv1: "lease_inv uuid5 d1" using good_abandon [OF linv, of t] unfolding d1 by (simp add: good_step_def)
    note tg = target_reservations_eq [OF target valid1]
    have rin: "r \<in> set (rows key (db_reservations d1))" "rr_reservation_id r \<in> set (ws_reservation_ids st)"
      using r st by (simp_all add: set_rows same)
    then have "r \<in> set target" using tg(1) by simp
    then obtain cap where cap: "dget (capacity_by_resource_id snapshot) (rr_resource_id r) = Some cap"
      and fits: "rr_units r \<le> available_for_new_work cap" using capacity_denial_None [OF room] by blast
    have pos: "1 \<le> rr_units r" by (rule stored_valid_rows(2) [OF valid1]) (use rin(1) in \<open>force simp: set_rows\<close>)
    obtain healthy budget cs where obs: "observe_pools policy (case probe of Inl _ \<Rightarrow> None | Inr m \<Rightarrow> Some m) healthy
        (committed_by_resource reserved) (sort_key execution_resource_sort_key resources) budget = Inr cs"
      and caps: "set (ob_capacities snapshot) = set cs" by (rule build_observation_capacities [OF built])
    have capin: "cap \<in> set cs" "oc_resource_id cap = rr_resource_id r"
      using dict_of_Some [of oc_resource_id "ob_capacities snapshot"] cap caps by (auto simp: capacity_by_resource_id_def)
    have "resources = sort_key er_resource_id (db_resources d)" using pools stored_valid_rows(3) [OF valid, of er_resource_id] by simp
    with observed_room [OF obs capin(1)] fits pos obtain p where p: "p \<in> set (db_resources d)" "er_enabled p"
      "oc_resource_id cap = py_strip (er_resource_id p)"
      "oc_committed_units cap = dval (committed_by_resource reserved) (er_resource_id p)"
      "oc_admission_capacity cap \<le> admissible_capacity p"
      by (auto simp: available_for_new_work_def)
    have "row_to_resource p = Inr p" using valid p(1) by (simp add: stored_valid_def)
    then have "py_strip (er_resource_id p) = er_resource_id p"
      by (cases p) (auto simp: row_to_resource_def mk_ExecutionResource_def normalize_resource_id_def)
    then have pid: "er_resource_id p = rr_resource_id r" using p(3) capin(2) by simp
    have "reserved = sort_key reservation_key (filter (\<lambda>r. rr_reservation_id r \<in> live_ids t d1) (map snd (db_reservations d1)))"
      by (rule load_claim_reservations_eq [OF _ valid1]) (use loaded act in simp)
    then have committed: "dval (committed_by_resource reserved) (rr_resource_id r) = live_units t (rr_resource_id r) d1"
      unfolding dval_committed live_units_def
      by (simp add: sum_list_filter_mset [OF mset_sort] conj_commute)
    have "live_units t (rr_resource_id r) d' \<le> live_units t (rr_resource_id r) d1 + rr_units r"
    proof (rule granted_units [OF valid1 rinv1 target_reservationsD [OF target] _ rin])
      show "\<forall>r\<in>set (rows key (db_reservations d1)). rr_reservation_id r \<in> set (ws_reservation_ids st) \<longrightarrow> rr_task_id r = ws_task_id st"
        using tg by simp
      show "db_reservations d' = db_reservations d1" using d' same2 by simp
      show "live_ids t d' \<subseteq> live_ids t d1 \<union> set (ws_reservation_ids st)"
        by (rule grant_live_ids [OF linv1 _ _ _ c]) (use loaded_step(1) [OF linv step] d' same same2 in simp_all)
    qed
    then have "live_units t (rr_resource_id r) d' \<le> admissible_capacity p"
      using committed p(4,5) fits pid by (simp add: available_for_new_work_def)
    then show ?thesis using p(1,2) pid by (auto simp: live_units_def live_now)
  qed
qed

end
