(* ===== verification/FabricRun.thy ===== *)
theory FabricRun
  imports PoolSafety Admission
begin

text \<open>
  A sample run of the fabric and the instances of its theorems on it. A scheduler plans one job under an
  observed host and saves the epoch; a worker step is registered for it. As an idempotent step it is
  claimed, checkpointed, claimed again and completed, and the scheduler is saved once more while the
  second claim is open; as an at-most-once step it is claimed and its lease runs out.
\<close>

section \<open>A sample run\<close>

definition demo_uuid5 :: "uuid \<Rightarrow> string \<Rightarrow> uuid" where
  "demo_uuid5 ns name = 1000 * of_nat (length name) + (case rev name of [] \<Rightarrow> 0 | c # _ \<Rightarrow> of_char c)"

definition demo_dump :: "claim_observation \<Rightarrow> string" where
  "demo_dump o1 = replicate (nat (dt_instant (wo_captured_at o1) div 1000000)) (CHR ''x'')"

definition demo_job :: attention_task where
  "demo_job = \<lparr>at_task_id = 1000, at_task_key = ''summarise'', at_created_seq = 1,
     at_metadata = (sample_metadata OPPORTUNISTIC SUPPORT PREEMPTIBLE [cpu_units 2])
       \<lparr>sm_required_capabilities := [''summarise'']\<rparr>,
     at_parent_task_id = None, at_status = NEW, at_enqueued_cycle = 0, at_revision = 0, at_resumable_state = []\<rparr>"

definition demo_planned :: scheduler where
  "demo_planned = snd (controller_plan demo_uuid5 (\<lambda>_. []) (\<lambda>_. []) sample_controller (Aware 1000000 0)
     (Inr sample_metrics) (snd (init_controller sample_controller (snd (submit demo_uuid5 demo_job sample_idle)))))"

definition demo_first :: "(py_error + unit) \<times> scheduler \<times> database" where
  "demo_first = save_scheduler demo_uuid5 (\<lambda>_. []) (\<lambda>_. []) ''chat'' (Aware 1000000 0) (demo_planned, empty_database)"

definition demo_base :: database where
  "demo_base = snd (snd demo_first)"

definition demo_resave :: "scheduler \<Rightarrow> database \<Rightarrow> (py_error + unit) \<times> scheduler \<times> database" where
  "demo_resave s d = save_scheduler demo_uuid5 (\<lambda>_. []) (\<lambda>_. []) ''chat'' (Aware 4500000 0) (s, d)"

definition demo_register :: "worker_effect_policy \<Rightarrow> database \<Rightarrow> database" where
  "demo_register p d = snd (register_worker_step demo_uuid5 ''chat''
     (hd (map da_assignment_id (rows ''chat'' (db_assignments d)))) ''draft'' ''summarise'' [''ref''] p d)"

definition demo_claim :: "int \<Rightarrow> database \<Rightarrow> (py_error + claim_attempt) \<times> database" where
  "demo_claim t d = guarded_claim_worker_step demo_uuid5 (\<lambda>_. []) demo_dump ''chat''
     (hd (map ws_step_id (rows ''chat'' (db_steps d)))) ''w1'' (Inr sample_metrics) None (Aware t 0) (Aware t 0) 60 d"

definition demo_checkpoint :: "int \<Rightarrow> database \<Rightarrow> database" where
  "demo_checkpoint t d = snd (checkpoint_worker_claim demo_uuid5 ''chat''
     (last (map wc_claim_id (rows ''chat'' (db_claims d)))) ''w1'' [] [] (Aware t 0) d)"

definition demo_heartbeat :: "int \<Rightarrow> database \<Rightarrow> database" where
  "demo_heartbeat t d = snd (heartbeat_worker_claim demo_uuid5 ''chat''
     (last (map wc_claim_id (rows ''chat'' (db_claims d)))) ''w1'' 60 (Aware t 0) d)"

definition demo_complete :: "database \<Rightarrow> (py_error + worker_result) \<times> database" where
  "demo_complete d = complete_worker_claim demo_uuid5 ''chat''
     (last (map wc_claim_id (rows ''chat'' (db_claims d)))) ''w1'' [] ['' a''] (Aware 5000000 0) d"

definition demo_checkpointed :: "database \<Rightarrow> database" where
  "demo_checkpointed d = demo_checkpoint 3000000 (snd (demo_claim 2000000 (demo_register IDEMPOTENT_WITH_KEY d)))"

definition demo_reclaimed :: "database \<Rightarrow> database" where
  "demo_reclaimed d = snd (demo_claim 4000000 (demo_checkpointed d))"

definition demo_abandoned :: "database \<Rightarrow> database" where
  "demo_abandoned d = demo_heartbeat 100000000 (snd (demo_claim 2000000 (demo_register AT_MOST_ONCE d)))"

text \<open>What is read off the run, evaluated once.\<close>

definition claim_log :: "database \<Rightarrow> (string \<times> worker_claim_status \<times> int \<times> int) list" where
  "claim_log d = map (\<lambda>kc. (fst kc, wc_status (snd kc), wc_attempt (snd kc), wc_checkpoint_revision (snd kc))) (db_claims d)"

definition step_log :: "database \<Rightarrow> (string \<times> worker_effect_policy) list" where
  "step_log d = map (\<lambda>ks. (fst ks, ws_effect_policy (snd ks))) (db_steps d)"

definition check_saved :: "database \<Rightarrow> bool" where
  "check_saved d \<longleftrightarrow> db_reservations d \<noteq> [] \<and> fst (hd (db_reservations d)) = ''chat'' \<and> stored_valid d \<and>
     find (\<lambda>p. er_resource_id p = rr_resource_id (snd (hd (db_reservations d)))) (db_resources d) \<noteq> None"

definition check_checkpointed :: "database \<Rightarrow> bool" where
  "check_checkpointed d \<longleftrightarrow> db_reservations d \<noteq> [] \<and> fst (hd (db_reservations d)) = ''chat'' \<and> stored_valid d \<and>
     (case demo_claim 4000000 d of
        (Inr a, _) \<Rightarrow> (case wa_envelope a of
            Some e \<Rightarrow> rr_reservation_id (snd (hd (db_reservations d))) \<in> set (ws_reservation_ids (we_step e)) | None \<Rightarrow> False)
      | (Inl _, _) \<Rightarrow> False)"

definition check_reclaimed :: "database \<Rightarrow> bool" where
  "check_reclaimed d \<longleftrightarrow>
     claim_log d = [(''chat'', CHECKPOINTED, 1, 0), (''chat'', ACTIVE, 2, 1)] \<and>
     step_log d = [(''chat'', IDEMPOTENT_WITH_KEY)] \<and>
     list_all (\<lambda>kc. wc_step_id (snd kc) = ws_step_id (snd (hd (db_steps d)))) (db_claims d) \<and>
     live_claim (Aware 4500000 0) (snd (last (db_claims d))) \<and> wc_worker_id (snd (last (db_claims d))) = ''w1'' \<and>
     db_reservations d \<noteq> [] \<and> fst (hd (db_reservations d)) = ''chat'' \<and> stored_valid d \<and>
     rr_reservation_id (snd (hd (db_reservations d))) \<in> set (ws_reservation_ids (snd (hd (db_steps d))))"

definition check_resaved :: "database \<Rightarrow> (py_error + unit) \<times> scheduler \<times> database \<Rightarrow> bool" where
  "check_resaved d x \<longleftrightarrow> (case x of (Inr _, _, d') \<Rightarrow> db_steps d' = db_steps d \<and> db_claims d' = db_claims d
      | (Inl _, _, _) \<Rightarrow> False)"

definition check_completed :: "database \<Rightarrow> (py_error + worker_result) \<times> database \<Rightarrow> bool" where
  "check_completed d x \<longleftrightarrow> (case x of (Inr r, d') \<Rightarrow> db_results d' = [(''chat'', r)] \<and>
        wr_step_id r = ws_step_id (snd (hd (db_steps d))) | (Inl _, _) \<Rightarrow> False)"

definition check_abandoned :: "database \<Rightarrow> bool" where
  "check_abandoned d \<longleftrightarrow> claim_log d = [(''chat'', ABANDONED, 1, 0)] \<and> step_log d = [(''chat'', AT_MOST_ONCE)] \<and>
     list_all (\<lambda>kc. wc_step_id (snd kc) = ws_step_id (snd (hd (db_steps d)))) (db_claims d)"

definition check_demo :: bool where
  "check_demo \<longleftrightarrow>
     (let x = demo_first; d = snd (snd x)
      in if \<not> (succeeds (fst x) \<and> check_saved d) then False
         else let c = demo_checkpointed d
      in if \<not> check_checkpointed c then False
         else let r = snd (demo_claim 4000000 c)
      in if \<not> check_reclaimed r then False
         else if \<not> check_completed r (demo_complete r) then False
         else if \<not> check_resaved r (demo_resave (fst (snd x)) r) then False
         else check_abandoned (demo_abandoned d))"

lemma demo_checked: "check_demo"
  by code_simp

lemma demo_facts:
  "succeeds (fst demo_first)" "check_saved demo_base" "check_checkpointed (demo_checkpointed demo_base)"
  "check_reclaimed (demo_reclaimed demo_base)"
  "check_completed (demo_reclaimed demo_base) (demo_complete (demo_reclaimed demo_base))"
  "check_resaved (demo_reclaimed demo_base) (demo_resave (fst (snd demo_first)) (demo_reclaimed demo_base))"
  "check_abandoned (demo_abandoned demo_base)"
  using demo_checked unfolding check_demo_def Let_def demo_reclaimed_def demo_base_def
  by (simp_all split: if_splits)

abbreviation demo_step :: "database \<Rightarrow> database \<Rightarrow> bool" where
  "demo_step \<equiv> fabric_step demo_uuid5 (\<lambda>_. []) (\<lambda>_. []) demo_dump"

abbreviation demo_reachable :: "database \<Rightarrow> bool" where
  "demo_reachable \<equiv> fabric_reachable demo_uuid5 (\<lambda>_. []) (\<lambda>_. []) demo_dump"

lemma demo_steps:
  "demo_step d (demo_register p d)" "demo_step d (snd (demo_claim t d))" "demo_step d (demo_checkpoint t d)"
  "demo_step d (demo_heartbeat t d)" "demo_step d (snd (demo_complete d))"
  unfolding demo_register_def demo_claim_def demo_checkpoint_def demo_heartbeat_def demo_complete_def
  by (rule fabric_step.register fabric_step.claim fabric_step.checkpoint fabric_step.heartbeat fabric_step.complete)+

lemma demo_base_reachable: "demo_reachable demo_base"
  unfolding demo_base_def demo_first_def by (rule fabric_reachable.step [OF fabric_reachable.init fabric_step.save])

lemma demo_reachable: "demo_reachable (demo_reclaimed demo_base)" "demo_reachable (demo_abandoned demo_base)"
  "demo_reachable (demo_checkpointed demo_base)"
  unfolding demo_reclaimed_def demo_abandoned_def demo_checkpointed_def
  by (rule fabric_reachable.step, (rule demo_base_reachable demo_steps fabric_reachable.step)+)+

lemma demo_reclaimed_obtain:
  obtains st b c r d' where "db_steps (demo_reclaimed demo_base) = [(''chat'', st)]"
    and "db_claims (demo_reclaimed demo_base) = [(''chat'', b), (''chat'', c)]"
    and "wc_status b = CHECKPOINTED" and "wc_status c = ACTIVE" and "wc_step_id c = ws_step_id st"
    and "wc_step_id b = ws_step_id st"
    and "live_claim (Aware 4500000 0) c" and "wc_worker_id c = ''w1''"
    and "demo_complete (demo_reclaimed demo_base) = (Inr r, d')" and "db_results d' = [(''chat'', r)]"
    and "wr_step_id r = ws_step_id st"
proof -
  have ok: "check_reclaimed (demo_reclaimed demo_base)" by (rule demo_facts)
  obtain st where st: "db_steps (demo_reclaimed demo_base) = [(''chat'', st)]"
    using ok by (auto simp: check_reclaimed_def step_log_def)
  obtain b c where bc: "db_claims (demo_reclaimed demo_base) = [(''chat'', b), (''chat'', c)]"
    "wc_status b = CHECKPOINTED" "wc_status c = ACTIVE"
    using ok by (auto simp: check_reclaimed_def claim_log_def)
  obtain r d' where r: "demo_complete (demo_reclaimed demo_base) = (Inr r, d')" "db_results d' = [(''chat'', r)]"
    "wr_step_id r = ws_step_id st"
    using demo_facts(5) by (auto simp: check_completed_def st split: prod.splits sum.splits)
  show thesis by (rule that [OF st bc _ _ _ _ r]) (use ok st bc in \<open>auto simp: check_reclaimed_def\<close>)
qed

theorem fabric_refines_lease_protocol_witness:
  "\<exists>st. (''chat'', st) \<in> set (db_steps (snd (demo_complete (demo_reclaimed demo_base)))) \<and>
     ledger_run demo_uuid5 st (step_ledger ''chat'' (ws_step_id st) (demo_reclaimed demo_base))
       (step_ledger ''chat'' (ws_step_id st) (snd (demo_complete (demo_reclaimed demo_base))))"
proof (rule demo_reclaimed_obtain)
  fix st assume "db_steps (demo_reclaimed demo_base) = [(''chat'', st)]"
  then show ?thesis using fabric_refines_lease_protocol [OF demo_reachable(1) demo_steps(5), of "''chat''" st] by auto
qed

theorem leases_exclusive_witness:
  "\<exists>i. \<exists>!c. (''chat'', c) \<in> set (db_claims (demo_reclaimed demo_base)) \<and> wc_status c = ACTIVE \<and> wc_step_id c = i"
proof (rule demo_reclaimed_obtain)
  fix st b c assume "db_claims (demo_reclaimed demo_base) = [(''chat'', b), (''chat'', c)]" "wc_status c = ACTIVE"
  then have c: "(''chat'', c) \<in> set (db_claims (demo_reclaimed demo_base))" "wc_status c = ACTIVE" by simp_all
  have "x = c" if "(''chat'', x) \<in> set (db_claims (demo_reclaimed demo_base))" "wc_status x = ACTIVE" "wc_step_id x = wc_step_id c" for x
    using leases_exclusive [OF demo_reachable(1) that(1) c(1) that(2) c(2)] that(3) by blast
  with c show ?thesis by blast
qed

text \<open>Another attempt to claim the step, followed by the reset of another namespace.\<close>

lemma demo_namespace_run:
  "(namespace_step demo_uuid5 (\<lambda>_. []) (\<lambda>_. []) demo_dump ''chat'')\<^sup>*\<^sup>* d
     (snd (reset_chat_execution_state ''cron'' (snd (demo_claim t d))))"
  by (rule rtranclp.rtrancl_into_rtrancl
      [OF r_into_rtranclp [of "namespace_step demo_uuid5 (\<lambda>_. []) (\<lambda>_. []) demo_dump ''chat''", OF namespace_step.call [OF demo_steps(2)]]
        namespace_step.reset_other]) simp

theorem abandoned_effect_is_final_witness:
  "\<exists>st. (''chat'', st) \<in> set (db_steps (demo_abandoned demo_base)) \<and> ws_effect_policy st = AT_MOST_ONCE \<and>
     step_ledger ''chat'' (ws_step_id st)
       (snd (reset_chat_execution_state ''cron'' (snd (demo_claim 200000000 (demo_abandoned demo_base))))) =
     step_ledger ''chat'' (ws_step_id st) (demo_abandoned demo_base)"
proof -
  have ok: "check_abandoned (demo_abandoned demo_base)" by (rule demo_facts)
  obtain st where st: "db_steps (demo_abandoned demo_base) = [(''chat'', st)]" "ws_effect_policy st = AT_MOST_ONCE"
    using ok by (auto simp: check_abandoned_def step_log_def)
  obtain c where c: "db_claims (demo_abandoned demo_base) = [(''chat'', c)]" "wc_status c = ABANDONED" "wc_step_id c = ws_step_id st"
    using ok st by (auto simp: check_abandoned_def claim_log_def)
  have "c \<in> set (step_claims ''chat'' (ws_step_id st) (demo_abandoned demo_base))"
    using c by (simp add: step_claims_def rows_def)
  from abandoned_effect_is_final [OF demo_reachable(2) _ st(2) this c(2) demo_namespace_run]
  show ?thesis using st by auto
qed

theorem result_is_final_witness:
  "\<exists>st r. (''chat'', st) \<in> set (db_steps (snd (demo_complete (demo_reclaimed demo_base)))) \<and>
     step_results ''chat'' (ws_step_id st) (snd (reset_chat_execution_state ''cron''
       (snd (demo_claim 6000000 (snd (demo_complete (demo_reclaimed demo_base))))))) = [r]"
proof (rule demo_reclaimed_obtain)
  fix st b c r d'
  let ?d = "demo_reclaimed demo_base"
  assume st: "db_steps ?d = [(''chat'', st)]" and r: "demo_complete ?d = (Inr r, d')" "db_results d' = [(''chat'', r)]"
    "wr_step_id r = ws_step_id st"
  have reach: "demo_reachable (snd (demo_complete ?d))" by (rule fabric_reachable.step [OF demo_reachable(1) demo_steps(5)])
  have in': "(''chat'', st) \<in> set (db_steps (snd (demo_complete ?d)))"
    using fabric_step_inv [OF fabric_reachable_inv [OF demo_reachable(1)] demo_steps(5)] st by (simp add: evolves_def)
  have "r \<in> set (step_results ''chat'' (ws_step_id st) (snd (demo_complete ?d)))"
    using r by (simp add: step_results_def rows_def)
  from result_is_final [OF reach in' this demo_namespace_run]
  show ?thesis using in' by blast
qed

theorem checkpoint_chain_witness:
  "\<exists>st. (''chat'', st) \<in> set (db_steps (demo_reclaimed demo_base)) \<and>
     map wc_attempt (step_claims ''chat'' (ws_step_id st) (demo_reclaimed demo_base)) = [1, 2] \<and>
     map wk_revision (step_checkpoints ''chat'' (ws_step_id st) (demo_reclaimed demo_base)) = [1]"
proof (rule demo_reclaimed_obtain)
  fix st b c
  let ?d = "demo_reclaimed demo_base"
  assume st: "db_steps ?d = [(''chat'', st)]" and bc: "db_claims ?d = [(''chat'', b), (''chat'', c)]"
    "wc_status b = CHECKPOINTED" "wc_status c = ACTIVE" "wc_step_id c = ws_step_id st" "wc_step_id b = ws_step_id st"
  have cs: "step_claims ''chat'' (ws_step_id st) ?d = [b, c]" using bc by (simp add: step_claims_def rows_def)
  have in': "(''chat'', st) \<in> set (db_steps ?d)" using st by simp
  note chain = checkpoint_chain [OF demo_reachable(1) in' refl refl]
  have "map wk_claim_id (step_checkpoints ''chat'' (ws_step_id st) ?d) = [wc_claim_id b]"
    using chain bc unfolding cs by simp
  then have "length (step_checkpoints ''chat'' (ws_step_id st) ?d) = 1" by (metis One_nat_def length_map list.size(3,4) add_0)
  then have "map wk_revision (step_checkpoints ''chat'' (ws_step_id st) ?d) = [1]" using chain by simp
  moreover have "map wc_attempt (step_claims ''chat'' (ws_step_id st) ?d) = [1, 2]"
    using conjunct1 [OF chain] upto_snoc [of 1] unfolding cs by simp
  ultimately show ?thesis using in' by (intro exI [of _ st] conjI)
qed

theorem live_claim_envelope_witness:
  "\<exists>c e. wc_checkpoint_revision c = 1 \<and> we_claim e = c \<and> we_checkpoint e \<noteq> None \<and>
     load_worker_claim_envelope demo_uuid5 ''chat'' (wc_claim_id c) ''w1'' (Aware 4500000 0) (demo_reclaimed demo_base) = Inr e"
proof (rule demo_reclaimed_obtain)
  fix st b c
  let ?d = "demo_reclaimed demo_base"
  assume c: "db_claims ?d = [(''chat'', b), (''chat'', c)]" "live_claim (Aware 4500000 0) c" "wc_worker_id c = ''w1''"
  have "check_reclaimed ?d" by (rule demo_facts)
  then have rev: "wc_checkpoint_revision c = 1" using c by (simp add: check_reclaimed_def claim_log_def)
  have "(''chat'', c) \<in> set (db_claims ?d)" using c by simp
  from live_claim_envelope [OF demo_reachable(1) this c(2), of "Aware 4500000 0" "''w1''"] rev c(3)
  show ?thesis by (fastforce simp: store_as_utc_def py_strip_def is_py_space_def)
qed

theorem complete_retry_witness:
  "\<exists>r d'. demo_complete (demo_reclaimed demo_base) = (Inr r, d') \<and>
     demo_complete d' = (Inl (WorkerProtocolError ''conflicting worker result retry''), d')"
proof (rule demo_reclaimed_obtain)
  fix r d'
  let ?d = "demo_reclaimed demo_base" and ?i = "last (map wc_claim_id (rows ''chat'' (db_claims (demo_reclaimed demo_base))))"
  assume r: "demo_complete ?d = (Inr r, d')"
  have "complete_worker_claim demo_uuid5 ''chat'' ?i ''w1'' [] ['' a''] (Aware 5000000 0) d' =
      (Inl (WorkerProtocolError ''conflicting worker result retry''), d')"
    using complete_retry [OF demo_reachable(1) r [unfolded demo_complete_def], of "Aware 5000000 0" "Aware 5000000 0"]
    by (simp add: store_as_utc_def py_strip_def is_py_space_def)
  moreover have "map wc_claim_id (rows ''chat'' (db_claims d')) = map wc_claim_id (rows ''chat'' (db_claims ?d))"
    by (rule complete_frame(2) [OF r [unfolded demo_complete_def]])
  ultimately show ?thesis using r by (auto simp: demo_complete_def)
qed


lemma hd_row: "t \<noteq> [] \<Longrightarrow> fst (hd t) = k \<Longrightarrow> (k, snd (hd t)) \<in> set t"
  by (cases t) auto

theorem save_bounds_pools_witness:
  "\<exists>r p. (''chat'', r) \<in> set (db_reservations demo_base) \<and> p \<in> set (db_resources demo_base) \<and>
     er_resource_id p = rr_resource_id r \<and> pool_units (rr_resource_id r) demo_base \<le> admissible_capacity p"
proof -
  let ?r = "snd (hd (db_reservations demo_base))"
  have ok: "check_saved demo_base" "succeeds (fst demo_first)" by (rule demo_facts)+
  obtain u where "fst demo_first = Inr u" using ok(2) by (auto simp: succeeds_iff)
  then have save: "save_scheduler demo_uuid5 (\<lambda>_. []) (\<lambda>_. []) ''chat'' (Aware 1000000 0) (demo_planned, empty_database) =
      (Inr u, (fst (snd demo_first), demo_base))"
    by (simp add: demo_base_def flip: demo_first_def) (metis prod.collapse)
  have r: "(''chat'', ?r) \<in> set (db_reservations demo_base)" using ok(1) by (intro hd_row) (simp_all add: check_saved_def)
  obtain p where p: "find (\<lambda>p. er_resource_id p = rr_resource_id ?r) (db_resources demo_base) = Some p"
    using ok(1) by (auto simp: check_saved_def)
  have "pool_units (rr_resource_id ?r) demo_base \<le> admissible_capacity p"
    by (rule save_bounds_pools [OF fabric_reachable.init [of demo_uuid5 _ _ demo_dump] save r p])
  then show ?thesis using r find_SomeD [OF p] by blast
qed

theorem save_keeps_held_reservations_witness:
  "\<exists>r. (''chat'', r) \<in> set (db_reservations (demo_reclaimed demo_base)) \<and>
     (''chat'', r) \<in> set (db_reservations (snd (snd (demo_resave (fst (snd demo_first)) (demo_reclaimed demo_base)))))"
proof (rule demo_reclaimed_obtain)
  fix st b c
  let ?d = "demo_reclaimed demo_base" and ?s = "fst (snd demo_first)"
  let ?r = "snd (hd (db_reservations ?d))"
  assume st: "db_steps ?d = [(''chat'', st)]" and c: "db_claims ?d = [(''chat'', b), (''chat'', c)]" "wc_status c = ACTIVE"
    "wc_step_id c = ws_step_id st"
  have ok: "check_reclaimed ?d" by (rule demo_facts)
  obtain u s' d' where save: "demo_resave ?s ?d = (Inr u, s', d')" and same: "db_steps d' = db_steps ?d" "db_claims d' = db_claims ?d"
    using demo_facts(6) by (auto simp: check_resaved_def split: prod.splits sum.splits)
  have r: "(''chat'', ?r) \<in> set (db_reservations ?d)" using ok by (intro hd_row) (simp_all add: check_reclaimed_def)
  have "(''chat'', ?r) \<in> set (db_reservations d') \<longleftrightarrow> (''chat'', ?r) \<in> set (db_reservations ?d)"
    by (rule save_keeps_held_reservations [OF demo_reachable(1) _ save [unfolded demo_resave_def], of "''chat''" c st])
      (use ok st c same in \<open>simp_all add: check_reclaimed_def\<close>)
  then show ?thesis using r save by auto
qed

theorem live_reservations_load_witness:
  "\<exists>rs. load_claim_reservations (load_active_claim_rows (Aware 4500000 0) (demo_reclaimed demo_base)) (demo_reclaimed demo_base) = Inr rs \<and>
     rs \<noteq> []"
proof (rule demo_reclaimed_obtain)
  fix st b c
  let ?d = "demo_reclaimed demo_base" and ?t = "Aware 4500000 0"
  let ?r = "snd (hd (db_reservations ?d))"
  assume st: "db_steps ?d = [(''chat'', st)]" and c: "db_claims ?d = [(''chat'', b), (''chat'', c)]" "live_claim ?t c"
    "wc_step_id c = ws_step_id st"
  have ok: "check_reclaimed ?d" by (rule demo_facts)
  then have "rr_reservation_id ?r \<in> set (ws_reservation_ids st)" using st by (simp add: check_reclaimed_def)
  then have "rr_reservation_id ?r \<in> live_ids ?t ?d" unfolding live_ids_iff using st c
    by (intro exI [of _ "''chat''"] exI [of _ c] exI [of _ st]) simp
  moreover have "?r \<in> set (map snd (db_reservations ?d))" using ok by (cases "db_reservations ?d") (auto simp: check_reclaimed_def)
  ultimately have "filter (\<lambda>r. rr_reservation_id r \<in> live_ids ?t ?d) (map snd (db_reservations ?d)) \<noteq> []"
    (is "?rs \<noteq> []") unfolding filter_empty_conv by blast
  then have ne: "sort_key reservation_key ?rs \<noteq> []"
    by (simp only: length_sort length_0_conv flip: length_greater_0_conv)
  have "stored_valid ?d" using ok by (simp add: check_reclaimed_def)
  from live_reservations_load [OF demo_reachable(1) this, of ?t] ne show ?thesis by blast
qed

theorem grant_within_capacity_witness:
  "\<exists>r p. (''chat'', r) \<in> set (db_reservations (demo_checkpointed demo_base)) \<and>
     p \<in> set (db_resources (demo_checkpointed demo_base)) \<and> er_resource_id p = rr_resource_id r \<and>
     live_units (Aware 4000000 0) (rr_resource_id r) (demo_reclaimed demo_base) \<le> admissible_capacity p"
proof -
  let ?d = "demo_checkpointed demo_base" and ?t = "Aware 4000000 0"
  let ?r = "snd (hd (db_reservations ?d))"
  have ok: "check_checkpointed ?d" by (rule demo_facts)
  then obtain a d' e where g: "demo_claim 4000000 ?d = (Inr a, d')" "wa_envelope a = Some e"
    "rr_reservation_id ?r \<in> set (ws_reservation_ids (we_step e))"
    by (auto simp: check_checkpointed_def split: prod.splits sum.splits option.splits)
  have r: "(''chat'', ?r) \<in> set (db_reservations ?d)" using ok by (intro hd_row) (simp_all add: check_checkpointed_def)
  have "stored_valid ?d" using ok by (simp add: check_checkpointed_def)
  from grant_within_capacity [OF demo_reachable(3) this g(1) [unfolded demo_claim_def] g(2) r g(3)]
  obtain p where "p \<in> set (db_resources ?d)" "er_resource_id p = rr_resource_id ?r"
    "live_units ?t (rr_resource_id ?r) d' \<le> admissible_capacity p" by blast
  moreover have "demo_reclaimed demo_base = d'" by (simp only: demo_reclaimed_def g(1) snd_conv)
  ultimately show ?thesis using r by (intro exI [of _ ?r] exI [of _ p]) (simp only: simp_thms)
qed


end
