(* ===== verification/Capabilities.thy ===== *)
theory Capabilities
  imports Complex_Main Ordering Resources
begin

text \<open>
  The registry of executable capabilities (\<^verbatim>\<open>capability_registry.py\<close>): registering and finding
  capabilities, and turning the catalog indices chosen by a model into an execution plan, with the
  dependency closure and the order of \<open>Ordering\<close>. Scores are multiples of 1/20 and computed exactly;
  the source computes them in floating point and rounds to six decimals, which gives the same numbers.
  Texts are code points below 256.
\<close>

section \<open>Data\<close>

definition CAPABILITY_REGISTRY_VERSION :: string where
  "CAPABILITY_REGISTRY_VERSION = ''v0.7-capability-registry-v9''"

datatype capability_kind = SERVICE | TOOL | MODEL | WORKFLOW

record capability_descriptor =
  cd_capability_id :: string
  cd_kind :: capability_kind
  cd_description :: string

definition normalize_descriptor_text :: "string \<Rightarrow> string res" where
  "normalize_descriptor_text value =
     raise_if (value = []) (ValueError ''min_length'')
    (raise_if (py_strip value = []) (ValueError ''capability descriptor text must not be empty'')
       (Inr (py_strip value)))"

definition validate_descriptor :: "capability_descriptor \<Rightarrow> capability_descriptor res" where
  "validate_descriptor c =
     rbind (normalize_descriptor_text (cd_capability_id c)) (\<lambda>i.
     rbind (normalize_descriptor_text (cd_description c)) (\<lambda>t.
     Inr (c\<lparr>cd_capability_id := i, cd_description := t\<rparr>)))"

record capability_need =
  cn_query_text :: string
  cn_supplemental_query_texts :: "string list"
  cn_kinds :: "capability_kind list option"
  cn_exclude_capability_ids :: "string list"
  cn_limit :: int

definition normalize_need_list :: "string list \<Rightarrow> string list res" where
  "normalize_need_list values =
     (let normalized = map py_strip values
      in raise_if (list_ex (\<lambda>v. v = []) normalized)
           (ValueError ''capability need lists must not contain empty values'')
        (raise_if (\<not> distinct normalized)
           (ValueError ''capability need lists must not contain duplicates'')
        (Inr normalized)))"

definition validate_need :: "capability_need \<Rightarrow> capability_need res" where
  "validate_need n =
     raise_if (cn_query_text n = []) (ValueError ''query_text: min_length'')
    (raise_if (py_strip (cn_query_text n) = []) (ValueError ''capability query_text must not be empty'')
    (raise_if (length (cn_supplemental_query_texts n) > 3) (ValueError ''supplemental_query_texts: max_length'')
    (rbind (normalize_need_list (cn_supplemental_query_texts n)) (\<lambda>supplemental.
     rbind (normalize_need_list (cn_exclude_capability_ids n)) (\<lambda>excluded.
     raise_if (cn_limit n < 1 \<or> cn_limit n > 10) (ValueError ''limit: ge 1, le 10'')
       (Inr (n\<lparr>cn_query_text := py_strip (cn_query_text n),
               cn_supplemental_query_texts := supplemental,
               cn_exclude_capability_ids := excluded\<rparr>)))))))"

record capability_match =
  cm_descriptor :: capability_descriptor
  cm_score :: rat

datatype query_role = Canonical | Supplemental

record capability_packet =
  cp_registry_version :: string
  cp_capability_request_id :: uuid
  cp_requester_task_id :: uuid
  cp_requester_step_id :: uuid
  cp_need :: capability_need
  cp_matches :: "capability_match list"
  cp_selected_query_role :: "query_role option"
  cp_selected_query_text :: "string option"

definition deterministic_capability_request_id :: "(uuid \<Rightarrow> string \<Rightarrow> uuid) \<Rightarrow> uuid \<Rightarrow> uuid" where
  "deterministic_capability_request_id uuid5 requester_step_id = uuid5 requester_step_id ''capability-request''"

definition validate_packet :: "(uuid \<Rightarrow> string \<Rightarrow> uuid) \<Rightarrow> capability_packet \<Rightarrow> capability_packet res" where
  "validate_packet uuid5 p =
     raise_if (\<not> list_all (\<lambda>m. cm_score m > 0) (cp_matches p)) (ValueError ''score: gt 0'')
    (raise_if (cp_registry_version p \<noteq> CAPABILITY_REGISTRY_VERSION)
       (ValueError ''capability registry version is unsupported'')
    (raise_if (cp_capability_request_id p \<noteq>
         deterministic_capability_request_id uuid5 (cp_requester_step_id p))
       (ValueError ''capability request id is not deterministic'')
    (raise_if ((cp_matches p \<noteq> []) \<noteq> (cp_selected_query_role p \<noteq> None))
       (ValueError ''capability selection metadata does not match the result'')
    (raise_if ((cp_selected_query_role p = None) \<noteq> (cp_selected_query_text p = None))
       (ValueError ''capability selection role and text must appear together'')
    (raise_if (int (length (cp_matches p)) > cn_limit (cp_need p))
       (ValueError ''capability packet exceeds the requested bound'') (Inr p))))))"

record capability_plan_item =
  ci_capability_id :: string
  ci_execution_priority :: int
  ci_depends_on_capability_ids :: "string list"

record capability_plan =
  cx_registry_version :: string
  cx_requested_catalog_indices :: "int list"
  cx_catalog_capability_ids :: "string list"
  cx_items :: "capability_plan_item list"

definition mk_plan_item :: "string \<Rightarrow> int \<Rightarrow> string list \<Rightarrow> capability_plan_item res" where
  "mk_plan_item i priority dependencies =
     raise_if (i = []) (ValueError ''capability_id: min_length'')
    (raise_if (priority < 0 \<or> priority > MAX_ATTENTION_WORK_PRIORITY)
       (ValueError ''execution_priority: ge 0, le 10000'')
       (Inr \<lparr>ci_capability_id = i, ci_execution_priority = priority,
             ci_depends_on_capability_ids = dependencies\<rparr>))"

text \<open>The nested loops of the validator over the items and their dependencies: \<open>positions\<close> holds the
  index of every item.\<close>

definition check_plan_dependency ::
  "(string, nat) dict \<Rightarrow> capability_plan_item \<Rightarrow> string \<Rightarrow> unit \<Rightarrow> unit res" where
  "check_plan_dependency positions item dependency u =
     (case dget positions dependency of
        None \<Rightarrow> Inl (ValueError ''capability execution plan omits a declared dependency'')
      | Some i \<Rightarrow>
          rbind (dlookup positions (ci_capability_id item)) (\<lambda>j.
          raise_if (i \<ge> j) (ValueError ''capability execution plan violates dependency order'') (Inr ())))"

definition validate_plan :: "capability_plan \<Rightarrow> capability_plan res" where
  "validate_plan p =
     raise_if (cx_registry_version p \<noteq> CAPABILITY_REGISTRY_VERSION)
       (ValueError ''capability execution plan uses an unsupported registry version'')
    (raise_if (\<not> distinct (cx_requested_catalog_indices p))
       (ValueError ''requested capability indices must not contain duplicates'')
    (raise_if (\<not> distinct (cx_catalog_capability_ids p))
       (ValueError ''capability catalog must not contain duplicate ids'')
    (raise_if (list_ex (\<lambda>i. i < 0 \<or> i \<ge> int (length (cx_catalog_capability_ids p)))
         (cx_requested_catalog_indices p))
       (ValueError ''requested capability index is outside the persisted catalog'')
    (let ids = map ci_capability_id (cx_items p)
     in raise_if (\<not> distinct ids)
          (ValueError ''capability execution plan must not contain duplicate capabilities'')
       (rbind (rfold (\<lambda>item. rfold (check_plan_dependency (zip ids [0..<length ids]) item)
            (ci_depends_on_capability_ids item)) (cx_items p) ())
          (\<lambda>_. Inr p))))))"

section \<open>The registry\<close>

record registered_capability =
  rc_descriptor :: capability_descriptor
  rc_routing_terms :: "string list"
  rc_executor :: string
  rc_selectable_as_external_work :: bool
  rc_execution_priority :: int
  rc_depends_on_capability_ids :: "string list"

abbreviation rc_id :: "registered_capability \<Rightarrow> string" where
  "rc_id r \<equiv> cd_capability_id (rc_descriptor r)"

text \<open>\<^verbatim>\<open>__post_init__\<close> of a registration whose descriptor was constructed before.\<close>

definition mk_RegisteredCapability :: "registered_capability \<Rightarrow> registered_capability res" where
  "mk_RegisteredCapability r =
     (let executor = py_strip (rc_executor r);
          terms = map py_strip (rc_routing_terms r);
          dependencies = map py_strip (rc_depends_on_capability_ids r)
      in
     raise_if (executor = []) (ValueError ''capability executor must not be empty'')
    (raise_if (terms = [] \<or> list_ex (\<lambda>t. t = []) terms)
       (ValueError ''capability routing terms must not be empty'')
    (raise_if (\<not> distinct terms) (ValueError ''capability routing terms must not contain duplicates'')
    (raise_if (\<not> (0 \<le> rc_execution_priority r \<and> rc_execution_priority r \<le> MAX_ATTENTION_WORK_PRIORITY))
       (ValueError ''capability execution_priority is outside the supported range'')
    (raise_if (list_ex (\<lambda>t. t = []) dependencies) (ValueError ''capability dependencies must not be empty'')
    (raise_if (\<not> distinct dependencies)
       (ValueError ''capability dependencies must not contain duplicates'')
    (raise_if (rc_id r \<in> set dependencies) (ValueError ''capability must not depend on itself'')
       (Inr (r\<lparr>rc_executor := executor, rc_routing_terms := terms,
               rc_depends_on_capability_ids := dependencies\<rparr>)))))))))"

definition construct_registration :: "registered_capability \<Rightarrow> registered_capability res" where
  "construct_registration raw =
     rbind (validate_descriptor (rc_descriptor raw)) (\<lambda>c.
     mk_RegisteredCapability (raw\<lparr>rc_descriptor := c\<rparr>))"

type_synonym capability_registry = "(string, registered_capability) dict"

definition register :: "registered_capability \<Rightarrow> capability_registry \<Rightarrow> capability_registry res" where
  "register registration reg =
     raise_if (rc_id registration \<in> set (dkeys reg)) (ValueError ''capability id already registered'')
       (Inr (dset (rc_id registration) registration reg))"

definition new_registry :: "registered_capability list \<Rightarrow> capability_registry res" where
  "new_registry registrations = rfold register registrations []"

definition unregister :: "string \<Rightarrow> capability_registry \<Rightarrow> (registered_capability \<times> capability_registry) res" where
  "unregister i reg = rbind (dlookup reg i) (\<lambda>r. Inr (r, filter (\<lambda>kv. fst kv \<noteq> i) reg))"

definition get_capability :: "capability_registry \<Rightarrow> string \<Rightarrow> registered_capability res" where
  "get_capability reg i = dlookup reg i"

definition descriptors :: "capability_registry \<Rightarrow> capability_descriptor list res" where
  "descriptors reg = rmap (\<lambda>i. rbind (dlookup reg i) (\<lambda>r. Inr (rc_descriptor r))) (sort (dkeys reg))"

definition capability_catalog :: "capability_registry \<Rightarrow> capability_descriptor list res" where
  "capability_catalog reg =
     (let visible_ids = map fst (filter (\<lambda>kv. rc_selectable_as_external_work (snd kv)) reg)
      in rmap (\<lambda>i. rbind (get_capability reg i) (\<lambda>r. Inr (rc_descriptor r))) (sort visible_ids))"

definition resolve_catalog_indices ::
  "capability_registry \<Rightarrow> capability_descriptor list \<Rightarrow> int list \<Rightarrow> registered_capability list res" where
  "resolve_catalog_indices reg catalog indices =
     raise_if (\<not> distinct indices) (ValueError ''capability indices must not contain duplicates'')
    (raise_if (list_ex (\<lambda>i. i < 0 \<or> i \<ge> int (length catalog)) indices)
       (ValueError ''capability index is outside the supplied catalog'')
    (rmap (\<lambda>i. get_capability reg (cd_capability_id (catalog ! nat i))) indices))"

section \<open>Planning\<close>

text \<open>The work list of the closure. The sets of the source are lists without repetition here; they are
  listed in sorted order, as in the source.\<close>

definition visit_dependency ::
  "capability_registry \<Rightarrow> string \<Rightarrow> string list \<times> string list \<Rightarrow> (string list \<times> string list) res" where
  "visit_dependency reg dependency w =
     rbind (get_capability reg dependency) (\<lambda>_.
     Inr (if dependency \<in> set (fst w) then w
          else (fst w @ [dependency], snd w @ [dependency])))"

text \<open>The work still to do, which every visit and every pop decreases or keeps.\<close>

definition closure_measure :: "capability_registry \<Rightarrow> string list \<times> string list \<Rightarrow> nat" where
  "closure_measure reg w = 2 * card (set (dkeys reg) - set (fst w)) + length (snd w)"

lemma visit_dependency_measure:
  assumes "visit_dependency reg x w = Inr w'"
  shows "closure_measure reg w' \<le> closure_measure reg w"
proof (cases "x \<in> set (fst w)")
  case False
  have "x \<in> set (dkeys reg)"
    using assms by (auto simp: visit_dependency_def get_capability_def dest!: map_of_SomeD intro: rev_image_eqI)
  then have x: "x \<in> set (dkeys reg) - set (fst w)" using False by simp
  have "set (dkeys reg) - set (fst w') = (set (dkeys reg) - set (fst w)) - {x}"
    using assms False by (auto simp: visit_dependency_def)
  then have "Suc (card (set (dkeys reg) - set (fst w'))) = card (set (dkeys reg) - set (fst w))"
    using card_Suc_Diff1 [OF _ x] by simp
  moreover have "length (snd w') = Suc (length (snd w))"
    using assms False by (auto simp: visit_dependency_def)
  ultimately show ?thesis unfolding closure_measure_def by linarith
qed (use assms in \<open>simp add: visit_dependency_def\<close>)

lemma visit_all_measure:
  "rfold (visit_dependency reg) xs w = Inr w' \<Longrightarrow> closure_measure reg w' \<le> closure_measure reg w"
proof (induction xs arbitrary: w)
  case (Cons x xs)
  then obtain w1 where "visit_dependency reg x w = Inr w1" "rfold (visit_dependency reg) xs w1 = Inr w'"
    by auto
  then show ?case using Cons.IH visit_dependency_measure le_trans by blast
qed simp

function closure_loop :: "capability_registry \<Rightarrow> string list \<times> string list \<Rightarrow> string list res" where
  "closure_loop reg w =
     (if snd w = [] then Inr (fst w)
      else rbind (get_capability reg (last (snd w))) (\<lambda>registration.
           rbind (rfold (visit_dependency reg) (rc_depends_on_capability_ids registration)
             (fst w, butlast (snd w))) (\<lambda>w'. closure_loop reg w')))"
  by pat_completeness auto
termination
proof (relation "measure (\<lambda>(reg, w). closure_measure reg w)")
  fix reg w r w'
  assume ne: "snd w \<noteq> []"
    and "rfold (visit_dependency reg) (rc_depends_on_capability_ids r) (fst w, butlast (snd w)) = Inr w'"
  from this(2) have "closure_measure reg w' \<le> closure_measure reg (fst w, butlast (snd w))"
    by (rule visit_all_measure)
  also have "\<dots> < closure_measure reg w" using ne by (simp add: closure_measure_def)
  finally show "((reg, w'), (reg, w)) \<in> measure (\<lambda>(reg, w). closure_measure reg w)" by simp
qed simp

declare closure_loop.simps [simp del]

definition work_item_of :: "capability_registry \<Rightarrow> string \<Rightarrow> attention_work_item res" where
  "work_item_of reg i =
     rbind (get_capability reg i) (\<lambda>r.
     mk_AttentionWorkItem i (rc_execution_priority r) (rc_depends_on_capability_ids r))"

definition plan_item_of :: "capability_registry \<Rightarrow> string \<Rightarrow> capability_plan_item res" where
  "plan_item_of reg i =
     rbind (get_capability reg i) (\<lambda>r.
     mk_plan_item i (rc_execution_priority r) (rc_depends_on_capability_ids r))"

definition plan_execution ::
  "capability_registry \<Rightarrow> capability_descriptor list \<Rightarrow> int list \<Rightarrow> capability_plan res" where
  "plan_execution reg catalog indices =
     rbind (resolve_catalog_indices reg catalog indices) (\<lambda>selected.
     (let required_ids = remdups (map rc_id selected)
      in
     rbind (closure_loop reg (required_ids, sort required_ids)) (\<lambda>required_ids.
     rbind (rmap (work_item_of reg) (sort required_ids)) (\<lambda>items.
     rbind (deterministic_dependency_order items) (\<lambda>ordered_ids.
     rbind (rmap (plan_item_of reg) ordered_ids) (\<lambda>plan_items.
     validate_plan
       \<lparr>cx_registry_version = CAPABILITY_REGISTRY_VERSION,
        cx_requested_catalog_indices = indices,
        cx_catalog_capability_ids = map cd_capability_id catalog,
        cx_items = plan_items\<rparr>))))))"

section \<open>Discovery\<close>

definition is_token_char :: "char \<Rightarrow> bool" where
  "is_token_char c = (let n = of_char c :: nat in 48 \<le> n \<and> n \<le> 57 \<or> 97 \<le> n \<and> n \<le> 122)"

text \<open>What \<^verbatim>\<open>str.casefold\<close> does to the characters that can become token characters.\<close>

definition casefold_char :: "char \<Rightarrow> string" where
  "casefold_char c = (let n = of_char c :: nat in
     if 65 \<le> n \<and> n \<le> 90 then [char_of (n + 32)] else if n = 223 then ''ss'' else [c])"

function token_runs :: "string \<Rightarrow> string list" where
  "token_runs s =
     (case dropWhile (\<lambda>c. \<not> is_token_char c) s of
        [] \<Rightarrow> []
      | c # cs \<Rightarrow> (c # takeWhile is_token_char cs) # token_runs (dropWhile is_token_char cs))"
  by pat_completeness auto
termination
proof (relation "measure length")
  fix s c cs
  assume "dropWhile (\<lambda>c. \<not> is_token_char c) s = c # cs"
  then have "length (c # cs) \<le> length s" by (metis length_dropWhile_le)
  then show "(dropWhile is_token_char cs, s) \<in> measure length"
    using length_dropWhile_le [of is_token_char cs] by simp
qed simp

declare token_runs.simps [simp del]

definition tokens :: "string \<Rightarrow> string list" where
  "tokens value = token_runs (concat (map casefold_char value))"

definition contains_phrase :: "string list \<Rightarrow> string list \<Rightarrow> bool" where
  "contains_phrase haystack needle \<longleftrightarrow>
     \<not> (needle = [] \<or> length needle > length haystack) \<and>
     list_ex (\<lambda>i. take (length needle) (drop i haystack) = needle)
       [0..<length haystack - length needle + 1]"

definition term_score :: "string list \<Rightarrow> string \<Rightarrow> rat" where
  "term_score query_tokens raw_term =
     (let term_tokens = tokens raw_term; n = rat_of_nat (length term_tokens)
      in if contains_phrase query_tokens term_tokens then 3 + n / 4
         else if length term_tokens > 1 \<and> set term_tokens \<subseteq> set query_tokens
         then 3 / 2 + 3 * n / 20 else 0)"

definition capability_score :: "string list \<Rightarrow> registered_capability \<Rightarrow> rat" where
  "capability_score query_tokens r =
     (if contains_phrase query_tokens (tokens (map (\<lambda>c. if c = CHR ''_'' then CHR '' '' else c) (rc_id r)))
      then 8 else 0) +
     sum_list (map (term_score query_tokens) (rc_routing_terms r))"

definition match_key :: "capability_match \<Rightarrow> rat \<times> string" where
  "match_key m = (- cm_score m, cd_capability_id (cm_descriptor m))"

definition discover_candidate :: "capability_need \<Rightarrow> string list \<Rightarrow> registered_capability \<Rightarrow> bool" where
  "discover_candidate need query_tokens r \<longleftrightarrow>
     rc_id r \<notin> set (cn_exclude_capability_ids need) \<and>
     (case cn_kinds need of None \<Rightarrow> True | Some ks \<Rightarrow> ks = [] \<or> cd_kind (rc_descriptor r) \<in> set ks) \<and>
     capability_score query_tokens r > 0"

definition discover_query ::
  "capability_registry \<Rightarrow> capability_need \<Rightarrow> string \<Rightarrow> capability_match list res" where
  "discover_query reg need query_text =
     (let query_tokens = tokens query_text
      in
     rbind (rmap (dlookup reg) (sort (dkeys reg))) (\<lambda>registrations.
     Inr (take (nat (cn_limit need)) (sort_key match_key
       (map (\<lambda>r. \<lparr>cm_descriptor = rc_descriptor r, cm_score = capability_score query_tokens r\<rparr>)
          (filter (discover_candidate need query_tokens) registrations))))))"

type_synonym discovery = "capability_match list \<times> query_role option \<times> string option"

fun discover_supplemental ::
  "capability_registry \<Rightarrow> capability_need \<Rightarrow> string list \<Rightarrow> discovery res" where
  "discover_supplemental reg need [] = Inr ([], None, None)"
| "discover_supplemental reg need (q # qs) =
     rbind (discover_query reg need q) (\<lambda>matches.
     if matches \<noteq> [] then Inr (matches, Some Supplemental, Some q)
     else discover_supplemental reg need qs)"

definition discover_with_trace :: "capability_registry \<Rightarrow> capability_need \<Rightarrow> discovery res" where
  "discover_with_trace reg need =
     rbind (discover_query reg need (cn_query_text need)) (\<lambda>matches.
     if matches \<noteq> [] then Inr (matches, Some Canonical, Some (cn_query_text need))
     else discover_supplemental reg need (cn_supplemental_query_texts need))"

definition discover :: "capability_registry \<Rightarrow> capability_need \<Rightarrow> capability_match list res" where
  "discover reg need = rbind (discover_with_trace reg need) (\<lambda>d. Inr (fst d))"

section \<open>Registries\<close>

definition well_registered :: "string \<Rightarrow> registered_capability \<Rightarrow> bool" where
  "well_registered i r \<longleftrightarrow> i = rc_id r \<and> i \<noteq> [] \<and> py_strip i = i \<and>
     0 \<le> rc_execution_priority r \<and> rc_execution_priority r \<le> MAX_ATTENTION_WORK_PRIORITY \<and>
     map py_strip (rc_depends_on_capability_ids r) = rc_depends_on_capability_ids r \<and>
     [] \<notin> set (rc_depends_on_capability_ids r) \<and> distinct (rc_depends_on_capability_ids r) \<and>
     i \<notin> set (rc_depends_on_capability_ids r)"

definition registry_ok :: "capability_registry \<Rightarrow> bool" where
  "registry_ok reg \<longleftrightarrow> distinct (dkeys reg) \<and> (\<forall>kv\<in>set reg. well_registered (fst kv) (snd kv))"

lemma construct_well: "construct_registration raw = Inr r \<Longrightarrow> well_registered (rc_id r) r"
  by (auto simp: construct_registration_def validate_descriptor_def normalize_descriptor_text_def
      mk_RegisteredCapability_def well_registered_def Let_def list_ex_iff py_strip_idem o_def)

lemma register_ok:
  assumes "registry_ok reg" and "well_registered (rc_id r) r" and "register r reg = Inr reg'"
  shows "registry_ok reg'"
proof -
  have "reg' = reg @ [(rc_id r, r)]" "rc_id r \<notin> set (dkeys reg)"
    using assms(3) by (auto simp: register_def dset_fresh)
  then show ?thesis using assms(1,2) by (auto simp: registry_ok_def)
qed

lemma registry_ok_new:
  assumes "rmap construct_registration raws = Inr rs" and "new_registry rs = Inr reg"
  shows "registry_ok reg"
proof -
  have wf: "\<forall>r\<in>set rs. well_registered (rc_id r) r"
    using assms(1) unfolding rmap_eq_Inr by (induction raws rs rule: list_all2_induct) (auto intro: construct_well)
  have "registry_ok reg" if "rfold register rs reg0 = Inr reg" "registry_ok reg0" for reg0
    using that wf
  proof (induction rs arbitrary: reg0)
    case (Cons r rs)
    then obtain reg1 where "register r reg0 = Inr reg1" "rfold register rs reg1 = Inr reg" by auto
    with Cons show ?case using register_ok by auto
  qed simp
  from this [of "[]"] show ?thesis using assms(2) by (simp add: new_registry_def registry_ok_def)
qed

lemma registry_okD:
  assumes "registry_ok reg" and "dget reg i = Some r"
  shows "well_registered i r" and "i \<in> set (dkeys reg)"
  using assms map_of_SomeD [OF assms(2)] by (auto simp: registry_ok_def intro: rev_image_eqI)

lemma key_lookup: "i \<in> set (dkeys reg) \<Longrightarrow> \<exists>r. dget reg i = Some r"
  by (cases "dget reg i") (simp_all add: map_of_eq_None_iff)

section \<open>The dependency closure\<close>

definition registered_deps :: "capability_registry \<Rightarrow> string \<Rightarrow> string list" where
  "registered_deps reg i = (case dget reg i of None \<Rightarrow> [] | Some r \<Rightarrow> rc_depends_on_capability_ids r)"

definition needs :: "capability_registry \<Rightarrow> (string \<times> string) set" where
  "needs reg = {(i, j). j \<in> set (registered_deps reg i)}"

definition closure :: "capability_registry \<Rightarrow> string set \<Rightarrow> string set" where
  "closure reg A = (needs reg)\<^sup>* `` A"

lemma closure_least:
  assumes "A \<subseteq> B" and "\<And>i. i \<in> B \<Longrightarrow> set (registered_deps reg i) \<subseteq> B"
  shows "closure reg A \<subseteq> B"
proof
  fix j assume "j \<in> closure reg A"
  then obtain i where "(i, j) \<in> (needs reg)\<^sup>*" "i \<in> B" using assms(1) by (auto simp: closure_def)
  then show "j \<in> B" by (induction rule: rtrancl_induct) (use assms(2) in \<open>auto simp: needs_def\<close>)
qed

lemma closure_step: "i \<in> closure reg A \<Longrightarrow> set (registered_deps reg i) \<subseteq> closure reg A"
  by (auto simp: closure_def needs_def intro: rtrancl_into_rtrancl)

lemma closure_base: "A \<subseteq> closure reg A"
  by (auto simp: closure_def)

lemma visit_all:
  "succeeds (rfold (visit_dependency reg) xs w) \<longleftrightarrow> set xs \<subseteq> set (dkeys reg)"
  "rfold (visit_dependency reg) xs w = Inr w' \<Longrightarrow> set (fst w') = set (fst w) \<union> set xs \<and>
     set (snd w') = set (snd w) \<union> (set xs - set (fst w)) \<and> (distinct (fst w) \<longrightarrow> distinct (fst w'))"
proof (induction xs arbitrary: w)
  case (Cons x xs)
  { case 1
    show ?case
    proof (cases "x \<in> set (dkeys reg)")
      case True
      then obtain r where "dget reg x = Some r" using key_lookup [of x reg] by blast
      then have "dlookup reg x \<equiv> Inr r" by (simp add: dlookup_def)
      then show ?thesis using True Cons.IH(1) by (simp add: visit_dependency_def get_capability_def)
    next
      case False
      then have "dlookup reg x = Inl KeyError"
        using map_of_eq_None_iff [of reg x] by (simp add: dlookup_def)
      then show ?thesis using False by (simp add: visit_dependency_def get_capability_def)
    qed }
  { case 2
    then obtain w1 where w1: "visit_dependency reg x w = Inr w1" "rfold (visit_dependency reg) xs w1 = Inr w'"
      by auto
    from Cons.IH(2) [OF w1(2)] w1(1) show ?case by (auto simp: visit_dependency_def split: if_splits) }
qed simp_all

definition closing :: "capability_registry \<Rightarrow> string set \<Rightarrow> string list \<times> string list \<Rightarrow> bool" where
  "closing reg A w \<longleftrightarrow> distinct (fst w) \<and> A \<subseteq> set (fst w) \<and> set (fst w) \<subseteq> closure reg A \<and>
     set (fst w) \<subseteq> set (dkeys reg) \<and> set (snd w) \<subseteq> set (fst w) \<and>
     (\<forall>i\<in>set (fst w) - set (snd w). set (registered_deps reg i) \<subseteq> set (fst w))"

lemma closing_step:
  assumes "closing reg A w" and "snd w \<noteq> []" and "get_capability reg (last (snd w)) = Inr r"
    and "rfold (visit_dependency reg) (rc_depends_on_capability_ids r) (fst w, butlast (snd w)) = Inr w'"
  shows "closing reg A w'"
proof -
  let ?x = "last (snd w)" and ?ds = "rc_depends_on_capability_ids r"
  have snd: "set (snd w) = insert ?x (set (butlast (snd w)))"
    using assms(2) by (metis append_butlast_last_id list.simps(15) rotate1.simps(2) set_rotate1)
  have ds: "registered_deps reg ?x = ?ds" using assms(3) by (simp add: get_capability_def registered_deps_def)
  have x: "?x \<in> closure reg A" using assms(1,2) snd by (auto simp: closing_def)
  have w': "set (fst w') = set (fst w) \<union> set ?ds"
    "set (snd w') = set (butlast (snd w)) \<union> (set ?ds - set (fst w))" "distinct (fst w')"
    using visit_all(2) [OF assms(4)] assms(1) by (auto simp: closing_def)
  have keys: "set ?ds \<subseteq> set (dkeys reg)" using visit_all(1) assms(4) by (metis succeeds_simps(2))
  show ?thesis
    unfolding closing_def using assms(1) w' keys closure_step [OF x] ds snd unfolding closing_def by auto
qed

lemma closure_loop_sound:
  "closure_loop reg w = Inr required \<Longrightarrow> closing reg A w \<Longrightarrow>
     distinct required \<and> set required = closure reg A \<and> set required \<subseteq> set (dkeys reg)"
proof (induction reg w arbitrary: required rule: closure_loop.induct)
  case (1 reg w)
  show ?case
  proof (cases "snd w = []")
    case True
    then have "required = fst w" using "1.prems"(1) by (simp add: closure_loop.simps)
    moreover have "closure reg A \<subseteq> set (fst w)"
      by (rule closure_least) (use "1.prems"(2) True in \<open>auto simp: closing_def\<close>)
    ultimately show ?thesis using "1.prems"(2) by (auto simp: closing_def)
  next
    case False
    with "1.prems"(1) obtain r w' where s: "get_capability reg (last (snd w)) = Inr r"
      "rfold (visit_dependency reg) (rc_depends_on_capability_ids r) (fst w, butlast (snd w)) = Inr w'"
      "closure_loop reg w' = Inr required"
      by (subst (asm) closure_loop.simps) auto
    show ?thesis by (rule "1.IH" [OF False s closing_step [OF "1.prems"(2) False s(1,2)]])
  qed
qed

lemma closure_loop_total:
  "closing reg A w \<Longrightarrow> closure reg A \<subseteq> set (dkeys reg) \<Longrightarrow> succeeds (closure_loop reg w)"
proof (induction reg w rule: closure_loop.induct)
  case (1 reg w)
  show ?case
  proof (cases "snd w = []")
    case False
    then have "last (snd w) \<in> set (snd w)" by (rule last_in_set)
    then have x: "last (snd w) \<in> set (fst w)" "last (snd w) \<in> set (dkeys reg)"
      "last (snd w) \<in> closure reg A"
      using "1.prems"(1) by (auto simp: closing_def)
    obtain r where r: "dget reg (last (snd w)) = Some r" using key_lookup [OF x(2)] by blast
    have "set (rc_depends_on_capability_ids r) \<subseteq> closure reg A"
      using closure_step [OF x(3)] r by (simp add: registered_deps_def)
    then have "succeeds (rfold (visit_dependency reg) (rc_depends_on_capability_ids r) (fst w, butlast (snd w)))"
      using "1.prems"(2) visit_all(1) by blast
    then obtain w' where w': "rfold (visit_dependency reg) (rc_depends_on_capability_ids r) (fst w, butlast (snd w)) = Inr w'"
      by (auto simp: succeeds_iff)
    have g: "get_capability reg (last (snd w)) = Inr r" using r by (simp add: get_capability_def)
    have "succeeds (closure_loop reg w')"
      by (rule "1.IH" [OF False g w' closing_step [OF "1.prems"(1) False g w'] "1.prems"(2)])
    then show ?thesis using False g w' by (subst closure_loop.simps) simp
  qed (simp add: closure_loop.simps)
qed

section \<open>Plans\<close>

lemma rmap_all: "(\<And>x. x \<in> set xs \<Longrightarrow> f x = Inr (g x)) \<Longrightarrow> rmap f xs = Inr (map g xs)"
  by (induction xs) auto

definition item_of :: "capability_registry \<Rightarrow> string \<Rightarrow> attention_work_item" where
  "item_of reg i =
     \<lparr>wi_item_id = i, wi_priority = (case dget reg i of None \<Rightarrow> 0 | Some r \<Rightarrow> rc_execution_priority r),
      wi_dependency_ids = registered_deps reg i\<rparr>"

definition entry_of :: "capability_registry \<Rightarrow> string \<Rightarrow> capability_plan_item" where
  "entry_of reg i =
     \<lparr>ci_capability_id = i,
      ci_execution_priority = (case dget reg i of None \<Rightarrow> 0 | Some r \<Rightarrow> rc_execution_priority r),
      ci_depends_on_capability_ids = registered_deps reg i\<rparr>"

lemma registered_items:
  assumes "registry_ok reg" and "i \<in> set (dkeys reg)"
  shows "work_item_of reg i = Inr (item_of reg i)" and "plan_item_of reg i = Inr (entry_of reg i)"
proof -
  obtain r where r: "dget reg i = Some r" using key_lookup [OF assms(2)] by blast
  have w: "well_registered i r" by (rule registry_okD(1) [OF assms(1) r])
  then have i: "normalize_item_id i = Inr i"
    and ds: "normalize_dependency_ids (rc_depends_on_capability_ids r) = Inr (rc_depends_on_capability_ids r)"
    by (simp_all only: well_registered_def normalize_item_id_def normalize_dependency_ids_def Let_def)
      (auto simp: list_ex_iff raise_if_def)
  have "mk_AttentionWorkItem i (rc_execution_priority r) (rc_depends_on_capability_ids r) =
      Inr \<lparr>wi_item_id = i, wi_priority = rc_execution_priority r,
        wi_dependency_ids = rc_depends_on_capability_ids r\<rparr>"
    using w unfolding mk_AttentionWorkItem_def i ds by (auto simp: well_registered_def raise_if_def)
  then show "work_item_of reg i = Inr (item_of reg i)"
    using r by (simp add: work_item_of_def get_capability_def dlookup_def item_of_def registered_deps_def)
  from w r show "plan_item_of reg i = Inr (entry_of reg i)"
    by (auto simp: plan_item_of_def get_capability_def dlookup_def mk_plan_item_def entry_of_def
        registered_deps_def well_registered_def raise_if_def)
qed

lemma deps_first_nth:
  "deps_first deps ord \<Longrightarrow> distinct ord \<Longrightarrow> i < length ord \<Longrightarrow> j < length ord \<Longrightarrow>
     ord ! i \<in> set (deps (ord ! j)) \<Longrightarrow> i < j"
proof (induction ord arbitrary: i j)
  case (Cons x ord)
  show ?case
  proof (cases j)
    case 0
    have "set (deps x) \<inter> set (x # ord) = {}" using Cons.prems(1) by simp
    moreover have "(x # ord) ! i \<in> set (x # ord)" by (rule nth_mem [OF Cons.prems(3)])
    ultimately show ?thesis using Cons.prems(5) 0 by (simp add: disjoint_iff)
  next
    case (Suc k)
    show ?thesis
    proof (cases i)
      case (Suc l)
      then show ?thesis using Cons.prems \<open>j = Suc k\<close> Cons.IH [of l k] by simp
    qed (use Suc in simp)
  qed
qed simp

text \<open>An order with dependencies first exists exactly when the dependencies have no cycle.\<close>

lemma deps_first_acyclic:
  assumes "deps_first deps ord" and "distinct ord"
  shows "acyclic {(i, j). i \<in> set ord \<and> j \<in> set ord \<and> j \<in> set (deps i)}"
proof (rule acyclicI_order [where f = "\<lambda>i. LEAST n. ord ! n = i \<and> n < length ord"])
  fix i j
  assume ij: "(i, j) \<in> {(i, j). i \<in> set ord \<and> j \<in> set ord \<and> j \<in> set (deps i)}"
  have pos: "\<exists>n<length ord. ord ! n = i \<and> (LEAST n. ord ! n = i \<and> n < length ord) = n" if "i \<in> set ord" for i
  proof -
    obtain n where n: "n < length ord" "ord ! n = i" using \<open>i \<in> set ord\<close> by (auto simp: in_set_conv_nth)
    then have "(LEAST n. ord ! n = i \<and> n < length ord) = n"
      using assms(2) by (intro Least_equality) (auto simp: nth_eq_iff_index_eq)
    then show ?thesis using n by blast
  qed
  from ij pos [of i] pos [of j] show "(LEAST n. ord ! n = j \<and> n < length ord) < (LEAST n. ord ! n = i \<and> n < length ord)"
    using deps_first_nth [OF assms] by auto
qed

lemma acyclic_order:
  assumes "finite A" and "acyclic {(i, j). i \<in> A \<and> j \<in> A \<and> j \<in> set (deps i)}"
  shows "\<exists>ord. distinct ord \<and> set ord = A \<and> deps_first deps ord"
  using assms
proof (induction "card A" arbitrary: A)
  case (Suc n)
  let ?r = "{(i, j). i \<in> A \<and> j \<in> A \<and> j \<in> set (deps i)}"
  have "finite ?r" by (rule finite_subset [of _ "A \<times> A"]) (use Suc.prems(1) in auto)
  then have "wf (?r\<inverse>)" using Suc.prems(2) by (rule finite_acyclic_wf_converse)
  moreover have "A \<noteq> {}" using Suc.hyps(2) by auto
  then obtain a where "a \<in> A" by blast
  ultimately obtain z where z: "z \<in> A" "\<And>y. (y, z) \<in> ?r\<inverse> \<Longrightarrow> y \<notin> A"
    by (rule wfE_min) blast
  have "acyclic {(i, j). i \<in> A - {z} \<and> j \<in> A - {z} \<and> j \<in> set (deps i)}"
    by (rule acyclic_subset [OF Suc.prems(2)]) auto
  moreover have "n = card (A - {z})" using Suc.hyps(2) z(1) Suc.prems(1) by simp
  ultimately have "\<exists>ord. distinct ord \<and> set ord = A - {z} \<and> deps_first deps ord"
    using Suc.hyps(1) [of "A - {z}"] Suc.prems(1) by blast
  then obtain ord where ord: "distinct ord" "set ord = A - {z}" "deps_first deps ord" by blast
  have "set (deps z) \<inter> A = {}" using z by blast
  then have "deps_first deps (z # ord)" using ord z(1) by auto
  moreover have "distinct (z # ord)" "set (z # ord) = A" using ord z(1) by auto
  ultimately show ?case by blast
qed simp

lemma plan_dependencies_checked:
  assumes "deps_first (registered_deps reg) ids" and "distinct ids"
    and "\<And>i. i \<in> set ids \<Longrightarrow> set (registered_deps reg i) \<subseteq> set ids"
  shows "rfold (\<lambda>item. rfold (check_plan_dependency (zip ids [0..<length ids]) item)
      (ci_depends_on_capability_ids item)) (map (entry_of reg) ids) () = Inr ()"
proof -
  have get: "dget (zip ids [0..<length ids]) (ids ! n) = Some n" if "n < length ids" for n
    using that assms(2) by (intro map_of_is_SomeI) (auto simp: in_set_zip)
  have ok: "check_plan_dependency (zip ids [0..<length ids]) (entry_of reg i) j u = Inr ()"
    if ij: "i \<in> set ids" "j \<in> set (registered_deps reg i)" for i j u
  proof -
    obtain m where m: "m < length ids" "ids ! m = i" using ij(1) by (auto simp: in_set_conv_nth)
    obtain n where n: "n < length ids" "ids ! n = j" using ij assms(3) by (metis in_set_conv_nth subsetD)
    have "n < m" by (rule deps_first_nth [OF assms(1,2) n(1) m(1)]) (use ij m n in simp)
    then show ?thesis using get [OF m(1)] get [OF n(1)] m(2) n(2)
      by (simp add: check_plan_dependency_def entry_of_def dlookup_def)
  qed
  have inner: "rfold (check_plan_dependency (zip ids [0..<length ids]) (entry_of reg i)) js u = Inr ()"
    if "i \<in> set ids" "set js \<subseteq> set (registered_deps reg i)" for i js u
    using that by (induction js arbitrary: u) (auto simp: ok)
  have "rfold (\<lambda>item. rfold (check_plan_dependency (zip ids [0..<length ids]) item)
      (ci_depends_on_capability_ids item)) (map (entry_of reg) js) u = Inr ()" if "set js \<subseteq> set ids" for js u
    using that inner by (induction js arbitrary: u) (auto simp: entry_of_def)
  then show ?thesis by simp
qed

definition selected_ids :: "capability_descriptor list \<Rightarrow> int list \<Rightarrow> string list" where
  "selected_ids catalog indices = map (\<lambda>i. cd_capability_id (catalog ! nat i)) indices"

lemma resolve_indices:
  assumes "registry_ok reg"
  shows "succeeds (resolve_catalog_indices reg catalog indices) \<longleftrightarrow>
      distinct indices \<and> (\<forall>i\<in>set indices. 0 \<le> i \<and> i < int (length catalog)) \<and>
      set (selected_ids catalog indices) \<subseteq> set (dkeys reg)"
    and "resolve_catalog_indices reg catalog indices = Inr selected \<Longrightarrow>
      map rc_id selected = selected_ids catalog indices"
proof -
  have ids: "rmap (\<lambda>i. get_capability reg (cd_capability_id (catalog ! nat i))) is = Inr rs \<Longrightarrow>
      map rc_id rs = selected_ids catalog is" for "is" rs
    using registry_okD(1) [OF assms]
    by (induction "is" arbitrary: rs)
      (auto simp: get_capability_def dlookup_def selected_ids_def well_registered_def split: option.splits)
  have ok: "succeeds (rmap (\<lambda>i. get_capability reg (cd_capability_id (catalog ! nat i))) is) \<longleftrightarrow>
      set (selected_ids catalog is) \<subseteq> set (dkeys reg)" for "is"
  proof (induction "is")
    case (Cons i "is")
    show ?case
    proof (cases "cd_capability_id (catalog ! nat i) \<in> set (dkeys reg)")
      case True
      then obtain r where "dget reg (cd_capability_id (catalog ! nat i)) = Some r"
        using key_lookup [OF True] by blast
      then have "get_capability reg (cd_capability_id (catalog ! nat i)) \<equiv> Inr r"
        by (simp add: get_capability_def dlookup_def)
      then show ?thesis using Cons True by (auto simp: succeeds_iff selected_ids_def)
    next
      case False
      then have "dget reg (cd_capability_id (catalog ! nat i)) = None" by (simp add: map_of_eq_None_iff)
      then show ?thesis using False by (simp add: get_capability_def dlookup_def selected_ids_def)
    qed
  qed (simp add: selected_ids_def)
  have range: "list_ex (\<lambda>i. i < 0 \<or> i \<ge> int (length catalog)) indices \<longleftrightarrow>
      \<not> (\<forall>i\<in>set indices. 0 \<le> i \<and> i < int (length catalog))"
    by (auto simp: list_ex_iff not_le not_less)
  show "succeeds (resolve_catalog_indices reg catalog indices) \<longleftrightarrow>
      distinct indices \<and> (\<forall>i\<in>set indices. 0 \<le> i \<and> i < int (length catalog)) \<and>
      set (selected_ids catalog indices) \<subseteq> set (dkeys reg)"
    using ok [of indices] range by (simp add: resolve_catalog_indices_def raise_if_def)
  show "resolve_catalog_indices reg catalog indices = Inr selected \<Longrightarrow>
      map rc_id selected = selected_ids catalog indices"
    using ids by (simp add: resolve_catalog_indices_def)
qed

lemma closing_start:
  "set xs \<subseteq> set (dkeys reg) \<Longrightarrow> closing reg (set xs) (remdups xs, sort (remdups xs))"
  using closure_base by (auto simp: closing_def)

lemma ordered_items:
  assumes "distinct ids"
  shows "map wi_item_id (map (item_of reg) ids) = ids"
    and "i \<in> set ids \<Longrightarrow> item_deps (map (item_of reg) ids) i = registered_deps reg i"
proof -
  show ids: "map wi_item_id (map (item_of reg) ids) = ids" by (simp add: o_def item_of_def)
  show "i \<in> set ids \<Longrightarrow> item_deps (map (item_of reg) ids) i = registered_deps reg i"
    using item_deps_in [of "map (item_of reg) ids" "item_of reg i"] ids assms
    by (simp add: item_of_def)
qed

lemma deps_first_cong: "(\<And>i. i \<in> set ord \<Longrightarrow> f i = g i) \<Longrightarrow> deps_first f ord = deps_first g ord"
  by (induction ord) auto

lemma order_exists:
  assumes "distinct req" and "set req = C"
    and "\<And>i. i \<in> C \<Longrightarrow> set (registered_deps reg i) \<subseteq> C"
  shows "succeeds (deterministic_dependency_order (map (item_of reg) (sort req))) \<longleftrightarrow>
    acyclic {(i, j). i \<in> C \<and> j \<in> C \<and> j \<in> set (registered_deps reg i)}"
proof -
  have sorted: "distinct (sort req)" using assms(1) by simp
  let ?items = "map (item_of reg) (sort req)"
  have ids: "map wi_item_id ?items = sort req" by (rule ordered_items(1) [OF sorted])
  have sub: "\<forall>x\<in>set ?items. set (wi_dependency_ids x) \<subseteq> wi_item_id ` set ?items"
    by (auto simp: item_of_def image_iff) (use assms(2,3) in blast)
  have first: "deps_first (item_deps ?items) ord = deps_first (registered_deps reg) ord" if "set ord = C" for ord
    by (rule deps_first_cong) (use ordered_items(2) [OF sorted] that assms(2) in auto)
  have mset: "mset ord = mset (sort req) \<longleftrightarrow> distinct ord \<and> set ord = C" for ord
    using assms(1,2) set_eq_iff_mset_eq_distinct [of ord "sort req"] mset_eq_imp_distinct_iff [of ord "sort req"]
      mset_eq_setD [of ord "sort req"] by auto
  have "succeeds (deterministic_dependency_order ?items) \<longleftrightarrow>
      (\<exists>ord. distinct ord \<and> set ord = C \<and> deps_first (registered_deps reg) ord)"
    unfolding work_order_complete ids mset using sub sorted first by blast
  also have "\<dots> \<longleftrightarrow> acyclic {(i, j). i \<in> C \<and> j \<in> C \<and> j \<in> set (registered_deps reg i)}"
  proof
    assume "\<exists>ord. distinct ord \<and> set ord = C \<and> deps_first (registered_deps reg) ord"
    then obtain ord where o1: "distinct ord" "set ord = C" "deps_first (registered_deps reg) ord" by blast
    from deps_first_acyclic [OF o1(3,1)] show "acyclic {(i, j). i \<in> C \<and> j \<in> C \<and> j \<in> set (registered_deps reg i)}"
      unfolding o1(2) .
  next
    assume "acyclic {(i, j). i \<in> C \<and> j \<in> C \<and> j \<in> set (registered_deps reg i)}"
    then show "\<exists>ord. distinct ord \<and> set ord = C \<and> deps_first (registered_deps reg) ord"
      using acyclic_order [of C] assms(2) by blast
  qed
  finally show ?thesis .
qed

text \<open>Once the closure is known and lies in the registry, planning is ordering it.\<close>

lemma plan_from_closure:
  assumes "registry_ok reg" and "resolve_catalog_indices reg catalog indices = Inr selected"
    and "closure_loop reg (remdups (map rc_id selected), sort (remdups (map rc_id selected))) = Inr req"
    and "distinct req" and "set req \<subseteq> set (dkeys reg)"
  shows "plan_execution reg catalog indices =
    rbind (deterministic_dependency_order (map (item_of reg) (sort req))) (\<lambda>ord.
    rbind (rmap (plan_item_of reg) ord) (\<lambda>items.
    validate_plan \<lparr>cx_registry_version = CAPABILITY_REGISTRY_VERSION, cx_requested_catalog_indices = indices,
      cx_catalog_capability_ids = map cd_capability_id catalog, cx_items = items\<rparr>))"
proof -
  have "rmap (work_item_of reg) (sort req) = Inr (map (item_of reg) (sort req))"
    by (rule rmap_all) (use assms(5) registered_items(1) [OF assms(1)] in auto)
  then show ?thesis by (simp add: plan_execution_def assms(2,3))
qed

lemma order_accepted:
  assumes ok: "registry_ok reg" and ord: "deterministic_dependency_order (map (item_of reg) (sort req)) = Inr ord"
    and req: "distinct req" "set req = closure reg A" "set req \<subseteq> set (dkeys reg)"
    and idx: "distinct indices" "\<forall>i\<in>set indices. 0 \<le> i \<and> i < int (length catalog)"
  shows "distinct ord \<and> set ord = closure reg A \<and> deps_first (registered_deps reg) ord \<and>
      rbind (rmap (plan_item_of reg) ord) (\<lambda>items. validate_plan
        \<lparr>cx_registry_version = CAPABILITY_REGISTRY_VERSION, cx_requested_catalog_indices = indices,
         cx_catalog_capability_ids = map cd_capability_id catalog, cx_items = items\<rparr>) =
      raise_if (\<not> distinct (map cd_capability_id catalog))
        (ValueError ''capability catalog must not contain duplicate ids'')
        (Inr \<lparr>cx_registry_version = CAPABILITY_REGISTRY_VERSION, cx_requested_catalog_indices = indices,
         cx_catalog_capability_ids = map cd_capability_id catalog, cx_items = map (entry_of reg) ord\<rparr>)"
proof -
  have sorted: "distinct (sort req)" using req(1) by simp
  note sound = work_order_sound [OF ord]
  have m: "mset ord = mset (sort req)" using sound ordered_items(1) [OF sorted, of reg] by metis
  then have set: "set ord = set req" and dist: "distinct ord"
    using sorted mset_eq_setD [OF m] mset_eq_imp_distinct_iff [OF m] by simp_all
  have first: "deps_first (registered_deps reg) ord"
    using sound deps_first_cong [of ord "item_deps (map (item_of reg) (sort req))" "registered_deps reg"]
      ordered_items(2) [OF sorted, of _ reg] set by simp
  have items: "rmap (plan_item_of reg) ord = Inr (map (entry_of reg) ord)"
    by (rule rmap_all) (use set req(3) registered_items(2) [OF ok] in auto)
  have ids: "map ci_capability_id (map (entry_of reg) ord) = ord" by (simp add: o_def entry_of_def)
  have deps: "\<And>i. i \<in> set ord \<Longrightarrow> set (registered_deps reg i) \<subseteq> set ord"
    unfolding set req(2) by (rule closure_step)
  have "\<not> list_ex (\<lambda>i. i < 0 \<or> i \<ge> int (length (map cd_capability_id catalog))) indices"
    using idx(2) by (auto simp: list_ex_iff)
  then show ?thesis
    using set req(2) dist first items idx(1) plan_dependencies_checked [OF first dist deps]
    by (simp add: validate_plan_def ids Let_def del: list_ex_iff map_map)
qed

text \<open>C19. Planning turns chosen catalog indices into work exactly when it can: it succeeds if and only if the
  indices are distinct and in the catalog, the catalog has no duplicate, everything the selection needs is
  registered, and these dependencies have no cycle. The plan then holds the transitive dependencies of the
  selection and nothing else, each once, after everything it depends on, and as it was registered.\<close>

theorem plan_execution_correct:
  assumes "rmap construct_registration raws = Inr rs" and "new_registry rs = Inr reg"
    and "C = closure reg (set (selected_ids catalog indices))"
  shows "(succeeds (plan_execution reg catalog indices) \<longleftrightarrow>
      distinct indices \<and> distinct (map cd_capability_id catalog) \<and>
      (\<forall>i\<in>set indices. 0 \<le> i \<and> i < int (length catalog)) \<and> C \<subseteq> set (dkeys reg) \<and>
      acyclic {(i, j). i \<in> C \<and> j \<in> C \<and> j \<in> set (registered_deps reg i)}) \<and>
    (\<forall>plan. plan_execution reg catalog indices = Inr plan \<longrightarrow>
      (\<exists>ord. cx_items plan = map (entry_of reg) ord \<and> distinct ord \<and> set ord = C \<and>
        deps_first (registered_deps reg) ord \<and> cx_requested_catalog_indices plan = indices))"
proof -
  note ok = registry_ok_new [OF assms(1,2)]
  let ?sel = "selected_ids catalog indices"
  show ?thesis
  proof (cases "distinct indices \<and> (\<forall>i\<in>set indices. 0 \<le> i \<and> i < int (length catalog)) \<and> C \<subseteq> set (dkeys reg)")
    case True
    have sub: "set ?sel \<subseteq> set (dkeys reg)" using True closure_base [of "set ?sel" reg] assms(3) by blast
    then obtain selected where sel: "resolve_catalog_indices reg catalog indices = Inr selected"
      using True resolve_indices(1) [OF ok, of catalog indices] by (auto simp: succeeds_iff)
    have ids: "map rc_id selected = ?sel" by (rule resolve_indices(2) [OF ok sel])
    note start = closing_start [OF sub]
    obtain req where req: "closure_loop reg (remdups ?sel, sort (remdups ?sel)) = Inr req"
      using closure_loop_total [OF start] True assms(3) by (auto simp: succeeds_iff)
    have r: "distinct req" "set req = C" "set req \<subseteq> set (dkeys reg)"
      using closure_loop_sound [OF req start] assms(3) by auto
    note plan = plan_from_closure [OF ok sel, unfolded ids, OF req r(1,3)]
    note acc = order_accepted [OF ok _ r(1) r(2) [unfolded assms(3)] r(3), folded assms(3)]
    have order: "succeeds (deterministic_dependency_order (map (item_of reg) (sort req))) \<longleftrightarrow>
        acyclic {(i, j). i \<in> C \<and> j \<in> C \<and> j \<in> set (registered_deps reg i)}"
      using order_exists [OF r(1,2), of reg] closure_step [of _ reg "set ?sel"] assms(3) by blast
    show ?thesis
    proof (cases "deterministic_dependency_order (map (item_of reg) (sort req))")
      case (Inl e)
      then show ?thesis using order plan by simp
    next
      case (Inr ord)
      have idx: "distinct indices" "\<forall>i\<in>set indices. 0 \<le> i \<and> i < int (length catalog)"
        using True by blast+
      have "plan_execution reg catalog indices = raise_if (\<not> distinct (map cd_capability_id catalog))
          (ValueError ''capability catalog must not contain duplicate ids'')
          (Inr \<lparr>cx_registry_version = CAPABILITY_REGISTRY_VERSION, cx_requested_catalog_indices = indices,
           cx_catalog_capability_ids = map cd_capability_id catalog, cx_items = map (entry_of reg) ord\<rparr>)"
        using acc [OF Inr idx, THEN conjunct2, THEN conjunct2, THEN conjunct2] unfolding plan Inr rbind_Inr .
      moreover have "acyclic {(i, j). i \<in> C \<and> j \<in> C \<and> j \<in> set (registered_deps reg i)}"
        using order Inr by simp
      moreover have "distinct ord \<and> set ord = C \<and> deps_first (registered_deps reg) ord"
        using acc [OF Inr idx] by blast
      ultimately show ?thesis using True
        by (cases "distinct (map cd_capability_id catalog)") (simp_all del: raise_if_cong, blast)
    qed
  next
    case False
    have "\<not> succeeds (plan_execution reg catalog indices)"
    proof
      assume "succeeds (plan_execution reg catalog indices)"
      then obtain selected req where sel: "resolve_catalog_indices reg catalog indices = Inr selected"
        and req: "closure_loop reg (remdups (map rc_id selected), sort (remdups (map rc_id selected))) = Inr req"
        by (auto simp: plan_execution_def succeeds_iff Let_def)
      have ids: "map rc_id selected = ?sel" by (rule resolve_indices(2) [OF ok sel])
      have "succeeds (resolve_catalog_indices reg catalog indices)" using sel by simp
      then have idx: "distinct indices" "\<forall>i\<in>set indices. 0 \<le> i \<and> i < int (length catalog)"
        and sub: "set ?sel \<subseteq> set (dkeys reg)"
        unfolding resolve_indices(1) [OF ok] by blast+
      from closure_loop_sound [OF req [unfolded ids] closing_start [OF sub]] idx False assms(3)
      show False by blast
    qed
    then show ?thesis using False by (auto simp: succeeds_iff)
  qed
qed

definition sample_capability :: "string \<Rightarrow> int \<Rightarrow> string list \<Rightarrow> registered_capability" where
  "sample_capability i priority dependencies =
     \<lparr>rc_descriptor = \<lparr>cd_capability_id = i, cd_kind = TOOL, cd_description = ''a tool''\<rparr>,
      rc_routing_terms = [i @ '' now''], rc_executor = ''run'', rc_selectable_as_external_work = True,
      rc_execution_priority = priority, rc_depends_on_capability_ids = dependencies\<rparr>"

definition sample_capabilities :: "registered_capability list" where
  "sample_capabilities =
     [sample_capability ''report'' 5 [''search'', ''draft''], sample_capability ''draft'' 9 [''search''],
      sample_capability ''search'' 100 [], sample_capability ''weather'' 1 []]"

definition sample_registry :: capability_registry where
  "sample_registry = map (\<lambda>r. (rc_id r, r)) sample_capabilities"

definition sample_catalog :: "capability_descriptor list" where
  "sample_catalog = map rc_descriptor sample_capabilities"

lemma sample_registered:
  "rmap construct_registration sample_capabilities = Inr sample_capabilities"
  "new_registry sample_capabilities = Inr sample_registry"
  by code_simp+

lemma sample_plan:
  "plan_execution sample_registry sample_catalog [0] = Inr
    \<lparr>cx_registry_version = CAPABILITY_REGISTRY_VERSION, cx_requested_catalog_indices = [0],
     cx_catalog_capability_ids = [''report'', ''draft'', ''search'', ''weather''],
     cx_items = map (entry_of sample_registry) [''search'', ''draft'', ''report'']\<rparr>"
  by code_simp

theorem plan_execution_correct_witness:
  "closure sample_registry {''report''} = {''search'', ''draft'', ''report''}"
proof -
  have sel: "set (selected_ids sample_catalog [0]) = {''report''}" by code_simp
  note sound = plan_execution_correct [OF sample_registered refl, of sample_catalog "[0]", THEN conjunct2,
      rule_format, OF sample_plan, unfolded sel]
  then obtain ord where ord: "map (entry_of sample_registry) [''search'', ''draft'', ''report''] =
      map (entry_of sample_registry) ord"
    and set: "set ord = closure sample_registry {''report''}"
    by (elim exE conjE) (simp only: capability_plan.select_convs)
  from ord have "map ci_capability_id (map (entry_of sample_registry) [''search'', ''draft'', ''report'']) =
      map ci_capability_id (map (entry_of sample_registry) ord)" by (rule arg_cong)
  then have "ord = [''search'', ''draft'', ''report'']" by (simp add: o_def entry_of_def)
  then show ?thesis using set by simp
qed

lemma sample_discovery:
  "discover sample_registry \<lparr>cn_query_text = ''Report the WEATHER now'', cn_supplemental_query_texts = [],
      cn_kinds = None, cn_exclude_capability_ids = [], cn_limit = 3\<rparr> =
   Inr [\<lparr>cm_descriptor = rc_descriptor (sample_capability ''weather'' 1 []), cm_score = 23/2\<rparr>,
        \<lparr>cm_descriptor = rc_descriptor (sample_capability ''report'' 5 []), cm_score = 49/5\<rparr>]"
  by code_simp

end
