(* ===== verification/Journal.thy ===== *)
theory Journal
  imports WorkerProtocol
begin

text \<open>
  The durable files beside the database (\<^verbatim>\<open>percept_journal.py\<close>, \<^verbatim>\<open>event_artifact_store.py\<close>): one
  append-only journal per percept and one small stream per event outside a percept, each a sequence of
  JSON lines that carry their own hash. A writer first decides what to write and then performs one file
  effect, either the atomic creation of a stream or an append; an append may be cut short by a crash,
  which leaves an incomplete last line.

  The bytes of a file have a type \<open>'b\<close> that is left open. The canonical JSON text of an entry, its parser,
  the hash and \<^verbatim>\<open>uuid5\<close> are library functions: the fields of the argument \<open>env\<close>. The files of the format
  that preceded the streams (\<^verbatim>\<open><id>.json\<close> with \<^verbatim>\<open><id>.commit.json\<close>) hold one value each.
\<close>

section \<open>Entries\<close>

record event_record =
  jr_schema_version :: int
  jr_event_id :: uuid
  jr_conversation_id :: uuid
  jr_correlation_id :: uuid
  jr_conversation_seq :: int
  jr_event_type :: string
  jr_source :: string
  jr_payload :: json_object
  jr_payload_text :: "string option"
  jr_record_hash :: string
  jr_journaled_at :: datetime

record event_commit =
  jc_schema_version :: int
  jc_event_id :: uuid
  jc_record_hash :: string
  jc_global_seq :: int
  jc_conversation_seq :: int
  jc_created_at :: datetime
  jc_event_schema_version :: int
  jc_commit_hash :: string

record interaction_artifact =
  ia_schema_version :: int
  ia_artifact_id :: uuid
  ia_artifact_key :: string
  ia_artifact_type :: string
  ia_interaction_id :: uuid
  ia_conversation_id :: uuid
  ia_correlation_id :: uuid
  ia_task_id :: "uuid option"
  ia_assignment_id :: "uuid option"
  ia_stage :: "string option"
  ia_producer :: string
  ia_journal_sequence :: int
  ia_created_at :: datetime
  ia_previous_artifact_id :: "uuid option"
  ia_previous_artifact_hash :: "string option"
  ia_payload_hash :: string
  ia_payload :: json_object
  ia_artifact_hash :: string

datatype journal_entry =
    EventRecord event_record
  | EventCommit event_commit
  | InteractionEntry interaction_artifact

text \<open>What is hashed: an entry whose own hash is blank, or a payload.\<close>

datatype hashed = HashedEntry journal_entry | HashedPayload json_object

record 'b journal_env =
  je_uuid5 :: "uuid \<Rightarrow> string \<Rightarrow> uuid"
  je_digest :: "hashed \<Rightarrow> string"
  je_line :: "journal_entry \<Rightarrow> 'b list"
  je_parse :: "'b list \<Rightarrow> journal_entry option"
  je_newline :: 'b

definition ARTIFACT_SCHEMA_VERSION :: int where
  "ARTIFACT_SCHEMA_VERSION = 1"

definition blank_record :: "event_record \<Rightarrow> event_record" where
  "blank_record r = r\<lparr>jr_record_hash := '''', jr_journaled_at := Naive 0\<rparr>"

definition record_digest :: "'b journal_env \<Rightarrow> event_record \<Rightarrow> string" where
  "record_digest env r = je_digest env (HashedEntry (EventRecord (blank_record r)))"

definition commit_digest :: "'b journal_env \<Rightarrow> event_commit \<Rightarrow> string" where
  "commit_digest env c = je_digest env (HashedEntry (EventCommit (c\<lparr>jc_commit_hash := ''''\<rparr>)))"

definition verify_event_record :: "'b journal_env \<Rightarrow> event_record \<Rightarrow> bool" where
  "verify_event_record env r \<longleftrightarrow> jr_record_hash r = record_digest env r"

definition verify_event_commit :: "'b journal_env \<Rightarrow> event_commit \<Rightarrow> bool" where
  "verify_event_commit env c \<longleftrightarrow> jc_commit_hash c = commit_digest env c"

text \<open>Equality of the semantic fields, as Python compares dictionaries.\<close>

definition same_semantic :: "event_record \<Rightarrow> event_record \<Rightarrow> bool" where
  "same_semantic a b \<longleftrightarrow>
     (blank_record a)\<lparr>jr_payload := []\<rparr> = (blank_record b)\<lparr>jr_payload := []\<rparr> \<and>
     same_payload (jr_payload a) (jr_payload b)"

definition semantic_record ::
  "uuid \<Rightarrow> uuid \<Rightarrow> uuid \<Rightarrow> int \<Rightarrow> string \<Rightarrow> string \<Rightarrow> json_object \<Rightarrow> string option \<Rightarrow> event_record" where
  "semantic_record event_id conversation_id correlation_id conversation_seq event_type source payload payload_text =
     \<lparr>jr_schema_version = ARTIFACT_SCHEMA_VERSION, jr_event_id = event_id,
      jr_conversation_id = conversation_id, jr_correlation_id = correlation_id,
      jr_conversation_seq = conversation_seq, jr_event_type = event_type, jr_source = source,
      jr_payload = payload, jr_payload_text = payload_text, jr_record_hash = '''',
      jr_journaled_at = Naive 0\<rparr>"

section \<open>Files\<close>

text \<open>The complete lines of a file and the bytes after the last newline.\<close>

fun split_file :: "'b \<Rightarrow> 'b list \<Rightarrow> 'b list list \<times> 'b list" where
  "split_file nl [] = ([], [])"
| "split_file nl (c # cs) =
     (case split_file nl cs of
        ([], t) \<Rightarrow> if c = nl then ([[]], t) else ([], c # t)
      | (l # ls, t) \<Rightarrow> if c = nl then ([] # l # ls, t) else ((c # l) # ls, t))"

record 'b artifact_files =
  af_legacy :: "(uuid, event_record) dict"
  af_legacy_commits :: "(uuid, event_commit) dict"
  af_streams :: "(uuid, 'b list) dict"
  af_percepts :: "(uuid, 'b list) dict"

definition empty_files :: "'b artifact_files" where
  "empty_files = \<lparr>af_legacy = [], af_legacy_commits = [], af_streams = [], af_percepts = []\<rparr>"

definition content :: "(uuid, 'b list) dict \<Rightarrow> uuid \<Rightarrow> 'b list" where
  "content d i = (case dget d i of None \<Rightarrow> [] | Some raw \<Rightarrow> raw)"

datatype 'b file_effect =
    NoEffect
  | CreateStream uuid "'b list"
  | AppendStream uuid "'b list"
  | AppendPercept uuid "'b list"
  | WriteLegacyCommit uuid event_commit

fun apply_effect :: "'b file_effect \<Rightarrow> 'b artifact_files \<Rightarrow> 'b artifact_files" where
  "apply_effect NoEffect f = f"
| "apply_effect (CreateStream i raw) f = f\<lparr>af_streams := dset i raw (af_streams f)\<rparr>"
| "apply_effect (AppendStream i raw) f =
     f\<lparr>af_streams := dset i (content (af_streams f) i @ raw) (af_streams f)\<rparr>"
| "apply_effect (AppendPercept i raw) f =
     f\<lparr>af_percepts := dset i (content (af_percepts f) i @ raw) (af_percepts f)\<rparr>"
| "apply_effect (WriteLegacyCommit i c) f = f\<lparr>af_legacy_commits := dset i c (af_legacy_commits f)\<rparr>"

text \<open>The files after a crash in the middle of an effect: an append stops after some bytes, a file that is
  written under a temporary name and renamed is not there.\<close>

fun torn_effect :: "nat \<Rightarrow> 'b file_effect \<Rightarrow> 'b file_effect" where
  "torn_effect n (AppendStream i raw) = AppendStream i (take n raw)"
| "torn_effect n (AppendPercept i raw) = AppendPercept i (take n raw)"
| "torn_effect n _ = NoEffect"

definition perform :: "('a \<times> 'b file_effect) res \<Rightarrow> ('b artifact_files, 'a) op" where
  "perform m f = (case m of Inl e \<Rightarrow> (Inl e, f) | Inr (x, eff) \<Rightarrow> (Inr x, apply_effect eff f))"

section \<open>The percept journal\<close>

definition parse_line :: "'b journal_env \<Rightarrow> 'b list \<Rightarrow> journal_entry res" where
  "parse_line env l =
     (case je_parse env l of
        None \<Rightarrow> Inl (RuntimeError ''invalid percept journal entry'') | Some e \<Rightarrow> Inr e)"

definition parse_unlocked ::
  "'b journal_env \<Rightarrow> bool \<Rightarrow> 'b list \<Rightarrow> (journal_entry list \<times> 'b list) res" where
  "parse_unlocked env allow_partial raw =
     (let (ls, tail) = split_file (je_newline env) raw
      in raise_if (tail \<noteq> [] \<and> \<not> allow_partial) (RuntimeError ''incomplete percept journal'')
        (rbind (rmap (parse_line env) ls) (\<lambda>records. Inr (records, tail))))"

definition entries_unlocked :: "'b journal_env \<Rightarrow> 'b list \<Rightarrow> journal_entry list res" where
  "entries_unlocked env raw = rbind (parse_unlocked env False raw) (\<lambda>p. Inr (fst p))"

definition starts_with :: "'b list \<Rightarrow> 'b list \<Rightarrow> bool" where
  "starts_with xs ys \<longleftrightarrow> take (length ys) xs = ys"

definition append_unlocked ::
  "'b journal_env \<Rightarrow> uuid \<Rightarrow> journal_entry \<Rightarrow> 'b list \<Rightarrow> 'b file_effect res" where
  "append_unlocked env path e partial_prefix =
     (let encoded = je_line env e @ [je_newline env]
      in if partial_prefix \<noteq> []
         then raise_if (\<not> starts_with encoded partial_prefix)
                (RuntimeError ''conflicting incomplete percept journal entry'')
                (Inr (AppendPercept path (drop (length partial_prefix) encoded)))
         else Inr (AppendPercept path encoded))"

definition interaction_scope :: "'b journal_env \<Rightarrow> uuid \<Rightarrow> uuid \<Rightarrow> uuid" where
  "interaction_scope env conversation_id correlation_id =
     je_uuid5 env conversation_id (''interaction:'' @ uuid_str correlation_id)"

definition scope_for ::
  "'b journal_env \<Rightarrow> uuid \<Rightarrow> uuid \<Rightarrow> 'b artifact_files \<Rightarrow> uuid option res" where
  "scope_for env conversation_id correlation_id f =
     (let found = filter (\<lambda>i. i \<in> set (dkeys (af_percepts f)))
          [interaction_scope env conversation_id correlation_id, correlation_id]
      in raise_if (length found > 1) (RuntimeError ''ambiguous percept journal correlation'')
           (Inr (case found of [] \<Rightarrow> None | i # _ \<Rightarrow> Some i)))"

section \<open>Event streams\<close>

definition parse_stream ::
  "'b journal_env \<Rightarrow> bool \<Rightarrow> 'b list \<Rightarrow> (event_record \<times> event_commit option \<times> 'b list) res" where
  "parse_stream env allow_partial_commit raw =
     (case split_file (je_newline env) raw of
        ([], tail) \<Rightarrow> Inl (RuntimeError ''incomplete event record'')
      | (first # others, tail) \<Rightarrow>
          raise_if (first = []) (RuntimeError ''incomplete event record'')
         (rbind (case je_parse env first of
             Some (EventRecord r) \<Rightarrow> Inr r | _ \<Rightarrow> Inl (RuntimeError ''invalid event stream'')) (\<lambda>r.
          rbind (case others of
             [] \<Rightarrow> Inr None
           | l # _ \<Rightarrow> (case je_parse env l of
               Some (EventCommit c) \<Rightarrow> Inr (Some c) | _ \<Rightarrow> Inl (RuntimeError ''invalid event stream''))) (\<lambda>commit.
          raise_if (length others > 1 \<or> others \<noteq> [] \<and> tail \<noteq> [] \<or> tail \<noteq> [] \<and> \<not> allow_partial_commit)
            (RuntimeError ''incomplete or extra event stream entry'')
         (raise_if (\<not> verify_event_record env r) (RuntimeError ''invalid event record hash'')
         (raise_if (case commit of None \<Rightarrow> False | Some c \<Rightarrow>
              \<not> verify_event_commit env c \<or> jc_record_hash c \<noteq> jr_record_hash r \<or>
              jc_event_id c \<noteq> jr_event_id r \<or> jc_conversation_seq c \<noteq> jr_conversation_seq r)
            (RuntimeError ''invalid event commit entry'')
         (Inr (r, commit, tail))))))))"

section \<open>Writing the record of an event\<close>

fun in_scope :: "uuid \<Rightarrow> journal_entry \<Rightarrow> bool" where
  "in_scope scope (EventRecord r) \<longleftrightarrow> True"
| "in_scope scope (EventCommit c) \<longleftrightarrow> False"
| "in_scope scope (InteractionEntry a) \<longleftrightarrow> ia_interaction_id a = scope"

fun entry_scope :: "journal_entry \<Rightarrow> (uuid \<times> uuid) option" where
  "entry_scope (EventRecord r) = Some (jr_conversation_id r, jr_correlation_id r)"
| "entry_scope (EventCommit c) = None"
| "entry_scope (InteractionEntry a) = Some (ia_conversation_id a, ia_correlation_id a)"

fun entry_event_id :: "journal_entry \<Rightarrow> uuid option" where
  "entry_event_id (EventRecord r) = Some (jr_event_id r)"
| "entry_event_id (EventCommit c) = Some (jc_event_id c)"
| "entry_event_id (InteractionEntry a) = None"

definition records_of :: "uuid \<Rightarrow> journal_entry list \<Rightarrow> event_record list" where
  "records_of event_id entries =
     concat (map (\<lambda>e. case e of EventRecord r \<Rightarrow> if jr_event_id r = event_id then [r] else [] | _ \<Rightarrow> []) entries)"

definition commits_of :: "uuid \<Rightarrow> journal_entry list \<Rightarrow> event_commit list" where
  "commits_of event_id entries =
     concat (map (\<lambda>e. case e of EventCommit c \<Rightarrow> if jc_event_id c = event_id then [c] else [] | _ \<Rightarrow> []) entries)"

definition percept_record_entry ::
  "'b journal_env \<Rightarrow> uuid \<Rightarrow> event_record \<Rightarrow> journal_entry list \<times> 'b list \<Rightarrow>
     (event_record \<times> 'b file_effect) res" where
  "percept_record_entry env scope r p =
     (let (entries, partial) = p
      in
     raise_if (\<exists>item\<in>set entries. in_scope scope item \<and>
         entry_scope item \<noteq> Some (jr_conversation_id r, jr_correlation_id r))
       (RuntimeError ''percept journal scope conflicts with event'')
    (raise_if (length (records_of (jr_event_id r) entries) > 1)
       (RuntimeError ''duplicate event in percept journal'')
    (case records_of (jr_event_id r) entries of
       existing # _ \<Rightarrow>
         raise_if (\<not> verify_event_record env existing \<or> \<not> same_semantic existing r)
           (ValueError ''conflicting event artifact retry'') (Inr (existing, NoEffect))
     | [] \<Rightarrow>
         raise_if (partial \<noteq> []) (RuntimeError ''incomplete percept journal before new event'')
        (raise_if (\<exists>item\<in>set entries. entry_event_id item = Some (jr_event_id r))
           (RuntimeError ''orphaned event commit in percept journal'')
        (rbind (append_unlocked env scope (EventRecord r) []) (\<lambda>eff. Inr (r, eff)))))))"

definition decide_event_record ::
  "'b journal_env \<Rightarrow> event_record \<Rightarrow> uuid option \<Rightarrow> datetime \<Rightarrow> 'b artifact_files \<Rightarrow>
     (event_record \<times> 'b file_effect) res" where
  "decide_event_record env semantic journal_id journaled_at f =
     (let r = semantic\<lparr>jr_record_hash := record_digest env semantic, jr_journaled_at := journaled_at\<rparr>;
          i = jr_event_id r; legacy = dget (af_legacy f) i; stream = dget (af_streams f) i
      in
     raise_if (case journal_id of None \<Rightarrow> False | Some j \<Rightarrow>
         j \<notin> {jr_correlation_id r, interaction_scope env (jr_conversation_id r) (jr_correlation_id r)})
       (ValueError ''percept journal identity must match its correlation'')
    (raise_if (legacy \<noteq> None \<and> stream \<noteq> None)
       (RuntimeError ''event has both legacy and stream artifacts'')
    (if legacy \<noteq> None \<or> stream \<noteq> None
     then rbind (case legacy of
              Some x \<Rightarrow> Inr x
            | None \<Rightarrow> rbind (parse_stream env True (content (af_streams f) i)) (\<lambda>s. Inr (fst s))) (\<lambda>existing.
          raise_if (\<not> same_semantic existing r \<or> jr_record_hash existing \<noteq> jr_record_hash r \<or>
              \<not> verify_event_record env existing)
            (ValueError ''conflicting event artifact retry'') (Inr (existing, NoEffect)))
     else rbind (case journal_id of
              Some j \<Rightarrow> Inr (Some j)
            | None \<Rightarrow> scope_for env (jr_conversation_id r) (jr_correlation_id r) f) (\<lambda>scope.
          case scope of
            Some j \<Rightarrow> rbind (parse_unlocked env True (content (af_percepts f) j)) (percept_record_entry env j r)
          | None \<Rightarrow> Inr (r, CreateStream i (je_line env (EventRecord r) @ [je_newline env]))))))"

definition write_event_record ::
  "'b journal_env \<Rightarrow> event_record \<Rightarrow> uuid option \<Rightarrow> datetime \<Rightarrow> ('b artifact_files, event_record) op" where
  "write_event_record env semantic journal_id journaled_at f =
     perform (decide_event_record env semantic journal_id journaled_at f) f"

section \<open>Writing the commit of an event\<close>

definition mk_event_commit ::
  "'b journal_env \<Rightarrow> uuid \<Rightarrow> string \<Rightarrow> int \<Rightarrow> int \<Rightarrow> datetime \<Rightarrow> int \<Rightarrow> event_commit" where
  "mk_event_commit env event_id record_hash global_seq conversation_seq created_at schema_version =
     (let semantic = \<lparr>jc_schema_version = ARTIFACT_SCHEMA_VERSION, jc_event_id = event_id,
        jc_record_hash = record_hash, jc_global_seq = global_seq,
        jc_conversation_seq = conversation_seq, jc_created_at = created_at,
        jc_event_schema_version = schema_version, jc_commit_hash = ''''\<rparr>
      in semantic\<lparr>jc_commit_hash := commit_digest env semantic\<rparr>)"

definition percept_commit_entry ::
  "'b journal_env \<Rightarrow> uuid \<Rightarrow> uuid \<Rightarrow> (string \<Rightarrow> event_commit) \<Rightarrow> journal_entry list \<times> 'b list \<Rightarrow>
     (event_commit \<times> 'b file_effect) res" where
  "percept_commit_entry env scope event_id build p =
     (let (entries, partial) = p
      in
     (case records_of event_id entries of
        [r] \<Rightarrow>
          (let commit = build (jr_record_hash r)
           in
          raise_if (\<not> verify_event_record env r \<or> jr_conversation_seq r \<noteq> jc_conversation_seq commit)
            (RuntimeError ''invalid semantic artifact'')
         (case commits_of event_id entries of
            [] \<Rightarrow> rbind (append_unlocked env scope (EventCommit commit) partial) (\<lambda>eff. Inr (commit, eff))
          | existing # others \<Rightarrow>
              raise_if (others \<noteq> [] \<or> existing \<noteq> commit) (ValueError ''conflicting event commit retry'')
             (raise_if (partial \<noteq> []) (RuntimeError ''incomplete percept journal after event commit'')
             (Inr (existing, NoEffect)))))
      | _ \<Rightarrow> Inl (RuntimeError ''event commit has no unique semantic artifact'')))"

definition stream_commit_entry ::
  "'b journal_env \<Rightarrow> uuid \<Rightarrow> (string \<Rightarrow> event_commit) \<Rightarrow> 'b list \<Rightarrow> (event_commit \<times> 'b file_effect) res" where
  "stream_commit_entry env event_id build raw =
     rbind (parse_stream env True raw) (\<lambda>(r, existing, partial).
     (let commit = build (jr_record_hash r); encoded = je_line env (EventCommit commit) @ [je_newline env]
      in
     raise_if (jr_event_id r \<noteq> event_id) (RuntimeError ''invalid semantic artifact'')
    (raise_if (jr_conversation_seq r \<noteq> jc_conversation_seq commit)
       (ValueError ''event commit sequence conflicts with semantic artifact'')
    (case existing of
       Some c \<Rightarrow>
         raise_if (c \<noteq> commit) (ValueError ''conflicting event commit artifact retry'') (Inr (c, NoEffect))
     | None \<Rightarrow>
         raise_if (partial \<noteq> [] \<and> \<not> starts_with encoded partial)
           (RuntimeError ''conflicting incomplete event commit'')
           (Inr (commit, AppendStream event_id (drop (length partial) encoded)))))))"

definition legacy_commit_entry ::
  "'b journal_env \<Rightarrow> uuid \<Rightarrow> (string \<Rightarrow> event_commit) \<Rightarrow> event_record \<Rightarrow> event_commit option \<Rightarrow>
     (event_commit \<times> 'b file_effect) res" where
  "legacy_commit_entry env event_id build r stored =
     (let commit = build (jr_record_hash r)
      in
     raise_if (\<not> verify_event_record env r \<or> jr_event_id r \<noteq> event_id)
       (RuntimeError ''invalid semantic artifact'')
    (raise_if (jr_conversation_seq r \<noteq> jc_conversation_seq commit)
       (ValueError ''event commit sequence conflicts with semantic artifact'')
    (case stored of
       Some existing \<Rightarrow>
         raise_if (existing \<noteq> commit) (ValueError ''conflicting event commit artifact retry'')
           (Inr (existing, NoEffect))
     | None \<Rightarrow> Inr (commit, WriteLegacyCommit event_id commit))))"

definition decide_event_commit ::
  "'b journal_env \<Rightarrow> uuid \<Rightarrow> int \<Rightarrow> int \<Rightarrow> datetime \<Rightarrow> int \<Rightarrow> (uuid \<times> uuid) option \<Rightarrow> 'b artifact_files \<Rightarrow>
     (event_commit \<times> 'b file_effect) res" where
  "decide_event_commit env event_id global_seq conversation_seq created_at schema_version ids f =
     (let build = (\<lambda>h. mk_event_commit env event_id h global_seq conversation_seq created_at schema_version);
          legacy = dget (af_legacy f) event_id; stream = dget (af_streams f) event_id
      in
     raise_if (legacy \<noteq> None \<and> stream \<noteq> None)
       (RuntimeError ''event has both legacy and stream artifacts'')
    (case (legacy, stream) of
       (None, None) \<Rightarrow>
         (case ids of
            None \<Rightarrow> Inl (RuntimeError ''event commit has no semantic artifact'')
          | Some (conversation_id, correlation_id) \<Rightarrow>
              rbind (scope_for env conversation_id correlation_id f) (\<lambda>scope.
              (case scope of
                 None \<Rightarrow> Inl (RuntimeError ''event commit has no percept journal'')
               | Some j \<Rightarrow> rbind (parse_unlocked env True (content (af_percepts f) j))
                   (percept_commit_entry env j event_id build))))
     | (Some r, _) \<Rightarrow> legacy_commit_entry env event_id build r (dget (af_legacy_commits f) event_id)
     | (None, Some raw) \<Rightarrow> stream_commit_entry env event_id build raw))"

definition write_event_commit ::
  "'b journal_env \<Rightarrow> uuid \<Rightarrow> int \<Rightarrow> int \<Rightarrow> datetime \<Rightarrow> int \<Rightarrow> (uuid \<times> uuid) option \<Rightarrow>
     ('b artifact_files, event_commit) op" where
  "write_event_commit env event_id global_seq conversation_seq created_at schema_version ids f =
     perform (decide_event_commit env event_id global_seq conversation_seq created_at schema_version ids f) f"

section \<open>Reading everything back\<close>

definition receipt_matches :: "'b journal_env \<Rightarrow> event_record \<Rightarrow> event_commit \<Rightarrow> bool" where
  "receipt_matches env r c \<longleftrightarrow> verify_event_commit env c \<and> jc_record_hash c = jr_record_hash r \<and>
     jc_conversation_seq c = jr_conversation_seq r"

definition read_legacy ::
  "'b journal_env \<Rightarrow> 'b artifact_files \<Rightarrow> uuid \<times> event_record \<Rightarrow> (event_record \<times> event_commit option) res" where
  "read_legacy env f e =
     (let (i, r) = e; commit = dget (af_legacy_commits f) i
      in
     raise_if (\<not> verify_event_record env r) (RuntimeError ''event artifact hash verification failed'')
    (raise_if (i \<noteq> jr_event_id r) (RuntimeError ''misnamed event artifact'')
    (raise_if (case commit of None \<Rightarrow> False | Some c \<Rightarrow>
         \<not> receipt_matches env r c \<or> jc_event_id c \<noteq> jr_event_id r)
       (RuntimeError ''event record/commit mismatch'')
    (Inr (r, commit)))))"

definition read_stream ::
  "'b journal_env \<Rightarrow> uuid \<times> 'b list \<Rightarrow> (event_record \<times> event_commit option) res" where
  "read_stream env e =
     rbind (parse_stream env False (snd e)) (\<lambda>(r, commit, _).
     raise_if (fst e \<noteq> jr_event_id r) (RuntimeError ''misnamed event stream'') (Inr (r, commit)))"

type_synonym event_pair = "event_record option \<times> event_commit option"

fun collect_entry :: "journal_entry \<Rightarrow> (uuid, event_pair) dict \<Rightarrow> (uuid, event_pair) dict res" where
  "collect_entry (InteractionEntry a) by_id = Inr by_id"
| "collect_entry (EventRecord r) by_id =
     (let pair = (case dget by_id (jr_event_id r) of None \<Rightarrow> (None, None) | Some p \<Rightarrow> p)
      in raise_if (fst pair \<noteq> None) (RuntimeError ''duplicate event entry'')
           (Inr (dset (jr_event_id r) (Some r, snd pair) by_id)))"
| "collect_entry (EventCommit c) by_id =
     (let pair = (case dget by_id (jc_event_id c) of None \<Rightarrow> (None, None) | Some p \<Rightarrow> p)
      in raise_if (snd pair \<noteq> None) (RuntimeError ''duplicate event entry'')
           (Inr (dset (jc_event_id c) (fst pair, Some c) by_id)))"

definition accept_pair ::
  "'b journal_env \<Rightarrow> uuid \<times> event_pair \<Rightarrow> (event_record \<times> event_commit option) list \<Rightarrow>
     (event_record \<times> event_commit option) list res" where
  "accept_pair env e pairs =
     (case snd e of
        (None, _) \<Rightarrow> Inl (RuntimeError ''invalid event record'')
      | (Some r, commit) \<Rightarrow>
          raise_if (\<not> verify_event_record env r) (RuntimeError ''invalid event record'')
         (raise_if (case commit of None \<Rightarrow> False | Some c \<Rightarrow> \<not> receipt_matches env r c)
            (RuntimeError ''invalid event receipt'')
         (raise_if (fst e \<in> set (map (jr_event_id \<circ> fst) pairs))
            (RuntimeError ''duplicate or malformed event id'')
         (Inr (pairs @ [(r, commit)])))))"

definition collect_percept ::
  "'b journal_env \<Rightarrow> 'b list \<Rightarrow> (event_record \<times> event_commit option) list \<Rightarrow>
     (event_record \<times> event_commit option) list res" where
  "collect_percept env raw pairs =
     rbind (entries_unlocked env raw) (\<lambda>entries.
     rbind (rfold collect_entry entries []) (\<lambda>by_id.
     rfold (accept_pair env) by_id pairs))"

definition accept_file ::
  "(event_record \<times> event_commit option) res \<Rightarrow> (event_record \<times> event_commit option) list \<Rightarrow>
     (event_record \<times> event_commit option) list res" where
  "accept_file m pairs =
     rbind m (\<lambda>p.
     raise_if (jr_event_id (fst p) \<in> set (map (jr_event_id \<circ> fst) pairs))
       (RuntimeError ''duplicate or misnamed event artifact'') (Inr (pairs @ [p])))"

definition artifact_order :: "event_record \<times> event_commit option \<Rightarrow> int \<times> int \<times> uuid" where
  "artifact_order p =
     (case snd p of Some c \<Rightarrow> jc_global_seq c | None \<Rightarrow> 2 ^ 63 - 1,
      dt_instant (jr_journaled_at (fst p)), jr_event_id (fst p))"

definition iter_event_artifacts ::
  "'b journal_env \<Rightarrow> 'b artifact_files \<Rightarrow> (event_record \<times> event_commit option) list res" where
  "iter_event_artifacts env f =
     rbind (rfold (\<lambda>m. accept_file m)
        (map (read_legacy env f) (sort_key fst (af_legacy f)) @
         map (read_stream env) (sort_key fst (af_streams f))) []) (\<lambda>pairs.
     raise_if (\<not> set (dkeys (af_legacy_commits f)) \<subseteq> set (map (jr_event_id \<circ> fst) pairs))
       (RuntimeError ''orphaned event commit artifact'')
    (rbind (rfold (\<lambda>e. collect_percept env (snd e)) (sort_key fst (af_percepts f)) pairs) (\<lambda>pairs.
     Inr (sort_key artifact_order pairs))))"

end
