(* ===== verification/Interactions.thy ===== *)
theory Interactions
  imports Journal
begin

text \<open>
  The artifacts of an interaction (\<^verbatim>\<open>artifact_journal.py\<close>): immutable entries of the percept journal, each
  holding the hash of the one before it. Journals of the format before the percept journals, one file per
  artifact, are not modelled: the directories \<^verbatim>\<open>interactions/<id>\<close> are empty.
\<close>

section \<open>Writing an artifact\<close>

definition ARTIFACT_NAMESPACE :: uuid where
  "ARTIFACT_NAMESPACE = 0xb983b0b7a2035c6096f0b17d2d94bf1a"

text \<open>The keyword arguments of \<^verbatim>\<open>write_interaction_artifact\<close>.\<close>

record artifact_request =
  aq_artifact_key :: string
  aq_artifact_type :: string
  aq_interaction_id :: uuid
  aq_conversation_id :: uuid
  aq_correlation_id :: uuid
  aq_payload :: json_object
  aq_producer :: string
  aq_task_id :: "uuid option"
  aq_assignment_id :: "uuid option"
  aq_stage :: "string option"

definition payload_digest :: "'b journal_env \<Rightarrow> json_object \<Rightarrow> string" where
  "payload_digest env p = je_digest env (HashedPayload p)"

definition artifact_digest :: "'b journal_env \<Rightarrow> interaction_artifact \<Rightarrow> string" where
  "artifact_digest env a = je_digest env (HashedEntry (InteractionEntry (a\<lparr>ia_artifact_hash := ''''\<rparr>)))"

definition artifacts_in :: "uuid \<Rightarrow> journal_entry list \<Rightarrow> interaction_artifact list" where
  "artifacts_in i entries =
     concat (map (\<lambda>e. case e of InteractionEntry a \<Rightarrow> if ia_interaction_id a = i then [a] else [] | _ \<Rightarrow> []) entries)"

definition interaction_envelope ::
  "'b journal_env \<Rightarrow> artifact_request \<Rightarrow> datetime \<Rightarrow> interaction_artifact option \<Rightarrow> interaction_artifact" where
  "interaction_envelope env q created_at previous =
     (let envelope =
        \<lparr>ia_schema_version = ARTIFACT_SCHEMA_VERSION,
         ia_artifact_id = je_uuid5 env ARTIFACT_NAMESPACE
           (uuid_str (aq_interaction_id q) @ '':'' @ aq_artifact_key q),
         ia_artifact_key = aq_artifact_key q, ia_artifact_type = aq_artifact_type q,
         ia_interaction_id = aq_interaction_id q, ia_conversation_id = aq_conversation_id q,
         ia_correlation_id = aq_correlation_id q, ia_task_id = aq_task_id q,
         ia_assignment_id = aq_assignment_id q, ia_stage = aq_stage q, ia_producer = aq_producer q,
         ia_journal_sequence = (case previous of None \<Rightarrow> 1 | Some a \<Rightarrow> ia_journal_sequence a + 1),
         ia_created_at = created_at, ia_previous_artifact_id = map_option ia_artifact_id previous,
         ia_previous_artifact_hash = map_option ia_artifact_hash previous,
         ia_payload_hash = payload_digest env (aq_payload q), ia_payload = aq_payload q,
         ia_artifact_hash = ''''\<rparr>
      in envelope\<lparr>ia_artifact_hash := artifact_digest env envelope\<rparr>)"

definition check_artifact_retry ::
  "'b journal_env \<Rightarrow> interaction_artifact \<Rightarrow> artifact_request \<Rightarrow> unit res" where
  "check_artifact_retry env existing q =
     raise_if ((ia_artifact_type existing, ia_conversation_id existing, ia_correlation_id existing,
          ia_task_id existing, ia_assignment_id existing, ia_stage existing, ia_producer existing,
          ia_payload_hash existing) \<noteq>
         (aq_artifact_type q, aq_conversation_id q, aq_correlation_id q, aq_task_id q,
          aq_assignment_id q, aq_stage q, aq_producer q, payload_digest env (aq_payload q)))
       (ValueError ''conflicting immutable artifact retry'') (Inr ())"

definition decide_interaction_artifact ::
  "'b journal_env \<Rightarrow> artifact_request \<Rightarrow> datetime \<Rightarrow> 'b artifact_files \<Rightarrow>
     (interaction_artifact \<times> 'b file_effect) res" where
  "decide_interaction_artifact env q created_at f =
     (let i = aq_interaction_id q
      in
     rbind (entries_unlocked env (content (af_percepts f) i)) (\<lambda>entries.
     raise_if (\<exists>e\<in>set entries. case e of
           EventRecord r \<Rightarrow> (jr_conversation_id r, jr_correlation_id r) \<noteq>
             (aq_conversation_id q, aq_correlation_id q)
         | _ \<Rightarrow> False)
       (RuntimeError ''percept journal scope conflicts with worker'')
    (let prior = artifacts_in i entries
     in case find (\<lambda>a. ia_artifact_key a = aq_artifact_key q) prior of
          Some existing \<Rightarrow> rbind (check_artifact_retry env existing q) (\<lambda>_. Inr (existing, NoEffect))
        | None \<Rightarrow>
            let envelope = interaction_envelope env q created_at
                  (if prior = [] then None else Some (last prior))
            in rbind (append_unlocked env i (InteractionEntry envelope) []) (\<lambda>eff. Inr (envelope, eff)))))"

definition write_interaction_artifact ::
  "'b journal_env \<Rightarrow> artifact_request \<Rightarrow> datetime \<Rightarrow> ('b artifact_files, interaction_artifact) op" where
  "write_interaction_artifact env q created_at f = perform (decide_interaction_artifact env q created_at f) f"

section \<open>Reading and verifying\<close>

definition interaction_artifacts ::
  "'b journal_env \<Rightarrow> uuid \<Rightarrow> 'b artifact_files \<Rightarrow> interaction_artifact list res" where
  "interaction_artifacts env i f =
     (if i \<in> set (dkeys (af_percepts f))
      then rbind (entries_unlocked env (content (af_percepts f) i)) (\<lambda>entries. Inr (artifacts_in i entries))
      else Inr [])"

definition find_artifact_by_key ::
  "'b journal_env \<Rightarrow> uuid \<Rightarrow> string \<Rightarrow> 'b artifact_files \<Rightarrow> interaction_artifact option res" where
  "find_artifact_by_key env i key f =
     rbind (interaction_artifacts env i f) (\<lambda>artifacts.
     Inr (find (\<lambda>a. ia_artifact_key a = key) artifacts))"

text \<open>The errors that one artifact of a chain shows, given what the ones before it leave.\<close>

definition link_errors ::
  "'b journal_env \<Rightarrow> int \<Rightarrow> interaction_artifact option \<Rightarrow> interaction_artifact \<Rightarrow> string list" where
  "link_errors env expected_sequence previous a =
     (let sequence = int_str (ia_journal_sequence a)
      in
     (if ia_journal_sequence a \<noteq> expected_sequence
      then [''sequence gap: expected '' @ int_str expected_sequence @ '', found '' @ sequence] else []) @
     (if ia_previous_artifact_id a \<noteq> map_option ia_artifact_id previous
      then [''previous artifact id mismatch at sequence '' @ sequence] else []) @
     (if ia_previous_artifact_hash a \<noteq> map_option ia_artifact_hash previous
      then [''previous artifact hash mismatch at sequence '' @ sequence] else []) @
     (if ia_payload_hash a \<noteq> payload_digest env (ia_payload a)
      then [''payload hash mismatch at sequence '' @ sequence] else []) @
     (if ia_artifact_hash a \<noteq> artifact_digest env a
      then [''artifact hash mismatch at sequence '' @ sequence] else []))"

fun chain_errors ::
  "'b journal_env \<Rightarrow> int \<Rightarrow> interaction_artifact option \<Rightarrow> interaction_artifact list \<Rightarrow> string list" where
  "chain_errors env n previous [] = []"
| "chain_errors env n previous (a # as) =
     link_errors env n previous a @ chain_errors env (n + 1) (Some a) as"

record chain_verification =
  cv_interaction_id :: uuid
  cv_artifact_count :: nat
  cv_valid :: bool
  cv_errors :: "string list"
  cv_complete :: bool
  cv_last_artifact :: "interaction_artifact option"

definition verify_interaction_chain ::
  "'b journal_env \<Rightarrow> uuid \<Rightarrow> 'b artifact_files \<Rightarrow> chain_verification res" where
  "verify_interaction_chain env i f =
     rbind (interaction_artifacts env i f) (\<lambda>artifacts.
     (let errors = chain_errors env 1 None artifacts
      in Inr \<lparr>cv_interaction_id = i, cv_artifact_count = length artifacts, cv_valid = (errors = []),
              cv_errors = errors,
              cv_complete = list_ex (\<lambda>a. ia_artifact_type a = ''FINAL_DISPOSITION'') artifacts,
              cv_last_artifact = (if artifacts = [] then None else Some (last artifacts))\<rparr>))"

section \<open>The artifacts of the percept pipeline\<close>

definition stage_request ::
  "uuid \<Rightarrow> uuid \<Rightarrow> uuid \<Rightarrow> uuid \<Rightarrow> uuid option \<Rightarrow> string \<Rightarrow> string \<Rightarrow> string option \<Rightarrow> json_object \<Rightarrow>
     artifact_request" where
  "stage_request i conversation_id correlation_id task_id assignment_id key artifact_type stage payload =
     \<lparr>aq_artifact_key = key, aq_artifact_type = artifact_type, aq_interaction_id = i,
      aq_conversation_id = conversation_id, aq_correlation_id = correlation_id, aq_payload = payload,
      aq_producer = ''percept_response_v2'', aq_task_id = Some task_id, aq_assignment_id = assignment_id,
      aq_stage = stage\<rparr>"

definition write_percept_artifact ::
  "'b journal_env \<Rightarrow> uuid \<Rightarrow> uuid \<Rightarrow> uuid \<Rightarrow> uuid \<Rightarrow> string \<Rightarrow> uuid \<Rightarrow> json option \<Rightarrow> json option \<Rightarrow> datetime \<Rightarrow>
     ('b artifact_files, interaction_artifact) op" where
  "write_percept_artifact env i conversation_id correlation_id task_id user_text user_prompt_event_id
       percept salience_assessment =
     write_interaction_artifact env
       (stage_request i conversation_id correlation_id task_id None ''percept'' ''PERCEPT'' None
          ([(''user_text'', JStr user_text), (''user_prompt_event_id'', JStr (uuid_str user_prompt_event_id))] @
           (case percept of None \<Rightarrow> [] | Some p \<Rightarrow> [(''normalized_percept'', p)]) @
           (case salience_assessment of None \<Rightarrow> [] | Some s \<Rightarrow> [(''salience_assessment'', s)])))"

definition write_stage_result_artifact ::
  "'b journal_env \<Rightarrow> uuid \<Rightarrow> uuid \<Rightarrow> uuid \<Rightarrow> uuid \<Rightarrow> uuid \<Rightarrow> string \<Rightarrow> json_object \<Rightarrow> string list \<Rightarrow> datetime \<Rightarrow>
     ('b artifact_files, interaction_artifact) op" where
  "write_stage_result_artifact env i conversation_id correlation_id task_id assignment_id stage output output_refs =
     write_interaction_artifact env
       (stage_request i conversation_id correlation_id task_id (Some assignment_id) (''stage-result:'' @ stage)
          ''STAGE_RESULT'' (Some stage)
          [(''output'', JObj output), (''output_refs'', JList (map JStr output_refs))])"

definition write_stage_error_artifact ::
  "'b journal_env \<Rightarrow> uuid \<Rightarrow> uuid \<Rightarrow> uuid \<Rightarrow> uuid \<Rightarrow> uuid \<Rightarrow> string \<Rightarrow> uuid \<Rightarrow> string \<Rightarrow> string \<Rightarrow> datetime \<Rightarrow>
     ('b artifact_files, interaction_artifact) op" where
  "write_stage_error_artifact env i conversation_id correlation_id task_id assignment_id stage claim_id
       error_type message =
     write_interaction_artifact env
       (stage_request i conversation_id correlation_id task_id (Some assignment_id)
          (''stage-error:'' @ stage @ '':'' @ uuid_str claim_id) ''STAGE_ERROR'' (Some stage)
          [(''claim_id'', JStr (uuid_str claim_id)), (''error_type'', JStr error_type),
           (''message'', JStr message)])"

definition load_stage_result_artifact ::
  "'b journal_env \<Rightarrow> uuid \<Rightarrow> string \<Rightarrow> 'b artifact_files \<Rightarrow> json_object option res" where
  "load_stage_result_artifact env i stage f =
     rbind (find_artifact_by_key env i (''stage-result:'' @ stage) f) (\<lambda>artifact.
     (case artifact of
        None \<Rightarrow> Inr None
      | Some a \<Rightarrow>
          (case dget (ia_payload a) ''output'' of
             Some (JObj output) \<Rightarrow> Inr (Some (ia_payload a))
           | _ \<Rightarrow> Inl (ValueError (''invalid stage artifact for '' @ stage)))))"

definition optional_text :: "string option \<Rightarrow> json" where
  "optional_text s = (case s of None \<Rightarrow> JNull | Some t \<Rightarrow> JStr t)"

definition artifact_reference :: "interaction_artifact \<Rightarrow> json" where
  "artifact_reference a =
     JObj [(''artifact_id'', JStr (uuid_str (ia_artifact_id a))), (''artifact_key'', JStr (ia_artifact_key a)),
           (''artifact_type'', JStr (ia_artifact_type a)),
           (''journal_sequence'', JInt (ia_journal_sequence a)),
           (''artifact_hash'', JStr (ia_artifact_hash a)), (''stage'', optional_text (ia_stage a))]"

definition write_final_disposition_artifact ::
  "'b journal_env \<Rightarrow> uuid \<Rightarrow> uuid \<Rightarrow> uuid \<Rightarrow> uuid \<Rightarrow> uuid \<Rightarrow> bool \<Rightarrow> string option \<Rightarrow> string \<Rightarrow> datetime \<Rightarrow>
     ('b artifact_files, interaction_artifact) op" where
  "write_final_disposition_artifact env i conversation_id correlation_id task_id assignment_id
       response_required response_text last_completed_stage created_at f =
     (case interaction_artifacts env i f of
        Inl e \<Rightarrow> (Inl e, f)
      | Inr chain \<Rightarrow>
          write_interaction_artifact env
            (stage_request i conversation_id correlation_id task_id (Some assignment_id) ''final-disposition''
               ''FINAL_DISPOSITION'' None
               [(''status'', JStr ''COMPLETED''), (''last_completed_stage'', JStr last_completed_stage),
                (''response_required'', JBool response_required),
                (''response_text'', optional_text response_text),
                (''artifact_chain'', JList (map artifact_reference
                   (takeWhile (\<lambda>a. ia_artifact_key a \<noteq> ''final-disposition'') chain)))])
            created_at f)"

section \<open>The chain\<close>

lemma chain_errors_append:
  "chain_errors env n p (as @ bs) = chain_errors env n p as @
     chain_errors env (n + int (length as)) (if as = [] then p else Some (last as)) bs"
  by (induction as arbitrary: n p) (auto simp: add.assoc)

lemma valid_sequence:
  "chain_errors env n p as = [] \<Longrightarrow> k < length as \<Longrightarrow> ia_journal_sequence (as ! k) = n + int k"
proof (induction as arbitrary: n p k)
  case (Cons a as)
  then have "ia_journal_sequence a = n" "chain_errors env (n + 1) (Some a) as = []"
    by (auto simp: link_errors_def Let_def split: if_splits)
  then show ?case using Cons.IH [of "n + 1" "Some a" "k - 1"] Cons.prems(2) by (cases k) auto
qed simp

text \<open>A new artifact continues the chain it was written to.\<close>

lemma envelope_continues:
  assumes "chain_errors env 1 None prior = []"
    and "a = interaction_envelope env q now (if prior = [] then None else Some (last prior))"
  shows "chain_errors env 1 None (prior @ [a]) = []"
proof -
  have "ia_journal_sequence (last prior) = int (length prior)" if "prior \<noteq> []"
    using valid_sequence [OF assms(1), of "length prior - 1"] that
    by (simp add: last_conv_nth of_nat_diff Suc_leI)
  then show ?thesis using assms
    by (auto simp: chain_errors_append link_errors_def interaction_envelope_def artifact_digest_def
        payload_digest_def Let_def)
qed

lemma chain_split:
  "chain_errors env 1 None (as @ [a]) = [] \<longleftrightarrow> chain_errors env 1 None as = [] \<and>
     link_errors env (int (length as) + 1) (if as = [] then None else Some (last as)) a = []"
  by (simp add: chain_errors_append add.commute)

end
