(* ===== verification/EventStore.thy ===== *)
theory EventStore
  imports Interactions Database
begin

text \<open>
  The canonical event log (\<^verbatim>\<open>event_store.py\<close>) and the index of cognitive records over it
  (\<^verbatim>\<open>cognitive_store.py\<close>). Recording an event writes its semantic record to the durable files, then commits
  the row, then writes the commit receipt. The instants, the sequence value that the server gives a row
  and fresh identifiers are arguments. \<open>insert_event\<close> is the transaction of the row, with the trigger of
  \<^verbatim>\<open>schema.sql\<close> that keeps the heads. Two narrowings concern payloads that \<^verbatim>\<open>put_record\<close> never writes: the
  operator \<^verbatim>\<open>->>\<close> yields no value (instead of the JSON text) for a list or an object, and \<^verbatim>\<open>dict()\<close> raises
  for every nonempty list (instead of reading a list of pairs).
\<close>

section \<open>Data\<close>

datatype event_type =
    USER_PROMPT | AGENT_DECISION | RETRIEVAL_REQUEST | RETRIEVAL_RESULT | MEMORY_REQUEST | MEMORY_PACKET
  | AGENT_DELEGATION | AGENT_RESULT | TOOL_REQUEST | TOOL_RESULT | AGENT_RESPONSE | CAPABILITY_REQUEST
  | CAPABILITY_PACKET | CAPABILITY_RESULT | INTERACTION_RESPONSE | INTERACTION_WORKING_STATE
  | PERCEPT_OBSERVATION | DERIVED_REPRESENTATION | SYSTEM_EVENT | ERROR

definition event_types :: "(string \<times> event_type) list" where
  "event_types =
     [(''USER_PROMPT'', USER_PROMPT), (''AGENT_DECISION'', AGENT_DECISION),
      (''RETRIEVAL_REQUEST'', RETRIEVAL_REQUEST), (''RETRIEVAL_RESULT'', RETRIEVAL_RESULT),
      (''MEMORY_REQUEST'', MEMORY_REQUEST), (''MEMORY_PACKET'', MEMORY_PACKET),
      (''AGENT_DELEGATION'', AGENT_DELEGATION), (''AGENT_RESULT'', AGENT_RESULT),
      (''TOOL_REQUEST'', TOOL_REQUEST), (''TOOL_RESULT'', TOOL_RESULT), (''AGENT_RESPONSE'', AGENT_RESPONSE),
      (''CAPABILITY_REQUEST'', CAPABILITY_REQUEST), (''CAPABILITY_PACKET'', CAPABILITY_PACKET),
      (''CAPABILITY_RESULT'', CAPABILITY_RESULT), (''INTERACTION_RESPONSE'', INTERACTION_RESPONSE),
      (''INTERACTION_WORKING_STATE'', INTERACTION_WORKING_STATE),
      (''PERCEPT_OBSERVATION'', PERCEPT_OBSERVATION), (''DERIVED_REPRESENTATION'', DERIVED_REPRESENTATION),
      (''SYSTEM_EVENT'', SYSTEM_EVENT), (''ERROR'', ERROR)]"

definition event_type_value :: "event_type \<Rightarrow> string" where
  "event_type_value t = (case find (\<lambda>p. snd p = t) event_types of None \<Rightarrow> '''' | Some p \<Rightarrow> fst p)"

definition event_type_of :: "string \<Rightarrow> event_type res" where
  "event_type_of s =
     (case dget event_types s of None \<Rightarrow> Inl (ValueError ''not a valid EventType'') | Some t \<Rightarrow> Inr t)"

record event_row =
  ev_event_id :: uuid
  ev_conversation_id :: uuid
  ev_correlation_id :: uuid
  ev_global_seq :: int
  ev_conversation_seq :: int
  ev_event_type :: string
  ev_source :: string
  ev_created_at :: datetime
  ev_payload :: json_object
  ev_payload_text :: "string option"
  ev_schema_version :: int

type_synonym heads = "(string \<times> string, uuid \<times> int \<times> json) dict"

record event_db =
  ed_conversations :: "(uuid, int) dict"
  ed_events :: "event_row list"
  ed_heads :: heads

definition empty_event_db :: event_db where
  "empty_event_db = \<lparr>ed_conversations = [], ed_events = [], ed_heads = []\<rparr>"

record 'b event_world =
  ew_db :: event_db
  ew_files :: "'b artifact_files"

definition empty_world :: "'b event_world" where
  "empty_world = \<lparr>ew_db = empty_event_db, ew_files = empty_files\<rparr>"

definition on_files :: "('b artifact_files, 'a) op \<Rightarrow> ('b event_world, 'a) op" where
  "on_files m w = (case m (ew_files w) of (r, f) \<Rightarrow> (r, w\<lparr>ew_files := f\<rparr>))"

definition on_db :: "(event_db \<Rightarrow> event_db res) \<Rightarrow> ('b event_world, unit) op" where
  "on_db body w = (case body (ew_db w) of Inl e \<Rightarrow> (Inl e, w) | Inr d \<Rightarrow> (Inr (), w\<lparr>ew_db := d\<rparr>))"

section \<open>The heads of cognitive records\<close>

text \<open>\<^verbatim>\<open>payload->>k\<close>.\<close>

fun json_text :: "json \<Rightarrow> string option" where
  "json_text (JStr s) = Some s"
| "json_text (JInt n) = Some (int_str n)"
| "json_text (JBool b) = Some (if b then ''true'' else ''false'')"
| "json_text _ = None"

definition text_field :: "json_object \<Rightarrow> string \<Rightarrow> string option" where
  "text_field payload k = (case dget payload k of Some x \<Rightarrow> json_text x | None \<Rightarrow> None)"

definition is_cognitive :: "event_row \<Rightarrow> bool" where
  "is_cognitive r \<longleftrightarrow> ev_source r = ''cognitive_runtime'' \<and>
     text_field (ev_payload r) ''kind'' = Some ''COGNITIVE_RECORD''"

definition record_name :: "event_row \<Rightarrow> (string \<times> string) option" where
  "record_name r =
     (case (text_field (ev_payload r) ''record_kind'', text_field (ev_payload r) ''record_key'') of
        (Some k, Some y) \<Rightarrow> Some (k, y) | _ \<Rightarrow> None)"

definition record_data :: "event_row \<Rightarrow> json option" where
  "record_data r = dget (ev_payload r) ''data''"

definition project_cognitive_event :: "event_row \<Rightarrow> heads \<Rightarrow> heads res" where
  "project_cognitive_event r heads =
     (if is_cognitive r
      then (case (record_name r, record_data r) of
              (Some name, Some data) \<Rightarrow>
                Inr (case dget heads name of
                       Some (i, g, x) \<Rightarrow>
                         if g < ev_global_seq r
                         then dset name (ev_event_id r, ev_global_seq r, data) heads else heads
                     | None \<Rightarrow> dset name (ev_event_id r, ev_global_seq r, data) heads)
            | _ \<Rightarrow> Inl (IntegrityError ''cognitive_heads not null''))
      else Inr heads)"

definition insert_event :: "event_row \<Rightarrow> event_db \<Rightarrow> event_db res" where
  "insert_event r d =
     raise_if (ev_event_id r \<in> set (map ev_event_id (ed_events d))) (IntegrityError ''events_pkey'')
    (rbind (project_cognitive_event r (ed_heads d)) (\<lambda>heads.
     Inr (d\<lparr>ed_events := ed_events d @ [r], ed_heads := heads,
            ed_conversations :=
              (case dget (ed_conversations d) (ev_conversation_id r) of
                 None \<Rightarrow> ed_conversations d
               | Some n \<Rightarrow> dset (ev_conversation_id r) (n + 1) (ed_conversations d))\<rparr>)))"

section \<open>Recording an event\<close>

definition start_conversation :: "uuid \<Rightarrow> event_db \<Rightarrow> event_db" where
  "start_conversation conversation_id d =
     (if conversation_id \<in> set (dkeys (ed_conversations d)) then d
      else d\<lparr>ed_conversations := dset conversation_id 1 (ed_conversations d)\<rparr>)"

text \<open>The keyword arguments of \<^verbatim>\<open>record_event\<close>.\<close>

record event_request =
  rq_conversation_id :: uuid
  rq_correlation_id :: uuid
  rq_event_type :: event_type
  rq_source :: string
  rq_payload :: json_object
  rq_payload_text :: "string option"
  rq_event_id :: uuid
  rq_journal_id :: "uuid option"

definition request_record :: "event_request \<Rightarrow> int \<Rightarrow> event_record" where
  "request_record q conversation_seq =
     semantic_record (rq_event_id q) (rq_conversation_id q) (rq_correlation_id q) conversation_seq
       (event_type_value (rq_event_type q)) (rq_source q) (rq_payload q) (rq_payload_text q)"

definition request_row :: "event_request \<Rightarrow> int \<Rightarrow> int \<Rightarrow> datetime \<Rightarrow> event_row" where
  "request_row q conversation_seq global_seq created_at =
     \<lparr>ev_event_id = rq_event_id q, ev_conversation_id = rq_conversation_id q,
      ev_correlation_id = rq_correlation_id q, ev_global_seq = global_seq,
      ev_conversation_seq = conversation_seq, ev_event_type = event_type_value (rq_event_type q),
      ev_source = rq_source q, ev_created_at = created_at, ev_payload = rq_payload q,
      ev_payload_text = rq_payload_text q, ev_schema_version = 1\<rparr>"

definition row_record :: "event_row \<Rightarrow> event_record" where
  "row_record r =
     semantic_record (ev_event_id r) (ev_conversation_id r) (ev_correlation_id r) (ev_conversation_seq r)
       (ev_event_type r) (ev_source r) (ev_payload r) (ev_payload_text r)"

definition find_event :: "uuid \<Rightarrow> event_db \<Rightarrow> event_row option" where
  "find_event event_id d = find (\<lambda>r. ev_event_id r = event_id) (ed_events d)"

definition write_row_commit :: "'b journal_env \<Rightarrow> event_row \<Rightarrow> ('b event_world, unit) op" where
  "write_row_commit env r =
     sbind (on_files (write_event_commit env (ev_event_id r) (ev_global_seq r) (ev_conversation_seq r)
       (ev_created_at r) (ev_schema_version r) (Some (ev_conversation_id r, ev_correlation_id r))))
       (\<lambda>_. slift (Inr ()))"

definition journal_committed_event ::
  "'b journal_env \<Rightarrow> event_row \<Rightarrow> datetime \<Rightarrow> ('b event_world, unit) op" where
  "journal_committed_event env r journaled_at =
     sbind (on_files (write_event_record env (row_record r) None journaled_at)) (\<lambda>_. write_row_commit env r)"

definition check_event_retry :: "event_request \<Rightarrow> event_row \<Rightarrow> unit res" where
  "check_event_retry q stored =
     rbind (event_type_of (ev_event_type stored)) (\<lambda>t.
     raise_if (ev_conversation_id stored \<noteq> rq_conversation_id q \<or>
         ev_correlation_id stored \<noteq> rq_correlation_id q \<or> t \<noteq> rq_event_type q \<or>
         ev_source stored \<noteq> rq_source q \<or> \<not> same_payload (ev_payload stored) (rq_payload q) \<or>
         ev_payload_text stored \<noteq> rq_payload_text q)
       (ValueError ''conflicting deterministic event retry'') (Inr ()))"

definition next_event_seq :: "event_request \<Rightarrow> event_db \<Rightarrow> int res" where
  "next_event_seq q d =
     (case dget (ed_conversations d) (rq_conversation_id q) of
        None \<Rightarrow> Inl (ValueError ''Unknown conversation_id'') | Some n \<Rightarrow> Inr n)"

text \<open>The part of \<^verbatim>\<open>record_event\<close> before the row is inserted: the semantic record becomes durable.\<close>

definition begin_event :: "'b journal_env \<Rightarrow> event_request \<Rightarrow> datetime \<Rightarrow> ('b event_world, int) op" where
  "begin_event env q journaled_at w =
     sbind (slift (next_event_seq q (ew_db w))) (\<lambda>n.
     sbind (on_files (write_event_record env (request_record q n) (rq_journal_id q) journaled_at)) (\<lambda>_.
     slift (Inr n))) w"

definition record_event ::
  "'b journal_env \<Rightarrow> event_request \<Rightarrow> datetime \<Rightarrow> int \<Rightarrow> datetime \<Rightarrow> ('b event_world, event_row) op" where
  "record_event env q journaled_at global_seq created_at w =
     (case find_event (rq_event_id q) (ew_db w) of
        Some stored \<Rightarrow>
          sbind (slift (check_event_retry q stored)) (\<lambda>_.
          sbind (journal_committed_event env stored journaled_at) (\<lambda>_.
          slift (Inr stored))) w
      | None \<Rightarrow>
          sbind (begin_event env q journaled_at) (\<lambda>n.
          (let row = request_row q n global_seq created_at
           in sbind (on_db (insert_event row)) (\<lambda>_.
              sbind (write_row_commit env row) (\<lambda>_. slift (Inr row))))) w)"

section \<open>Queries\<close>

definition get_event_by_id :: "uuid \<Rightarrow> event_db \<Rightarrow> event_row option res" where
  "get_event_by_id event_id d =
     (case find_event event_id d of
        None \<Rightarrow> Inr None | Some r \<Rightarrow> rbind (event_type_of (ev_event_type r)) (\<lambda>_. Inr (Some r)))"

definition get_events_by_conversation :: "uuid \<Rightarrow> event_db \<Rightarrow> event_row list res" where
  "get_events_by_conversation conversation_id d =
     rmap (\<lambda>r. rbind (event_type_of (ev_event_type r)) (\<lambda>_. Inr r))
       (sort_key ev_conversation_seq (filter (\<lambda>r. ev_conversation_id r = conversation_id) (ed_events d)))"

definition get_first_event_in_conversation :: "uuid \<Rightarrow> event_db \<Rightarrow> event_row option res" where
  "get_first_event_in_conversation conversation_id d =
     (case sort_key ev_conversation_seq (filter (\<lambda>r. ev_conversation_id r = conversation_id) (ed_events d)) of
        [] \<Rightarrow> Inr None | r # _ \<Rightarrow> rbind (event_type_of (ev_event_type r)) (\<lambda>_. Inr (Some r)))"

section \<open>Cognitive records\<close>

definition COGNITIVE_NAMESPACE :: uuid where
  "COGNITIVE_NAMESPACE = 0x9782441e7c35579ba4802b198c54a31b"

definition SYSTEM_CONVERSATION :: "'b journal_env \<Rightarrow> uuid" where
  "SYSTEM_CONVERSATION env = je_uuid5 env COGNITIVE_NAMESPACE ''system-provenance''"

definition HEAD_PAGE_SIZE :: nat where
  "HEAD_PAGE_SIZE = 64"

text \<open>\<^verbatim>\<open>dict(value)\<close> on a JSON value.\<close>

fun py_dict :: "json \<Rightarrow> json_object res" where
  "py_dict (JObj kvs) = Inr kvs"
| "py_dict (JStr s) = raise_if (s \<noteq> []) (ValueError ''dictionary update sequence'') (Inr [])"
| "py_dict (JList xs) = raise_if (xs \<noteq> []) (ValueError ''dictionary update sequence'') (Inr [])"
| "py_dict _ = Inl TypeError"

definition get_record :: "string \<Rightarrow> string \<Rightarrow> event_db \<Rightarrow> json_object option res" where
  "get_record kind key d =
     (case dget (ed_heads d) (kind, key) of
        None \<Rightarrow> Inr None
      | Some (i, g, data) \<Rightarrow> rbind (py_dict data) (\<lambda>x. Inr (Some x)))"

definition record_request ::
  "'b journal_env \<Rightarrow> string \<Rightarrow> string \<Rightarrow> json_object \<Rightarrow> string \<Rightarrow> uuid \<Rightarrow> uuid \<Rightarrow> event_request" where
  "record_request env kind key data revision conversation_id correlation_id =
     \<lparr>rq_conversation_id = conversation_id, rq_correlation_id = correlation_id,
      rq_event_type = DERIVED_REPRESENTATION, rq_source = ''cognitive_runtime'',
      rq_payload = [(''kind'', JStr ''COGNITIVE_RECORD''), (''record_kind'', JStr kind),
        (''record_key'', JStr key), (''revision'', JStr revision), (''data'', JObj data),
        (''epistemic_status'', JStr ''DERIVED'')],
      rq_payload_text = None,
      rq_event_id = je_uuid5 env COGNITIVE_NAMESPACE (kind @ '':'' @ key @ '':'' @ revision),
      rq_journal_id = None\<rparr>"

definition put_record ::
  "'b journal_env \<Rightarrow> string \<Rightarrow> string \<Rightarrow> json_object \<Rightarrow> string \<Rightarrow> uuid \<Rightarrow> uuid \<Rightarrow> datetime \<Rightarrow> int \<Rightarrow> datetime \<Rightarrow>
     ('b event_world, uuid) op" where
  "put_record env kind key data revision conversation_id correlation_id journaled_at global_seq created_at =
     sbind (on_db (\<lambda>d. Inr (start_conversation conversation_id d))) (\<lambda>_.
     sbind (record_event env (record_request env kind key data revision conversation_id correlation_id)
       journaled_at global_seq created_at) (\<lambda>row.
     slift (Inr (ev_event_id row))))"

definition head_page ::
  "(string \<Rightarrow> bool) \<Rightarrow> string \<Rightarrow> string \<Rightarrow> int \<Rightarrow> event_db \<Rightarrow> (string \<times> json_object) list res" where
  "head_page P kind after_key limit d =
     raise_if (limit < 1 \<or> limit > int HEAD_PAGE_SIZE) (ValueError ''head page exceeds bounded read policy'')
       (rmap (\<lambda>(y, data). rbind (py_dict data) (\<lambda>x. Inr (y, x)))
         (take (nat limit) (sort_key fst (map (\<lambda>((k, y), (i, g, data)). (y, data))
            (filter (\<lambda>((k, y), _). k = kind \<and> P y \<and> after_key < y) (ed_heads d))))))"

definition list_records :: "string \<Rightarrow> string \<Rightarrow> int \<Rightarrow> event_db \<Rightarrow> (string \<times> json_object) list res" where
  "list_records kind after_key limit d = head_page (\<lambda>_. True) kind after_key limit d"

definition list_records_with_prefix ::
  "string \<Rightarrow> string \<Rightarrow> string \<Rightarrow> int \<Rightarrow> event_db \<Rightarrow> (string \<times> json_object) list res" where
  "list_records_with_prefix kind p after_key limit d = head_page (\<lambda>y. starts_with y p) kind after_key limit d"

text \<open>The events of one record, oldest first, and \<^verbatim>\<open>dict(row[0]["data"])\<close> of one of them.\<close>

definition record_revisions :: "string \<Rightarrow> string \<Rightarrow> event_db \<Rightarrow> event_row list" where
  "record_revisions kind key d = sort_key ev_global_seq
     (filter (\<lambda>r. is_cognitive r \<and> record_name r = Some (kind, key)) (ed_events d))"

definition revision_data :: "event_row \<Rightarrow> json_object res" where
  "revision_data r = (case record_data r of None \<Rightarrow> Inl KeyError | Some x \<Rightarrow> py_dict x)"

definition record_history :: "string \<Rightarrow> string \<Rightarrow> event_db \<Rightarrow> json_object list res" where
  "record_history kind key d = rmap revision_data (record_revisions kind key d)"

text \<open>\<^verbatim>\<open>SELECT DISTINCT ON (kind, key) ... ORDER BY kind, key, global_seq DESC\<close>: per name, the event of the
  greatest sequence number.\<close>

definition rebuild_heads :: "event_db \<Rightarrow> event_db" where
  "rebuild_heads d =
     (let cognitive = rev (sort_key ev_global_seq (filter is_cognitive (ed_events d)));
          names = sort (remdups (concat (map (\<lambda>r. case record_name r of None \<Rightarrow> [] | Some n \<Rightarrow> [n]) cognitive)))
      in d\<lparr>ed_heads := concat (map (\<lambda>n.
            case find (\<lambda>r. record_name r = Some n) cognitive of
              Some r \<Rightarrow> (case record_data r of
                None \<Rightarrow> [] | Some data \<Rightarrow> [(n, ev_event_id r, ev_global_seq r, data)])
            | None \<Rightarrow> []) names)\<rparr>)"

end
