(* ===== verification/EventLog.thy ===== *)
theory EventLog
  imports EventStore
begin

text \<open>
  The event log as a system of processes that may die at any point: a step is one durable effect, complete
  or cut short, of a process that records an event, retries one, writes a receipt or an artifact, or opens
  a conversation. The invariants of the reachable worlds are what recovery relies on. The offline restore of
  the database from the files (\<^verbatim>\<open>restore_event_store_from_artifacts\<close> of \<^verbatim>\<open>artifact_recovery.py\<close>) is not a step:
  it inserts rows for records that have none, and what is proved here holds up to the first such restore.
\<close>

section \<open>Canonical text\<close>

primrec json_sorted :: "json \<Rightarrow> json" where
  "json_sorted JNull = JNull"
| "json_sorted (JBool b) = JBool b"
| "json_sorted (JInt i) = JInt i"
| "json_sorted (JStr s) = JStr s"
| "json_sorted (JList xs) = JList (map json_sorted xs)"
| "json_sorted (JObj kvs) = JObj (sort_key fst (map (\<lambda>kv. map_prod id json_sorted kv) kvs))"

definition sort_object :: "json_object \<Rightarrow> json_object" where
  "sort_object p = sort_key fst (map (\<lambda>kv. map_prod id json_sorted kv) p)"

definition sort_record :: "event_record \<Rightarrow> event_record" where
  "sort_record r = r\<lparr>jr_payload := sort_object (jr_payload r)\<rparr>"

definition sort_artifact :: "interaction_artifact \<Rightarrow> interaction_artifact" where
  "sort_artifact a = a\<lparr>ia_payload := sort_object (ia_payload a)\<rparr>"

fun sort_entry :: "journal_entry \<Rightarrow> journal_entry" where
  "sort_entry (EventRecord r) = EventRecord (sort_record r)"
| "sort_entry (EventCommit c) = EventCommit c"
| "sort_entry (InteractionEntry a) = InteractionEntry (sort_artifact a)"

text \<open>What the library promises of \<^verbatim>\<open>json.dumps(sort_keys=True)\<close> without indentation, \<^verbatim>\<open>json.loads\<close> and the hash of
  the canonical text: an entry is one line, reading it back gives the entry with sorted keys, and the
  order of keys does not change a hash.\<close>

definition codec :: "'b journal_env \<Rightarrow> bool" where
  "codec env \<longleftrightarrow>
     (\<forall>e. je_parse env (je_line env e) = Some (sort_entry e) \<and> je_newline env \<notin> set (je_line env e) \<and>
        je_line env e \<noteq> [] \<and> je_digest env (HashedEntry (sort_entry e)) = je_digest env (HashedEntry e)) \<and>
     (\<forall>p. je_digest env (HashedPayload (sort_object p)) = je_digest env (HashedPayload p))"

lemma insort_map_snd:
  "insort_key fst (map_prod id f x) (map (\<lambda>kv. map_prod id f kv) xs) = map (\<lambda>kv. map_prod id f kv) (insort_key fst x xs)"
  by (induction xs) auto

lemma sort_map_snd:
  "sort_key fst (map (\<lambda>kv. map_prod id f kv) xs) = map (\<lambda>kv. map_prod id f kv) (sort_key fst xs)"
  by (induction xs) (simp_all only: sort_key_simps list.map insort_map_snd)

lemma canon_sorted: "json_canon (json_sorted j) = json_canon j"
proof (induction j)
  case (JObj kvs)
  have "map (\<lambda>kv. map_prod id json_canon kv) (map (\<lambda>kv. map_prod id json_sorted kv) kvs) =
      map (\<lambda>kv. map_prod id json_canon kv) kvs"
    using JObj by (fastforce simp: prod.map_comp o_def intro!: prod.map_cong)
  moreover have "sort_key fst (map (\<lambda>kv. map_prod id json_canon kv) (sort_key fst (map (\<lambda>kv. map_prod id json_sorted kv) kvs))) =
      sort_key fst (map (\<lambda>kv. map_prod id json_canon kv) (map (\<lambda>kv. map_prod id json_sorted kv) kvs))"
    by (simp only: sort_map_snd [of json_canon]) (simp add: sort_key_id_if_sorted)
  ultimately show ?case by (simp only: json_canon.simps json_sorted.simps)
qed (simp_all add: o_def cong: map_cong)

lemma sort_object_same: "json_canon (JObj (sort_object p)) = json_canon (JObj p)"
  using canon_sorted [of "JObj p"] by (simp add: sort_object_def)

lemma same_payload_sorted [simp]:
  "same_payload (sort_object p) q = same_payload p q" "same_payload p (sort_object q) = same_payload p q"
  by (simp_all add: same_payload_def sort_object_same del: json_canon.simps)

lemma same_payload_refl [simp]: "same_payload p p"
  by (simp add: same_payload_def)

lemma sort_record_simps [simp]:
  "jr_event_id (sort_record r) = jr_event_id r" "jr_conversation_id (sort_record r) = jr_conversation_id r"
  "jr_correlation_id (sort_record r) = jr_correlation_id r" "jr_record_hash (sort_record r) = jr_record_hash r"
  "jr_conversation_seq (sort_record r) = jr_conversation_seq r"
  by (simp_all add: sort_record_def)

lemma same_semantic_sorted [simp]:
  "same_semantic (sort_record a) b = same_semantic a b" "same_semantic a (sort_record b) = same_semantic a b"
  by (simp_all add: same_semantic_def sort_record_def blank_record_def)

lemma same_semantic_equiv:
  "same_semantic a a" "same_semantic a b = same_semantic b a"
  "same_semantic a b \<Longrightarrow> same_semantic b c \<Longrightarrow> same_semantic a c"
  by (auto simp: same_semantic_def same_payload_def)

lemma codecD:
  assumes "codec env"
  shows "je_parse env (je_line env e) = Some (sort_entry e)" and "je_newline env \<notin> set (je_line env e)"
    and "je_line env e \<noteq> []" and "je_digest env (HashedEntry (sort_entry e)) = je_digest env (HashedEntry e)"
    and "je_digest env (HashedPayload (sort_object p)) = je_digest env (HashedPayload p)"
  using assms unfolding codec_def by blast+

lemma verify_sorted:
  assumes "codec env"
  shows "verify_event_record env (sort_record r) = verify_event_record env r"
proof -
  have "blank_record (sort_record r) = sort_record (blank_record r)"
    by (simp add: blank_record_def sort_record_def)
  then show ?thesis
    using codecD(4) [OF assms, of "EventRecord (blank_record r)"]
    by (simp add: verify_event_record_def record_digest_def)
qed

lemma artifact_sorted:
  assumes "codec env"
  shows "artifact_digest env (sort_artifact a) = artifact_digest env a"
    and "payload_digest env (ia_payload (sort_artifact a)) = payload_digest env (ia_payload a)"
proof -
  have "(sort_artifact a)\<lparr>ia_artifact_hash := ''''\<rparr> = sort_artifact (a\<lparr>ia_artifact_hash := ''''\<rparr>)"
    by (simp add: sort_artifact_def)
  then show "artifact_digest env (sort_artifact a) = artifact_digest env a"
    using codecD(4) [OF assms, of "InteractionEntry (a\<lparr>ia_artifact_hash := ''''\<rparr>)"]
    by (simp add: artifact_digest_def)
  show "payload_digest env (ia_payload (sort_artifact a)) = payload_digest env (ia_payload a)"
    by (simp add: sort_artifact_def payload_digest_def codecD(5) [OF assms])
qed

section \<open>Lines of a file\<close>

lemma split_file_line: "nl \<notin> set l \<Longrightarrow> split_file nl (l @ nl # rest) = (l # fst (split_file nl rest), snd (split_file nl rest))"
proof (induction l)
  case Nil
  then show ?case by (cases "split_file nl rest" rule: prod.exhaust) (auto split: list.split)
qed (auto split: prod.split)

lemma split_file_tail: "nl \<notin> set t \<Longrightarrow> split_file nl t = ([], t)"
  by (induction t) auto

definition written :: "'b journal_env \<Rightarrow> 'b list \<Rightarrow> journal_entry list \<Rightarrow> 'b list \<Rightarrow> bool" where
  "written env raw es t \<longleftrightarrow>
     raw = concat (map (\<lambda>e. je_line env e @ [je_newline env]) es) @ t \<and> je_newline env \<notin> set t"

lemma written_split:
  assumes "codec env" and "written env raw es t"
  shows "split_file (je_newline env) raw = (map (je_line env) es, t)"
proof -
  have "split_file (je_newline env) (concat (map (\<lambda>e. je_line env e @ [je_newline env]) es) @ t) =
      (map (je_line env) es, t)"
    if "je_newline env \<notin> set t" for es
    using that codecD(2) [OF assms(1)] by (induction es) (simp_all add: split_file_line split_file_tail)
  then show ?thesis using assms(2) by (simp add: written_def)
qed

lemma written_unique:
  assumes "codec env" and "written env raw es t" and "written env raw fs u"
  shows "map sort_entry es = map sort_entry fs" and "t = u"
proof -
  have eq: "map (je_line env) es = map (je_line env) fs" and "t = u"
    using written_split [OF assms(1,2)] written_split [OF assms(1,3)] by simp_all
  from eq have "map (je_parse env) (map (je_line env) es) = map (je_parse env) (map (je_line env) fs)" by simp
  then have "map Some (map sort_entry es) = map Some (map sort_entry fs)"
    by (simp add: o_def codecD(1) [OF assms(1)])
  then show "map sort_entry es = map sort_entry fs" by (simp only: inj_map_eq_map inj_Some)
  show "t = u" by fact
qed

lemma written_parse:
  assumes "codec env" and "written env raw es t"
  shows "parse_unlocked env allow raw =
    (if t = [] \<or> allow then Inr (map sort_entry es, t) else Inl (RuntimeError ''incomplete percept journal''))"
proof -
  have "rmap (parse_line env) (map (je_line env) es) = Inr (map sort_entry es)"
    by (induction es) (simp_all add: parse_line_def codecD(1) [OF assms(1)])
  then show ?thesis by (auto simp: parse_unlocked_def written_split [OF assms] raise_if_def)
qed

lemma written_entries:
  assumes "codec env" and "written env raw es t"
  shows "entries_unlocked env raw = (if t = [] then Inr (map sort_entry es) else Inl (RuntimeError ''incomplete percept journal''))"
  by (simp add: entries_unlocked_def written_parse [OF assms])

lemma written_Nil [simp]: "written env [] [] []"
  by (simp add: written_def)

text \<open>An append that completes the line of an entry, and the same append cut short.\<close>

definition completes :: "'b journal_env \<Rightarrow> 'b list \<Rightarrow> journal_entry \<Rightarrow> 'b list \<Rightarrow> bool" where
  "completes env t e bytes \<longleftrightarrow> t @ bytes = je_line env e @ [je_newline env]"

lemma written_completes:
  "written env raw es t \<Longrightarrow> completes env t e bytes \<Longrightarrow> written env (raw @ bytes) (es @ [e]) []"
  by (simp add: written_def completes_def)

lemma written_torn:
  assumes "codec env" and "written env raw es t" and "completes env t e bytes"
  shows "(\<exists>u. written env (raw @ take n bytes) es u \<and> u = take (length t + n) (je_line env e)) \<or>
    written env (raw @ take n bytes) (es @ [e]) []"
proof (cases "n < length bytes")
  case True
  have all: "t @ bytes = je_line env e @ [je_newline env]" using assms(3) by (simp add: completes_def)
  have len: "length t + length bytes = Suc (length (je_line env e))" using arg_cong [OF all, of length] by simp
  have "take (length t + n) (t @ bytes) = take (length t + n) (je_line env e)"
    using True len unfolding all by simp
  then have t: "t @ take n bytes = take (length t + n) (je_line env e)" by simp
  have "je_newline env \<notin> set (take (length t + n) (je_line env e))"
    using codecD(2) [OF assms(1)] by (meson in_set_takeD)
  then show ?thesis using assms(2) t by (auto simp: written_def)
next
  case False
  then show ?thesis using written_completes [OF assms(2,3)] by simp
qed

lemma append_completes:
  assumes "append_unlocked env path e partial_prefix = Inr eff"
  shows "\<exists>bytes. eff = AppendPercept path bytes \<and> completes env partial_prefix e bytes"
proof (cases "partial_prefix = []")
  case False
  then have s: "starts_with (je_line env e @ [je_newline env]) partial_prefix"
    and eff: "eff = AppendPercept path (drop (length partial_prefix) (je_line env e @ [je_newline env]))"
    using assms by (auto simp: append_unlocked_def Let_def split: if_splits)
  have "partial_prefix @ drop (length partial_prefix) (je_line env e @ [je_newline env]) =
      je_line env e @ [je_newline env]"
    using s append_take_drop_id [of "length partial_prefix" "je_line env e @ [je_newline env]"]
    unfolding starts_with_def by simp
  then show ?thesis using eff by (simp add: completes_def)
qed (use assms in \<open>auto simp: append_unlocked_def Let_def completes_def\<close>)

section \<open>The system\<close>

text \<open>An effect happens completely, or a crash cuts it short.\<close>

fun cut :: "nat option \<Rightarrow> 'b file_effect \<Rightarrow> 'b file_effect" where
  "cut None eff = eff"
| "cut (Some n) eff = torn_effect n eff"

definition fresh_sequence :: "int \<Rightarrow> event_db \<Rightarrow> bool" where
  "fresh_sequence g d \<longleftrightarrow> g \<notin> set (map ev_global_seq (ed_events d))"

definition decide_row_commit ::
  "'b journal_env \<Rightarrow> event_row \<Rightarrow> 'b artifact_files \<Rightarrow> (event_commit \<times> 'b file_effect) res" where
  "decide_row_commit env r f =
     decide_event_commit env (ev_event_id r) (ev_global_seq r) (ev_conversation_seq r) (ev_created_at r)
       (ev_schema_version r) (Some (ev_conversation_id r, ev_correlation_id r)) f"

inductive durable_step :: "'b journal_env \<Rightarrow> 'b event_world \<Rightarrow> 'b event_world \<Rightarrow> bool" for env where
  conversation: "durable_step env w (w\<lparr>ew_db := start_conversation c (ew_db w)\<rparr>)"
| journal: "find_event (rq_event_id q) (ew_db w) = None \<Longrightarrow> next_event_seq q (ew_db w) = Inr n \<Longrightarrow>
    decide_event_record env (request_record q n) (rq_journal_id q) now (ew_files w) = Inr (r, eff) \<Longrightarrow>
    durable_step env w (w\<lparr>ew_files := apply_effect (cut k eff) (ew_files w)\<rparr>)"
| publish: "find_event (rq_event_id q) (ew_db w) = None \<Longrightarrow> begin_event env q now w = (Inr n, w1) \<Longrightarrow>
    fresh_sequence g (ew_db w) \<Longrightarrow> insert_event (request_row q n g created) (ew_db w1) = Inr d \<Longrightarrow>
    durable_step env w (w1\<lparr>ew_db := d\<rparr>)"
| repair: "row \<in> set (ed_events (ew_db w)) \<Longrightarrow>
    decide_event_record env (row_record row) None now (ew_files w) = Inr (r, eff) \<Longrightarrow>
    durable_step env w (w\<lparr>ew_files := apply_effect (cut k eff) (ew_files w)\<rparr>)"
| receipt: "row \<in> set (ed_events (ew_db w)) \<Longrightarrow> decide_row_commit env row (ew_files w) = Inr (c, eff) \<Longrightarrow>
    durable_step env w (w\<lparr>ew_files := apply_effect (cut k eff) (ew_files w)\<rparr>)"
| artifact: "decide_interaction_artifact env aq now (ew_files w) = Inr (a, eff) \<Longrightarrow>
    durable_step env w (w\<lparr>ew_files := apply_effect (cut k eff) (ew_files w)\<rparr>)"
| rebuild: "durable_step env w (w\<lparr>ew_db := rebuild_heads (ew_db w)\<rparr>)"

inductive_cases durable_stepE: "durable_step env w w'"

definition durable_reachable :: "'b journal_env \<Rightarrow> 'b event_world \<Rightarrow> bool" where
  "durable_reachable env w \<longleftrightarrow> (durable_step env)\<^sup>*\<^sup>* empty_world w"

section \<open>Stored records\<close>

definition row_matches :: "event_row \<Rightarrow> event_record \<Rightarrow> bool" where
  "row_matches row r \<longleftrightarrow> same_semantic r (row_record row)"

definition row_commit :: "'b journal_env \<Rightarrow> event_row \<Rightarrow> string \<Rightarrow> event_commit" where
  "row_commit env row h = mk_event_commit env (ev_event_id row) h (ev_global_seq row)
     (ev_conversation_seq row) (ev_created_at row) (ev_schema_version row)"

definition stored :: "'b journal_env \<Rightarrow> 'b artifact_files \<Rightarrow> event_record \<Rightarrow> bool" where
  "stored env f r \<longleftrightarrow> verify_event_record env r \<and>
     ((\<exists>raw es t. dget (af_streams f) (jr_event_id r) = Some raw \<and> written env raw (EventRecord r # es) t) \<or>
      (\<exists>j raw es t. dget (af_percepts f) j = Some raw \<and> written env raw es t \<and> EventRecord r \<in> set es))"

definition stream_ok :: "'b journal_env \<Rightarrow> event_row list \<Rightarrow> uuid \<Rightarrow> 'b list \<Rightarrow> bool" where
  "stream_ok env evs i raw \<longleftrightarrow>
     (\<exists>r es t. jr_event_id r = i \<and> verify_event_record env r \<and>
       (\<forall>row\<in>set evs. ev_event_id row = i \<longrightarrow> row_matches row r) \<and>
       written env raw (EventRecord r # es) t \<and>
       (es = [] \<and> (t = [] \<or> (\<exists>row\<in>set evs. ev_event_id row = i \<and>
           (\<exists>k. t = take k (je_line env (EventCommit (row_commit env row (jr_record_hash r))))))) \<or>
        t = [] \<and> (\<exists>row\<in>set evs. ev_event_id row = i \<and>
           es = [EventCommit (row_commit env row (jr_record_hash r))])))"

definition percept_ok :: "'b journal_env \<Rightarrow> event_row list \<Rightarrow> uuid \<Rightarrow> 'b list \<Rightarrow> bool" where
  "percept_ok env evs j raw \<longleftrightarrow>
     (\<exists>es t. written env raw es t \<and> chain_errors env 1 None (artifacts_in j (map sort_entry es)) = [] \<and>
       (\<forall>c. EventCommit c \<in> set es \<longrightarrow> (\<exists>row\<in>set evs. \<exists>h. c = row_commit env row h)))"

definition files_ok :: "'b journal_env \<Rightarrow> event_row list \<Rightarrow> 'b artifact_files \<Rightarrow> bool" where
  "files_ok env evs f \<longleftrightarrow> af_legacy f = [] \<and> af_legacy_commits f = [] \<and>
     (\<forall>i raw. dget (af_streams f) i = Some raw \<longrightarrow> stream_ok env evs i raw) \<and>
     (\<forall>j raw. dget (af_percepts f) j = Some raw \<longrightarrow> percept_ok env evs j raw)"

lemma row_commit_simps [simp]:
  "jc_event_id (row_commit env row h) = ev_event_id row" "jc_record_hash (row_commit env row h) = h"
  "jc_global_seq (row_commit env row h) = ev_global_seq row"
  "jc_conversation_seq (row_commit env row h) = ev_conversation_seq row"
  "jc_created_at (row_commit env row h) = ev_created_at row"
  "jc_event_schema_version (row_commit env row h) = ev_schema_version row"
  "verify_event_commit env (row_commit env row h)"
  by (simp_all add: row_commit_def mk_event_commit_def verify_event_commit_def commit_digest_def Let_def)

lemma row_record_simps [simp]:
  "jr_event_id (row_record row) = ev_event_id row"
  "jr_conversation_id (row_record row) = ev_conversation_id row"
  "jr_correlation_id (row_record row) = ev_correlation_id row"
  "jr_conversation_seq (row_record row) = ev_conversation_seq row"
  "jr_event_id (request_record q n) = rq_event_id q"
  by (simp_all add: row_record_def request_record_def semantic_record_def)

lemma row_record_request [simp]: "row_record (request_row q n g created) = request_record q n"
  by (simp add: row_record_def request_row_def request_record_def)

lemma same_semantic_fields:
  assumes "same_semantic a b"
  shows "jr_event_id a = jr_event_id b" and "jr_conversation_id a = jr_conversation_id b"
    and "jr_correlation_id a = jr_correlation_id b" and "jr_conversation_seq a = jr_conversation_seq b"
proof -
  have "(blank_record a)\<lparr>jr_payload := []\<rparr> = (blank_record b)\<lparr>jr_payload := []\<rparr>"
    using assms by (simp add: same_semantic_def)
  then show "jr_event_id a = jr_event_id b" "jr_conversation_id a = jr_conversation_id b"
    "jr_correlation_id a = jr_correlation_id b" "jr_conversation_seq a = jr_conversation_seq b"
    by (cases a, cases b, simp add: blank_record_def)+
qed

text \<open>What the reader of a stream finds in one that satisfies the invariant.\<close>

lemma parse_stream_written:
  assumes "codec env" and "verify_event_record env r" and "jr_conversation_seq r = ev_conversation_seq row"
    and "jr_event_id r = ev_event_id row"
  shows "written env raw [EventRecord r] t \<Longrightarrow> parse_stream env allow raw =
      (if t = [] \<or> allow then Inr (sort_record r, None, t)
       else Inl (RuntimeError ''incomplete or extra event stream entry''))"
    and "written env raw [EventRecord r, EventCommit (row_commit env row (jr_record_hash r))] [] \<Longrightarrow>
      parse_stream env allow raw = Inr (sort_record r, Some (row_commit env row (jr_record_hash r)), [])"
  using assms(2-4) codecD(3) [OF assms(1)]
  by (auto simp: parse_stream_def written_split [OF assms(1)] codecD(1) [OF assms(1)] verify_sorted [OF assms(1)]
      raise_if_def)

lemma parse_stream_first:
  assumes "codec env" and "written env raw (EventRecord r # es) t" and "parse_stream env allow raw = Inr p"
  shows "fst p = sort_record r"
  using assms(3) by (auto simp: parse_stream_def written_split [OF assms(1,2)] codecD(1) [OF assms(1)] split: if_splits)

lemma written_extend:
  assumes "codec env" and "written env raw es t" and "completes env t e bytes"
  shows "\<exists>es' u. written env (raw @ bytes) (es @ es') u" and "\<exists>es' u. written env (raw @ take n bytes) (es @ es') u"
  using written_completes [OF assms(2,3)] written_torn [OF assms, of n] by (metis append_Nil2)+

section \<open>What the writers decide\<close>

lemma percept_written:
  assumes "files_ok env evs f"
  obtains es t where "written env (content (af_percepts f) j) es t"
    and "chain_errors env 1 None (artifacts_in j (map sort_entry es)) = []"
    and "\<And>c. EventCommit c \<in> set es \<Longrightarrow> \<exists>row\<in>set evs. \<exists>h. c = row_commit env row h"
proof (cases "dget (af_percepts f) j")
  case None
  then show ?thesis using that [of "[]" "[]"] by (simp add: content_def artifacts_in_def)
next
  case (Some raw)
  then have "percept_ok env evs j raw" using assms by (simp add: files_ok_def)
  then show ?thesis using that Some by (auto simp: percept_ok_def content_def)
qed

lemma stream_written:
  assumes "files_ok env evs f" and "dget (af_streams f) i = Some raw"
  obtains r es t where "jr_event_id r = i" and "verify_event_record env r"
    and "\<And>row. row \<in> set evs \<Longrightarrow> ev_event_id row = i \<Longrightarrow> row_matches row r"
    and "written env raw (EventRecord r # es) t"
    and "es = [] \<and> (t = [] \<or> (\<exists>row\<in>set evs. ev_event_id row = i \<and>
           (\<exists>k. t = take k (je_line env (EventCommit (row_commit env row (jr_record_hash r))))))) \<or>
        t = [] \<and> (\<exists>row\<in>set evs. ev_event_id row = i \<and>
           es = [EventCommit (row_commit env row (jr_record_hash r))])"
  using assms unfolding files_ok_def stream_ok_def by blast

lemma parse_stream_ok:
  assumes "codec env" and "files_ok env evs f" and "dget (af_streams f) i = Some raw"
  obtains r c t where "parse_stream env True raw = Inr (sort_record r, c, t)" and "jr_event_id r = i"
    and "stored env f r" and "\<And>row. row \<in> set evs \<Longrightarrow> ev_event_id row = i \<Longrightarrow> row_matches row r"
    and "c = None \<and> written env raw [EventRecord r] t \<or>
      (\<exists>row\<in>set evs. ev_event_id row = i \<and> c = Some (row_commit env row (jr_record_hash r)))"
proof -
  obtain r es t where r: "jr_event_id r = i" "verify_event_record env r" "written env raw (EventRecord r # es) t"
    and m: "\<And>row. row \<in> set evs \<Longrightarrow> ev_event_id row = i \<Longrightarrow> row_matches row r"
    and alt: "es = [] \<and> (t = [] \<or> (\<exists>row\<in>set evs. ev_event_id row = i \<and>
           (\<exists>k. t = take k (je_line env (EventCommit (row_commit env row (jr_record_hash r))))))) \<or>
        t = [] \<and> (\<exists>row\<in>set evs. ev_event_id row = i \<and>
           es = [EventCommit (row_commit env row (jr_record_hash r))])"
    by (rule stream_written [OF assms(2,3)]) (rule that)
  have st: "stored env f r" using r assms(3) unfolding stored_def by blast
  from alt show ?thesis
  proof (elim disjE conjE bexE)
    fix row assume row: "row \<in> set evs" "ev_event_id row = i"
      and es: "es = [EventCommit (row_commit env row (jr_record_hash r))]" "t = []"
    have "jr_conversation_seq r = ev_conversation_seq row"
      using same_semantic_fields(4) [OF m [OF row, unfolded row_matches_def]] by simp
    then have "parse_stream env True raw = Inr (sort_record r, Some (row_commit env row (jr_record_hash r)), [])"
      using parse_stream_written(2) [OF assms(1) r(2)] r row(2) es by simp
    then show ?thesis using that r(1) st m row by blast
  qed (use that [of r None t] parse_stream_written(1) [OF assms(1) r(2), of "\<lparr>ev_event_id = i,
      ev_conversation_id = 0, ev_correlation_id = 0, ev_global_seq = 0, ev_conversation_seq = jr_conversation_seq r,
      ev_event_type = [], ev_source = [], ev_created_at = Naive 0, ev_payload = [], ev_payload_text = None,
      ev_schema_version = 0\<rparr>" raw t True] r st m in auto)
qed

lemma records_of_sorted:
  "r \<in> set (records_of i (map sort_entry es)) \<longleftrightarrow> (\<exists>r0. EventRecord r0 \<in> set es \<and> r = sort_record r0 \<and> jr_event_id r0 = i)"
proof -
  have "r \<in> set (records_of i (map sort_entry es)) \<longleftrightarrow>
      (\<exists>e\<in>set es. \<exists>r0. e = EventRecord r0 \<and> r = sort_record r0 \<and> jr_event_id r0 = i)"
    unfolding records_of_def
    by (auto split: journal_entry.splits if_splits) (metis sort_entry.elims journal_entry.distinct journal_entry.inject(1) sort_record_simps(1))+
  then show ?thesis by blast
qed

lemma decide_record_cases:
  assumes "codec env" and "files_ok env evs f" and "decide_event_record env s j now f = Inr (r, eff)"
  obtains (present) r0 where "eff = NoEffect" and "r = sort_record r0" and "stored env f r0" and "same_semantic r0 s"
      and "\<And>raw r' es t. dget (af_streams f) (jr_event_id s) = Some raw \<Longrightarrow> written env raw (EventRecord r' # es) t \<Longrightarrow>
        same_semantic r' s"
  | (create) "eff = CreateStream (jr_event_id s) (je_line env (EventRecord r) @ [je_newline env])"
      and "dget (af_streams f) (jr_event_id s) = None" and "verify_event_record env r" and "same_semantic r s"
  | (append) i bytes es where "eff = AppendPercept i bytes" and "written env (content (af_percepts f) i) es []"
      and "completes env [] (EventRecord r) bytes" and "verify_event_record env r" and "same_semantic r s"
      and "dget (af_streams f) (jr_event_id s) = None"
proof -
  let ?r = "s\<lparr>jr_record_hash := record_digest env s, jr_journaled_at := now\<rparr>"
  have v: "verify_event_record env ?r" by (simp add: verify_event_record_def record_digest_def blank_record_def)
  have sem: "same_semantic ?r s" by (simp add: same_semantic_def blank_record_def)
  have legacy: "af_legacy f = []" using assms(2) by (simp add: files_ok_def)
  show ?thesis
  proof (cases "dget (af_streams f) (jr_event_id s)")
    case (Some raw)
    obtain r0 c t where p: "parse_stream env True raw = Inr (sort_record r0, c, t)" "stored env f r0"
      by (rule parse_stream_ok [OF assms(1,2) Some]) (rule that)
    then have e: "eff = NoEffect" "r = sort_record r0" "same_semantic r0 s"
      using assms(3) Some legacy same_semantic_equiv(3) [OF _ sem, of r0]
      by (auto simp: decide_event_record_def content_def Let_def split: if_splits)
    show ?thesis
    proof (rule present [OF e(1,2) p(2) e(3)])
      fix raw' r' es t'
      assume "dget (af_streams f) (jr_event_id s) = Some raw'" and w: "written env raw' (EventRecord r' # es) t'"
      then have "sort_record r' = sort_record r0"
        using p(1) Some parse_stream_first [OF assms(1) w, of True] by simp
      then have "same_semantic (sort_record r') s" using e(3) by simp
      then show "same_semantic r' s" by simp
    qed
  next
    case None
    obtain scope where
      d: "(case scope of Some i \<Rightarrow> rbind (parse_unlocked env True (content (af_percepts f) i)) (percept_record_entry env i ?r)
          | None \<Rightarrow> Inr (?r, CreateStream (jr_event_id s) (je_line env (EventRecord ?r) @ [je_newline env]))) = Inr (r, eff)"
      using assms(3) None legacy unfolding decide_event_record_def Let_def by (auto split: if_splits)
    show ?thesis
    proof (cases scope)
      case None
      then show ?thesis using create d v sem \<open>dget (af_streams f) (jr_event_id s) = None\<close> by auto
    next
      case (Some i)
      obtain es t where w: "written env (content (af_percepts f) i) es t" by (rule percept_written [OF assms(2)])
      have d: "percept_record_entry env i ?r (map sort_entry es, t) = Inr (r, eff)"
        using d Some written_parse [OF assms(1) w] by simp
      show ?thesis
      proof (cases "records_of (jr_event_id s) (map sort_entry es)")
        case Nil
        then have "t = [] \<and> append_unlocked env i (EventRecord ?r) [] = Inr eff \<and> r = ?r"
          using d by (clarsimp simp: percept_record_entry_def)
        then have n: "t = []" "append_unlocked env i (EventRecord ?r) [] = Inr eff" "r = ?r" by simp_all
        obtain bytes where "eff = AppendPercept i bytes" "completes env [] (EventRecord ?r) bytes"
          using append_completes [OF n(2)] by blast
        then show ?thesis using append [of i bytes es] w v sem n \<open>dget (af_streams f) (jr_event_id s) = None\<close> by simp
      next
        case (Cons x xs)
        then have x: "x \<in> set (records_of (jr_event_id s) (map sort_entry es))" by simp
        then obtain r0 where r0: "EventRecord r0 \<in> set es" "x = sort_record r0" by (auto simp: records_of_sorted)
        have "eff = NoEffect \<and> r = x \<and> verify_event_record env x \<and> same_semantic x ?r"
          using d Cons by (auto simp: percept_record_entry_def split: if_splits)
        moreover have "dget (af_percepts f) i = Some (content (af_percepts f) i)"
          using r0(1) w codecD(3) [OF assms(1)] by (cases "dget (af_percepts f) i") (auto simp: content_def written_def)
        ultimately have "eff = NoEffect" "r = sort_record r0" "same_semantic r0 ?r"
          and "verify_event_record env r0" "dget (af_percepts f) i = Some (content (af_percepts f) i)"
          using r0(2) verify_sorted [OF assms(1), of r0] by simp_all
        then show ?thesis
          using present [of r0] r0(1) w same_semantic_equiv(3) [OF _ sem, of r0]
            \<open>dget (af_streams f) (jr_event_id s) = None\<close> unfolding stored_def by fastforce
      qed
    qed
  qed
qed

lemma sorted_commit [simp]: "sort_entry e = EventCommit c \<longleftrightarrow> e = EventCommit c" "EventCommit c = sort_entry e \<longleftrightarrow> e = EventCommit c"
  by (cases e; auto)+

lemma parse_stream_tail: "parse_stream env True raw = Inr (r, Some c, t) \<Longrightarrow> parse_stream env False raw = Inr (r, Some c, []) \<and> t = []"
  by (cases "split_file (je_newline env) raw" rule: prod.exhaust)
    (auto simp: parse_stream_def split: list.splits if_splits)

text \<open>A receipt that the readers find.\<close>

definition receipt_on_file :: "'b journal_env \<Rightarrow> 'b artifact_files \<Rightarrow> uuid \<Rightarrow> event_commit \<Rightarrow> bool" where
  "receipt_on_file env f i c \<longleftrightarrow>
     (\<exists>raw r. dget (af_streams f) i = Some raw \<and> parse_stream env False raw = Inr (r, Some c, [])) \<or>
     (\<exists>j raw entries. dget (af_percepts f) j = Some raw \<and> entries_unlocked env raw = Inr entries \<and>
        EventCommit c \<in> set entries)"

lemma starts_with_drop: "starts_with xs ys \<Longrightarrow> ys @ drop (length ys) xs = xs"
  using append_take_drop_id [of "length ys" xs] by (simp add: starts_with_def)

lemma decide_commit_cases:
  assumes "codec env" and "files_ok env evs f" and "decide_row_commit env row f = Inr (c, eff)"
  obtains (kept) h where "eff = NoEffect" and "c = row_commit env row h" and "receipt_on_file env f (ev_event_id row) c"
  | (stream) raw r t bytes where "eff = AppendStream (ev_event_id row) bytes"
      and "dget (af_streams f) (ev_event_id row) = Some raw" and "written env raw [EventRecord r] t"
      and "completes env t (EventCommit (row_commit env row (jr_record_hash r))) bytes"
      and "c = row_commit env row (jr_record_hash r)"
  | (percept) j es t h bytes where "eff = AppendPercept j bytes"
      and "written env (content (af_percepts f) j) es t"
      and "completes env t (EventCommit (row_commit env row h)) bytes" and "c = row_commit env row h"
proof -
  let ?i = "ev_event_id row" and ?build = "\<lambda>h. row_commit env row h"
  have legacy: "af_legacy f = []" using assms(2) by (simp add: files_ok_def)
  have build: "(\<lambda>h. mk_event_commit env ?i h (ev_global_seq row) (ev_conversation_seq row) (ev_created_at row)
      (ev_schema_version row)) = ?build" by (simp add: row_commit_def fun_eq_iff)
  show ?thesis
  proof (cases "dget (af_streams f) ?i")
    case (Some raw)
    obtain r co t where p: "parse_stream env True raw = Inr (sort_record r, co, t)"
      and alt: "co = None \<and> written env raw [EventRecord r] t \<or>
        (\<exists>row\<in>set evs. ev_event_id row = ?i \<and> co = Some (row_commit env row (jr_record_hash r)))"
      by (rule parse_stream_ok [OF assms(1,2) Some]) (rule that)
    have d: "stream_commit_entry env ?i ?build raw = Inr (c, eff)"
      using assms(3) Some legacy by (simp add: decide_row_commit_def decide_event_commit_def Let_def build)
    show ?thesis
    proof (cases co)
      case None
      let ?e = "EventCommit (row_commit env row (jr_record_hash r))"
      have w: "written env raw [EventRecord r] t" using alt None by blast
      from d have "t = [] \<or> starts_with (je_line env ?e @ [je_newline env]) t"
        and eff: "eff = AppendStream ?i (drop (length t) (je_line env ?e @ [je_newline env]))"
        and c: "c = row_commit env row (jr_record_hash r)"
        by (simp_all add: stream_commit_entry_def p None Let_def) (auto)
      then have "completes env t ?e (drop (length t) (je_line env ?e @ [je_newline env]))"
        using starts_with_drop by (fastforce simp: completes_def)
      then show ?thesis using stream [OF eff Some w _ c] by blast
    next
      case (Some x)
      then have k: "eff = NoEffect" "c = row_commit env row (jr_record_hash r)" "x = c"
        using d by (auto simp: stream_commit_entry_def p Let_def)
      have "parse_stream env False raw = Inr (sort_record r, Some c, [])"
        using p parse_stream_tail unfolding Some k(3) by blast
      then have "receipt_on_file env f ?i c"
        using \<open>dget (af_streams f) ?i = Some raw\<close> unfolding receipt_on_file_def by blast
      then show ?thesis by (rule kept [OF k(1,2)])
    qed
  next
    case None
    obtain j where d: "rbind (parse_unlocked env True (content (af_percepts f) j)) (percept_commit_entry env j ?i ?build) = Inr (c, eff)"
      using assms(3) None legacy
      by (auto simp: decide_row_commit_def decide_event_commit_def Let_def build split: option.splits)
    obtain es t where w: "written env (content (af_percepts f) j) es t" by (rule percept_written [OF assms(2)])
    have "percept_commit_entry env j ?i ?build (map sort_entry es, t) = Inr (c, eff)"
      using d written_parse [OF assms(1) w] by simp
    then have "(\<exists>h. append_unlocked env j (EventCommit (?build h)) t = Inr eff \<and> c = ?build h) \<or>
        eff = NoEffect \<and> t = [] \<and> (\<exists>h. c = ?build h) \<and> c \<in> set (commits_of ?i (map sort_entry es))"
      unfolding percept_commit_entry_def by (auto simp: Let_def split: list.splits)
    then show ?thesis
    proof (elim disjE exE conjE)
      fix h assume a: "append_unlocked env j (EventCommit (?build h)) t = Inr eff" and c: "c = ?build h"
      show ?thesis using append_completes [OF a] percept [OF _ w _ c] by blast
    next
      fix h assume k: "eff = NoEffect" "c = ?build h" and t: "t = []"
        and m: "c \<in> set (commits_of ?i (map sort_entry es))"
      have e: "EventCommit c \<in> set (map sort_entry es)"
        using m by (auto simp: commits_of_def split: journal_entry.splits if_splits)
      then have ne: "es \<noteq> []" by auto
      have "content (af_percepts f) j \<noteq> []" using w ne by (cases es) (auto simp: written_def)
      then have "dget (af_percepts f) j = Some (content (af_percepts f) j)"
        by (cases "dget (af_percepts f) j") (auto simp: content_def)
      moreover have "entries_unlocked env (content (af_percepts f) j) = Inr (map sort_entry es)"
        using written_entries [OF assms(1) w] t by simp
      ultimately have "receipt_on_file env f ?i c" using e unfolding receipt_on_file_def by blast
      then show ?thesis by (rule kept [OF k])
    qed
  qed
qed

lemma decide_artifact_cases:
  assumes "codec env" and "files_ok env evs f" and "decide_interaction_artifact env q now f = Inr (a, eff)"
  obtains (kept) "eff = NoEffect"
  | (append) es bytes where "eff = AppendPercept (aq_interaction_id q) bytes"
      and "written env (content (af_percepts f) (aq_interaction_id q)) es []"
      and "completes env [] (InteractionEntry a) bytes"
      and "ia_interaction_id a = aq_interaction_id q"
      and "chain_errors env 1 None (artifacts_in (aq_interaction_id q) (map sort_entry es) @ [a]) = []"
proof -
  let ?i = "aq_interaction_id q"
  obtain es t where w: "written env (content (af_percepts f) ?i) es t"
    and chain: "chain_errors env 1 None (artifacts_in ?i (map sort_entry es)) = []"
    by (rule percept_written [OF assms(2)])
  let ?prior = "artifacts_in ?i (map sort_entry es)"
  let ?a = "interaction_envelope env q now (if ?prior = [] then None else Some (last ?prior))"
  have t: "t = []" using assms(3) written_entries [OF assms(1) w]
    by (auto simp: decide_interaction_artifact_def Let_def split: if_splits)
  then have ent: "entries_unlocked env (content (af_percepts f) ?i) = Inr (map sort_entry es)"
    using written_entries [OF assms(1) w] by simp
  show ?thesis
  proof (cases "find (\<lambda>a. ia_artifact_key a = aq_artifact_key q) ?prior")
    case None
    then have a: "a = ?a" and app: "append_unlocked env ?i (InteractionEntry a) [] = Inr eff"
      using assms(3) unfolding decide_interaction_artifact_def Let_def ent by clarsimp+
    have "ia_interaction_id a = ?i" unfolding a by (simp add: interaction_envelope_def Let_def)
    moreover have "chain_errors env 1 None (?prior @ [a]) = []" by (rule envelope_continues [OF chain a])
    ultimately show ?thesis using append append_completes [OF app] w t by blast
  next
    case (Some x)
    then show ?thesis using assms(3) kept unfolding decide_interaction_artifact_def Let_def ent by clarsimp
  qed
qed

section \<open>What the writers keep\<close>

lemma artifacts_in_append [simp]: "artifacts_in j (xs @ ys) = artifacts_in j xs @ artifacts_in j ys"
  by (simp add: artifacts_in_def)

lemma link_errors_sorted:
  assumes "codec env"
  shows "link_errors env n p (sort_artifact a) = link_errors env n p a"
proof -
  have "ia_journal_sequence (sort_artifact a) = ia_journal_sequence a"
    "ia_previous_artifact_id (sort_artifact a) = ia_previous_artifact_id a"
    "ia_previous_artifact_hash (sort_artifact a) = ia_previous_artifact_hash a"
    "ia_payload_hash (sort_artifact a) = ia_payload_hash a"
    "ia_artifact_hash (sort_artifact a) = ia_artifact_hash a"
    by (simp_all add: sort_artifact_def)
  then show ?thesis using artifact_sorted [OF assms, of a] by (simp add: link_errors_def)
qed

lemma files_ok_percept:
  assumes "files_ok env evs f" and "percept_ok env evs j raw"
  shows "files_ok env evs (f\<lparr>af_percepts := dset j raw (af_percepts f)\<rparr>)"
  using assms by (auto simp: files_ok_def dget_dset split: if_splits)

lemma files_ok_stream:
  assumes "files_ok env evs f" and "stream_ok env evs i raw"
  shows "files_ok env evs (f\<lparr>af_streams := dset i raw (af_streams f)\<rparr>)"
  using assms by (auto simp: files_ok_def dget_dset split: if_splits)

lemma percept_contents:
  assumes "codec env" and "files_ok env evs f" and "written env (content (af_percepts f) j) es t"
  shows "chain_errors env 1 None (artifacts_in j (map sort_entry es)) = []"
    and "EventCommit c \<in> set es \<Longrightarrow> \<exists>row\<in>set evs. \<exists>h. c = row_commit env row h"
proof -
  obtain es0 t0 where w0: "written env (content (af_percepts f) j) es0 t0"
    and chain0: "chain_errors env 1 None (artifacts_in j (map sort_entry es0)) = []"
    and commit0: "\<And>c. EventCommit c \<in> set es0 \<Longrightarrow> \<exists>row\<in>set evs. \<exists>h. c = row_commit env row h"
    by (rule percept_written [OF assms(2)]) (rule that)
  have same: "map sort_entry es0 = map sort_entry es" by (rule written_unique(1) [OF assms(1) w0 assms(3)])
  show "chain_errors env 1 None (artifacts_in j (map sort_entry es)) = []" using chain0 unfolding same .
  assume "EventCommit c \<in> set es"
  then have "EventCommit c \<in> set (map sort_entry es0)" unfolding same by force
  then have "EventCommit c \<in> set es0" by auto
  then show "\<exists>row\<in>set evs. \<exists>h. c = row_commit env row h" by (rule commit0)
qed

lemma percept_append:
  assumes "codec env" and "files_ok env evs f" and w: "written env (content (af_percepts f) j) es t"
    and c: "completes env t e bytes"
    and chain: "chain_errors env 1 None (artifacts_in j (map sort_entry es) @ artifacts_in j [sort_entry e]) = []"
    and commit: "\<And>c. e = EventCommit c \<Longrightarrow> \<exists>row\<in>set evs. \<exists>h. c = row_commit env row h"
  shows "files_ok env evs (apply_effect (cut k (AppendPercept j bytes)) f)"
proof -
  note chain0 = percept_contents(1) [OF assms(1,2) w] and commits = percept_contents(2) [OF assms(1,2) w]
  have "percept_ok env evs j (content (af_percepts f) j @ raw)"
    if "(\<exists>u. written env (content (af_percepts f) j @ raw) es u) \<or>
      written env (content (af_percepts f) j @ raw) (es @ [e]) []" for raw
    using that
  proof (elim disjE exE)
    fix u assume "written env (content (af_percepts f) j @ raw) es u"
    then show ?thesis using chain0 commits unfolding percept_ok_def by blast
  next
    assume new: "written env (content (af_percepts f) j @ raw) (es @ [e]) []"
    have "chain_errors env 1 None (artifacts_in j (map sort_entry (es @ [e]))) = []" using chain by simp
    moreover have "\<exists>row\<in>set evs. \<exists>h. c = row_commit env row h" if "EventCommit c \<in> set (es @ [e])" for c
      using that commits commit by auto
    ultimately show ?thesis using new unfolding percept_ok_def by blast
  qed
  then show ?thesis
    using written_completes [OF w c] written_torn [OF assms(1) w c] files_ok_percept [OF assms(2)]
    by (cases k) auto
qed

lemma record_preserves:
  assumes "codec env" and "files_ok env evs f" and "decide_event_record env s j now f = Inr (r, eff)"
    and rows: "\<And>row. row \<in> set evs \<Longrightarrow> ev_event_id row = jr_event_id s \<Longrightarrow> same_semantic s (row_record row)"
  shows "files_ok env evs (apply_effect (cut k eff) f)"
  using assms(1-3)
proof (cases rule: decide_record_cases)
  case present
  then show ?thesis using assms(2) by (cases k) simp_all
next
  case create
  have "stream_ok env evs (jr_event_id s) (je_line env (EventRecord r) @ [je_newline env])"
    unfolding stream_ok_def
  proof (intro exI conjI ballI impI)
    show "jr_event_id r = jr_event_id s" by (rule same_semantic_fields(1) [OF create(4)])
    show "verify_event_record env r" by (rule create(3))
    fix row assume "row \<in> set evs" and "ev_event_id row = jr_event_id s"
    then show "row_matches row r"
      using rows same_semantic_equiv(3) [OF create(4)] by (simp add: row_matches_def)
  qed (auto simp: written_def)
  then show ?thesis using files_ok_stream [OF assms(2)] assms(2) create(1) by (cases k) simp_all
next
  case (append i bytes es)
  have "chain_errors env 1 None (artifacts_in i (map sort_entry es) @ artifacts_in i [sort_entry (EventRecord r)]) = []"
    using percept_contents(1) [OF assms(1,2) append(2)] by (simp add: artifacts_in_def)
  then show ?thesis using percept_append [OF assms(1,2) append(2,3)] append(1) by simp
qed

lemma commit_preserves:
  assumes "codec env" and "files_ok env evs f" and "decide_row_commit env row f = Inr (c, eff)" and "row \<in> set evs"
  shows "files_ok env evs (apply_effect (cut k eff) f)"
  using assms(1-3)
proof (cases rule: decide_commit_cases)
  case kept
  then show ?thesis using assms(2) by (cases k) simp_all
next
  case (stream raw r t bytes)
  let ?e = "EventCommit (row_commit env row (jr_record_hash r))"
  obtain r0 es0 t0 where r0: "jr_event_id r0 = ev_event_id row" "verify_event_record env r0"
      "written env raw (EventRecord r0 # es0) t0"
    and m0: "\<And>row'. row' \<in> set evs \<Longrightarrow> ev_event_id row' = ev_event_id row \<Longrightarrow> row_matches row' r0"
    by (rule stream_written [OF assms(2) stream(2)]) (rule that)
  have "map sort_entry (EventRecord r0 # es0) = map sort_entry [EventRecord r]"
    by (rule written_unique(1) [OF assms(1) r0(3) stream(3)])
  then have same: "sort_record r0 = sort_record r" by simp
  have id: "jr_event_id r = ev_event_id row" using arg_cong [OF same, of jr_event_id] r0(1) by simp
  have v: "verify_event_record env r" using r0(2) verify_sorted [OF assms(1)] same by metis
  have m: "row_matches row' r" if "row' \<in> set evs" "ev_event_id row' = ev_event_id row" for row'
    using m0 [OF that] same same_semantic_sorted(1) unfolding row_matches_def by metis
  have ok: "stream_ok env evs (ev_event_id row) (raw @ b)"
    if "(\<exists>u n. written env (raw @ b) [EventRecord r] u \<and> u = take n (je_line env ?e)) \<or>
      written env (raw @ b) ([EventRecord r] @ [?e]) []" for b
    using that
  proof (elim disjE exE conjE)
    fix u n assume "written env (raw @ b) [EventRecord r] u" "u = take n (je_line env ?e)"
    then show ?thesis unfolding stream_ok_def using id v m assms(4) by blast
  next
    assume "written env (raw @ b) ([EventRecord r] @ [?e]) []"
    then have "written env (raw @ b) (EventRecord r # [?e]) []" by simp
    then show ?thesis unfolding stream_ok_def using id v m assms(4) by blast
  qed
  have raw: "content (af_streams f) (ev_event_id row) = raw" using stream(2) by (simp add: content_def)
  show ?thesis
  proof (cases k)
    case None
    show ?thesis using ok written_completes [OF stream(3,4)] files_ok_stream [OF assms(2)] stream(1) raw
      unfolding None by simp
  next
    case (Some n)
    have "stream_ok env evs (ev_event_id row) (raw @ take n bytes)"
      using ok written_torn [OF assms(1) stream(3,4), of n] by blast
    then show ?thesis using files_ok_stream [OF assms(2)] stream(1) raw unfolding Some by simp
  qed
next
  case (percept j es t h bytes)
  have "chain_errors env 1 None (artifacts_in j (map sort_entry es) @
      artifacts_in j [sort_entry (EventCommit (row_commit env row h))]) = []"
    using percept_contents(1) [OF assms(1,2) percept(2)] by (simp add: artifacts_in_def)
  then show ?thesis using percept_append [OF assms(1,2) percept(2,3)] percept(1) assms(4) by blast
qed

lemma artifact_preserves:
  assumes "codec env" and "files_ok env evs f" and "decide_interaction_artifact env q now f = Inr (a, eff)"
  shows "files_ok env evs (apply_effect (cut k eff) f)"
  using assms
proof (cases rule: decide_artifact_cases)
  case kept
  then show ?thesis using assms(2) by (cases k) simp_all
next
  case (append es bytes)
  have "artifacts_in (aq_interaction_id q) [sort_entry (InteractionEntry a)] = [sort_artifact a]"
    using append(4) by (simp add: artifacts_in_def sort_artifact_def)
  then have "chain_errors env 1 None (artifacts_in (aq_interaction_id q) (map sort_entry es) @
      artifacts_in (aq_interaction_id q) [sort_entry (InteractionEntry a)]) = []"
    using append(5) by (simp add: chain_split link_errors_sorted [OF assms(1)])
  then show ?thesis using percept_append [OF assms(1,2) append(2,3)] append(1) by simp
qed

end
