(* ===== verification/EventSafety.thy ===== *)
theory EventSafety
  imports EventLog
begin

text \<open>
  What every reachable world of the event log satisfies, whatever crashed in it: a committed event has its
  record on disk, the sequence numbers of a conversation have no gap, every chain of artifacts verifies,
  and the heads are the newest cognitive records. And what it does not: a record that a crash left without
  its event can be shut out by the next event of the conversation.
\<close>

section \<open>Records stay\<close>

definition filed_stream :: "'b journal_env \<Rightarrow> (uuid, 'b list) dict \<Rightarrow> event_record \<Rightarrow> bool" where
  "filed_stream env d r \<longleftrightarrow> (\<exists>raw es t. dget d (jr_event_id r) = Some raw \<and> written env raw (EventRecord r # es) t)"

definition filed_percept :: "'b journal_env \<Rightarrow> (uuid, 'b list) dict \<Rightarrow> event_record \<Rightarrow> bool" where
  "filed_percept env d r \<longleftrightarrow> (\<exists>j raw es t. dget d j = Some raw \<and> written env raw es t \<and> EventRecord r \<in> set es)"

lemma stored_filed:
  "stored env f r \<longleftrightarrow> verify_event_record env r \<and> (filed_stream env (af_streams f) r \<or> filed_percept env (af_percepts f) r)"
  by (simp add: stored_def filed_stream_def filed_percept_def)

lemma filed_percept_append:
  assumes "codec env" and "filed_percept env d r" and w: "written env (content d j) es t" and c: "completes env t e bytes"
  shows "filed_percept env (dset j (content d j @ bytes) d) r"
    and "filed_percept env (dset j (content d j @ take n bytes) d) r"
proof -
  obtain i raw es1 t1 where r: "dget d i = Some raw" "written env raw es1 t1" "EventRecord r \<in> set es1"
    using assms(2) unfolding filed_percept_def by blast
  have "filed_percept env (dset j (content d j @ b) d) r"
    if b: "\<And>es t. written env (content d j) es t \<Longrightarrow> completes env t e bytes \<Longrightarrow> \<exists>es' u. written env (content d j @ b) (es @ es') u"
    for b
  proof (cases "i = j")
    case False
    then show ?thesis using r unfolding filed_percept_def by (metis dget_dset)
  next
    case True
    have raw: "content d j = raw" using r True by (simp add: content_def)
    have "t1 = t" by (rule written_unique(2) [OF assms(1) r(2)]) (use w raw in simp)
    then obtain es' u where "written env (content d j @ b) (es1 @ es') u" using b [of es1 t1] r(2) c raw by auto
    moreover have "EventRecord r \<in> set (es1 @ es')" using r(3) by simp
    moreover have "dget (dset j (content d j @ b) d) j = Some (content d j @ b)" by (simp add: dget_dset)
    ultimately show ?thesis unfolding filed_percept_def by blast
  qed
  then show "filed_percept env (dset j (content d j @ bytes) d) r"
    "filed_percept env (dset j (content d j @ take n bytes) d) r"
    using written_extend [OF assms(1)] by blast+
qed

lemma filed_stream_append:
  assumes "codec env" and "filed_stream env d r" and w: "written env (content d j) es t" and c: "completes env t e bytes"
  shows "filed_stream env (dset j (content d j @ bytes) d) r"
    and "filed_stream env (dset j (content d j @ take n bytes) d) r"
proof -
  obtain raw es1 t1 where r: "dget d (jr_event_id r) = Some raw" "written env raw (EventRecord r # es1) t1"
    using assms(2) unfolding filed_stream_def by blast
  have "filed_stream env (dset j (content d j @ b) d) r"
    if b: "\<And>es t. written env (content d j) es t \<Longrightarrow> completes env t e bytes \<Longrightarrow> \<exists>es' u. written env (content d j @ b) (es @ es') u"
    for b
  proof (cases "jr_event_id r = j")
    case False
    then show ?thesis using r unfolding filed_stream_def by (metis dget_dset)
  next
    case True
    have raw: "content d j = raw" using r True by (simp add: content_def)
    have "t1 = t" by (rule written_unique(2) [OF assms(1) r(2)]) (use w raw in simp)
    then obtain es' u where "written env (content d j @ b) (EventRecord r # es1 @ es') u"
      using b [of "EventRecord r # es1" t1] r(2) c raw by auto
    moreover have "dget (dset j (content d j @ b) d) (jr_event_id r) = Some (content d j @ b)"
      by (simp add: dget_dset True)
    ultimately show ?thesis unfolding filed_stream_def by blast
  qed
  then show "filed_stream env (dset j (content d j @ bytes) d) r"
    "filed_stream env (dset j (content d j @ take n bytes) d) r"
    using written_extend [OF assms(1)] by blast+
qed

lemma stored_append_percept:
  assumes "codec env" and "stored env f r" and "written env (content (af_percepts f) j) es t"
    and "completes env t e bytes"
  shows "stored env (apply_effect (cut k (AppendPercept j bytes)) f) r"
  using assms(2) filed_percept_append [OF assms(1) _ assms(3,4)] by (cases k) (auto simp: stored_filed)

lemma stored_append_stream:
  assumes "codec env" and "stored env f r" and "dget (af_streams f) i = Some raw" and "written env raw es t"
    and "completes env t e bytes"
  shows "stored env (apply_effect (cut k (AppendStream i bytes)) f) r"
proof -
  have "written env (content (af_streams f) i) es t" using assms(3,4) by (simp add: content_def)
  from filed_stream_append [OF assms(1) _ this assms(5)] show ?thesis
    using assms(2) by (cases k) (auto simp: stored_filed)
qed

lemma stored_create:
  assumes "stored env f r" and "dget (af_streams f) i = None"
  shows "stored env (apply_effect (cut k (CreateStream i raw)) f) r"
  using assms by (cases k) (auto simp: stored_filed filed_stream_def dget_dset)

lemma stored_record_step:
  assumes "codec env" and "files_ok env evs f" and "decide_event_record env s j now f = Inr (r, eff)" and "stored env f x"
  shows "stored env (apply_effect (cut k eff) f) x"
  using assms(1-3)
proof (cases rule: decide_record_cases)
  case present
  then show ?thesis using assms(4) by (cases k) simp_all
next
  case create
  then show ?thesis using stored_create [OF assms(4)] by simp
next
  case (append i bytes es)
  then show ?thesis using stored_append_percept [OF assms(1,4)] by simp
qed

lemma stored_commit_step:
  assumes "codec env" and "files_ok env evs f" and "decide_row_commit env row f = Inr (c, eff)" and "stored env f x"
  shows "stored env (apply_effect (cut k eff) f) x"
  using assms(1-3)
proof (cases rule: decide_commit_cases)
  case kept
  then show ?thesis using assms(4) by (cases k) simp_all
next
  case (stream raw r t bytes)
  then show ?thesis using stored_append_stream [OF assms(1,4)] by simp
next
  case (percept j es t h bytes)
  then show ?thesis using stored_append_percept [OF assms(1,4)] by simp
qed

lemma stored_artifact_step:
  assumes "codec env" and "files_ok env evs f" and "decide_interaction_artifact env q now f = Inr (a, eff)"
    and "stored env f x"
  shows "stored env (apply_effect (cut k eff) f) x"
  using assms(1-3)
proof (cases rule: decide_artifact_cases)
  case kept
  then show ?thesis using assms(4) by (cases k) simp_all
next
  case (append es bytes)
  then show ?thesis using stored_append_percept [OF assms(1,4)] by simp
qed

text \<open>The record that a writer reports is there.\<close>

lemma decided_record_stored:
  assumes "codec env" and "files_ok env evs f" and "decide_event_record env s j now f = Inr (r, eff)"
  obtains r0 where "stored env (apply_effect eff f) r0" and "same_semantic r0 s"
  using assms
proof (cases rule: decide_record_cases)
  case (present r0)
  then show ?thesis using that by simp
next
  case create
  have "written env (je_line env (EventRecord r) @ [je_newline env]) (EventRecord r # []) []" by (simp add: written_def)
  then have "stored env (apply_effect eff f) r"
    using create same_semantic_fields(1) [OF create(4)] unfolding stored_def by (fastforce simp: dget_dset)
  then show ?thesis using create(4) that by blast
next
  case (append i bytes es)
  then have "stored env (apply_effect eff f) r"
    using written_completes [OF append(2,3)] unfolding stored_def by (fastforce simp: dget_dset)
  then show ?thesis using append(5) that by blast
qed

section \<open>The database\<close>

text \<open>The head of a name is its newest cognitive record.\<close>

definition named :: "string \<times> string \<Rightarrow> event_row \<Rightarrow> bool" where
  "named n r \<longleftrightarrow> is_cognitive r \<and> record_name r = Some n"

definition newest :: "event_row list \<Rightarrow> string \<times> string \<Rightarrow> (uuid \<times> int \<times> json) option \<Rightarrow> bool" where
  "newest evs n h \<longleftrightarrow>
     (case h of
        None \<Rightarrow> \<forall>r\<in>set evs. \<not> named n r
      | Some (i, g, x) \<Rightarrow> \<exists>r\<in>set evs. named n r \<and> ev_event_id r = i \<and> ev_global_seq r = g \<and> record_data r = Some x \<and>
          (\<forall>r'\<in>set evs. named n r' \<longrightarrow> ev_global_seq r' \<le> g))"

definition gapless :: "event_db \<Rightarrow> bool" where
  "gapless d \<longleftrightarrow> (\<forall>c.
     (case dget (ed_conversations d) c of
        None \<Rightarrow> filter (\<lambda>r. ev_conversation_id r = c) (ed_events d) = []
      | Some n \<Rightarrow> 1 \<le> n \<and>
          map ev_conversation_seq (filter (\<lambda>r. ev_conversation_id r = c) (ed_events d)) = [1..n - 1]))"

definition db_ok :: "event_db \<Rightarrow> bool" where
  "db_ok d \<longleftrightarrow> distinct (map ev_event_id (ed_events d)) \<and> distinct (map ev_global_seq (ed_events d)) \<and> gapless d \<and>
     (\<forall>r\<in>set (ed_events d). is_cognitive r \<longrightarrow> record_name r \<noteq> None \<and> record_data r \<noteq> None) \<and>
     (\<forall>n. newest (ed_events d) n (dget (ed_heads d) n))"

lemma newest_insert:
  assumes "newest evs n (dget hs n)" and "project_cognitive_event r hs = Inr hs'"
  shows "newest (evs @ [r]) n (dget hs' n)"
proof (cases "named n r")
  case False
  then have "dget hs' n = dget hs n"
    using assms(2)
    by (cases "dget hs (the (record_name r))"; clarsimp simp: project_cognitive_event_def named_def split: if_splits option.splits)
  then show ?thesis using assms(1) False by (auto simp: newest_def split: option.splits)
next
  case True
  then obtain x where x: "record_data r = Some x"
    using assms(2) by (auto simp: project_cognitive_event_def named_def split: option.splits)
  have hs': "hs' = (case dget hs n of
      None \<Rightarrow> dset n (ev_event_id r, ev_global_seq r, x) hs
    | Some (i, g, y) \<Rightarrow> if g < ev_global_seq r then dset n (ev_event_id r, ev_global_seq r, x) hs else hs)"
    using assms(2) True x by (cases "dget hs n") (clarsimp simp: project_cognitive_event_def named_def)+
  show ?thesis
  proof (cases "dget hs n")
    case None
    then show ?thesis using assms(1) True x hs' by (auto simp: newest_def)
  next
    case (Some h)
    obtain i g y where h: "h = (i, g, y)" by (cases h)
    show ?thesis
    proof (cases "g < ev_global_seq r")
      case True
      then show ?thesis using assms(1) Some h x hs' \<open>named n r\<close> by (fastforce simp: newest_def)
    next
      case False
      then show ?thesis using assms(1) Some h x hs' \<open>named n r\<close> by (auto simp: newest_def)
    qed
  qed
qed

lemma start_conversation_simps [simp]:
  "ed_events (start_conversation c d) = ed_events d" "ed_heads (start_conversation c d) = ed_heads d"
  "dget (ed_conversations (start_conversation c d)) c' =
     (if c' = c \<and> dget (ed_conversations d) c = None then Some 1 else dget (ed_conversations d) c')"
proof -
  have "c \<in> set (dkeys (ed_conversations d)) \<longleftrightarrow> dget (ed_conversations d) c \<noteq> None"
    by (simp add: map_of_eq_None_iff)
  then show "dget (ed_conversations (start_conversation c d)) c' =
     (if c' = c \<and> dget (ed_conversations d) c = None then Some 1 else dget (ed_conversations d) c')"
    by (auto simp: start_conversation_def)
qed (simp_all add: start_conversation_def)

lemma gapless_start:
  assumes "gapless d"
  shows "gapless (start_conversation c d)"
  unfolding gapless_def
proof
  fix c'
  show "case dget (ed_conversations (start_conversation c d)) c' of
      None \<Rightarrow> filter (\<lambda>r. ev_conversation_id r = c') (ed_events (start_conversation c d)) = []
    | Some n \<Rightarrow> 1 \<le> n \<and>
        map ev_conversation_seq (filter (\<lambda>r. ev_conversation_id r = c') (ed_events (start_conversation c d))) = [1..n - 1]"
    using assms [unfolded gapless_def, rule_format, of c']
    by (cases "dget (ed_conversations d) c'") (auto simp del: filter_empty_conv split: option.splits)
qed

lemma insert_event_ok:
  assumes "db_ok d" and "insert_event r d = Inr d'" and "ev_global_seq r \<notin> set (map ev_global_seq (ed_events d))"
    and "dget (ed_conversations d) (ev_conversation_id r) = Some (ev_conversation_seq r)"
  shows "db_ok d'" and "ed_events d' = ed_events d @ [r]"
proof -
  obtain hs where fresh: "ev_event_id r \<notin> set (map ev_event_id (ed_events d))"
    and hs: "project_cognitive_event r (ed_heads d) = Inr hs"
    and d': "d' = d\<lparr>ed_events := ed_events d @ [r], ed_heads := hs,
      ed_conversations := dset (ev_conversation_id r) (ev_conversation_seq r + 1) (ed_conversations d)\<rparr>"
    using assms(2,4) unfolding insert_event_def by (auto split: if_splits)
  show "ed_events d' = ed_events d @ [r]" using d' by simp
  have ok: "distinct (map ev_event_id (ed_events d))" "distinct (map ev_global_seq (ed_events d))" "gapless d"
    and cog: "\<And>x. x \<in> set (ed_events d) \<Longrightarrow> is_cognitive x \<Longrightarrow> record_name x \<noteq> None \<and> record_data x \<noteq> None"
    and new: "\<And>n. newest (ed_events d) n (dget (ed_heads d) n)"
    using assms(1) unfolding db_ok_def by blast+
  have "gapless d'"
    unfolding gapless_def
  proof
    fix c
    note g = ok(3) [unfolded gapless_def, rule_format, of c]
    show "case dget (ed_conversations d') c of
        None \<Rightarrow> filter (\<lambda>r. ev_conversation_id r = c) (ed_events d') = []
      | Some n \<Rightarrow> 1 \<le> n \<and> map ev_conversation_seq (filter (\<lambda>r. ev_conversation_id r = c) (ed_events d')) = [1..n - 1]"
    proof (cases "c = ev_conversation_id r")
      case True
      then show ?thesis using g assms(4) d' by (simp add: upto_rec2)
    next
      case False
      then show ?thesis using g d' by (auto split: option.splits)
    qed
  qed
  moreover have "is_cognitive r \<longrightarrow> record_name r \<noteq> None \<and> record_data r \<noteq> None"
    using hs by (auto simp: project_cognitive_event_def split: option.splits)
  moreover have "newest (ed_events d @ [r]) n (dget hs n)" for n by (rule newest_insert [OF new hs])
  ultimately show "db_ok d'"
    using ok(1,2) cog fresh assms(3) d' unfolding db_ok_def by auto
qed

lemma rebuild_newest:
  assumes "\<forall>r\<in>set (ed_events d). is_cognitive r \<longrightarrow> record_name r \<noteq> None \<and> record_data r \<noteq> None"
  shows "newest (ed_events d) n (dget (ed_heads (rebuild_heads d)) n)"
proof -
  let ?cog = "rev (sort_key ev_global_seq (filter is_cognitive (ed_events d)))"
  let ?names = "sort (remdups (concat (map (\<lambda>r. case record_name r of None \<Rightarrow> [] | Some n \<Rightarrow> [n]) ?cog)))"
  let ?head = "\<lambda>n. case find (\<lambda>r. record_name r = Some n) ?cog of
      Some r \<Rightarrow> (case record_data r of None \<Rightarrow> [] | Some data \<Rightarrow> [(n, ev_event_id r, ev_global_seq r, data)])
    | None \<Rightarrow> []"
  have heads: "ed_heads (rebuild_heads d) = concat (map ?head ?names)"
    by (simp add: rebuild_heads_def Let_def del: set_sort)
  have get: "dget (concat (map h ns)) n = (if n \<in> set ns then dget (h n) n else None)"
    if "\<And>m. set (dkeys (h m)) \<subseteq> {m}" for h :: "string \<times> string \<Rightarrow> (string \<times> string, uuid \<times> int \<times> json) dict" and ns
  proof (induction ns)
    case (Cons m ns)
    have "dget (h m) n = None" if "n \<noteq> m" using \<open>\<And>m. set (dkeys (h m)) \<subseteq> {m}\<close> [of m] that
      by (auto simp: map_of_eq_None_iff)
    then show ?case using Cons by (cases "n = m") (auto simp: map_add_def split: option.splits)
  qed simp
  have keys: "set (dkeys (?head m)) \<subseteq> {m}" for m by (auto split: option.splits)
  have mem: "n \<in> set ?names \<longleftrightarrow> (\<exists>r\<in>set (ed_events d). named n r)"
    by (cases n) (force simp: named_def split: option.splits)
  have lookup: "dget (ed_heads (rebuild_heads d)) n = (if n \<in> set ?names then dget (?head n) n else None)"
    unfolding heads by (rule get [OF keys])
  show ?thesis
  proof (cases "find (\<lambda>r. record_name r = Some n) ?cog")
    case None
    then have "\<not> named n r" if "r \<in> set (ed_events d)" for r using that by (auto simp: find_None_iff named_def)
    moreover have "dget (ed_heads (rebuild_heads d)) n = None" unfolding lookup None by simp
    ultimately show ?thesis by (simp add: newest_def)
  next
    case (Some r)
    obtain k where k: "k < length ?cog" "r = ?cog ! k" "record_name r = Some n"
      and before: "\<And>j. j < k \<Longrightarrow> record_name (?cog ! j) \<noteq> Some n"
      using Some unfolding find_Some_iff by blast
    have "r \<in> set ?cog" using k nth_mem by blast
    then have r: "r \<in> set (ed_events d)" "named n r" using k by (auto simp: named_def)
    then obtain x where x: "record_data r = Some x" using assms by (auto simp: named_def)
    have "n \<in> set ?names" unfolding mem using r by blast
    then have "dget (ed_heads (rebuild_heads d)) n = Some (ev_event_id r, ev_global_seq r, x)"
      unfolding lookup Some by (simp add: x)
    moreover have "ev_global_seq r' \<le> ev_global_seq r" if r': "r' \<in> set (ed_events d)" "named n r'" for r'
    proof -
      have "r' \<in> set ?cog" using r' by (simp add: named_def)
      then obtain j where j: "j < length ?cog" "r' = ?cog ! j" by (metis in_set_conv_nth)
      then have "\<not> j < k" using before [of j] r' by (auto simp: named_def)
      then have "k \<le> j" by simp
      moreover have "sorted (rev (map ev_global_seq ?cog))" by (simp add: rev_map)
      ultimately show ?thesis using sorted_rev_nth_mono [of "map ev_global_seq ?cog" k j] j k by simp
    qed
    ultimately show ?thesis using r x by (auto simp: newest_def)
  qed
qed

lemma rebuild_simps [simp]:
  "ed_events (rebuild_heads d) = ed_events d" "ed_conversations (rebuild_heads d) = ed_conversations d"
  by (simp_all add: rebuild_heads_def Let_def)

lemma rebuild_ok: "db_ok d \<Longrightarrow> db_ok (rebuild_heads d)"
  using rebuild_newest [of d] unfolding db_ok_def gapless_def rebuild_simps by blast

section \<open>The invariant\<close>

definition durable_ok :: "'b journal_env \<Rightarrow> 'b event_world \<Rightarrow> bool" where
  "durable_ok env w \<longleftrightarrow> db_ok (ew_db w) \<and> files_ok env (ed_events (ew_db w)) (ew_files w) \<and>
     (\<forall>row\<in>set (ed_events (ew_db w)). \<exists>r. stored env (ew_files w) r \<and> row_matches row r)"

lemma durable_okI:
  assumes "db_ok (ew_db w)" and "files_ok env (ed_events (ew_db w)) f"
    and "\<And>r. stored env (ew_files w) r \<Longrightarrow> stored env f r" and "durable_ok env w"
  shows "durable_ok env (w\<lparr>ew_files := f\<rparr>)"
  using assms unfolding durable_ok_def by fastforce

lemma begin_event_effect:
  assumes "begin_event env q now w = (Inr n, w1)"
  obtains r eff where "next_event_seq q (ew_db w) = Inr n"
    and "decide_event_record env (request_record q n) (rq_journal_id q) now (ew_files w) = Inr (r, eff)"
    and "w1 = w\<lparr>ew_files := apply_effect eff (ew_files w)\<rparr>"
  using assms
  by (auto simp: begin_event_def sbind_def slift_def on_files_def write_event_record_def perform_def split: sum.splits prod.splits)

lemma find_event_None: "find_event i d = None \<longleftrightarrow> (\<forall>row\<in>set (ed_events d). ev_event_id row \<noteq> i)"
  by (auto simp: find_event_def find_None_iff)

text \<open>A row that is committed matches every record of its event that a stream holds.\<close>

lemma files_ok_insert:
  assumes "files_ok env evs f"
    and "\<And>raw r es t. dget (af_streams f) (ev_event_id row) = Some raw \<Longrightarrow> written env raw (EventRecord r # es) t \<Longrightarrow>
      row_matches row r"
  shows "files_ok env (evs @ [row]) f"
proof -
  have "stream_ok env (evs @ [row]) i raw" if s: "dget (af_streams f) i = Some raw" for i raw
  proof -
    obtain r es t where r: "jr_event_id r = i" "verify_event_record env r"
        "\<And>row. row \<in> set evs \<Longrightarrow> ev_event_id row = i \<Longrightarrow> row_matches row r"
        "written env raw (EventRecord r # es) t"
      and alt: "es = [] \<and> (t = [] \<or> (\<exists>row\<in>set evs. ev_event_id row = i \<and>
           (\<exists>k. t = take k (je_line env (EventCommit (row_commit env row (jr_record_hash r))))))) \<or>
        t = [] \<and> (\<exists>row\<in>set evs. ev_event_id row = i \<and>
           es = [EventCommit (row_commit env row (jr_record_hash r))])"
      by (rule stream_written [OF assms(1) s]) (rule that)
    have "\<forall>row'\<in>set (evs @ [row]). ev_event_id row' = i \<longrightarrow> row_matches row' r"
      using r(3) assms(2) [OF _ r(4)] s by auto
    moreover have "set evs \<subseteq> set (evs @ [row])" by auto
    ultimately show ?thesis using r(1,2,4) alt unfolding stream_ok_def by blast
  qed
  moreover have "percept_ok env (evs @ [row]) j raw" if "dget (af_percepts f) j = Some raw" for j raw
  proof -
    have "percept_ok env evs j raw" using assms(1) that by (simp add: files_ok_def)
    then show ?thesis unfolding percept_ok_def by auto
  qed
  ultimately show ?thesis using assms(1) by (simp add: files_ok_def)
qed

lemma decided_stream_matches:
  assumes "codec env" and "files_ok env evs f" and "decide_event_record env s j now f = Inr (r0, eff)"
    and "dget (af_streams (apply_effect eff f)) (jr_event_id s) = Some raw" and "written env raw (EventRecord r # es) t"
  shows "same_semantic r s"
  using assms(1-3)
proof (cases rule: decide_record_cases)
  case present
  then show ?thesis using assms(4,5) by simp
next
  case create
  have "written env raw [EventRecord r0] []" using create assms(4) by (simp add: written_def)
  then have "map sort_entry (EventRecord r # es) = map sort_entry [EventRecord r0]"
    by (rule written_unique(1) [OF assms(1,5)])
  then have "sort_record r = sort_record r0" by simp
  then show ?thesis using create(4) same_semantic_sorted(1) by metis
next
  case append
  then show ?thesis using assms(4) by simp
qed

lemma publish_ok:
  assumes "codec env" and ok: "durable_ok env w" and "find_event (rq_event_id q) (ew_db w) = None"
    and b: "begin_event env q now w = (Inr n, w1)" and g: "fresh_sequence g (ew_db w)"
    and i: "insert_event (request_row q n g created) (ew_db w1) = Inr d"
  shows "durable_ok env (w1\<lparr>ew_db := d\<rparr>)"
proof -
  obtain r eff where n: "next_event_seq q (ew_db w) = Inr n"
    and e: "decide_event_record env (request_record q n) (rq_journal_id q) now (ew_files w) = Inr (r, eff)"
    and w1: "w1 = w\<lparr>ew_files := apply_effect eff (ew_files w)\<rparr>"
    by (rule begin_event_effect [OF b]) (rule that)
  let ?row = "request_row q n g created"
  have db: "db_ok (ew_db w)" and f: "files_ok env (ed_events (ew_db w)) (ew_files w)"
    and st: "\<forall>row\<in>set (ed_events (ew_db w)). \<exists>r. stored env (ew_files w) r \<and> row_matches row r"
    using ok unfolding durable_ok_def by blast+
  have id: "ev_event_id ?row = rq_event_id q" by (simp add: request_row_def)
  have seq: "dget (ed_conversations (ew_db w)) (ev_conversation_id ?row) = Some (ev_conversation_seq ?row)"
    using n by (simp add: next_event_seq_def request_row_def split: option.splits)
  have fresh: "ev_global_seq ?row \<notin> set (map ev_global_seq (ed_events (ew_db w)))"
    using g by (simp add: fresh_sequence_def request_row_def)
  have ins: "insert_event ?row (ew_db w) = Inr d" using i w1 by simp
  note d = insert_event_ok [OF db ins fresh seq]
  have f1: "files_ok env (ed_events (ew_db w)) (apply_effect eff (ew_files w))"
    by (rule record_preserves [OF assms(1) f e, of None, simplified]) (use assms(3) in \<open>auto simp: find_event_None\<close>)
  have f2: "files_ok env (ed_events d) (apply_effect eff (ew_files w))"
    unfolding d(2)
  proof (rule files_ok_insert [OF f1])
    fix raw r' es t
    assume "dget (af_streams (apply_effect eff (ew_files w))) (ev_event_id ?row) = Some raw"
      and "written env raw (EventRecord r' # es) t"
    then show "row_matches ?row r'"
      using decided_stream_matches [OF assms(1) f e] id by (simp add: row_matches_def)
  qed
  obtain r0 where r0: "stored env (apply_effect eff (ew_files w)) r0" "same_semantic r0 (request_record q n)"
    by (rule decided_record_stored [OF assms(1) f e]) (rule that)
  have keep: "stored env (apply_effect eff (ew_files w)) x" if "stored env (ew_files w) x" for x
    using stored_record_step [OF assms(1) f e that, of None] by simp
  have "\<exists>r. stored env (apply_effect eff (ew_files w)) r \<and> row_matches row r" if "row \<in> set (ed_events d)" for row
    using that st keep r0 unfolding d(2) by (auto simp: row_matches_def)
  then show ?thesis using d(1) f2 w1 by (simp add: durable_ok_def)
qed

lemma durable_step_ok:
  assumes "codec env" and "durable_step env w w'" and ok: "durable_ok env w"
  shows "durable_ok env w'"
proof -
  have db: "db_ok (ew_db w)" and f: "files_ok env (ed_events (ew_db w)) (ew_files w)" using ok unfolding durable_ok_def by blast+
  from assms(2) show ?thesis
  proof cases
    case (conversation c)
    then show ?thesis using ok gapless_start [of "ew_db w" c] by (auto simp: durable_ok_def db_ok_def)
  next
    case (journal q n now r eff k)
    have "files_ok env (ed_events (ew_db w)) (apply_effect (cut k eff) (ew_files w))"
      by (rule record_preserves [OF assms(1) f journal(4)]) (use journal(2) in \<open>auto simp: find_event_None\<close>)
    then show ?thesis
      unfolding journal(1) using durable_okI [OF db _ stored_record_step [OF assms(1) f journal(4)] ok] by blast
  next
    case (publish q now n w1 g created d)
    show ?thesis unfolding publish(1) by (rule publish_ok [OF assms(1) ok publish(2-5)])
  next
    case (repair row now r eff k)
    have "inj_on ev_event_id (set (ed_events (ew_db w)))" using db by (simp add: db_ok_def distinct_map)
    then have "files_ok env (ed_events (ew_db w)) (apply_effect (cut k eff) (ew_files w))"
      using record_preserves [OF assms(1) f repair(3)] repair(2) same_semantic_equiv(1) by (metis inj_onD row_record_simps(1))
    then show ?thesis
      unfolding repair(1) using durable_okI [OF db _ stored_record_step [OF assms(1) f repair(3)] ok] by blast
  next
    case (receipt row c eff k)
    show ?thesis
      unfolding receipt(1)
      by (rule durable_okI [OF db commit_preserves [OF assms(1) f receipt(3,2)] stored_commit_step [OF assms(1) f receipt(3)] ok])
  next
    case (artifact aq now a eff k)
    show ?thesis
      unfolding artifact(1)
      by (rule durable_okI [OF db artifact_preserves [OF assms(1) f artifact(2)] stored_artifact_step [OF assms(1) f artifact(2)] ok])
  next
    case rebuild
    then show ?thesis using ok rebuild_ok by (simp add: durable_ok_def)
  qed
qed

lemma durable_reachable_ok:
  assumes "codec env" and "durable_reachable env w"
  shows "durable_ok env w"
  using assms(2) unfolding durable_reachable_def
proof (induction rule: rtranclp_induct)
  case base
  show ?case
    by (simp add: durable_ok_def db_ok_def gapless_def newest_def files_ok_def empty_world_def empty_event_db_def empty_files_def)
qed (rule durable_step_ok [OF assms(1)])

end
