(* ===== verification/EventGuarantees.thy ===== *)
theory EventGuarantees
  imports EventSafety
begin

text \<open>
  The guarantees of the event log and of the artifact journal: recording an event is a run of durable
  steps, a committed event has its record on disk, current records are the newest ones, a chain cannot be
  rewritten under the same head hash; and the events that a crash makes unrecordable.
\<close>

section \<open>Operations are runs of durable steps\<close>

lemma repair_run:
  assumes "row \<in> set (ed_events (ew_db w))"
    and "on_files (write_event_record env (row_record row) None now) w = (res, w')"
  shows "(durable_step env)\<^sup>*\<^sup>* w w'" and "ew_db w' = ew_db w"
proof -
  have "w' = w \<or> (\<exists>r eff. decide_event_record env (row_record row) None now (ew_files w) = Inr (r, eff) \<and>
      w' = w\<lparr>ew_files := apply_effect eff (ew_files w)\<rparr>)"
    using assms(2) by (auto simp: on_files_def write_event_record_def perform_def split: sum.splits)
  then show "(durable_step env)\<^sup>*\<^sup>* w w'" and "ew_db w' = ew_db w"
    using durable_step.repair [OF assms(1), of env now _ _ None] by auto
qed

lemma receipt_run:
  assumes "row \<in> set (ed_events (ew_db w))" and "write_row_commit env row w = (res, w')"
  shows "(durable_step env)\<^sup>*\<^sup>* w w'" and "ew_db w' = ew_db w"
proof -
  have "w' = w \<or> (\<exists>c eff. decide_row_commit env row (ew_files w) = Inr (c, eff) \<and>
      w' = w\<lparr>ew_files := apply_effect eff (ew_files w)\<rparr>)"
    using assms(2)
    by (auto simp: write_row_commit_def sbind_def slift_def on_files_def write_event_commit_def perform_def
        decide_row_commit_def split: sum.splits prod.splits)
  then show "(durable_step env)\<^sup>*\<^sup>* w w'" and "ew_db w' = ew_db w"
    using durable_step.receipt [OF assms(1), of env _ _ None] by auto
qed

lemma insert_event_events: "insert_event r d = Inr d' \<Longrightarrow> ed_events d' = ed_events d @ [r]"
  by (auto simp: insert_event_def split: if_splits)

lemma record_event_run:
  assumes "record_event env q now g created w = (res, w')" and "fresh_sequence g (ew_db w)"
  shows "(durable_step env)\<^sup>*\<^sup>* w w'"
proof (cases "find_event (rq_event_id q) (ew_db w)")
  case (Some row)
  then have row: "row \<in> set (ed_events (ew_db w))" by (auto simp: find_event_def find_Some_iff)
  show ?thesis
  proof (cases "check_event_retry q row")
    case (Inl e)
    then show ?thesis using assms(1) Some by (simp add: record_event_def sbind_def slift_def)
  next
    case (Inr u)
    obtain m1 w1 where m1: "on_files (write_event_record env (row_record row) None now) w = (m1, w1)" by fastforce
    note run1 = repair_run [OF row m1]
    obtain m2 w2 where m2: "write_row_commit env row w1 = (m2, w2)" by fastforce
    have "(durable_step env)\<^sup>*\<^sup>* w1 w2" by (rule receipt_run(1) [OF _ m2]) (simp add: run1(2) row)
    moreover have "w' = w1 \<or> w' = w2"
      using assms(1) Some Inr m1 m2
      by (auto simp: record_event_def sbind_def slift_def journal_committed_event_def split: sum.splits prod.splits)
    ultimately show ?thesis using run1(1) by (elim disjE) (auto intro: rtranclp_trans)
  qed
next
  case None
  obtain m1 w1 where m1: "begin_event env q now w = (m1, w1)" by fastforce
  show ?thesis
  proof (cases m1)
    case (Inl e)
    have "w1 = w"
      using m1 Inl
      by (auto simp: begin_event_def sbind_def slift_def on_files_def write_event_record_def perform_def
          split: sum.splits prod.splits)
    then show ?thesis using assms(1) None m1 Inl by (simp add: record_event_def sbind_def)
  next
    case (Inr n)
    have b: "begin_event env q now w = (Inr n, w1)" using m1 Inr by simp
    let ?row = "request_row q n g created"
    show ?thesis
    proof (cases "insert_event ?row (ew_db w1)")
      case (Inl e)
      obtain r eff where e: "next_event_seq q (ew_db w) = Inr n"
          "decide_event_record env (request_record q n) (rq_journal_id q) now (ew_files w) = Inr (r, eff)"
          "w1 = w\<lparr>ew_files := apply_effect eff (ew_files w)\<rparr>"
        by (rule begin_event_effect [OF b]) (rule that)
      have "durable_step env w w1" using durable_step.journal [OF None e(1,2), of None] e(3) by simp
      moreover have "w' = w1" using assms(1) None b Inl by (simp add: record_event_def sbind_def on_db_def Let_def)
      ultimately show ?thesis by auto
    next
      case (Inr d)
      obtain m2 w2 where m2: "write_row_commit env ?row (w1\<lparr>ew_db := d\<rparr>) = (m2, w2)" by fastforce
      have "durable_step env w (w1\<lparr>ew_db := d\<rparr>)" by (rule durable_step.publish [OF None b assms(2) Inr])
      moreover have "(durable_step env)\<^sup>*\<^sup>* (w1\<lparr>ew_db := d\<rparr>) w2"
        by (rule receipt_run(1) [OF _ m2]) (simp add: insert_event_events [OF Inr])
      moreover have "w' = w2"
        using assms(1) None b Inr m2
        by (auto simp: record_event_def sbind_def slift_def on_db_def Let_def split: sum.splits prod.splits)
      ultimately show ?thesis by auto
    qed
  qed
qed

lemma put_record_run:
  assumes "put_record env kind key data revision c x now g created w = (res, w')" and "fresh_sequence g (ew_db w)"
  shows "(durable_step env)\<^sup>*\<^sup>* w w'"
proof -
  let ?w = "w\<lparr>ew_db := start_conversation c (ew_db w)\<rparr>"
  obtain m w1 where m: "record_event env (record_request env kind key data revision c x) now g created ?w = (m, w1)"
    by fastforce
  have "(durable_step env)\<^sup>*\<^sup>* ?w w1" by (rule record_event_run [OF m]) (use assms(2) in \<open>simp add: fresh_sequence_def\<close>)
  moreover have "w' = w1"
    using assms(1) m by (auto simp: put_record_def sbind_def slift_def on_db_def split: sum.splits)
  ultimately show ?thesis using durable_step.conversation [of env w c] by auto
qed

lemma write_artifact_run:
  assumes "on_files (write_interaction_artifact env q now) w = (res, w')"
  shows "(durable_step env)\<^sup>*\<^sup>* w w'"
proof -
  have "w' = w \<or> (\<exists>a eff. decide_interaction_artifact env q now (ew_files w) = Inr (a, eff) \<and>
      w' = w\<lparr>ew_files := apply_effect eff (ew_files w)\<rparr>)"
    using assms by (auto simp: on_files_def write_interaction_artifact_def perform_def split: sum.splits)
  then show ?thesis using durable_step.artifact [of env q now w _ _ None] by auto
qed

section \<open>What the readers find\<close>

text \<open>The complete lines of a file hold the record. The writers, which tolerate an incomplete last line, find
  it; the readers find it too, or they raise because of the incomplete last line and of nothing else.\<close>

definition record_on_file :: "'b journal_env \<Rightarrow> 'b artifact_files \<Rightarrow> event_record \<Rightarrow> bool" where
  "record_on_file env f r \<longleftrightarrow>
     (\<exists>raw c t. dget (af_streams f) (jr_event_id r) = Some raw \<and> parse_stream env True raw = Inr (r, c, t) \<and>
        read_stream env (jr_event_id r, raw) =
          (if t = [] then Inr (r, c) else Inl (RuntimeError ''incomplete or extra event stream entry''))) \<or>
     (\<exists>j raw entries t. dget (af_percepts f) j = Some raw \<and> parse_unlocked env True raw = Inr (entries, t) \<and>
        EventRecord r \<in> set entries \<and>
        entries_unlocked env raw = (if t = [] then Inr entries else Inl (RuntimeError ''incomplete percept journal'')))"

lemma strict_parse:
  "parse_stream env True raw = Inr (r, c, t) \<Longrightarrow> parse_stream env False raw =
     (if t = [] then Inr (r, c, t) else Inl (RuntimeError ''incomplete or extra event stream entry''))"
  unfolding parse_stream_def
proof (cases "split_file (je_newline env) raw", goal_cases)
  case (1 ls tl)
  then show ?case by (cases ls) (auto simp: raise_if_def split: if_splits)
qed

lemma strict_stream:
  "parse_stream env True raw = Inr (r, c, t) \<Longrightarrow> read_stream env (jr_event_id r, raw) =
     (if t = [] then Inr (r, c) else Inl (RuntimeError ''incomplete or extra event stream entry''))"
  by (simp add: read_stream_def strict_parse)

lemma strict_percept:
  "parse_unlocked env True raw = Inr (entries, t) \<Longrightarrow>
     entries_unlocked env raw = (if t = [] then Inr entries else Inl (RuntimeError ''incomplete percept journal''))"
  by (auto simp: entries_unlocked_def parse_unlocked_def Let_def raise_if_def split: prod.splits)

lemma stored_on_file:
  assumes "codec env" and "files_ok env evs f" and "stored env f r"
  shows "record_on_file env f (sort_record r)"
  using assms(3)
  unfolding stored_def
proof (elim conjE disjE exE, goal_cases)
  case (1 raw es t)
  obtain r' c t' where p: "parse_stream env True raw = Inr (sort_record r', c, t')"
    by (rule parse_stream_ok [OF assms(1,2) 1(2)]) (rule that)
  have "sort_record r' = sort_record r" using parse_stream_first [OF assms(1) 1(3) p] by simp
  then show ?case using 1(2) p strict_stream [of env raw "sort_record r" c t'] unfolding record_on_file_def by auto
next
  case (2 j raw es t)
  have "EventRecord (sort_record r) \<in> set (map sort_entry es)" using 2(4) by force
  moreover have "parse_unlocked env True raw = Inr (map sort_entry es, t)" using written_parse [OF assms(1) 2(3)] by simp
  ultimately show ?case using 2(2) strict_percept unfolding record_on_file_def by blast
qed

lemma decided_commit_on_file:
  assumes "codec env" and "files_ok env evs f" and d: "decide_row_commit env row f = Inr (c, eff)" and "row \<in> set evs"
    and "distinct (map ev_event_id evs)"
  shows "\<exists>h. c = row_commit env row h" and "receipt_on_file env (apply_effect eff f) (ev_event_id row) c"
proof -
  have ok: "files_ok env evs (apply_effect eff f)" using commit_preserves [OF assms(1,2) d assms(4), of None] by simp
  show "\<exists>h. c = row_commit env row h" using assms(1,2) d by (cases rule: decide_commit_cases) auto
  show "receipt_on_file env (apply_effect eff f) (ev_event_id row) c"
    using assms(1,2) d
  proof (cases rule: decide_commit_cases)
    case kept
    then show ?thesis by simp
  next
    case (stream raw r t bytes)
    let ?e = "EventCommit (row_commit env row (jr_record_hash r))"
    have w: "written env (raw @ bytes) ([EventRecord r] @ [?e]) []" by (rule written_completes [OF stream(3,4)])
    have get: "dget (af_streams (apply_effect eff f)) (ev_event_id row) = Some (raw @ bytes)"
      using stream(1,2) by (simp add: content_def)
    obtain r' c' t' where p: "parse_stream env True (raw @ bytes) = Inr (sort_record r', c', t')"
      and alt: "c' = None \<and> written env (raw @ bytes) [EventRecord r'] t' \<or>
        (\<exists>row'\<in>set evs. ev_event_id row' = ev_event_id row \<and> c' = Some (row_commit env row' (jr_record_hash r')))"
      by (rule parse_stream_ok [OF assms(1) ok get]) (rule that)
    have "\<not> written env (raw @ bytes) [EventRecord r'] t'" using written_unique(1) [OF assms(1) w] by fastforce
    then obtain row' where row': "row' \<in> set evs" "ev_event_id row' = ev_event_id row"
      "c' = Some (row_commit env row' (jr_record_hash r'))" using alt by blast
    then have "row' = row" using assms(4,5) by (metis distinct_map inj_onD)
    moreover have "sort_record r' = sort_record r"
      using parse_stream_first [OF assms(1) _ p, of r "[?e]"] w by simp
    then have "jr_record_hash r' = jr_record_hash r" by (metis sort_record_simps(4))
    ultimately have "parse_stream env True (raw @ bytes) = Inr (sort_record r', Some c, t')"
      using p row'(3) stream(5) by simp
    from parse_stream_tail [OF this] have "parse_stream env False (raw @ bytes) = Inr (sort_record r', Some c, [])" by blast
    then show ?thesis using get unfolding receipt_on_file_def by blast
  next
    case (percept j es t h bytes)
    have "written env (content (af_percepts f) j @ bytes) (es @ [EventCommit c]) []"
      using written_completes [OF percept(2,3)] percept(4) by simp
    then have "entries_unlocked env (content (af_percepts f) j @ bytes) = Inr (map sort_entry es @ [EventCommit c])"
      using written_entries [OF assms(1)] by fastforce
    moreover have "dget (af_percepts (apply_effect eff f)) j = Some (content (af_percepts f) j @ bytes)"
      using percept(1) by simp
    ultimately show ?thesis unfolding receipt_on_file_def by (metis in_set_conv_decomp)
  qed
qed

lemma write_row_commit_success:
  assumes "write_row_commit env row w = (Inr u, w')"
  obtains c eff where "decide_row_commit env row (ew_files w) = Inr (c, eff)"
    and "w' = w\<lparr>ew_files := apply_effect eff (ew_files w)\<rparr>"
  using assms
  by (auto simp: write_row_commit_def sbind_def slift_def on_files_def write_event_commit_def perform_def
      decide_row_commit_def split: sum.splits prod.splits)

lemma committed_receipt:
  assumes "codec env" and "durable_ok env w" and "row \<in> set (ed_events (ew_db w))"
    and "write_row_commit env row w = (Inr u, w')"
  shows "\<exists>h. receipt_on_file env (ew_files w') (ev_event_id row) (row_commit env row h)"
proof -
  obtain c eff where c: "decide_row_commit env row (ew_files w) = Inr (c, eff)"
    "w' = w\<lparr>ew_files := apply_effect eff (ew_files w)\<rparr>"
    by (rule write_row_commit_success [OF assms(4)]) (rule that)
  have ok: "files_ok env (ed_events (ew_db w)) (ew_files w)" "distinct (map ev_event_id (ed_events (ew_db w)))"
    using assms(2) by (simp_all add: durable_ok_def db_ok_def)
  show ?thesis using decided_commit_on_file [OF assms(1) ok(1) c(1) assms(3) ok(2)] c(2) by auto
qed

lemma record_event_success:
  assumes "record_event env q now g created w = (Inr row, w')" and "fresh_sequence g (ew_db w)"
  obtains w1 where "(durable_step env)\<^sup>*\<^sup>* w w1" and "row \<in> set (ed_events (ew_db w1))"
    and "write_row_commit env row w1 = (Inr (), w')" and "ev_event_id row = rq_event_id q"
proof (cases "find_event (rq_event_id q) (ew_db w)")
  case (Some x)
  then have x: "x \<in> set (ed_events (ew_db w))" "ev_event_id x = rq_event_id q"
    by (auto simp: find_event_def find_Some_iff)
  obtain m1 w1 where m1: "on_files (write_event_record env (row_record x) None now) w = (m1, w1)" by fastforce
  have r: "row = x" "write_row_commit env x w1 = (Inr (), w')"
    using assms(1) Some m1
    by (auto simp: record_event_def sbind_def slift_def journal_committed_event_def split: sum.splits prod.splits)
  show ?thesis
    by (rule that [OF repair_run(1) [OF x(1) m1]]) (use r x repair_run(2) [OF x(1) m1] in simp_all)
next
  case None
  obtain m1 w1 where m1: "begin_event env q now w = (m1, w1)" by fastforce
  obtain n where n: "m1 = Inr n" using assms(1) None m1 by (cases m1) (simp_all add: record_event_def sbind_def)
  let ?row = "request_row q n g created"
  obtain d where d: "insert_event ?row (ew_db w1) = Inr d"
    using assms(1) None m1 n
    by (cases "insert_event ?row (ew_db w1)") (simp_all add: record_event_def sbind_def on_db_def Let_def)
  have r: "row = ?row" "write_row_commit env ?row (w1\<lparr>ew_db := d\<rparr>) = (Inr (), w')"
    using assms(1) None m1 n d
    by (auto simp: record_event_def sbind_def slift_def on_db_def Let_def split: sum.splits prod.splits)
  have "durable_step env w (w1\<lparr>ew_db := d\<rparr>)" by (rule durable_step.publish [OF None _ assms(2) d]) (use m1 n in simp)
  then show ?thesis
    using that [of "w1\<lparr>ew_db := d\<rparr>"] r insert_event_events [OF d] by (auto simp: request_row_def)
qed

section \<open>Recorded events\<close>

lemma reachable_run: "durable_reachable env w \<Longrightarrow> (durable_step env)\<^sup>*\<^sup>* w w' \<Longrightarrow> durable_reachable env w'"
  unfolding durable_reachable_def by (rule rtranclp_trans)

lemma row_on_file:
  assumes "codec env" and "durable_ok env w" and "row \<in> set (ed_events (ew_db w))"
  shows "\<exists>r. record_on_file env (ew_files w) r \<and> verify_event_record env r \<and> same_semantic r (row_record row)"
proof -
  obtain r where r: "stored env (ew_files w) r" "row_matches row r" using assms(2,3) unfolding durable_ok_def by blast
  have "record_on_file env (ew_files w) (sort_record r)"
    using stored_on_file [OF assms(1) _ r(1)] assms(2) unfolding durable_ok_def by blast
  then show ?thesis
    using r verify_sorted [OF assms(1), of r] by (auto simp: stored_def row_matches_def intro!: exI [of _ "sort_record r"])
qed

text \<open>C14. Write-ahead. Whatever processes recorded, retried, wrote receipts and artifacts, and wherever
  crashes cut them short: every event committed to the database has a record among the complete lines of
  its file, with the right hash and the fields of the row; the reader of that file returns it, or raises
  for the one reason that a crash left an incomplete last line; and the events of a conversation are
  numbered from 1 without a gap. (The offline restore of the database from the files is not among the
  modelled operations.)\<close>

theorem committed_event_on_file:
  assumes "codec env" and "durable_reachable env w" and "row \<in> set (ed_events (ew_db w))"
  shows "(\<exists>r. record_on_file env (ew_files w) r \<and> verify_event_record env r \<and> same_semantic r (row_record row)) \<and>
    (\<exists>n. dget (ed_conversations (ew_db w)) (ev_conversation_id row) = Some n \<and>
      map ev_conversation_seq (filter (\<lambda>r. ev_conversation_id r = ev_conversation_id row) (ed_events (ew_db w))) =
        [1..n - 1])"
proof -
  have ok: "durable_ok env w" by (rule durable_reachable_ok [OF assms(1,2)])
  then have "gapless (ew_db w)" by (simp add: durable_ok_def db_ok_def)
  then have g: "case dget (ed_conversations (ew_db w)) (ev_conversation_id row) of
      None \<Rightarrow> filter (\<lambda>r. ev_conversation_id r = ev_conversation_id row) (ed_events (ew_db w)) = []
    | Some n \<Rightarrow> 1 \<le> n \<and>
        map ev_conversation_seq (filter (\<lambda>r. ev_conversation_id r = ev_conversation_id row) (ed_events (ew_db w))) = [1..n - 1]"
    unfolding gapless_def by blast
  have "filter (\<lambda>r. ev_conversation_id r = ev_conversation_id row) (ed_events (ew_db w)) \<noteq> []"
    using assms(3) by (auto simp: filter_empty_conv)
  then show ?thesis using row_on_file [OF assms(1) ok assms(3)] g by (auto split: option.splits simp del: filter_empty_conv)
qed

text \<open>C15. An event that \<^verbatim>\<open>record_event\<close> returns, new or retried, is durable: the call is a run of durable steps,
  its row is in the database, and its record and its receipt are on file, the receipt in a file that the
  strict reader accepts.\<close>

theorem recorded_event_durable:
  assumes "codec env" and "durable_reachable env w" and "fresh_sequence g (ew_db w)"
    and "record_event env q now g created w = (Inr row, w')"
  shows "durable_reachable env w' \<and> row \<in> set (ed_events (ew_db w')) \<and> ev_event_id row = rq_event_id q \<and>
    (\<exists>r. record_on_file env (ew_files w') r \<and> verify_event_record env r \<and> same_semantic r (row_record row)) \<and>
    (\<exists>h. receipt_on_file env (ew_files w') (ev_event_id row) (row_commit env row h))"
proof -
  obtain w1 where run: "(durable_step env)\<^sup>*\<^sup>* w w1" and row: "row \<in> set (ed_events (ew_db w1))"
    and c: "write_row_commit env row w1 = (Inr (), w')" and id: "ev_event_id row = rq_event_id q"
    by (rule record_event_success [OF assms(4,3)]) (rule that)
  have ok1: "durable_ok env w1" by (rule durable_reachable_ok [OF assms(1) reachable_run [OF assms(2) run]])
  have reach: "durable_reachable env w'" by (rule reachable_run [OF assms(2) record_event_run [OF assms(4,3)]])
  have row': "row \<in> set (ed_events (ew_db w'))" using row receipt_run(2) [OF row c] by simp
  have "\<exists>r. record_on_file env (ew_files w') r \<and> verify_event_record env r \<and> same_semantic r (row_record row)"
    by (rule row_on_file [OF assms(1) durable_reachable_ok [OF assms(1) reach] row'])
  then show ?thesis using reach row' id committed_receipt [OF assms(1) ok1 row c] by blast
qed

section \<open>Current records\<close>

lemma last_sorted_max:
  assumes "y \<in> set ys" and "distinct (map k ys)" and "\<And>x. x \<in> set ys \<Longrightarrow> k x \<le> k y"
  shows "last (sort_key k ys) = y"
proof -
  have ne: "sort_key k ys \<noteq> []" using assms(1) by (metis empty_iff set_empty set_sort)
  have "k y \<le> k (last (sort_key k ys))"
  proof -
    obtain i where i: "i < length (sort_key k ys)" "sort_key k ys ! i = y" using assms(1) by (metis in_set_conv_nth set_sort)
    have "sorted (map k (sort_key k ys))" by simp
    then have "map k (sort_key k ys) ! i \<le> map k (sort_key k ys) ! (length (sort_key k ys) - 1)"
      using i by (intro sorted_nth_mono) auto
    then show ?thesis using i ne by (simp add: last_conv_nth)
  qed
  moreover have mem: "last (sort_key k ys) \<in> set ys" using last_in_set [OF ne] by simp
  ultimately have "k (last (sort_key k ys)) = k y" using assms(3) by (simp add: order.antisym)
  then show ?thesis using mem assms(1,2) by (auto simp: distinct_map dest: inj_onD)
qed

lemma newest_head:
  assumes "db_ok d"
  shows "get_record kind key d = (case record_revisions kind key d of
      [] \<Rightarrow> Inr None | h # hs \<Rightarrow> rbind (revision_data (last (h # hs))) (\<lambda>x. Inr (Some x)))"
proof -
  let ?ys = "filter (\<lambda>r. is_cognitive r \<and> record_name r = Some (kind, key)) (ed_events d)"
  have new: "newest (ed_events d) (kind, key) (dget (ed_heads d) (kind, key))"
    and dist: "distinct (map ev_global_seq (ed_events d))" using assms unfolding db_ok_def by blast+
  show ?thesis
  proof (cases "dget (ed_heads d) (kind, key)")
    case None
    then have "?ys = []" using new by (auto simp: newest_def named_def filter_empty_conv)
    then show ?thesis using None by (simp add: get_record_def record_revisions_def)
  next
    case (Some h)
    obtain i g x where h: "h = (i, g, x)" by (cases h)
    obtain r where r: "r \<in> set ?ys" "record_data r = Some x" "\<And>r'. r' \<in> set ?ys \<Longrightarrow> ev_global_seq r' \<le> ev_global_seq r"
      using new Some h by (auto simp: newest_def named_def)
    have "distinct (map ev_global_seq ?ys)" using dist by (simp add: distinct_map_filter)
    then have l: "last (sort_key ev_global_seq ?ys) = r" by (rule last_sorted_max [where k = ev_global_seq, OF r(1)]) (rule r(3))
    have "sort_key ev_global_seq ?ys \<noteq> []" using r(1) by (metis empty_iff set_empty set_sort)
    then have "record_revisions kind key d \<noteq> [] \<and> last (record_revisions kind key d) = r"
      unfolding record_revisions_def using l by simp
    then show ?thesis using Some h r(2) by (auto simp: get_record_def revision_data_def split: list.splits)
  qed
qed

lemma rmap_last: "rmap f xs = Inr ys \<Longrightarrow> xs \<noteq> [] \<Longrightarrow> ys \<noteq> [] \<and> f (last xs) = Inr (last ys)"
  by (cases xs rule: rev_cases) (auto simp: rmap_eq_Inr list_all2_append1 list_all2_Cons1)

text \<open>C18. The head that the trigger of the database keeps for a name is the newest of the record's
  revisions, however events with their sequence numbers became visible out of order: \<^verbatim>\<open>get_record\<close> returns
  what \<^verbatim>\<open>dict()\<close> makes of the newest data, which is the last entry of the history whenever the history can
  be read; and rebuilding the heads from the events changes no answer.\<close>

theorem current_record_newest:
  assumes "codec env" and "durable_reachable env w"
  shows "get_record kind key (ew_db w) = (case record_revisions kind key (ew_db w) of
      [] \<Rightarrow> Inr None | h # hs \<Rightarrow> rbind (revision_data (last (h # hs))) (\<lambda>x. Inr (Some x))) \<and>
    (\<forall>hs. record_history kind key (ew_db w) = Inr hs \<longrightarrow>
       get_record kind key (ew_db w) = Inr (if hs = [] then None else Some (last hs))) \<and>
    get_record kind key (rebuild_heads (ew_db w)) = get_record kind key (ew_db w)"
proof -
  have db: "db_ok (ew_db w)" using durable_reachable_ok [OF assms] by (simp add: durable_ok_def)
  have rebuilt: "record_revisions kind key (rebuild_heads (ew_db w)) = record_revisions kind key (ew_db w)"
    by (simp add: record_revisions_def)
  have head: "get_record kind key (ew_db w) = (case record_revisions kind key (ew_db w) of
      [] \<Rightarrow> Inr None | h # hs \<Rightarrow> rbind (revision_data (last (h # hs))) (\<lambda>x. Inr (Some x)))" by (rule newest_head [OF db])
  have "get_record kind key (ew_db w) = Inr (if hs = [] then None else Some (last hs))"
    if "record_history kind key (ew_db w) = Inr hs" for hs
  proof (cases "record_revisions kind key (ew_db w)")
    case Nil
    then show ?thesis using that head by (simp add: record_history_def)
  next
    case (Cons r rs)
    then have "hs \<noteq> [] \<and> revision_data (last (record_revisions kind key (ew_db w))) = Inr (last hs)"
      by (intro rmap_last) (use that Cons in \<open>simp_all only: record_history_def list.distinct simp_thms\<close>)
    then show ?thesis using head Cons by simp
  qed
  then show ?thesis using head newest_head [OF rebuild_ok [OF db]] rebuilt by simp
qed

section \<open>Chains of artifacts\<close>

lemma head_determines_link:
  assumes "artifact_digest env a = artifact_digest env b \<Longrightarrow>
      sort_artifact (a\<lparr>ia_artifact_hash := ''''\<rparr>) = sort_artifact (b\<lparr>ia_artifact_hash := ''''\<rparr>)"
    and "link_errors env n p a = []" and "link_errors env m q b = []" and "ia_artifact_hash a = ia_artifact_hash b"
  shows "sort_artifact a = sort_artifact b"
proof -
  have "artifact_digest env a = artifact_digest env b"
    using assms(2-4) by (auto simp: link_errors_def Let_def split: if_splits)
  then have s: "sort_artifact (a\<lparr>ia_artifact_hash := ''''\<rparr>) = sort_artifact (b\<lparr>ia_artifact_hash := ''''\<rparr>)" by (rule assms(1))
  have rehash: "sort_artifact x = (sort_artifact (x\<lparr>ia_artifact_hash := ''''\<rparr>))\<lparr>ia_artifact_hash := ia_artifact_hash x\<rparr>" for x
    by (simp add: sort_artifact_def)
  show ?thesis using rehash [of a] rehash [of b] s assms(4) by metis
qed

text \<open>The hash of the last artifact of a valid chain determines the whole chain, up to the order of keys, when
  the hash function has no collision on it.\<close>

definition collision_free :: "'b journal_env \<Rightarrow> interaction_artifact list \<Rightarrow> interaction_artifact list \<Rightarrow> bool" where
  "collision_free env as bs \<longleftrightarrow> (\<forall>a\<in>set as. \<forall>b\<in>set bs. artifact_digest env a = artifact_digest env b \<longrightarrow>
     sort_artifact (a\<lparr>ia_artifact_hash := ''''\<rparr>) = sort_artifact (b\<lparr>ia_artifact_hash := ''''\<rparr>))"

lemma head_determines_chain:
  "collision_free env as bs \<Longrightarrow> chain_errors env 1 None as = [] \<Longrightarrow> chain_errors env 1 None bs = [] \<Longrightarrow> as \<noteq> [] \<Longrightarrow>
    bs \<noteq> [] \<Longrightarrow> ia_artifact_hash (last as) = ia_artifact_hash (last bs) \<Longrightarrow> map sort_artifact as = map sort_artifact bs"
proof (induction as arbitrary: bs rule: rev_induct)
  case (snoc a as)
  obtain b bs' where bs: "bs = bs' @ [b]" using snoc.prems(5) by (cases bs rule: rev_cases) auto
  have la: "link_errors env (int (length as) + 1) (if as = [] then None else Some (last as)) a = []"
    and ca: "chain_errors env 1 None as = []" using snoc.prems(2) unfolding chain_split by blast+
  have lb: "link_errors env (int (length bs') + 1) (if bs' = [] then None else Some (last bs')) b = []"
    and cb: "chain_errors env 1 None bs' = []" using snoc.prems(3) unfolding bs chain_split by blast+
  have free: "collision_free env as bs'" using snoc.prems(1) unfolding bs collision_free_def by simp
  have h: "ia_artifact_hash a = ia_artifact_hash b" using snoc.prems(6) unfolding bs by simp
  have ab: "sort_artifact a = sort_artifact b"
    by (rule head_determines_link [OF _ la lb h]) (use snoc.prems(1) in \<open>auto simp: bs collision_free_def\<close>)
  have "ia_journal_sequence a = int (length as) + 1" "ia_journal_sequence b = int (length bs') + 1"
    using la lb by (auto simp: link_errors_def Let_def split: if_splits)
  moreover have "ia_journal_sequence a = ia_journal_sequence b"
    using arg_cong [OF ab, of ia_journal_sequence] by (simp add: sort_artifact_def)
  ultimately have len: "length as = length bs'" by simp
  have "map sort_artifact as = map sort_artifact bs'"
  proof (cases "as = []")
    case False
    then have ne: "bs' \<noteq> []" using len by auto
    have "ia_previous_artifact_hash a = Some (ia_artifact_hash (last as))"
      "ia_previous_artifact_hash b = Some (ia_artifact_hash (last bs'))"
      using la lb False ne by (auto simp: link_errors_def Let_def split: if_splits)
    moreover have "ia_previous_artifact_hash a = ia_previous_artifact_hash b"
      using arg_cong [OF ab, of ia_previous_artifact_hash] by (simp add: sort_artifact_def)
    ultimately have "ia_artifact_hash (last as) = ia_artifact_hash (last bs')" by simp
    then show ?thesis by (rule snoc.IH [OF free ca cb False ne])
  qed (use len in simp)
  then show ?case using bs ab by simp
qed simp

lemma reachable_chain:
  assumes "codec env" and "files_ok env evs f" and "interaction_artifacts env i f = Inr as"
  shows "chain_errors env 1 None as = []"
proof -
  obtain es t where w: "written env (content (af_percepts f) i) es t"
    and chain: "chain_errors env 1 None (artifacts_in i (map sort_entry es)) = []"
    by (rule percept_written [OF assms(2)])
  show ?thesis
    using assms(3) chain written_entries [OF assms(1) w]
    by (auto simp: interaction_artifacts_def split: if_splits)
qed

lemma unreadable_chain:
  assumes "codec env" and "files_ok env evs f" and "interaction_artifacts env i f = Inl e"
  shows "e = RuntimeError ''incomplete percept journal'' \<and> (\<exists>raw entries t. dget (af_percepts f) i = Some raw \<and>
    parse_unlocked env True raw = Inr (entries, t) \<and> t \<noteq> [] \<and> chain_errors env 1 None (artifacts_in i entries) = [])"
proof -
  obtain es t where w: "written env (content (af_percepts f) i) es t"
    and chain: "chain_errors env 1 None (artifacts_in i (map sort_entry es)) = []"
    by (rule percept_written [OF assms(2)])
  have i: "i \<in> set (dkeys (af_percepts f))" and e: "entries_unlocked env (content (af_percepts f) i) = Inl e"
    using assms(3) by (auto simp: interaction_artifacts_def rbind_def split: if_splits sum.splits)
  obtain raw where raw: "dget (af_percepts f) i = Some raw" using i by (metis not_None_eq map_of_eq_None_iff set_map)
  then have p: "parse_unlocked env True raw = Inr (map sort_entry es, t)"
    using written_parse [OF assms(1) w] by (simp add: content_def)
  have "t \<noteq> [] \<and> e = RuntimeError ''incomplete percept journal''"
    using e strict_percept [OF p] raw by (auto simp: content_def split: if_splits)
  then show ?thesis using raw p chain by blast
qed

text \<open>C17. In every reachable world the chain of artifacts of an interaction verifies whenever its journal can
  be read, and the only reason why it cannot is that a crash left an incomplete last line, the complete
  lines before it still forming a valid chain. A chain that verifies is evidence of tampering: other files
  whose chain verifies too and ends in the same hash hold the same artifacts, as long as the hash function
  has no collision between the two chains.\<close>

theorem interaction_chain_evident:
  assumes "codec env" and "durable_reachable env w"
  shows "case verify_interaction_chain env i (ew_files w) of
      Inl e \<Rightarrow> e = RuntimeError ''incomplete percept journal'' \<and>
        (\<exists>raw entries t. dget (af_percepts (ew_files w)) i = Some raw \<and>
          parse_unlocked env True raw = Inr (entries, t) \<and> t \<noteq> [] \<and>
          chain_errors env 1 None (artifacts_in i entries) = [])
    | Inr v \<Rightarrow> cv_valid v \<and> cv_errors v = [] \<and>
        (\<forall>f v' as bs. interaction_artifacts env i (ew_files w) = Inr as \<and> interaction_artifacts env i f = Inr bs \<and>
           verify_interaction_chain env i f = Inr v' \<and> cv_valid v' \<and> collision_free env as bs \<and>
           cv_last_artifact v \<noteq> None \<and>
           map_option ia_artifact_hash (cv_last_artifact v') = map_option ia_artifact_hash (cv_last_artifact v) \<longrightarrow>
           map sort_artifact bs = map sort_artifact as)"
proof -
  have f: "files_ok env (ed_events (ew_db w)) (ew_files w)"
    using durable_reachable_ok [OF assms(1,2)] by (simp add: durable_ok_def)
  show ?thesis
  proof (cases "interaction_artifacts env i (ew_files w)")
    case (Inl e)
    then show ?thesis using unreadable_chain [OF assms(1) f Inl] by (simp add: verify_interaction_chain_def)
  next
    case as0: (Inr as0)
    note chain = reachable_chain [OF assms(1) f as0]
    obtain v where v: "verify_interaction_chain env i (ew_files w) = Inr v" "cv_valid v" "cv_errors v = []"
      "cv_last_artifact v = (if as0 = [] then None else Some (last as0))"
      using as0 chain by (simp add: verify_interaction_chain_def Let_def)
    have "map sort_artifact bs = map sort_artifact xs"
      if "interaction_artifacts env i (ew_files w) = Inr xs" and b: "interaction_artifacts env i g = Inr bs"
        and v': "verify_interaction_chain env i g = Inr v'" "cv_valid v'" and free: "collision_free env xs bs"
        and "cv_last_artifact v \<noteq> None"
        and "map_option ia_artifact_hash (cv_last_artifact v') = map_option ia_artifact_hash (cv_last_artifact v)"
      for g v' xs bs
    proof -
      have xs: "xs = as0" using that(1) as0 by simp
      have "chain_errors env 1 None bs = []" "xs \<noteq> []" "bs \<noteq> []" "ia_artifact_hash (last xs) = ia_artifact_hash (last bs)"
        using that v(4) xs by (auto simp: verify_interaction_chain_def Let_def split: if_splits)
      then show ?thesis using head_determines_chain [OF free] chain xs by simp
    qed
    then show ?thesis unfolding v(1) sum.case using v(2,3) by blast
  qed
qed

section \<open>Events that a crash makes unrecordable\<close>

lemma percept_effect_streams [simp]: "af_streams (apply_effect (cut k (AppendPercept j bytes)) f) = af_streams f"
  by (cases k) simp_all

lemma filed_record_step:
  assumes "codec env" and "files_ok env evs f" and "decide_event_record env s j now f = Inr (x, eff)"
    and "filed_stream env (af_streams f) r"
  shows "filed_stream env (af_streams (apply_effect (cut k eff) f)) r"
  using assms(1-3)
proof (cases rule: decide_record_cases)
  case create
  then show ?thesis using assms(4) by (cases k) (auto simp: filed_stream_def)
next
  case present
  then show ?thesis using assms(4) by (cases k) simp_all
next
  case append
  then show ?thesis using assms(4) by simp
qed

lemma filed_commit_step:
  assumes "codec env" and "files_ok env evs f" and "decide_row_commit env row f = Inr (c, eff)"
    and "filed_stream env (af_streams f) r"
  shows "filed_stream env (af_streams (apply_effect (cut k eff) f)) r"
  using assms(1-3)
proof (cases rule: decide_commit_cases)
  case (stream raw r' t bytes)
  have "written env (content (af_streams f) (ev_event_id row)) [EventRecord r'] t" using stream(2,3) by (simp add: content_def)
  from filed_stream_append [OF assms(1,4) this stream(4)] show ?thesis using stream(1) by (cases k) auto
next
  case kept
  then show ?thesis using assms(4) by (cases k) simp_all
next
  case percept
  then show ?thesis using assms(4) by simp
qed

lemma filed_artifact_step:
  assumes "codec env" and "files_ok env evs f" and "decide_interaction_artifact env q now f = Inr (a, eff)"
  shows "af_streams (apply_effect (cut k eff) f) = af_streams f"
  using assms by (cases rule: decide_artifact_cases) (cases k, auto)+

text \<open>The record of an event is filed, its row is missing, and its sequence number is taken.\<close>

definition overtaken :: "'b journal_env \<Rightarrow> event_record \<Rightarrow> 'b event_world \<Rightarrow> bool" where
  "overtaken env r w \<longleftrightarrow> filed_stream env (af_streams (ew_files w)) r \<and> find_event (jr_event_id r) (ew_db w) = None \<and>
     (\<exists>n. dget (ed_conversations (ew_db w)) (jr_conversation_id r) = Some n \<and> jr_conversation_seq r < n)"

lemma overtaken_request:
  assumes "codec env" and ok: "durable_ok env w" and o: "overtaken env r w"
    and "rq_event_id q = jr_event_id r" and n: "next_event_seq q (ew_db w) = Inr n"
    and j: "case rq_journal_id q of None \<Rightarrow> True | Some j \<Rightarrow>
      j \<in> {rq_correlation_id q, interaction_scope env (rq_conversation_id q) (rq_correlation_id q)}"
  shows "begin_event env q now w = (Inl (ValueError ''conflicting event artifact retry''), w)"
proof -
  obtain raw es t where raw: "dget (af_streams (ew_files w)) (jr_event_id r) = Some raw" "written env raw (EventRecord r # es) t"
    using o by (auto simp: overtaken_def filed_stream_def)
  obtain m where m: "dget (ed_conversations (ew_db w)) (jr_conversation_id r) = Some m" "jr_conversation_seq r < m"
    using o by (auto simp: overtaken_def)
  have f: "files_ok env (ed_events (ew_db w)) (ew_files w)" using ok by (simp add: durable_ok_def)
  then have legacy: "af_legacy (ew_files w) = []" by (simp add: files_ok_def)
  obtain r0 c t' where p: "parse_stream env True raw = Inr (sort_record r0, c, t')"
    by (rule parse_stream_ok [OF assms(1) f raw(1)]) (rule that)
  let ?s = "request_record q n"
  have "\<not> same_semantic (sort_record r0) x"
    if x: "jr_conversation_id x = rq_conversation_id q" "jr_conversation_seq x = n" for x
  proof
    assume "same_semantic (sort_record r0) x"
    moreover have "sort_record r0 = sort_record r" using parse_stream_first [OF assms(1) raw(2) p] by simp
    ultimately have "same_semantic r x" by (metis same_semantic_sorted(1))
    then have "jr_conversation_id r = rq_conversation_id q" "jr_conversation_seq r = n"
      using same_semantic_fields x by metis+
    then show False using m n by (simp add: next_event_seq_def)
  qed
  then have "decide_event_record env ?s (rq_journal_id q) now (ew_files w) =
      Inl (ValueError ''conflicting event artifact retry'')"
    using legacy raw(1) p assms(4) j
    by (cases "rq_journal_id q")
      (simp_all add: decide_event_record_def Let_def content_def request_record_def semantic_record_def, auto simp: raise_if_def)
  then show ?thesis
    using n by (simp add: begin_event_def sbind_def slift_def on_files_def write_event_record_def perform_def)
qed

lemma begin_event_journal:
  assumes "begin_event env q now w = (Inr n, w1)"
  shows "case rq_journal_id q of None \<Rightarrow> True | Some j \<Rightarrow>
      j \<in> {rq_correlation_id q, interaction_scope env (rq_conversation_id q) (rq_correlation_id q)}"
  using assms
  by (auto simp: begin_event_def sbind_def slift_def on_files_def write_event_record_def perform_def
      decide_event_record_def request_record_def semantic_record_def Let_def split: sum.splits prod.splits if_splits option.splits)

lemma overtaken_step:
  assumes "codec env" and ok: "durable_ok env w" and s: "durable_step env w w'" and o: "overtaken env r w"
  shows "overtaken env r w'"
proof -
  have f: "files_ok env (ed_events (ew_db w)) (ew_files w)" using ok by (simp add: durable_ok_def)
  have filed: "filed_stream env (af_streams (ew_files w)) r" using o by (simp add: overtaken_def)
  from s show ?thesis
  proof cases
    case (conversation c)
    then show ?thesis using o by (auto simp: overtaken_def find_event_def)
  next
    case (journal q n now x eff k)
    then show ?thesis using o filed_record_step [OF assms(1) f journal(4) filed] by (simp add: overtaken_def)
  next
    case (publish q now n w1 g created d)
    obtain x eff where n: "next_event_seq q (ew_db w) = Inr n"
      and e: "decide_event_record env (request_record q n) (rq_journal_id q) now (ew_files w) = Inr (x, eff)"
      and w1: "w1 = w\<lparr>ew_files := apply_effect eff (ew_files w)\<rparr>"
      by (rule begin_event_effect [OF publish(3)]) (rule that)
    have ne: "rq_event_id q \<noteq> jr_event_id r"
      using overtaken_request [OF assms(1) ok o _ n begin_event_journal [OF publish(3)], of now] publish(3) by auto
    have d: "ed_events d = ed_events (ew_db w) @ [request_row q n g created]"
      using insert_event_events [OF publish(5)] w1 by simp
    have find: "find_event (jr_event_id r) d = None"
      using o ne by (auto simp: overtaken_def find_event_None d request_row_def)
    obtain m where m: "dget (ed_conversations (ew_db w)) (jr_conversation_id r) = Some m" "jr_conversation_seq r < m"
      using o by (auto simp: overtaken_def)
    have "\<exists>m'. dget (ed_conversations d) (jr_conversation_id r) = Some m' \<and> m \<le> m'"
      using publish(5) m(1) w1 by (auto simp: insert_event_def split: if_splits option.splits)
    then show ?thesis
      using find m(2) filed_record_step [OF assms(1) f e filed, of None] w1 publish(1) by (auto simp: overtaken_def)
  next
    case (repair row now x eff k)
    then show ?thesis using o filed_record_step [OF assms(1) f repair(3) filed] by (simp add: overtaken_def)
  next
    case (receipt row c eff k)
    then show ?thesis using o filed_commit_step [OF assms(1) f receipt(3) filed] by (simp add: overtaken_def)
  next
    case (artifact aq now a eff k)
    then show ?thesis using o filed_artifact_step [OF assms(1) f artifact(2)] by (simp add: overtaken_def)
  next
    case rebuild
    then show ?thesis using o by (simp add: overtaken_def find_event_def)
  qed
qed

lemma overtaken_run:
  assumes "codec env" and "(durable_step env)\<^sup>*\<^sup>* w w'" and "durable_ok env w" and "overtaken env r w"
  shows "durable_ok env w' \<and> overtaken env r w'"
  using assms(2)
proof (induction rule: rtranclp_induct)
  case (step w1 w2)
  then show ?case using durable_step_ok [OF assms(1)] overtaken_step [OF assms(1)] by blast
qed (use assms(3,4) in simp)

text \<open>Why a request for the event fails.\<close>

definition journal_legal :: "'b journal_env \<Rightarrow> event_request \<Rightarrow> bool" where
  "journal_legal env q \<longleftrightarrow> (case rq_journal_id q of None \<Rightarrow> True | Some j \<Rightarrow>
     j \<in> {rq_correlation_id q, interaction_scope env (rq_conversation_id q) (rq_correlation_id q)})"

definition retry_error :: "'b journal_env \<Rightarrow> event_request \<Rightarrow> event_db \<Rightarrow> py_error" where
  "retry_error env q d =
     (if dget (ed_conversations d) (rq_conversation_id q) = None then ValueError ''Unknown conversation_id''
      else if \<not> journal_legal env q then ValueError ''percept journal identity must match its correlation''
      else ValueError ''conflicting event artifact retry'')"

lemma overtaken_retry:
  assumes "codec env" and "durable_ok env w" and o: "overtaken env r w" and "rq_event_id q = jr_event_id r"
  shows "record_event env q now g created w = (Inl (retry_error env q (ew_db w)), w)"
proof -
  have find: "find_event (rq_event_id q) (ew_db w) = None" using o assms(4) by (simp add: overtaken_def)
  have "begin_event env q now w = (Inl (retry_error env q (ew_db w)), w)"
  proof (cases "dget (ed_conversations (ew_db w)) (rq_conversation_id q)")
    case None
    then show ?thesis by (simp add: begin_event_def next_event_seq_def sbind_def slift_def retry_error_def)
  next
    case (Some n)
    then have n: "next_event_seq q (ew_db w) = Inr n" by (simp add: next_event_seq_def)
    show ?thesis
    proof (cases "journal_legal env q")
      case True
      then show ?thesis using overtaken_request [OF assms(1-4) n] Some by (simp add: journal_legal_def retry_error_def)
    next
      case False
      then have "decide_event_record env (request_record q n) (rq_journal_id q) now (ew_files w) =
          Inl (ValueError ''percept journal identity must match its correlation'')"
        by (auto simp: journal_legal_def decide_event_record_def request_record_def semantic_record_def Let_def
            split: option.splits)
      then show ?thesis using False Some n
        by (simp add: begin_event_def sbind_def slift_def on_files_def write_event_record_def perform_def retry_error_def)
    qed
  qed
  then show ?thesis using find by (simp add: record_event_def sbind_def)
qed

text \<open>C16. The retry that the durability protocol relies on can be shut out. When a process stops after the
  record of an event has been written to the event's own stream and before the row is committed, and
  another event of the conversation is recorded first, the sequence number in the record is taken. From
  then on, through any steps of the running system, the event is never committed, and every request for the
  event, whatever its other arguments and its journal id, raises and changes nothing: with the error of a
  conflicting artifact, unless it names an unknown conversation or a journal that does not match its
  correlation. (The offline restore of the database from the files is not a step of the running system.)\<close>

theorem overtaken_event_lost:
  assumes "codec env" and "durable_reachable env w" and "dget (af_streams (ew_files w)) i = Some raw"
    and "parse_stream env True raw = Inr (r, c, t)" and "find_event i (ew_db w) = None"
    and "dget (ed_conversations (ew_db w)) (jr_conversation_id r) = Some n" and "jr_conversation_seq r < n"
    and "(durable_step env)\<^sup>*\<^sup>* w w'"
  shows "find_event i (ew_db w') = None \<and>
    (\<forall>q now g created. rq_event_id q = i \<longrightarrow>
       record_event env q now g created w' = (Inl (retry_error env q (ew_db w')), w'))"
proof -
  have ok: "durable_ok env w" by (rule durable_reachable_ok [OF assms(1,2)])
  obtain r0 es t0 where r0: "jr_event_id r0 = i" "written env raw (EventRecord r0 # es) t0"
    by (rule stream_written [OF _ assms(3)]) (use ok that in \<open>auto simp: durable_ok_def\<close>)
  have r: "r = sort_record r0" using parse_stream_first [OF assms(1) r0(2) assms(4)] by simp
  have "overtaken env r0 w" using assms(3,5-7) r0 r by (auto simp: overtaken_def filed_stream_def)
  then have o: "durable_ok env w'" "overtaken env r0 w'" using overtaken_run [OF assms(1,8) ok] by simp_all
  have "find_event i (ew_db w') = None" using o(2) r0(1) by (simp add: overtaken_def)
  then show ?thesis using overtaken_retry [OF assms(1) o] r0(1) by simp
qed

end
