(* ===== verification/EventSamples.thy ===== *)
theory EventSamples
  imports EventGuarantees
begin

text \<open>
  Concrete runs of the event log: a file is a list of entries with separators, the hash of an entry is
  written from its sequence number, and the guarantees are applied to the worlds the runs reach.
\<close>

fun demo_digest :: "hashed \<Rightarrow> string" where
  "demo_digest (HashedEntry (EventRecord r)) = ''record '' @ int_str (jr_conversation_seq r)"
| "demo_digest (HashedEntry (EventCommit c)) = ''commit '' @ int_str (jc_global_seq c)"
| "demo_digest (HashedEntry (InteractionEntry a)) = ''artifact '' @ int_str (ia_journal_sequence a)"
| "demo_digest (HashedPayload p) = ''payload''"

definition demo_parse :: "journal_entry option list \<Rightarrow> journal_entry option" where
  "demo_parse l = (case l of [Some e] \<Rightarrow> Some (sort_entry e) | _ \<Rightarrow> None)"

definition demo_log :: "journal_entry option journal_env" where
  "demo_log = \<lparr>je_uuid5 = (\<lambda>u s. u + of_nat (length s)), je_digest = demo_digest, je_line = (\<lambda>e. [Some e]),
     je_parse = demo_parse, je_newline = None\<rparr>"

lemma demo_codec: "codec demo_log"
proof -
  have "demo_digest (HashedEntry (sort_entry e)) = demo_digest (HashedEntry e)" for e
    by (cases e) (simp_all add: sort_record_def sort_artifact_def)
  then show ?thesis by (simp add: codec_def demo_log_def demo_parse_def)
qed

definition demo_event :: "uuid \<Rightarrow> event_request" where
  "demo_event i = \<lparr>rq_conversation_id = 1, rq_correlation_id = 5, rq_event_type = SYSTEM_EVENT, rq_source = ''runtime'',
     rq_payload = [(''note'', JStr ''started'')], rq_payload_text = None, rq_event_id = i, rq_journal_id = None\<rparr>"

text \<open>The record of event 11 is written, the process stops, event 12 is recorded.\<close>

definition demo_started :: "journal_entry option event_world" where
  "demo_started = empty_world\<lparr>ew_db := start_conversation 1 empty_event_db\<rparr>"

definition demo_stopped :: "journal_entry option event_world" where
  "demo_stopped = snd (begin_event demo_log (demo_event 11) (Aware 1 0) demo_started)"

definition demo_recorded :: "event_row res \<times> journal_entry option event_world" where
  "demo_recorded = record_event demo_log (demo_event 12) (Aware 2 0) 7 (Aware 3 0) demo_stopped"

definition demo_row :: event_row where
  "demo_row = request_row (demo_event 12) 1 7 (Aware 3 0)"

lemma begin_event_step:
  assumes "find_event (rq_event_id q) (ew_db w) = None" and "begin_event env q now w = (Inr n, w1)"
  shows "durable_step env w w1"
proof -
  obtain r eff where e: "next_event_seq q (ew_db w) = Inr n"
      "decide_event_record env (request_record q n) (rq_journal_id q) now (ew_files w) = Inr (r, eff)"
      "w1 = w\<lparr>ew_files := apply_effect eff (ew_files w)\<rparr>"
    by (rule begin_event_effect [OF assms(2)]) (rule that)
  then show ?thesis using durable_step.journal [OF assms(1) e(1,2), of None] by simp
qed

lemma demo_started_reachable: "durable_reachable env demo_started"
proof -
  have "durable_step env empty_world demo_started"
    using durable_step.conversation [of env empty_world 1] by (simp add: demo_started_def empty_world_def)
  then show ?thesis by (simp add: durable_reachable_def)
qed

lemma demo_stopped_reachable: "durable_reachable demo_log demo_stopped"
proof -
  have "find_event (rq_event_id (demo_event 11)) (ew_db demo_started) = None" by code_simp
  moreover have "fst (begin_event demo_log (demo_event 11) (Aware 1 0) demo_started) = Inr 1" by code_simp
  then have "begin_event demo_log (demo_event 11) (Aware 1 0) demo_started = (Inr 1, demo_stopped)"
    by (simp add: demo_stopped_def prod_eq_iff)
  ultimately have "durable_step demo_log demo_started demo_stopped" by (rule begin_event_step)
  then show ?thesis using reachable_run [OF demo_started_reachable] by blast
qed

lemma demo_recorded_result: "record_event demo_log (demo_event 12) (Aware 2 0) 7 (Aware 3 0) demo_stopped = (Inr demo_row, snd demo_recorded)"
proof -
  have "fst demo_recorded = Inr demo_row" by code_simp
  then show ?thesis by (simp add: demo_recorded_def prod_eq_iff)
qed

lemma demo_fresh: "fresh_sequence 7 (ew_db demo_stopped)"
  by code_simp

lemma demo_recorded_reachable: "durable_reachable demo_log (snd demo_recorded)"
  by (rule reachable_run [OF demo_stopped_reachable record_event_run [OF demo_recorded_result demo_fresh]])

lemma demo_row_recorded: "demo_row \<in> set (ed_events (ew_db (snd demo_recorded)))"
  by code_simp

lemma committed_event_on_file_witness:
  "(\<exists>r. record_on_file demo_log (ew_files (snd demo_recorded)) r \<and> verify_event_record demo_log r \<and>
      same_semantic r (row_record demo_row)) \<and>
    (\<exists>n. dget (ed_conversations (ew_db (snd demo_recorded))) (ev_conversation_id demo_row) = Some n \<and>
      map ev_conversation_seq (filter (\<lambda>r. ev_conversation_id r = ev_conversation_id demo_row) (ed_events (ew_db (snd demo_recorded)))) =
        [1..n - 1])"
  by (rule committed_event_on_file [OF demo_codec demo_recorded_reachable demo_row_recorded])

lemma recorded_event_durable_witness:
  "durable_reachable demo_log (snd demo_recorded) \<and> demo_row \<in> set (ed_events (ew_db (snd demo_recorded))) \<and>
    ev_event_id demo_row = rq_event_id (demo_event 12) \<and>
    (\<exists>r. record_on_file demo_log (ew_files (snd demo_recorded)) r \<and> verify_event_record demo_log r \<and>
      same_semantic r (row_record demo_row)) \<and>
    (\<exists>h. receipt_on_file demo_log (ew_files (snd demo_recorded)) (ev_event_id demo_row) (row_commit demo_log demo_row h))"
  by (rule recorded_event_durable [OF demo_codec demo_stopped_reachable demo_fresh demo_recorded_result])

text \<open>A retry that names the journal of its correlation is refused like the plain one.\<close>

definition demo_retry :: event_request where
  "demo_retry = (demo_event 11)\<lparr>rq_journal_id := Some 5\<rparr>"

lemma overtaken_event_lost_witness:
  "find_event 11 (ew_db (snd demo_recorded)) = None \<and>
    record_event demo_log demo_retry (Aware 9 0) 8 (Aware 9 0) (snd demo_recorded) =
      (Inl (ValueError ''conflicting event artifact retry''), snd demo_recorded)"
proof -
  let ?raw = "content (af_streams (ew_files (snd demo_recorded))) 11"
  let ?r = "case parse_stream demo_log True ?raw of Inr (r, c, t) \<Rightarrow> r"
  have "dget (af_streams (ew_files (snd demo_recorded))) 11 = Some ?raw" by code_simp
  moreover have "parse_stream demo_log True ?raw = Inr (?r, None, [])" by code_simp
  moreover have "find_event 11 (ew_db (snd demo_recorded)) = None" by code_simp
  moreover have "dget (ed_conversations (ew_db (snd demo_recorded))) (jr_conversation_id ?r) = Some 2" by code_simp
  moreover have "jr_conversation_seq ?r < 2" by code_simp
  ultimately have lost: "find_event 11 (ew_db (snd demo_recorded)) = None \<and>
      (\<forall>q now g created. rq_event_id q = 11 \<longrightarrow> record_event demo_log q now g created (snd demo_recorded) =
           (Inl (retry_error demo_log q (ew_db (snd demo_recorded))), snd demo_recorded))"
    by (rule overtaken_event_lost [OF demo_codec demo_recorded_reachable]) simp
  have "rq_event_id demo_retry = 11" by (simp add: demo_retry_def demo_event_def)
  moreover have "retry_error demo_log demo_retry (ew_db (snd demo_recorded)) =
      ValueError ''conflicting event artifact retry''" by code_simp
  ultimately show ?thesis using lost by metis
qed

text \<open>Two revisions of a record become visible in the opposite order of their sequence numbers.\<close>

definition demo_first_revision :: "journal_entry option event_world" where
  "demo_first_revision =
     snd (put_record demo_log ''focus'' ''main'' [(''goal'', JInt 2)] ''second'' 1 5 (Aware 1 0) 9 (Aware 1 0) empty_world)"

definition demo_revisions :: "journal_entry option event_world" where
  "demo_revisions =
     snd (put_record demo_log ''focus'' ''main'' [(''goal'', JInt 1)] ''first'' 1 5 (Aware 2 0) 4 (Aware 2 0) demo_first_revision)"

lemma demo_revisions_reachable: "durable_reachable demo_log demo_revisions"
proof -
  have "fresh_sequence 9 (ew_db (empty_world :: journal_entry option event_world))" by code_simp
  then have "(durable_step demo_log)\<^sup>*\<^sup>* empty_world demo_first_revision"
    unfolding demo_first_revision_def
    using put_record_run [OF prod.collapse [symmetric]] by blast
  moreover have "fresh_sequence 4 (ew_db demo_first_revision)" by code_simp
  then have "(durable_step demo_log)\<^sup>*\<^sup>* demo_first_revision demo_revisions"
    unfolding demo_revisions_def
    using put_record_run [OF prod.collapse [symmetric]] by blast
  ultimately show ?thesis unfolding durable_reachable_def by simp
qed

lemma current_record_newest_witness:
  "record_history ''focus'' ''main'' (ew_db demo_revisions) = Inr [[(''goal'', JInt 1)], [(''goal'', JInt 2)]] \<and>
    get_record ''focus'' ''main'' (ew_db demo_revisions) = Inr (Some [(''goal'', JInt 2)]) \<and>
    get_record ''focus'' ''main'' (rebuild_heads (ew_db demo_revisions)) = Inr (Some [(''goal'', JInt 2)])"
proof -
  have h: "record_history ''focus'' ''main'' (ew_db demo_revisions) = Inr [[(''goal'', JInt 1)], [(''goal'', JInt 2)]]"
    by code_simp
  note newest = current_record_newest [OF demo_codec demo_revisions_reachable, of "''focus''" "''main''"]
  have "get_record ''focus'' ''main'' (ew_db demo_revisions) = Inr (Some [(''goal'', JInt 2)])"
    using newest [THEN conjunct2, THEN conjunct1] h by simp
  then show ?thesis using newest [THEN conjunct2, THEN conjunct2] h by simp
qed

text \<open>A percept and the result of a stage.\<close>

definition demo_percept :: "journal_entry option event_world" where
  "demo_percept =
     snd (on_files (write_percept_artifact demo_log 3 1 5 21 ''hello'' 12 None None (Aware 1 0)) empty_world)"

definition demo_chain :: "journal_entry option event_world" where
  "demo_chain =
     snd (on_files (write_stage_result_artifact demo_log 3 1 5 21 31 ''UNDERSTAND'' [(''intent'', JStr ''greet'')] [] (Aware 2 0))
       demo_percept)"

lemma demo_chain_reachable: "durable_reachable demo_log demo_chain"
proof -
  have "(durable_step demo_log)\<^sup>*\<^sup>* empty_world demo_percept"
    unfolding demo_percept_def write_percept_artifact_def using write_artifact_run [OF prod.collapse [symmetric]] by blast
  moreover have "(durable_step demo_log)\<^sup>*\<^sup>* demo_percept demo_chain"
    unfolding demo_chain_def write_stage_result_artifact_def using write_artifact_run [OF prod.collapse [symmetric]] by blast
  ultimately show ?thesis unfolding durable_reachable_def by simp
qed

definition demo_verified :: chain_verification where
  "demo_verified = (case verify_interaction_chain demo_log 3 (ew_files demo_chain) of Inr v \<Rightarrow> v)"

text \<open>Files that hold the same chain beside another journal.\<close>

definition demo_copy :: "journal_entry option artifact_files" where
  "demo_copy = (ew_files demo_chain)\<lparr>af_percepts := dset 4 [] (af_percepts (ew_files demo_chain))\<rparr>"

definition demo_artifacts :: "interaction_artifact list" where
  "demo_artifacts = (case interaction_artifacts demo_log 3 (ew_files demo_chain) of Inr xs \<Rightarrow> xs)"

definition demo_copied :: "interaction_artifact list" where
  "demo_copied = (case interaction_artifacts demo_log 3 demo_copy of Inr xs \<Rightarrow> xs)"

lemma interaction_chain_evident_witness:
  "cv_artifact_count demo_verified = 2 \<and> cv_valid demo_verified \<and> cv_errors demo_verified = [] \<and>
    map sort_artifact demo_copied = map sort_artifact demo_artifacts"
proof -
  have count: "cv_artifact_count demo_verified = 2" by code_simp
  have v: "verify_interaction_chain demo_log 3 (ew_files demo_chain) = Inr demo_verified" by code_simp
  have "interaction_artifacts demo_log 3 (ew_files demo_chain) = Inr demo_artifacts" by code_simp
  moreover have "interaction_artifacts demo_log 3 demo_copy = Inr demo_copied" by code_simp
  moreover have copy: "verify_interaction_chain demo_log 3 demo_copy = Inr demo_verified" by code_simp
  moreover have "cv_valid demo_verified" by code_simp
  moreover have "collision_free demo_log demo_artifacts demo_copied" by code_simp
  moreover have "cv_last_artifact demo_verified \<noteq> None" by code_simp
  ultimately show ?thesis using count interaction_chain_evident [OF demo_codec demo_chain_reachable, of 3, unfolded v sum.case] by blast
qed

text \<open>Files with shifted sequence numbers do not verify.\<close>

definition demo_forged :: "journal_entry option artifact_files" where
  "demo_forged = (ew_files demo_chain)\<lparr>af_percepts := map (map_prod id (map (map_option (\<lambda>e. case e of
     InteractionEntry a \<Rightarrow> InteractionEntry (a\<lparr>ia_journal_sequence := ia_journal_sequence a + 1\<rparr>) | _ \<Rightarrow> e)))) (af_percepts (ew_files demo_chain))\<rparr>"

lemma demo_forged_found:
  "(case verify_interaction_chain demo_log 3 demo_forged of Inr v \<Rightarrow> \<not> cv_valid v | Inl e \<Rightarrow> False)"
  by code_simp

end
