(* ===== verification/Spec2Isabelle.thy ===== *)
theory Spec2Isabelle
  imports Stalls Ordering FabricRun Capabilities EventSamples
begin

text \<open>
  A model of the core of Prometheist (\<^verbatim>\<open>src/src/prometheist\<close>): the JIT Attention fabric, the deterministic,
  dependency-aware and resource-safe scheduler that decides which cognitive task owns focus, which
  tasks may run concurrently on which execution resources, and how contention is resolved; the stores
  that make it durable and share it between workers; the registry that plans which capabilities run;
  and the event log with the files that survive the database.

  \<^bold>\<open>The parts and their theories.\<close>

  \<^item> \<open>Prelude\<close>: exceptions as values (\<open>py_error\<close>, \<open>res\<close>, \<open>rbind\<close>, \<open>raise_if\<close>, \<open>rfold\<close>, \<open>rmap\<close>), methods as
    functions from a state to a result or exception and the state left behind (\<open>op\<close>, \<open>sbind\<close>, \<open>slift\<close>,
    \<open>sfold\<close>), dictionaries as insertion-ordered association lists (\<open>dget\<close>, \<open>dset\<close>, \<open>dkeys\<close>, \<open>dvalues\<close>),
    the locales \<open>result_loop\<close> (a fallible loop with an invariant), \<open>dictionary\<close> (what a lookup returns
    after an update) and \<open>canonical_order\<close> (a listing sorted by an injective key).
  \<^item> \<open>Resources\<close> (\<^verbatim>\<open>attention_resources.py\<close>): pools, requirements, estimates, reservations.
  \<^item> \<open>Preemption\<close> (\<^verbatim>\<open>attention_preemption.py\<close>): intents, events and the victim-selection dynamic
    program, which is proved equal to its specification, the least covering set.
  \<^item> \<open>Observation\<close> (\<^verbatim>\<open>attention_observation.py\<close>): safety policy, host samples, observations and the
    capacity envelope derived from them, pool discovery.
  \<^item> \<open>Assignments\<close> (\<^verbatim>\<open>attention_assignments.py\<close>): assignments, epochs, plans and their validators.
  \<^item> \<open>Ordering\<close> (\<^verbatim>\<open>attention_ordering.py\<close>): the stable topological order of a work set.
  \<^item> \<open>Tasks\<close>, \<open>Scheduler\<close>, \<open>Allocation\<close>, \<open>Focus\<close>, \<open>Validation\<close>, \<open>Planning\<close>, \<open>PlanSafety\<close>
    (\<^verbatim>\<open>attention.py\<close>): task data and contracts; the state of \<^verbatim>\<open>JITAttentionScheduler\<close> as the record
    \<open>scheduler\<close>; the allocation of a contract as an account (locale \<open>accounts\<close>); the single-focus life
    cycle; the snapshot validator and the round trip; epoch planning with its nested functions over the
    record \<open>planning\<close> of its local variables; commit and checkpoints.
  \<^item> \<open>Admission\<close> (\<^verbatim>\<open>attention_observation.py\<close>): \<^verbatim>\<open>LocalResourceAdmissionController\<close>, which probes the
    host and attaches an observation before each plan.
  \<^item> \<open>Lifecycle\<close>: the scheduler as a state machine: \<open>call\<close> has one constructor per public method that changes
    it, \<open>run_calls\<close> runs a sequence of calls from \<^verbatim>\<open>__init__\<close> on, going on after a call that raises, and
    \<open>contracts\<close> is what callers must keep to: submitted tasks come from the task constructor, and
    \<^verbatim>\<open>complete_task\<close> is not used on a task that owns focus or waits for focus after a preemption.
  \<^item> \<open>Contention\<close>: victims suffice, commits publish exactly the plan, plans hold runnable work.
  \<^item> \<open>Stalls\<close>: two situations in which legal calls leave a scheduler that can no longer plan; the first one,
    a call of \<^verbatim>\<open>complete_task\<close> outside that contract, for good, whatever is called later.
  \<^item> \<open>WorkerProtocol\<close> (\<^verbatim>\<open>worker_protocol.py\<close>): worker steps, claims, checkpoints, results, the observation a
    claim consumed, their validators and deterministic ids.
  \<^item> \<open>Database\<close> (\<^verbatim>\<open>schema.sql\<close>): the tables as lists of rows in the record \<open>database\<close>, and \<open>transaction\<close>, which
    keeps what a body wrote or, when it raises, the tables as they were.
  \<^item> \<open>WorkerStore\<close> (\<^verbatim>\<open>worker_store.py\<close>): registering, claiming, extending, checkpointing, completing and
    releasing a step, each as a transaction (\<open>..._body\<close> is what happens between the locks and the commit).
  \<^item> \<open>Leases\<close>: the abstract lease protocol \<open>ledger_step\<close> on the claims, checkpoints and results of one step,
    and the simulation: every body moves every ledger along it.
  \<^item> \<open>AttentionStore\<close> (\<^verbatim>\<open>attention_store.py\<close>, \<^verbatim>\<open>chat_startup.py\<close>): saving and loading a scheduler, the guard
    against stale writers, the replacement of the reservation set, clearing a namespace with the deletions
    that cascade from it.
  \<^item> \<open>Fabric\<close>: both stores as one system of transactions (\<open>fabric_step\<close>, \<open>fabric_reachable\<close>) with its
    invariant; \<open>Custody\<close> and \<open>PoolSafety\<close>: what it gives the workers and the pools (\<open>namespace_step\<close>: a
    transaction, or the reset of another namespace than the one observed); \<open>FabricRun\<close>: a sample run.
  \<^item> \<open>Capabilities\<close> (\<^verbatim>\<open>capability_registry.py\<close>): the registry, discovery by routing terms, and planning: the
    closure of the selection under dependencies, handed to the order of \<open>Ordering\<close>.
  \<^item> \<open>Journal\<close> (\<^verbatim>\<open>event_artifact_store.py\<close>, \<^verbatim>\<open>percept_journal.py\<close>): the files of records, receipts and artifacts.
    A writer decides (\<open>decide_...\<close>) and then performs one \<open>file_effect\<close>, which a crash may cut (\<open>torn_effect\<close>).
  \<^item> \<open>Interactions\<close> (\<^verbatim>\<open>artifact_journal.py\<close>): the chain of hashed artifacts of an interaction.
  \<^item> \<open>EventStore\<close> (\<^verbatim>\<open>event_store.py\<close>, \<^verbatim>\<open>cognitive_store.py\<close>, the trigger of \<^verbatim>\<open>schema.sql\<close>): conversations, events,
    cognitive records and their heads, over the database and the files (\<open>event_world\<close>).
  \<^item> \<open>EventLog\<close>: the event log as a system of processes that may stop anywhere (\<open>durable_step\<close>,
    \<open>durable_reachable\<close>) and what each writer keeps of the files; \<open>EventSafety\<close>: its invariant \<open>durable_ok\<close>;
    \<open>EventGuarantees\<close>: what follows for the operations; \<open>EventSamples\<close>: sample runs.

  \<^bold>\<open>What the theorems show.\<close> Capacity safety: a plan never promises more of a pool than the safe
  (or observed) capacity, an accepted snapshot has reservations within capacity and contracts fulfilled
  exactly. Preemption safety: atomic work survives every plan, the victim set is minimal and always
  suffices. Fail-closed observation: a failed or unhealthy probe admits nothing new. Focus: exclusive,
  work-conserving, taken only by strictly better work; the ranking is independent of insertion order
  and honours the waiting guarantees. Life cycle, under \<open>contracts\<close>: the transition log of a task
  replays to its status, finished tasks stay finished. Durability: a snapshot restores to a scheduler with the same snapshot.
  Ordering: sound, complete and input independent. Leases: at most one open claim per step and
  assignment, at-most-once effects, one final result, gap-free checkpoints, whatever the clocks of the
  callers say, whichever calls raise and whichever other namespaces are reset; the reset of a namespace
  itself deletes its steps, claims and results and starts it anew, and touches no other. Pools: the live claims of all schedulers fit each pool at every
  grant, a save keeps all schedulers within the pools it uses and never touches what an open claim holds.
  Capabilities: a plan exists exactly for valid selections with acyclic, registered needs, and holds
  exactly what is needed, in order. Event log: after any crashes each committed event has its verified
  record among the complete lines of its file and conversations have no gaps, a returned event has its
  receipt, chains of artifacts verify whenever their journal can be read and cannot be rewritten under the
  same head hash, current records are the newest; and a record in a file of its own that a later event has
  overtaken is never recorded again.

  \<^bold>\<open>Modelling decisions.\<close> Identifiers are \<open>128 word\<close>. The functions that compute UUID version 5 values, the
  canonical JSON text of an intent and of an observation, the host probe and the clock are not code of
  this repository: they are the arguments \<open>uuid5\<close>, \<open>intent_json\<close>, \<open>dump\<close> and the sample or error text of
  the controller. Python integers are \<open>int\<close>; deadlines are UTC instants; load averages are rationals and
  percentages are computed exactly. The texts of exceptions are the source's, without the identifiers the
  source interpolates into some of them. Transactions are serialised: the code takes the row locks of the
  scheduler state, the pools and the claim before it reads them, so a run is a sequence of transactions.
  A violated constraint of the schema raises \<open>IntegrityError\<close>. The clock of the database server is an argument
  of a save, and each reading of the worker's clock an argument of its call. Every loop of the modelled code is bounded by its input; no fuel
  is used: \<open>dependency_loop\<close> and \<open>closure_loop\<close> are total functions with a termination measure. Bytes of files
  have a type that is left open; the JSON text of an entry, its parser and the hash are fields of
  \<open>journal_env\<close>, and \<open>codec\<close> states what the library documents of them: one line per entry, reading back
  what was written with sorted keys, hashes that do not depend on the order of keys. Text in queries
  compares by code points. JSON values carry no floating-point numbers; the operator \<^verbatim>\<open>->>\<close> and \<^verbatim>\<open>dict()\<close> are
  narrowed as the text of \<open>EventStore\<close> says. An append may stop after any byte; creating a file by renaming happens or not.

  \<^bold>\<open>Not modelled.\<close> The reading of host metrics (\<^verbatim>\<open>SystemResourceProbe\<close>: \<^verbatim>\<open>/proc\<close>, \<^verbatim>\<open>sysctl\<close>, Windows API),
  the launching of worker processes, file locks, the interaction directories of the format before the
  percept journals, the recovery of the database from files (the theorems on the event log hold up to the
  first such recovery), the perception, memory and language-model
  modules, the command line and the local application.
\<close>

end
